(* ===== verification/Prelude.thy ===== *)
theory Prelude
  imports Main "HOL-Library.Word" "HOL-Library.AList" "HOL-Library.Multiset"
begin

section \<open>Shared types, Go integers, Go maps and Go channels\<close>

text \<open>
  What the component theories share: the integer conversions of Go at their widths, Go maps as
  association lists (the order of the list is the order in which a \<open>range\<close> loop visits
  the map, which Go leaves open, so no theorem may depend on it), buffered Go channels with
  their non-blocking \<open>select\<close>/\<open>default\<close> send, and the contract of a bounded FIFO queue
  as a locale, interpreted on those channels.
\<close>

named_theorems conv_simps "conversions between Go integer widths"
named_theorems chan_simps "buffered channels"

subsection \<open>Integers\<close>

text \<open>
  Identifiers and times are \<open>int64\<close> in the code. They are \<open>int\<close> here, and every place
  where the width matters goes through one of these conversions.
\<close>

definition uint64_of :: "int \<Rightarrow> int" where
  "uint64_of x = x mod 2 ^ 64"

definition wrap_int :: "nat \<Rightarrow> int \<Rightarrow> int" where
  "wrap_int w x = (x + 2 ^ (w - 1)) mod 2 ^ w - 2 ^ (w - 1)"

abbreviation int8_of :: "int \<Rightarrow> int" where
  "int8_of \<equiv> wrap_int 8"

abbreviation int32_of :: "int \<Rightarrow> int" where
  "int32_of \<equiv> wrap_int 32"

abbreviation int64_of :: "int \<Rightarrow> int" where
  "int64_of \<equiv> wrap_int 64"

definition in_width :: "nat \<Rightarrow> int \<Rightarrow> bool" where
  "in_width w x \<longleftrightarrow> - (2 ^ (w - 1)) \<le> x \<and> x < 2 ^ (w - 1)"

abbreviation is_int64 :: "int \<Rightarrow> bool" where
  "is_int64 \<equiv> in_width 64"

lemma uint64_of_range: "0 \<le> uint64_of x \<and> uint64_of x < 2 ^ 64"
  by (simp add: uint64_of_def)

lemma uint64_of_nonneg [simp]: "0 \<le> uint64_of x"
  by (simp add: uint64_of_def)

lemma wrap_int_id [conv_simps]:
  assumes "0 < w" "in_width w x"
  shows "wrap_int w x = x"
proof -
  have two: "(2::int) ^ w = 2 * 2 ^ (w - 1)"
    using assms(1) by (cases w) simp_all
  have "(x + 2 ^ (w - 1)) mod 2 ^ w = x + 2 ^ (w - 1)"
    using assms(2) unfolding in_width_def two by (intro mod_pos_pos_trivial) auto
  then show ?thesis by (simp add: wrap_int_def)
qed

lemma wrap_int_in_width:
  assumes "0 < w"
  shows "in_width w (wrap_int w x)"
proof -
  have two: "(2::int) ^ w = 2 * 2 ^ (w - 1)"
    using assms by (cases w) simp_all
  have "0 \<le> (x + 2 ^ (w - 1)) mod 2 ^ w" and "(x + 2 ^ (w - 1)) mod 2 ^ w < 2 ^ w"
    by simp_all
  then show ?thesis by (simp add: wrap_int_def in_width_def two)
qed

text \<open>Times are nanoseconds since 1970; \<open>UnixMilli\<close> rounds down, \<open>time.UnixMilli\<close> makes a time of it.\<close>

definition unix_milli :: "int \<Rightarrow> int" where
  "unix_milli t = t div 1000000"

definition of_unix_milli :: "int \<Rightarrow> int" where
  "of_unix_milli ms = ms * 1000000"

text \<open>Go's integer division truncates towards zero; every divisor in the code is positive.\<close>

definition ceil_div :: "nat \<Rightarrow> nat \<Rightarrow> nat" where
  "ceil_div n d = (n + d - 1) div d"

lemma ceil_div_ge: "0 < d \<Longrightarrow> n \<le> ceil_div n d * d"
proof -
  assume d: "0 < d"
  have "n + d - 1 = ceil_div n d * d + (n + d - 1) mod d"
    by (simp add: ceil_div_def div_mult_mod_eq)
  moreover have "(n + d - 1) mod d < d" using d by simp
  ultimately show ?thesis using d by linarith
qed

lemma ceil_div_le: "0 < d \<Longrightarrow> n \<le> k * d \<Longrightarrow> ceil_div n d \<le> k"
proof -
  assume d: "0 < d" and n: "n \<le> k * d"
  have "n + d - 1 < (k + 1) * d" using d n by (simp add: algebra_simps)
  then show ?thesis unfolding ceil_div_def
    using d by (metis Suc_eq_plus1 less_Suc_eq_le less_mult_imp_div_less)
qed

lemma ceil_div_pos: "0 < d \<Longrightarrow> 0 < n \<Longrightarrow> 0 < ceil_div n d"
  unfolding ceil_div_def by (simp add: div_greater_zero_iff)

subsection \<open>Go maps as association lists\<close>

type_synonym ('k, 'v) gomap = "('k \<times> 'v) list"

abbreviation gm_get :: "('k, 'v) gomap \<Rightarrow> 'k \<Rightarrow> 'v option" where
  "gm_get \<equiv> map_of"

abbreviation gm_put :: "'k \<Rightarrow> 'v \<Rightarrow> ('k, 'v) gomap \<Rightarrow> ('k, 'v) gomap" where
  "gm_put \<equiv> AList.update"

abbreviation gm_del :: "'k \<Rightarrow> ('k, 'v) gomap \<Rightarrow> ('k, 'v) gomap" where
  "gm_del \<equiv> AList.delete"

abbreviation gm_ok :: "('k, 'v) gomap \<Rightarrow> bool" where
  "gm_ok m \<equiv> distinct (map fst m)"

lemma gm_get_put: "gm_get (gm_put k v m) = (gm_get m)(k \<mapsto> v)"
  by (rule update_conv')

lemma gm_get_del: "gm_get (gm_del k m) = (gm_get m)(k := None)"
  by (rule delete_conv')

lemma gm_ok_put: "gm_ok m \<Longrightarrow> gm_ok (gm_put k v m)"
  by (rule distinct_update)

lemma gm_ok_del: "gm_ok m \<Longrightarrow> gm_ok (gm_del k m)"
  by (rule distinct_delete)

lemma gm_set_del: "set (map fst (gm_del k m)) = set (map fst m) - {k}"
  by (simp add: delete_keys)

lemmas gm_simps = gm_get_put gm_get_del gm_ok_put gm_ok_del

subsection \<open>Buffered channels\<close>

text \<open>
  A channel made with \<open>make(chan T, cap)\<close>. A send inside \<open>select\<close> with a
  \<open>default\<close> branch stores the value when the buffer has room and takes the default branch
  otherwise; on a closed channel it panics, and so does closing a channel twice.
\<close>

record 'a chan =
  ch_buf :: "'a list"
  ch_cap :: nat
  ch_closed :: bool

datatype 'a send_outcome = Sent 'a | Full | SendPanic

definition chan_new :: "nat \<Rightarrow> 'a chan" where
  "chan_new n = \<lparr>ch_buf = [], ch_cap = n, ch_closed = False\<rparr>"

definition chan_try_send :: "'a \<Rightarrow> 'a chan \<Rightarrow> 'a chan send_outcome" where
  "chan_try_send x c =
     (if ch_closed c then SendPanic
      else if length (ch_buf c) < ch_cap c then Sent (c\<lparr>ch_buf := ch_buf c @ [x]\<rparr>)
      else Full)"

definition chan_recv :: "'a chan \<Rightarrow> ('a \<times> 'a chan) option" where
  "chan_recv c = (case ch_buf c of [] \<Rightarrow> None | x # xs \<Rightarrow> Some (x, c\<lparr>ch_buf := xs\<rparr>))"

definition chan_close :: "'a chan \<Rightarrow> 'a chan option" where
  "chan_close c = (if ch_closed c then None else Some (c\<lparr>ch_closed := True\<rparr>))"

definition chan_ok :: "'a chan \<Rightarrow> bool" where
  "chan_ok c \<longleftrightarrow> length (ch_buf c) \<le> ch_cap c"

text \<open>The send of the code that keeps the old channel when the buffer is full.\<close>

definition chan_offer :: "'a \<Rightarrow> 'a chan \<Rightarrow> 'a chan" where
  "chan_offer x c = (case chan_try_send x c of Sent c' \<Rightarrow> c' | _ \<Rightarrow> c)"

lemma chan_new_ok [simp]: "chan_ok (chan_new n)"
  by (simp add: chan_ok_def chan_new_def)

lemma chan_try_send_ok: "chan_ok c \<Longrightarrow> chan_try_send x c = Sent c' \<Longrightarrow> chan_ok c'"
  by (auto simp: chan_try_send_def chan_ok_def split: if_splits)

lemma chan_offer_ok [simp]: "chan_ok c \<Longrightarrow> chan_ok (chan_offer x c)"
  by (auto simp: chan_offer_def chan_try_send_def chan_ok_def)

lemma chan_recv_ok: "chan_ok c \<Longrightarrow> chan_recv c = Some (x, c') \<Longrightarrow> chan_ok c'"
  by (auto simp: chan_recv_def chan_ok_def split: list.splits)

lemma chan_offer_cap [simp]: "ch_cap (chan_offer x c) = ch_cap c"
  by (auto simp: chan_offer_def chan_try_send_def)

lemma chan_offer_closed [simp]: "ch_closed (chan_offer x c) = ch_closed c"
  by (auto simp: chan_offer_def chan_try_send_def)

lemma chan_offer_buf [chan_simps]:
  "ch_buf (chan_offer x c) =
     (if \<not> ch_closed c \<and> length (ch_buf c) < ch_cap c then ch_buf c @ [x] else ch_buf c)"
  by (auto simp: chan_offer_def chan_try_send_def)

text \<open>
  The contract the rest of the program relies on: a bounded queue never holds more than its
  capacity, hands its items out in the order in which they were accepted and loses none of them.
\<close>

locale bounded_queue =
  fixes items :: "'q \<Rightarrow> 'a list"
    and cap :: "'q \<Rightarrow> nat"
    and offer :: "'a \<Rightarrow> 'q \<Rightarrow> 'q"
    and recv :: "'q \<Rightarrow> ('a \<times> 'q) option"
    and ok :: "'q \<Rightarrow> bool"
  assumes ok_bound: "ok q \<Longrightarrow> length (items q) \<le> cap q"
    and ok_offer: "ok q \<Longrightarrow> ok (offer x q)"
    and cap_offer: "cap (offer x q) = cap q"
    and items_offer: "ok q \<Longrightarrow> items (offer x q) = items q @ [x] \<or> items (offer x q) = items q"
    and recv_None: "recv q = None \<longleftrightarrow> items q = []"
    and recv_Some: "recv q = Some (x, q') \<Longrightarrow> items q = x # items q'"
    and ok_recv: "ok q \<Longrightarrow> recv q = Some (x, q') \<Longrightarrow> ok q'"
begin

fun offer_all :: "'a list \<Rightarrow> 'q \<Rightarrow> 'q" where
  "offer_all [] q = q"
| "offer_all (x # xs) q = offer_all xs (offer x q)"

lemma ok_offer_all: "ok q \<Longrightarrow> ok (offer_all xs q)"
  by (induction xs arbitrary: q) (auto simp: ok_offer)

lemma cap_offer_all: "cap (offer_all xs q) = cap q"
  by (induction xs arbitrary: q) (auto simp: cap_offer)

lemma offer_all_bounded: "ok q \<Longrightarrow> length (items (offer_all xs q)) \<le> cap q"
  using ok_bound [OF ok_offer_all, of q xs] by (simp add: cap_offer_all)

lemma offer_all_prefix: "ok q \<Longrightarrow> \<exists>ys. items (offer_all xs q) = items q @ ys \<and> set ys \<subseteq> set xs"
proof (induction xs arbitrary: q)
  case Nil
  then show ?case by simp
next
  case (Cons x xs)
  from Cons.prems obtain ys where
    ys: "items (offer_all xs (offer x q)) = items (offer x q) @ ys" "set ys \<subseteq> set xs"
    using Cons.IH [of "offer x q"] ok_offer by blast
  from items_offer [OF Cons.prems, of x] show ?case
  proof
    assume "items (offer x q) = items q @ [x]"
    with ys show ?thesis by (intro exI [of _ "x # ys"]) auto
  next
    assume "items (offer x q) = items q"
    with ys show ?thesis by (intro exI [of _ ys]) auto
  qed
qed

lemma recv_oldest: "items q = x # xs \<Longrightarrow> \<exists>q'. recv q = Some (x, q') \<and> items q' = xs"
proof -
  assume i: "items q = x # xs"
  then have "recv q \<noteq> None" by (simp add: recv_None)
  then obtain y q' where r: "recv q = Some (y, q')" by auto
  from recv_Some [OF r] i r show ?thesis by auto
qed

end

interpretation chanq: bounded_queue ch_buf ch_cap chan_offer chan_recv chan_ok
proof unfold_locales
  fix q :: "'a chan" and x :: 'a
  show "chan_ok q \<Longrightarrow> length (ch_buf q) \<le> ch_cap q"
    by (simp add: chan_ok_def)
  show "chan_ok q \<Longrightarrow> chan_ok (chan_offer x q)"
    by simp
  show "ch_cap (chan_offer x q) = ch_cap q"
    by simp
  show "ch_buf (chan_offer x q) = ch_buf q @ [x] \<or> ch_buf (chan_offer x q) = ch_buf q"
    by (simp add: chan_offer_buf)
  show "(chan_recv q = None) = (ch_buf q = [])"
    by (simp add: chan_recv_def split: list.splits)
next
  fix q q' :: "'a chan" and x :: 'a
  assume "chan_recv q = Some (x, q')"
  then show "ch_buf q = x # ch_buf q'"
    by (auto simp: chan_recv_def split: list.splits)
next
  fix q q' :: "'a chan" and x :: 'a
  assume "chan_ok q" "chan_recv q = Some (x, q')"
  then show "chan_ok q'" by (rule chan_recv_ok)
qed

subsection \<open>Results\<close>

text \<open>
  A Go function that returns a value and an error is modelled with \<open>'e + 'a\<close>, \<open>Inl\<close>
  for a non-nil error.
\<close>

definition res_bind :: "'e + 'a \<Rightarrow> ('a \<Rightarrow> 'e + 'b) \<Rightarrow> 'e + 'b" where
  "res_bind r f = (case r of Inl e \<Rightarrow> Inl e | Inr a \<Rightarrow> f a)"

definition is_ok :: "'e + 'a \<Rightarrow> bool" where
  "is_ok r = (case r of Inl _ \<Rightarrow> False | Inr _ \<Rightarrow> True)"

lemma is_ok_simps [simp]: "is_ok (Inl e) = False" "is_ok (Inr a) = True"
  by (simp_all add: is_ok_def)

lemma is_ok_iff: "is_ok r \<longleftrightarrow> (\<exists>a. r = Inr a)"
  by (cases r) auto

lemma res_bind_simps [simp]: "res_bind (Inl e) f = Inl e" "res_bind (Inr a) f = f a"
  by (simp_all add: res_bind_def)

lemma res_bind_Inr: "res_bind r f = Inr b \<longleftrightarrow> (\<exists>a. r = Inr a \<and> f a = Inr b)"
  by (cases r) auto

end
