(* ===== verification/GoStrings.thy ===== *)
theory GoStrings
  imports Prelude
begin

section \<open>The parts of Go's strconv, strings and path packages the program uses\<close>

text \<open>
  Strings are byte strings (\<open>char list\<close>). \<open>strconv.ParseInt\<close>/\<open>Atoi\<close> in base 10 with 64 bits
  return a value even when they return an error (the code drops the error in several places),
  \<open>strings.TrimSpace\<close> trims the UTF-8 encodings of Unicode white space, and \<open>path.Clean\<close>
  is the lexical normalisation its documentation describes.
\<close>

subsection \<open>strconv\<close>

datatype num_error = ErrSyntax | ErrRange

definition is_digit :: "char \<Rightarrow> bool" where
  "is_digit c \<longleftrightarrow> 48 \<le> (of_char c :: nat) \<and> (of_char c :: nat) \<le> 57"

definition digit_value :: "char \<Rightarrow> int" where
  "digit_value c = int (of_char c :: nat) - 48"

fun parse_uint :: "int \<Rightarrow> string \<Rightarrow> int \<times> num_error option" where
  "parse_uint n [] = (n, None)"
| "parse_uint n (c # cs) =
     (if \<not> is_digit c then (0, Some ErrSyntax)
      else if 2 ^ 64 - 1 < 10 * n + digit_value c then (2 ^ 64 - 1, Some ErrRange)
      else parse_uint (10 * n + digit_value c) cs)"

definition parse_int :: "string \<Rightarrow> int \<times> num_error option" where
  "parse_int s =
     (let neg = (case s of c # _ \<Rightarrow> c = CHR ''-'' | [] \<Rightarrow> False);
          ds = (case s of c # cs \<Rightarrow> if c = CHR ''-'' \<or> c = CHR ''+'' then cs else s | [] \<Rightarrow> [])
      in if ds = [] then (0, Some ErrSyntax)
         else let (un, e) = parse_uint 0 ds
              in if e = Some ErrSyntax then (0, Some ErrSyntax)
                 else if \<not> neg \<and> 2 ^ 63 \<le> un then (2 ^ 63 - 1, Some ErrRange)
                 else if neg \<and> 2 ^ 63 < un then (- (2 ^ 63), Some ErrRange)
                 else (if neg then - un else un, None))"

definition parse_ok :: "string \<Rightarrow> int option" where
  "parse_ok s = (case parse_int s of (v, None) \<Rightarrow> Some v | _ \<Rightarrow> None)"

definition digit_char :: "nat \<Rightarrow> char" where
  "digit_char d = char_of (48 + d)"

fun nat_digits :: "nat \<Rightarrow> string" where
  "nat_digits n = (if n < 10 then [digit_char n] else nat_digits (n div 10) @ [digit_char (n mod 10)])"

declare nat_digits.simps [simp del]

definition format_int :: "int \<Rightarrow> string" where
  "format_int x = (if x < 0 then CHR ''-'' # nat_digits (nat (- x)) else nat_digits (nat x))"

lemma digit_char_digit [simp]: "d < 10 \<Longrightarrow> is_digit (digit_char d)"
  by (simp add: is_digit_def digit_char_def)

lemma digit_char_value [simp]: "d < 10 \<Longrightarrow> digit_value (digit_char d) = int d"
  by (simp add: digit_value_def digit_char_def)

lemma nat_digits_nonempty [simp]: "nat_digits n \<noteq> []"
  by (subst nat_digits.simps) simp

lemma nat_digits_all_digits: "\<forall>c \<in> set (nat_digits n). is_digit c"
proof (induction n rule: nat_digits.induct)
  case (1 n)
  show ?case
  proof (cases "n < 10")
    case True
    then show ?thesis by (subst nat_digits.simps) simp
  next
    case False
    with 1 show ?thesis by (subst nat_digits.simps) auto
  qed
qed

lemma is_digit_not_sign: "is_digit c \<Longrightarrow> c \<noteq> CHR ''-'' \<and> c \<noteq> CHR ''+''"
  by (auto simp: is_digit_def)

lemma is_digit_not_slash: "is_digit c \<Longrightarrow> c \<noteq> CHR ''/''"
  by (auto simp: is_digit_def)

lemma parse_uint_append:
  "parse_uint n xs = (m, None) \<Longrightarrow> parse_uint n (xs @ ys) = parse_uint m ys"
  by (induction n xs rule: parse_uint.induct) (auto split: if_splits)

lemma parse_uint_nat_digits: "int n \<le> 2 ^ 64 - 1 \<Longrightarrow> parse_uint 0 (nat_digits n) = (int n, None)"
proof (induction n rule: nat_digits.induct)
  case (1 n)
  show ?case
  proof (cases "n < 10")
    case True
    then show ?thesis by (subst nat_digits.simps) simp
  next
    case False
    have "int (n div 10) \<le> 2 ^ 64 - 1" using 1(2) by linarith
    with 1(1) False have "parse_uint 0 (nat_digits (n div 10)) = (int (n div 10), None)" by simp
    then have "parse_uint 0 (nat_digits (n div 10) @ [digit_char (n mod 10)])
        = parse_uint (int (n div 10)) [digit_char (n mod 10)]"
      by (rule parse_uint_append)
    also have "\<dots> = (int n, None)"
    proof -
      have "10 * int (n div 10) + int (n mod 10) = int n"
        by (simp add: zdiv_int zmod_int)
      then show ?thesis using 1(2) by simp
    qed
    finally show ?thesis using False by (subst nat_digits.simps) simp
  qed
qed

lemma hd_nat_digits: "is_digit (hd (nat_digits n))"
  using nat_digits_all_digits [of n] hd_in_set [of "nat_digits n"] by auto

lemma parse_format_int: "is_int64 x \<Longrightarrow> parse_int (format_int x) = (x, None)"
proof (cases "x < 0")
  case True
  assume "is_int64 x"
  with True have "int (nat (- x)) \<le> 2 ^ 63" by (simp add: in_width_def)
  then have "parse_uint 0 (nat_digits (nat (- x))) = (- x, None)"
    using True parse_uint_nat_digits [of "nat (- x)"] by simp
  then show ?thesis
    using True \<open>int (nat (- x)) \<le> 2 ^ 63\<close> by (simp add: parse_int_def format_int_def)
next
  case False
  assume r: "is_int64 x"
  with False have b: "int (nat x) < 2 ^ 63" by (simp add: in_width_def)
  then have p: "parse_uint 0 (nat_digits (nat x)) = (x, None)"
    using False parse_uint_nat_digits [of "nat x"] by simp
  obtain c cs where c: "nat_digits (nat x) = c # cs"
    by (cases "nat_digits (nat x)") auto
  with hd_nat_digits [of "nat x"] have "is_digit c" by simp
  then have "c \<noteq> CHR ''-''" "c \<noteq> CHR ''+''" by (auto dest: is_digit_not_sign)
  with p c b False show ?thesis by (simp add: parse_int_def format_int_def Let_def)
qed

lemma parse_ok_format: "is_int64 x \<Longrightarrow> parse_ok (format_int x) = Some x"
  by (simp add: parse_ok_def parse_format_int)

lemma parse_uint_range:
  "0 \<le> n \<Longrightarrow> n \<le> 2 ^ 64 - 1 \<Longrightarrow> parse_uint n s = (v, e) \<Longrightarrow> 0 \<le> v \<and> v \<le> 2 ^ 64 - 1"
  by (induction n s rule: parse_uint.induct)
     (auto split: if_splits simp: is_digit_def digit_value_def)

lemma parse_int_in_width: "is_int64 (fst (parse_int s))"
proof -
  obtain un e where p: "parse_uint 0 (case s of c # cs \<Rightarrow> if c = CHR ''-'' \<or> c = CHR ''+'' then cs else s | [] \<Rightarrow> []) = (un, e)"
    by fastforce
  have "0 \<le> un" using parse_uint_range [OF _ _ p] by simp
  with p show ?thesis by (auto simp: parse_int_def Let_def in_width_def)
qed

lemma format_int_inj: "is_int64 x \<Longrightarrow> is_int64 y \<Longrightarrow> format_int x = format_int y \<Longrightarrow> x = y"
  by (metis Pair_inject parse_format_int)

subsection \<open>strings\<close>

definition has_prefix :: "string \<Rightarrow> string \<Rightarrow> bool" where
  "has_prefix s p \<longleftrightarrow> take (length p) s = p"

definition trim_prefix :: "string \<Rightarrow> string \<Rightarrow> string" where
  "trim_prefix s p = (if has_prefix s p then drop (length p) s else s)"

text \<open>The UTF-8 encodings of the characters \<open>unicode.IsSpace\<close> accepts.\<close>

definition go_spaces :: "string list" where
  "go_spaces =
     [[CHR 0x09], [CHR 0x0A], [CHR 0x0B], [CHR 0x0C], [CHR 0x0D], [CHR 0x20], [CHR 0xC2, CHR 0x85],
      [CHR 0xC2, CHR 0xA0], [CHR 0xE1, CHR 0x9A, CHR 0x80], [CHR 0xE2, CHR 0x80, CHR 0x80],
      [CHR 0xE2, CHR 0x80, CHR 0x81], [CHR 0xE2, CHR 0x80, CHR 0x82], [CHR 0xE2, CHR 0x80, CHR 0x83],
      [CHR 0xE2, CHR 0x80, CHR 0x84], [CHR 0xE2, CHR 0x80, CHR 0x85], [CHR 0xE2, CHR 0x80, CHR 0x86],
      [CHR 0xE2, CHR 0x80, CHR 0x87], [CHR 0xE2, CHR 0x80, CHR 0x88], [CHR 0xE2, CHR 0x80, CHR 0x89],
      [CHR 0xE2, CHR 0x80, CHR 0x8A], [CHR 0xE2, CHR 0x80, CHR 0xA8], [CHR 0xE2, CHR 0x80, CHR 0xA9],
      [CHR 0xE2, CHR 0x80, CHR 0xAF], [CHR 0xE2, CHR 0x81, CHR 0x9F], [CHR 0xE3, CHR 0x80, CHR 0x80]]"

fun strip_space :: "string list \<Rightarrow> nat \<Rightarrow> string \<Rightarrow> string" where
  "strip_space sp 0 s = s"
| "strip_space sp (Suc k) s =
     (case find (\<lambda>p. has_prefix s p) sp of
        None \<Rightarrow> s
      | Some p \<Rightarrow> strip_space sp k (drop (length p) s))"

definition trim_left :: "string \<Rightarrow> string" where
  "trim_left s = strip_space go_spaces (length s) s"

definition trim_right :: "string \<Rightarrow> string" where
  "trim_right s = rev (strip_space (map rev go_spaces) (length s) (rev s))"

definition trim_space :: "string \<Rightarrow> string" where
  "trim_space s = trim_right (trim_left s)"

text \<open>\<open>strings.Split\<close> with a one-byte separator, and \<open>SplitN\<close> that stops after n parts.\<close>

fun split_on :: "char \<Rightarrow> string \<Rightarrow> string list" where
  "split_on d [] = [[]]"
| "split_on d (c # cs) =
     (if c = d then [] # split_on d cs
      else (case split_on d cs of [] \<Rightarrow> [[c]] | w # ws \<Rightarrow> (c # w) # ws))"

fun join_with :: "char \<Rightarrow> string list \<Rightarrow> string" where
  "join_with d [] = []"
| "join_with d [w] = w"
| "join_with d (w # v # ws) = w @ d # join_with d (v # ws)"

definition split_n :: "nat \<Rightarrow> char \<Rightarrow> string \<Rightarrow> string list" where
  "split_n n d s =
     (let ws = split_on d s
      in if length ws \<le> n then ws else take (n - 1) ws @ [join_with d (drop (n - 1) ws)])"

lemma split_on_nonempty [simp]: "split_on d s \<noteq> []"
  by (induction s) (auto split: list.splits)

lemma split_on_no_sep: "w \<in> set (split_on d s) \<Longrightarrow> d \<notin> set w"
  by (induction s arbitrary: w) (auto split: list.splits if_splits)

lemma split_on_single: "d \<notin> set w \<Longrightarrow> split_on d w = [w]"
  by (induction w) (auto split: list.splits)

lemma split_on_append_sep: "d \<notin> set w \<Longrightarrow> split_on d (w @ d # s) = w # split_on d s"
  by (induction w) (auto split: list.splits)

lemma split_join:
  "ws \<noteq> [] \<Longrightarrow> (\<And>w. w \<in> set ws \<Longrightarrow> d \<notin> set w) \<Longrightarrow> split_on d (join_with d ws) = ws"
proof (induction d ws rule: join_with.induct)
  case (3 d w v ws)
  then have "split_on d (join_with d (v # ws)) = v # ws" by simp
  with 3(3) show ?case by (simp add: split_on_append_sep)
qed (auto simp: split_on_single)

lemma join_with_Cons: "ws \<noteq> [] \<Longrightarrow> join_with d (w # ws) = w @ d # join_with d ws"
  by (cases ws) simp_all

lemma join_with_push: "join_with d ((a # w) # ws) = a # join_with d (w # ws)"
  by (cases ws) simp_all

lemma join_split: "join_with d (split_on d s) = s"
proof (induction s)
  case (Cons c cs)
  then show ?case
    by (cases "split_on d cs") (auto simp: join_with_Cons join_with_push)
qed simp

subsection \<open>path\<close>

definition clean_step :: "bool \<Rightarrow> string \<Rightarrow> string list \<Rightarrow> string list" where
  "clean_step rooted c st =
     (if c = ''..'' then
        (case st of
           [] \<Rightarrow> if rooted then [] else [''..'']
         | t # ts \<Rightarrow> if t = ''..'' then ''..'' # st else ts)
      else c # st)"

definition path_comps :: "string \<Rightarrow> string list" where
  "path_comps p = filter (\<lambda>c. c \<noteq> [] \<and> c \<noteq> ''.'') (split_on (CHR ''/'') p)"

definition clean_comps :: "bool \<Rightarrow> string list \<Rightarrow> string list" where
  "clean_comps rooted cs = rev (fold (clean_step rooted) cs [])"

definition path_clean :: "string \<Rightarrow> string" where
  "path_clean p =
     (if p = [] then ''.''
      else let rooted = (hd p = CHR ''/'');
               body = join_with (CHR ''/'') (clean_comps rooted (path_comps p))
           in if rooted then CHR ''/'' # body
              else if body = [] then ''.'' else body)"

definition path_base :: "string \<Rightarrow> string" where
  "path_base p =
     (if p = [] then ''.''
      else let stripped = rev (dropWhile (\<lambda>c. c = CHR ''/'') (rev p))
           in if stripped = [] then ''/'' else last (split_on (CHR ''/'') stripped))"

text \<open>What the stack of \<open>path.Clean\<close> looks like: proper names over leading \<open>..\<close>, and no
  \<open>..\<close> at all for a rooted path.\<close>

definition clean_stack :: "bool \<Rightarrow> string list \<Rightarrow> bool" where
  "clean_stack rooted st \<longleftrightarrow>
     (\<exists>names k. st = names @ replicate k ''..'' \<and> ''..'' \<notin> set names \<and> (rooted \<longrightarrow> k = 0))"

lemma clean_stack_Nil [simp]: "clean_stack r []"
  by (auto simp: clean_stack_def)

lemma clean_step_stack: "clean_stack r st \<Longrightarrow> clean_stack r (clean_step r c st)"
proof -
  assume "clean_stack r st"
  then obtain ns k where st: "st = ns @ replicate k ''..''" "''..'' \<notin> set ns" "r \<longrightarrow> k = 0"
    by (auto simp: clean_stack_def)
  show ?thesis
  proof (cases "c = ''..''")
    case False
    with st show ?thesis
      by (auto simp: clean_stack_def clean_step_def intro!: exI [of _ "c # ns"] exI [of _ k])
  next
    case dots: True
    show ?thesis
    proof (cases ns)
      case (Cons n ms)
      with st dots show ?thesis
        by (auto simp: clean_stack_def clean_step_def intro!: exI [of _ ms] exI [of _ k])
    next
      case Nil
      show ?thesis
      proof (cases k)
        case 0
        show ?thesis
        proof (cases r)
          case True
          with Nil 0 st dots show ?thesis by (simp add: clean_step_def)
        next
          case False
          with Nil 0 st dots have "clean_step r c st = [] @ replicate 1 ''..''"
            by (simp add: clean_step_def)
          with False show ?thesis
            unfolding clean_stack_def by (intro exI [of _ "[]"] exI [of _ 1]) simp
        qed
      next
        case (Suc j)
        have "''..'' # replicate k ''..'' = [] @ replicate (Suc k) ''..''" by simp
        with Nil Suc st dots show ?thesis
          unfolding clean_stack_def clean_step_def by (auto intro!: exI [of _ "Suc k"])
      qed
    qed
  qed
qed

lemma clean_fold_stack: "clean_stack r st \<Longrightarrow> clean_stack r (fold (clean_step r) cs st)"
  by (induction cs arbitrary: st) (auto simp: clean_step_stack)

lemma clean_comps_shape:
  "\<exists>k names. clean_comps r cs = replicate k ''..'' @ names \<and> ''..'' \<notin> set names \<and> (r \<longrightarrow> k = 0)"
proof -
  have "clean_stack r (fold (clean_step r) cs [])" by (rule clean_fold_stack) simp
  then obtain ns k where "fold (clean_step r) cs [] = ns @ replicate k ''..''"
    "''..'' \<notin> set ns" "r \<longrightarrow> k = 0" by (auto simp: clean_stack_def)
  then show ?thesis
    by (intro exI [of _ k] exI [of _ "rev ns"]) (simp add: clean_comps_def)
qed

lemma clean_step_subset: "set (clean_step r c st) \<subseteq> insert c (set st)"
  by (auto simp: clean_step_def split: list.splits if_splits)

lemma clean_comps_subset: "set (clean_comps r cs) \<subseteq> set cs"
proof -
  have "set (fold (clean_step r) cs st) \<subseteq> set cs \<union> set st" for st
  proof (induction cs arbitrary: st)
    case (Cons c cs)
    have "set (fold (clean_step r) cs (clean_step r c st)) \<subseteq> set cs \<union> set (clean_step r c st)"
      by (rule Cons.IH)
    with clean_step_subset [of r c st] show ?case by auto
  qed simp
  from this [of "[]"] show ?thesis by (simp add: clean_comps_def)
qed

lemma path_comps_proper:
  "c \<in> set (path_comps p) \<Longrightarrow> c \<noteq> [] \<and> c \<noteq> ''.'' \<and> CHR ''/'' \<notin> set c"
  by (auto simp: path_comps_def dest: split_on_no_sep)

lemma clean_comps_proper:
  "c \<in> set (clean_comps r (path_comps p)) \<Longrightarrow> c \<noteq> [] \<and> c \<noteq> ''.'' \<and> CHR ''/'' \<notin> set c"
  using clean_comps_subset path_comps_proper by blast

end
