(* ===== verification/Json.thy ===== *)
theory Json
  imports GoStrings
begin

section \<open>The part of encoding/json the program uses\<close>

text \<open>
  JSON values, the encoder of \<open>json.Marshal\<close> (compact, HTML-safe escapes, invalid UTF-8 replaced)
  and the decoder of \<open>json.Unmarshal\<close>: the scanner with its nesting limit of 10000, unescaping
  with surrogate pairs, and the matching of object keys with struct fields (exact match first, then
  case folding, a later key overrides an earlier one, a value of the wrong type is an error, a null
  leaves the field). The lemma \<open>json_roundtrip\<close> is what the wire formats rest on.
\<close>

datatype json =
    JNull
  | JBool bool
  | JNum string
  | JStr string
  | JArr "json list"
  | JObj "(string \<times> json) list"

subsection \<open>UTF-8\<close>

abbreviation byte_of :: "char \<Rightarrow> nat" where
  "byte_of c \<equiv> of_char c"

definition in_range :: "nat \<Rightarrow> nat \<Rightarrow> char \<Rightarrow> bool" where
  "in_range lo hi c \<longleftrightarrow> lo \<le> byte_of c \<and> byte_of c \<le> hi"

abbreviation is_cont :: "char \<Rightarrow> bool" where
  "is_cont \<equiv> in_range 0x80 0xBF"

text \<open>Length of the encoding of the first rune, 0 when it is not valid (\<open>utf8.DecodeRune\<close>).\<close>

definition lead_len :: "char \<Rightarrow> nat" where
  "lead_len a =
     (if byte_of a < 0x80 then 1
      else if in_range 0xC2 0xDF a then 2
      else if in_range 0xE0 0xEF a then 3
      else if in_range 0xF0 0xF4 a then 4
      else 0)"

definition second_ok :: "char \<Rightarrow> char \<Rightarrow> bool" where
  "second_ok a b \<longleftrightarrow>
     (byte_of a = 0xE0 \<longrightarrow> 0xA0 \<le> byte_of b) \<and> (byte_of a = 0xED \<longrightarrow> byte_of b \<le> 0x9F) \<and>
     (byte_of a = 0xF0 \<longrightarrow> 0x90 \<le> byte_of b) \<and> (byte_of a = 0xF4 \<longrightarrow> byte_of b \<le> 0x8F)"

fun utf8_len :: "string \<Rightarrow> nat" where
  "utf8_len [] = 0"
| "utf8_len (a # s) =
     (if lead_len a \<le> 1 then lead_len a
      else if lead_len a - 1 \<le> length s \<and> second_ok a (hd s) \<and> list_all is_cont (take (lead_len a - 1) s)
      then lead_len a
      else 0)"

definition utf8_of :: "nat \<Rightarrow> string" where
  "utf8_of r =
     map char_of
      (if r < 0x80 then [r]
       else if r < 0x800 then [0xC0 + r div 64, 0x80 + r mod 64]
       else if r < 0x10000 then [0xE0 + r div 4096, 0x80 + r div 64 mod 64, 0x80 + r mod 64]
       else [0xF0 + r div 262144, 0x80 + r div 4096 mod 64, 0x80 + r div 64 mod 64, 0x80 + r mod 64])"

definition rune_error :: string where
  "rune_error = map char_of [0xEF, 0xBF, 0xBD :: nat]"

function valid_utf8 :: "string \<Rightarrow> bool" where
  "valid_utf8 [] = True"
| "valid_utf8 (c # cs) = (utf8_len (c # cs) \<noteq> 0 \<and> valid_utf8 (drop (utf8_len (c # cs) - 1) cs))"
  by pat_completeness auto
termination by (relation "measure length") (auto simp del: utf8_len.simps)

subsection \<open>Encoding\<close>

definition hex_digit :: "nat \<Rightarrow> char" where
  "hex_digit d = (if d < 10 then char_of (48 + d) else char_of (87 + d))"

definition esc_ascii :: "char \<Rightarrow> string" where
  "esc_ascii c =
     (let b = byte_of c in
      if b = 34 \<or> b = 92 then [CHR 0x5C, c]
      else if b = 8 then [CHR 0x5C, CHR ''b'']
      else if b = 12 then [CHR 0x5C, CHR ''f'']
      else if b = 10 then [CHR 0x5C, CHR ''n'']
      else if b = 13 then [CHR 0x5C, CHR ''r'']
      else if b = 9 then [CHR 0x5C, CHR ''t'']
      else if b < 32 \<or> b = 60 \<or> b = 62 \<or> b = 38 then
        [CHR 0x5C, CHR ''u'', CHR ''0'', CHR ''0'', hex_digit (b div 16), hex_digit (b mod 16)]
      else [c])"

definition esc_rune :: "string \<Rightarrow> string" where
  "esc_rune r =
     (case r of
        [c] \<Rightarrow> esc_ascii c
      | _ \<Rightarrow> if r = map char_of [0xE2, 0x80, 0xA8 :: nat] then CHR 0x5C # ''u2028''
            else if r = map char_of [0xE2, 0x80, 0xA9 :: nat] then CHR 0x5C # ''u2029''
            else r)"

function enc_body :: "string \<Rightarrow> string" where
  "enc_body [] = []"
| "enc_body (c # cs) =
     (if utf8_len (c # cs) = 0 then CHR 0x5C # ''ufffd'' @ enc_body cs
      else esc_rune (take (utf8_len (c # cs)) (c # cs)) @ enc_body (drop (utf8_len (c # cs) - 1) cs))"
  by pat_completeness auto
termination by (relation "measure length") (auto simp del: utf8_len.simps)

definition enc_string :: "string \<Rightarrow> string" where
  "enc_string s = CHR 0x22 # enc_body s @ [CHR 0x22]"

fun enc_json :: "json \<Rightarrow> string" where
  "enc_json JNull = ''null''"
| "enc_json (JBool b) = (if b then ''true'' else ''false'')"
| "enc_json (JNum n) = n"
| "enc_json (JStr s) = enc_string s"
| "enc_json (JArr vs) = CHR ''['' # join_with (CHR '','') (map enc_json vs) @ '']''"
| "enc_json (JObj ms) =
     CHR 0x7B # join_with (CHR '','') (map (\<lambda>(k, v). enc_string k @ CHR '':'' # enc_json v) ms) @ [CHR 0x7D]"

subsection \<open>Decoding strings\<close>

definition hex_value :: "char \<Rightarrow> nat option" where
  "hex_value c =
     (let b = byte_of c in
      if 48 \<le> b \<and> b \<le> 57 then Some (b - 48)
      else if 97 \<le> b \<and> b \<le> 102 then Some (b - 87)
      else if 65 \<le> b \<and> b \<le> 70 then Some (b - 55)
      else None)"

definition hex4 :: "string \<Rightarrow> nat option" where
  "hex4 s =
     (case map hex_value (take 4 s) of
        [Some a, Some b, Some c, Some d] \<Rightarrow> Some (((a * 16 + b) * 16 + c) * 16 + d)
      | _ \<Rightarrow> None)"

definition surrogate :: "nat \<Rightarrow> bool" where
  "surrogate r \<longleftrightarrow> 0xD800 \<le> r \<and> r < 0xE000"

text \<open>The text after a backslash and a u: the bytes it stands for and how many characters it used.\<close>

definition dec_u :: "string \<Rightarrow> (string \<times> nat) option" where
  "dec_u s =
     (case hex4 s of
        None \<Rightarrow> None
      | Some r \<Rightarrow>
          if \<not> surrogate r then Some (utf8_of r, 4)
          else (case drop 4 s of
                  b # u # t \<Rightarrow>
                    (if b = CHR 0x5C \<and> u = CHR ''u'' then
                       (case hex4 t of
                          Some r2 \<Rightarrow>
                            if r < 0xDC00 \<and> 0xDC00 \<le> r2 \<and> r2 < 0xE000
                            then Some (utf8_of (0x10000 + (r - 0xD800) * 1024 + (r2 - 0xDC00)), 10)
                            else Some (rune_error, 4)
                        | None \<Rightarrow> Some (rune_error, 4))
                     else Some (rune_error, 4))
                | _ \<Rightarrow> Some (rune_error, 4)))"

definition unescape :: "char \<Rightarrow> char option" where
  "unescape c =
     (let b = byte_of c in
      if b = 34 \<or> b = 92 \<or> b = 47 then Some c
      else if c = CHR ''b'' then Some (CHR 8)
      else if c = CHR ''f'' then Some (CHR 12)
      else if c = CHR ''n'' then Some (CHR 10)
      else if c = CHR ''r'' then Some (CHR 13)
      else if c = CHR ''t'' then Some (CHR 9)
      else None)"

definition prepend :: "string \<Rightarrow> (string \<times> string) option \<Rightarrow> (string \<times> string) option" where
  "prepend p r = map_option (\<lambda>(s, t). (p @ s, t)) r"

text \<open>The characters up to the closing quote, and the text after it.\<close>

function dec_body :: "string \<Rightarrow> (string \<times> string) option" where
  "dec_body [] = None"
| "dec_body (c # cs) =
     (if byte_of c = 34 then Some ([], cs)
      else if byte_of c = 92 then
        (case cs of
           [] \<Rightarrow> None
         | e # es \<Rightarrow>
             if e = CHR ''u'' then
               (case dec_u es of
                  None \<Rightarrow> None
                | Some (r, k) \<Rightarrow> prepend r (dec_body (drop k es)))
             else (case unescape e of
                     None \<Rightarrow> None
                   | Some x \<Rightarrow> prepend [x] (dec_body es)))
      else if byte_of c < 32 then None
      else if utf8_len (c # cs) = 0 then prepend rune_error (dec_body cs)
      else prepend (take (utf8_len (c # cs)) (c # cs)) (dec_body (drop (utf8_len (c # cs) - 1) cs)))"
  by pat_completeness auto
termination by (relation "measure length") (auto simp del: utf8_len.simps)


declare utf8_len.simps [simp del]

lemma lead_len_one: "lead_len c = Suc 0 \<longleftrightarrow> byte_of c < 0x80"
  by (simp add: lead_len_def)

lemma utf8_len_le: "utf8_len s \<le> length s"
  by (cases s) (auto simp: utf8_len.simps)

lemma utf8_len_one: "utf8_len (c # cs) = Suc 0 \<longleftrightarrow> byte_of c < 0x80"
  by (auto simp: utf8_len.simps lead_len_one [symmetric])

lemma utf8_len_ascii [simp]: "byte_of c < 0x80 \<Longrightarrow> utf8_len (c # cs) = 1"
  by (simp add: utf8_len.simps lead_len_def)

lemma utf8_len_take: "utf8_len s \<noteq> 0 \<Longrightarrow> utf8_len (take (utf8_len s) s @ t) = utf8_len s"
proof (cases s)
  case (Cons a r)
  assume nz: "utf8_len s \<noteq> 0"
  show ?thesis
  proof (cases "lead_len a \<le> 1")
    case True
    with nz Cons show ?thesis by (cases "lead_len a") (auto simp: utf8_len.simps)
  next
    case False
    with nz Cons have ok: "lead_len a - 1 \<le> length r" "second_ok a (hd r)"
        "list_all is_cont (take (lead_len a - 1) r)" and k: "utf8_len s = lead_len a"
      by (auto simp: utf8_len.simps split: if_splits)
    obtain j where j: "lead_len a = Suc (Suc j)"
      using False by (cases "lead_len a"; cases "lead_len a - 1") auto
    with ok obtain b r' where r: "r = b # r'" by (cases r) auto
    from False ok j r show ?thesis unfolding k unfolding Cons by (simp add: utf8_len.simps)
  qed
qed (simp add: utf8_len.simps)

lemma char_byte: "char_of (byte_of c) = c"
  by simp

lemma byte_eq: "byte_of c = byte_of d \<Longrightarrow> c = d"
  by simp

lemma hex_value_digit [simp]: "d < 16 \<Longrightarrow> hex_value (hex_digit d) = Some d"
  by (auto simp: hex_value_def hex_digit_def Let_def)

lemma utf8_of_ascii [simp]: "b < 0x80 \<Longrightarrow> utf8_of b = [char_of b]"
  by (simp add: utf8_of_def)

lemma dec_u_ascii:
  assumes "byte_of c < 0x80"
  shows "dec_u (CHR ''0'' # CHR ''0'' # hex_digit (byte_of c div 16) # hex_digit (byte_of c mod 16) # t)
    = Some ([c], 4)"
proof -
  have z: "hex_value (CHR ''0'') = Some 0" by (simp add: hex_value_def)
  have "hex4 (CHR ''0'' # CHR ''0'' # hex_digit (byte_of c div 16) # hex_digit (byte_of c mod 16) # t)
      = Some (byte_of c)"
    using assms by (simp add: hex4_def z)
  then show ?thesis using assms by (simp add: dec_u_def surrogate_def)
qed

lemma dec_esc_ascii:
  assumes "byte_of c < 0x80"
  shows "dec_body (esc_ascii c @ t) = prepend [c] (dec_body t)"
proof -
  consider "byte_of c = 34 \<or> byte_of c = 92"
    | "byte_of c = 8" | "byte_of c = 12" | "byte_of c = 10" | "byte_of c = 13" | "byte_of c = 9"
    | "byte_of c \<notin> {34, 92, 8, 12, 10, 13, 9}"
      "byte_of c < 32 \<or> byte_of c = 60 \<or> byte_of c = 62 \<or> byte_of c = 38"
    | "byte_of c \<notin> {34, 92, 60, 62, 38}" "32 \<le> byte_of c" by force
  then show ?thesis
  proof cases
    case 1
    then have "c = CHR 0x22 \<or> c = CHR 0x5C" by (auto intro: byte_eq)
    then show ?thesis by (auto simp: esc_ascii_def unescape_def)
  next
    case 2
    then have "c = CHR 8" by (intro byte_eq) simp
    then show ?thesis by (simp add: esc_ascii_def unescape_def)
  next
    case 3
    then have "c = CHR 12" by (intro byte_eq) simp
    then show ?thesis by (simp add: esc_ascii_def unescape_def)
  next
    case 4
    then have "c = CHR 10" by (intro byte_eq) simp
    then show ?thesis by (simp add: esc_ascii_def unescape_def)
  next
    case 5
    then have "c = CHR 13" by (intro byte_eq) simp
    then show ?thesis by (simp add: esc_ascii_def unescape_def)
  next
    case 6
    then have "c = CHR 9" by (intro byte_eq) simp
    then show ?thesis by (simp add: esc_ascii_def unescape_def)
  next
    case 7
    then have "esc_ascii c = CHR 0x5C # CHR ''u'' # CHR ''0'' # CHR ''0''
        # [hex_digit (byte_of c div 16), hex_digit (byte_of c mod 16)]"
      by (simp add: esc_ascii_def Let_def)
    then show ?thesis using dec_u_ascii [OF assms, of t] by simp
  next
    case 8
    then show ?thesis using assms by (simp add: esc_ascii_def Let_def)
  qed
qed

lemma dec_raw:
  assumes k: "2 \<le> utf8_len (c # cs)"
  shows "dec_body (take (utf8_len (c # cs)) (c # cs) @ t)
    = prepend (take (utf8_len (c # cs)) (c # cs)) (dec_body t)"
proof -
  let ?k = "utf8_len (c # cs)"
  from k obtain j where j: "?k = Suc j" by (cases ?k) auto
  have big: "\<not> byte_of c < 0x80" using k utf8_len_ascii [of c cs] by fastforce
  have l: "utf8_len (c # take j cs @ t) = Suc j"
    using utf8_len_take [of "c # cs" t] k j by simp
  have len: "min (length cs) j = j" using utf8_len_le [of "c # cs"] j by simp
  show ?thesis using big by (simp add: j l len)
qed

lemma dec_esc_rune:
  assumes "utf8_len (c # cs) \<noteq> 0"
  shows "dec_body (esc_rune (take (utf8_len (c # cs)) (c # cs)) @ t)
    = prepend (take (utf8_len (c # cs)) (c # cs)) (dec_body t)"
proof (cases "utf8_len (c # cs) = 1")
  case True
  then have "byte_of c < 0x80" using utf8_len_one [of c cs] by simp
  with True show ?thesis by (simp add: esc_rune_def dec_esc_ascii)
next
  case False
  with assms have two: "2 \<le> utf8_len (c # cs)" by simp
  let ?r = "take (utf8_len (c # cs)) (c # cs)"
  have len: "2 \<le> length ?r" using two utf8_len_le [of "c # cs"] by simp
  have u: "dec_u (''2028'' @ t) = Some (map char_of [0xE2, 0x80, 0xA8 :: nat], 4)"
          "dec_u (''2029'' @ t) = Some (map char_of [0xE2, 0x80, 0xA9 :: nat], 4)"
    by (simp_all add: dec_u_def hex4_def hex_value_def surrogate_def utf8_of_def)
  have raw: "esc_rune r = r" if "2 \<le> length r" "r \<noteq> map char_of [0xE2, 0x80, 0xA8 :: nat]"
    "r \<noteq> map char_of [0xE2, 0x80, 0xA9 :: nat]" for r
    using that by (cases r; cases "tl r") (simp_all add: esc_rune_def)
  consider "?r = map char_of [0xE2, 0x80, 0xA8 :: nat]" | "?r = map char_of [0xE2, 0x80, 0xA9 :: nat]"
    | "esc_rune ?r = ?r"
    using raw [OF len] by blast
  then show ?thesis
  proof cases
    case 1
    then have "esc_rune ?r = CHR 0x5C # ''u2028''" by (simp add: esc_rune_def)
    then show ?thesis using u(1) 1 by simp
  next
    case 2
    then have "esc_rune ?r = CHR 0x5C # ''u2029''" by (simp add: esc_rune_def)
    then show ?thesis using u(2) 2 by simp
  next
    case 3
    then show ?thesis using dec_raw [OF two, of t] by simp
  qed
qed

lemma prepend_Some [simp]: "prepend p (Some (s, t)) = Some (p @ s, t)"
  by (simp add: prepend_def)

lemma take_drop_pred: "k \<noteq> 0 \<Longrightarrow> take k (c # cs) @ drop (k - Suc 0) cs = c # cs"
  by (cases k) simp_all

lemma dec_enc_body: "valid_utf8 s \<Longrightarrow> dec_body (enc_body s @ CHR 0x22 # r) = Some (s, r)"
proof (induction s rule: enc_body.induct)
  case 1
  then show ?case by simp
next
  case (2 c cs)
  then have nz: "utf8_len (c # cs) \<noteq> 0" and v: "valid_utf8 (drop (utf8_len (c # cs) - 1) cs)"
    by auto
  have "dec_body (enc_body (c # cs) @ CHR 0x22 # r)
      = prepend (take (utf8_len (c # cs)) (c # cs))
          (dec_body (enc_body (drop (utf8_len (c # cs) - 1) cs) @ CHR 0x22 # r))"
    using nz dec_esc_rune [OF nz] by simp
  also have "\<dots> = Some (c # cs, r)"
    using 2(2) [OF nz v] take_drop_pred [OF nz] by simp
  finally show ?case .
qed


subsection \<open>Decoding values\<close>

definition is_ws :: "char \<Rightarrow> bool" where
  "is_ws c \<longleftrightarrow> byte_of c = 32 \<or> byte_of c = 9 \<or> byte_of c = 10 \<or> byte_of c = 13"

definition skip_ws :: "string \<Rightarrow> string" where
  "skip_ws s = dropWhile is_ws s"

text \<open>A number literal of the JSON grammar and the text after it.\<close>

definition scan_digits :: "string \<Rightarrow> (string \<times> string) option" where
  "scan_digits s =
     (if takeWhile is_digit s = [] then None else Some (takeWhile is_digit s, dropWhile is_digit s))"

definition scan_int :: "string \<Rightarrow> (string \<times> string) option" where
  "scan_int s =
     (case s of
        [] \<Rightarrow> None
      | c # cs \<Rightarrow> if c = CHR ''0'' then Some ([c], cs) else scan_digits s)"

definition scan_frac :: "string \<Rightarrow> (string \<times> string) option" where
  "scan_frac s =
     (case s of
        c # cs \<Rightarrow> if c = CHR ''.'' then prepend [c] (scan_digits cs) else Some ([], s)
      | [] \<Rightarrow> Some ([], []))"

definition scan_exp :: "string \<Rightarrow> (string \<times> string) option" where
  "scan_exp s =
     (case s of
        c # cs \<Rightarrow>
          if c = CHR ''e'' \<or> c = CHR ''E'' then
            (case cs of
               d # ds \<Rightarrow> if d = CHR ''+'' \<or> d = CHR ''-'' then prepend [c, d] (scan_digits ds)
                         else prepend [c] (scan_digits cs)
             | [] \<Rightarrow> None)
          else Some ([], s)
      | [] \<Rightarrow> Some ([], []))"

definition scan_number :: "string \<Rightarrow> (string \<times> string) option" where
  "scan_number s =
     (let (sg, r) = (case s of c # cs \<Rightarrow> if c = CHR ''-'' then ([c], cs) else ([], s) | [] \<Rightarrow> ([], []))
      in case scan_int r of
           None \<Rightarrow> None
         | Some (i, r1) \<Rightarrow>
             (case scan_frac r1 of
                None \<Rightarrow> None
              | Some (f, r2) \<Rightarrow>
                  (case scan_exp r2 of None \<Rightarrow> None | Some (e, r3) \<Rightarrow> Some (sg @ i @ f @ e, r3))))"

definition max_depth :: nat where
  "max_depth = 10000"

definition scan_literal :: "string \<Rightarrow> json \<Rightarrow> string \<Rightarrow> (json \<times> string) option" where
  "scan_literal w v s = (if has_prefix s w then Some (v, drop (length w) s) else None)"

text \<open>
  The value at the head of the text and the text after it. The first argument is fuel: one unit per
  call, and every call consumes a character, so the length of the text plus two is enough.
\<close>

fun parse_value :: "nat \<Rightarrow> nat \<Rightarrow> string \<Rightarrow> (json \<times> string) option"
  and parse_elems :: "nat \<Rightarrow> nat \<Rightarrow> string \<Rightarrow> (json list \<times> string) option"
  and parse_members :: "nat \<Rightarrow> nat \<Rightarrow> string \<Rightarrow> ((string \<times> json) list \<times> string) option" where
  "parse_value 0 d s = None"
| "parse_value (Suc n) d s =
     (case skip_ws s of
        [] \<Rightarrow> None
      | c # cs \<Rightarrow>
          if c = CHR 0x22 then map_option (\<lambda>(t, r). (JStr t, r)) (dec_body cs)
          else if c = CHR 0x7B then
            (if max_depth \<le> d then None
             else if takeWhile (\<lambda>x. x = CHR 0x7D) (skip_ws cs) \<noteq> [] then Some (JObj [], tl (skip_ws cs))
             else map_option (\<lambda>(ms, r). (JObj ms, r)) (parse_members n (d + 1) cs))
          else if c = CHR ''['' then
            (if max_depth \<le> d then None
             else if takeWhile (\<lambda>x. x = CHR '']'') (skip_ws cs) \<noteq> [] then Some (JArr [], tl (skip_ws cs))
             else map_option (\<lambda>(vs, r). (JArr vs, r)) (parse_elems n (d + 1) cs))
          else if c = CHR ''t'' then scan_literal ''true'' (JBool True) (c # cs)
          else if c = CHR ''f'' then scan_literal ''false'' (JBool False) (c # cs)
          else if c = CHR ''n'' then scan_literal ''null'' JNull (c # cs)
          else map_option (\<lambda>(t, r). (JNum t, r)) (scan_number (c # cs)))"
| "parse_elems 0 d s = None"
| "parse_elems (Suc n) d s =
     (case parse_value n d s of
        None \<Rightarrow> None
      | Some (v, r) \<Rightarrow>
          (case skip_ws r of
             c # cs \<Rightarrow> if c = CHR '','' then map_option (\<lambda>(vs, q). (v # vs, q)) (parse_elems n d cs)
                       else if c = CHR '']'' then Some ([v], cs)
                       else None
           | [] \<Rightarrow> None))"
| "parse_members 0 d s = None"
| "parse_members (Suc n) d s =
     (case skip_ws s of
        [] \<Rightarrow> None
      | c # cs \<Rightarrow>
          if c \<noteq> CHR 0x22 then None
          else (case dec_body cs of
                  None \<Rightarrow> None
                | Some (k, r) \<Rightarrow>
                    (case skip_ws r of
                       [] \<Rightarrow> None
                     | e # es \<Rightarrow>
                         if e \<noteq> CHR '':'' then None
                         else (case parse_value n d es of
                                 None \<Rightarrow> None
                               | Some (v, q) \<Rightarrow>
                                   (case skip_ws q of
                                      [] \<Rightarrow> None
                                    | f # fs \<Rightarrow>
                                        if f = CHR '','' then
                                          map_option (\<lambda>(ms, z). ((k, v) # ms, z)) (parse_members n d fs)
                                        else if f = CHR 0x7D then Some ([(k, v)], fs)
                                        else None)))))"

definition parse_json :: "string \<Rightarrow> json option" where
  "parse_json s =
     (case parse_value (length s + 2) 0 s of
        Some (v, r) \<Rightarrow> if skip_ws r = [] then Some v else None
      | None \<Rightarrow> None)"

subsection \<open>Decoding into a struct\<close>

text \<open>
  \<open>foldName\<close>: ASCII letters in upper case; the only other runes that fold to an ASCII letter are
  the long s and the Kelvin sign.
\<close>

definition upper_ascii :: "char \<Rightarrow> char" where
  "upper_ascii c = (if in_range 97 122 c then char_of (byte_of c - 32) else c)"

function fold_name :: "string \<Rightarrow> string" where
  "fold_name [] = []"
| "fold_name (c # cs) =
     (if has_prefix (c # cs) (map char_of [0xC5, 0xBF :: nat]) then CHR ''S'' # fold_name (tl cs)
      else if has_prefix (c # cs) (map char_of [0xE2, 0x84, 0xAA :: nat]) then CHR ''K'' # fold_name (drop 2 cs)
      else upper_ascii c # fold_name cs)"
  by pat_completeness auto
termination by (relation "measure length") auto

definition match_field :: "string list \<Rightarrow> string \<Rightarrow> string option" where
  "match_field names k =
     (if k \<in> set names then Some k
      else find (\<lambda>n. fold_name n = fold_name k) names)"

text \<open>
  The struct is a record of the model; \<open>set_field\<close> stores a value in the named field and gives
  \<open>None\<close> when the value has the wrong type. The decoder goes on after such an error and
  reports it at the end.
\<close>

definition decode_member ::
    "string list \<Rightarrow> (string \<Rightarrow> json \<Rightarrow> 'r \<Rightarrow> 'r option) \<Rightarrow> string \<times> json \<Rightarrow> 'r \<times> bool \<Rightarrow> 'r \<times> bool" where
  "decode_member names set_field kv st =
     (case match_field names (fst kv) of
        None \<Rightarrow> st
      | Some n \<Rightarrow>
          if snd kv = JNull then st
          else (case set_field n (snd kv) (fst st) of
                  Some r \<Rightarrow> (r, snd st)
                | None \<Rightarrow> (fst st, False)))"

definition decode_struct ::
    "string list \<Rightarrow> (string \<Rightarrow> json \<Rightarrow> 'r \<Rightarrow> 'r option) \<Rightarrow> 'r \<Rightarrow> string \<Rightarrow> 'r option" where
  "decode_struct names set_field zero s =
     (case parse_json s of
        None \<Rightarrow> None
      | Some JNull \<Rightarrow> Some zero
      | Some (JObj ms) \<Rightarrow>
          (case fold (decode_member names set_field) ms (zero, True) of
             (r, ok) \<Rightarrow> if ok then Some r else None)
      | Some _ \<Rightarrow> None)"

definition json_int :: "nat \<Rightarrow> json \<Rightarrow> int option" where
  "json_int w v =
     (case v of
        JNum n \<Rightarrow> (case parse_ok n of Some x \<Rightarrow> if in_width w x then Some x else None | None \<Rightarrow> None)
      | _ \<Rightarrow> None)"

definition json_str :: "json \<Rightarrow> string option" where
  "json_str v = (case v of JStr s \<Rightarrow> Some s | _ \<Rightarrow> None)"

subsection \<open>Round trip\<close>

fun json_depth :: "json \<Rightarrow> nat" where
  "json_depth (JArr vs) = Suc (fold max (map json_depth vs) 0)"
| "json_depth (JObj ms) = Suc (fold max (map (\<lambda>(k, v). json_depth v) ms) 0)"
| "json_depth _ = 0"

fun wf_json :: "json \<Rightarrow> bool" where
  "wf_json (JNum n) = (scan_number n = Some (n, []))"
| "wf_json (JStr s) = valid_utf8 s"
| "wf_json (JArr vs) = list_all wf_json vs"
| "wf_json (JObj ms) = list_all (\<lambda>(k, v). valid_utf8 k \<and> wf_json v) ms"
| "wf_json _ = True"

definition stops :: "string \<Rightarrow> bool" where
  "stops r \<longleftrightarrow> (case r of [] \<Rightarrow> True | c # _ \<Rightarrow> c = CHR '','' \<or> c = CHR '']'' \<or> c = CHR 0x7D)"

lemma stops_simps [simp]: "stops []" "stops (CHR '','' # r)" "stops (CHR '']'' # r)" "stops (CHR 0x7D # r)"
  by (simp_all add: stops_def)

lemma is_digit_stops: "stops (c # r) \<Longrightarrow> \<not> is_digit c \<and> c \<noteq> CHR ''.'' \<and> c \<noteq> CHR ''e'' \<and> c \<noteq> CHR ''E''"
  by (auto simp: stops_def is_digit_def)

lemma digits_append: "stops r \<Longrightarrow> takeWhile is_digit (s @ r) = takeWhile is_digit s"
  "stops r \<Longrightarrow> dropWhile is_digit (s @ r) = dropWhile is_digit s @ r"
  by (induction s) (cases r, auto dest: is_digit_stops)+

lemma scan_digits_append:
  "scan_digits s = Some (a, b) \<Longrightarrow> stops r \<Longrightarrow> scan_digits (s @ r) = Some (a, b @ r)"
  by (simp add: scan_digits_def digits_append split: if_splits)

lemma scan_int_append:
  "scan_int s = Some (a, b) \<Longrightarrow> stops r \<Longrightarrow> scan_int (s @ r) = Some (a, b @ r)"
  by (cases s) (use scan_digits_append [of s a b r] in \<open>auto simp: scan_int_def split: if_splits\<close>)

lemma prepend_Some_iff: "prepend p x = Some (a, b) \<longleftrightarrow> (\<exists>a'. x = Some (a', b) \<and> a = p @ a')"
  by (cases x) (auto simp: prepend_def)

lemma scan_frac_append:
  "scan_frac s = Some (a, b) \<Longrightarrow> stops r \<Longrightarrow> scan_frac (s @ r) = Some (a, b @ r)"
proof (cases s)
  case Nil
  assume "scan_frac s = Some (a, b)" "stops r"
  with Nil show ?thesis by (cases r) (auto simp: scan_frac_def dest: is_digit_stops)
next
  case (Cons c cs)
  assume "scan_frac s = Some (a, b)" "stops r"
  with Cons show ?thesis
    by (auto simp: scan_frac_def prepend_Some_iff scan_digits_append split: if_splits)
qed

lemma scan_exp_append:
  "scan_exp s = Some (a, b) \<Longrightarrow> stops r \<Longrightarrow> scan_exp (s @ r) = Some (a, b @ r)"
proof (cases s)
  case Nil
  assume "scan_exp s = Some (a, b)" "stops r"
  with Nil show ?thesis by (cases r) (auto simp: scan_exp_def dest: is_digit_stops)
next
  case (Cons c cs)
  assume h: "scan_exp s = Some (a, b)" "stops r"
  show ?thesis
  proof (cases cs)
    case Nil
    with h Cons show ?thesis by (auto simp: scan_exp_def split: if_splits)
  next
    case (Cons d ds)
    have ap: "scan_digits (d # ds) = Some (x, b) \<Longrightarrow> scan_digits (d # ds @ r) = Some (x, b @ r)" for x
      using scan_digits_append [of "d # ds" x b r] h(2) by simp
    from h \<open>s = c # cs\<close> Cons show ?thesis
      by (auto simp: scan_exp_def prepend_Some_iff scan_digits_append ap split: if_splits)
  qed
qed

lemma scan_number_append:
  assumes "scan_number s = Some (n, b)" and r: "stops r"
  shows "scan_number (s @ r) = Some (n, b @ r)"
proof -
  obtain sg q where sq: "(case s of c # cs \<Rightarrow> if c = CHR ''-'' then ([c], cs) else ([], s) | [] \<Rightarrow> ([], [])) = (sg, q)"
    by fastforce
  with assms(1) obtain i r1 f r2 e where
    i: "scan_int q = Some (i, r1)" and f: "scan_frac r1 = Some (f, r2)" and e: "scan_exp r2 = Some (e, b)"
    and n: "n = sg @ i @ f @ e"
    by (auto simp: scan_number_def split: option.splits)
  then have "s \<noteq> []" using sq by (auto simp: scan_int_def)
  then have sq': "(case s @ r of c # cs \<Rightarrow> if c = CHR ''-'' then ([c], cs) else ([], s @ r) | [] \<Rightarrow> ([], [])) = (sg, q @ r)"
    using sq by (cases s) (auto split: if_splits)
  show ?thesis
    unfolding scan_number_def sq'
    using scan_int_append [OF i r] scan_frac_append [OF f r] scan_exp_append [OF e r] n by simp
qed

lemma scan_number_head:
  "scan_number s = Some (n, b) \<Longrightarrow> \<exists>c cs. s = c # cs \<and> (is_digit c \<or> c = CHR ''-'')"
  by (cases s) (auto simp: scan_number_def scan_int_def scan_digits_def is_digit_def split: if_splits option.splits)

lemma digits_scan: "s \<noteq> [] \<Longrightarrow> list_all is_digit s \<Longrightarrow> scan_digits s = Some (s, [])"
  by (simp add: scan_digits_def list_all_iff takeWhile_eq_all_conv [THEN iffD2] dropWhile_eq_Nil_conv)

lemma nat_digits_zero: "nat_digits n = CHR ''0'' # cs \<Longrightarrow> cs = []"
proof (induction n arbitrary: cs rule: nat_digits.induct)
  case (1 n)
  show ?case
  proof (cases "n < 10")
    case True
    with 1(2) show ?thesis by (subst (asm) nat_digits.simps) simp
  next
    case False
    with 1(2) have e: "nat_digits (n div 10) @ [digit_char (n mod 10)] = CHR ''0'' # cs"
      by (subst (asm) nat_digits.simps) simp
    then obtain ds where ds: "nat_digits (n div 10) = CHR ''0'' # ds"
      by (cases "nat_digits (n div 10)") auto
    with 1(1) False have "nat_digits (n div 10) = ''0''" by simp
    then have "n div 10 = 0"
    proof -
      assume z: "nat_digits (n div 10) = ''0''"
      show "n div 10 = 0"
      proof (cases "n div 10 < 10")
        case True
        with z have "digit_char (n div 10) = CHR ''0''" by (subst (asm) nat_digits.simps) simp
        then have "digit_value (digit_char (n div 10)) = digit_value (CHR ''0'')" by simp
        with True show ?thesis by (simp add: digit_value_def [of "CHR ''0''"])
      next
        case False
        with z have "nat_digits (n div 10 div 10) = []" by (subst (asm) nat_digits.simps) simp
        then show ?thesis by simp
      qed
    qed
    with False show ?thesis by simp
  qed
qed

lemma scan_int_digits: "scan_int (nat_digits n) = Some (nat_digits n, [])"
proof -
  obtain c cs where c: "nat_digits n = c # cs" by (cases "nat_digits n") auto
  show ?thesis
  proof (cases "c = CHR ''0''")
    case True
    with c nat_digits_zero show ?thesis by (auto simp: scan_int_def)
  next
    case False
    then show ?thesis using c digits_scan [of "nat_digits n"] nat_digits_all_digits [of n]
      by (simp add: scan_int_def list_all_iff)
  qed
qed

lemma wf_format_int [simp]: "scan_number (format_int x) = Some (format_int x, [])"
proof (cases "x < 0")
  case True
  then show ?thesis by (simp add: format_int_def scan_number_def scan_int_digits scan_frac_def scan_exp_def)
next
  case False
  obtain c cs where c: "nat_digits (nat x) = c # cs" by (cases "nat_digits (nat x)") auto
  with hd_nat_digits [of "nat x"] have "c \<noteq> CHR ''-''" by (auto dest: is_digit_not_sign)
  with False c scan_int_digits [of "nat x"] show ?thesis
    by (simp add: format_int_def scan_number_def scan_frac_def scan_exp_def)
qed


lemma skip_ws_simps [simp]:
  "skip_ws [] = []"
  "skip_ws (CHR 0x22 # r) = CHR 0x22 # r" "skip_ws (CHR '','' # r) = CHR '','' # r"
  "skip_ws (CHR '':'' # r) = CHR '':'' # r" "skip_ws (CHR 0x7D # r) = CHR 0x7D # r"
  "skip_ws (CHR 0x7B # r) = CHR 0x7B # r" "skip_ws (CHR ''['' # r) = CHR ''['' # r"
  "skip_ws (CHR '']'' # r) = CHR '']'' # r"
  by (simp_all add: skip_ws_def is_ws_def)

text \<open>What the head of an encoded value looks like.\<close>

definition value_head :: "char \<Rightarrow> bool" where
  "value_head c \<longleftrightarrow> \<not> is_ws c \<and> c \<noteq> CHR '']'' \<and> c \<noteq> CHR 0x7D"

lemma is_digit_head: "is_digit c \<or> c = CHR ''-'' \<Longrightarrow>
    value_head c \<and> c \<noteq> CHR 0x22 \<and> c \<noteq> CHR 0x7B \<and> c \<noteq> CHR ''['' \<and> c \<noteq> CHR ''t'' \<and> c \<noteq> CHR ''f'' \<and> c \<noteq> CHR ''n''"
  by (auto simp: is_digit_def value_head_def is_ws_def)

lemma enc_json_head: "wf_json v \<Longrightarrow> \<exists>c cs. enc_json v = c # cs \<and> value_head c"
proof (cases v)
  case (JNum n)
  assume "wf_json v"
  with JNum scan_number_head [of n n "[]"] is_digit_head show ?thesis by auto
qed (auto simp: enc_string_def value_head_def is_ws_def)

definition parses :: "json \<Rightarrow> bool" where
  "parses v \<longleftrightarrow>
     (\<forall>n d r. length (enc_json v) \<le> n \<and> d + json_depth v \<le> max_depth \<and> stops r \<longrightarrow>
        parse_value n d (enc_json v @ r) = Some (v, r))"

lemma parsesD:
  "parses v \<Longrightarrow> length (enc_json v) \<le> n \<Longrightarrow> d + json_depth v \<le> max_depth \<Longrightarrow> stops r \<Longrightarrow>
   parse_value n d (enc_json v @ r) = Some (v, r)"
  by (simp add: parses_def)

lemma parse_elems_enc:
  assumes "vs \<noteq> []" "\<forall>v \<in> set vs. parses v \<and> d + json_depth v \<le> max_depth"
    "length (join_with (CHR '','') (map enc_json vs)) < n"
  shows "parse_elems n d (join_with (CHR '','') (map enc_json vs) @ CHR '']'' # r) = Some (vs, r)"
  using assms
proof (induction vs arbitrary: n)
  case (Cons v vs)
  then obtain m where m: "n = Suc m" by (cases n) auto
  show ?case
  proof (cases "vs = []")
    case True
    with Cons.prems m parsesD [of v m d "CHR '']'' # r"] show ?thesis by simp
  next
    case False
    let ?rest = "join_with (CHR '','') (map enc_json vs)"
    from False have j: "join_with (CHR '','') (map enc_json (v # vs)) = enc_json v @ CHR '','' # ?rest"
      by (simp add: join_with_Cons)
    have "parse_value m d (enc_json v @ CHR '','' # ?rest @ CHR '']'' # r)
        = Some (v, CHR '','' # ?rest @ CHR '']'' # r)"
      using Cons.prems m j by (intro parsesD) auto
    moreover have "parse_elems m d (?rest @ CHR '']'' # r) = Some (vs, r)"
      using Cons.prems m j False by (intro Cons.IH) auto
    ultimately show ?thesis unfolding j by (simp add: m)
  qed
qed simp

definition enc_member :: "string \<times> json \<Rightarrow> string" where
  "enc_member m = enc_string (fst m) @ CHR '':'' # enc_json (snd m)"

lemma enc_member_eq: "(\<lambda>(k, v). enc_string k @ CHR '':'' # enc_json v) = enc_member"
  by (auto simp: enc_member_def)

lemma parse_members_enc:
  assumes "ms \<noteq> []"
    "\<forall>m \<in> set ms. valid_utf8 (fst m) \<and> parses (snd m) \<and> d + json_depth (snd m) \<le> max_depth"
    "length (join_with (CHR '','') (map enc_member ms)) < n"
  shows "parse_members n d (join_with (CHR '','') (map enc_member ms) @ CHR 0x7D # r) = Some (ms, r)"
  using assms
proof (induction ms arbitrary: n)
  case (Cons m ms)
  then obtain j where n: "n = Suc j" by (cases n) auto
  obtain k v where kv: "m = (k, v)" by force
  have head: "parse_members (Suc j) d (enc_member m @ t) =
      (case parse_value j d (enc_json v @ t) of
         None \<Rightarrow> None
       | Some (v, q) \<Rightarrow>
           (case skip_ws q of
              [] \<Rightarrow> None
            | f # fs \<Rightarrow>
                if f = CHR '','' then map_option (\<lambda>(ms, z). ((k, v) # ms, z)) (parse_members j d fs)
                else if f = CHR 0x7D then Some ([(k, v)], fs)
                else None))" for t
    using Cons.prems kv dec_enc_body [of k "CHR '':'' # enc_json v @ t"]
    by (simp add: enc_member_def enc_string_def)
  show ?case
  proof (cases "ms = []")
    case True
    have "length (enc_json v) \<le> j"
      using Cons.prems n kv True by (simp add: enc_member_def)
    then have "parse_value j d (enc_json v @ CHR 0x7D # r) = Some (v, CHR 0x7D # r)"
      using Cons.prems kv by (intro parsesD) auto
    with True n head [of "CHR 0x7D # r"] show ?thesis by (simp add: kv)
  next
    case False
    let ?rest = "join_with (CHR '','') (map enc_member ms)"
    from False have jn: "join_with (CHR '','') (map enc_member (m # ms)) = enc_member m @ CHR '','' # ?rest"
      by (simp add: join_with_Cons)
    have "parse_value j d (enc_json v @ CHR '','' # ?rest @ CHR 0x7D # r)
        = Some (v, CHR '','' # ?rest @ CHR 0x7D # r)"
    proof (rule parsesD)
      have "length (enc_json v) < length (enc_member m)" by (simp add: kv enc_member_def)
      with Cons.prems(3) n jn show "length (enc_json v) \<le> j" by simp
    qed (use Cons.prems kv in auto)
    moreover have "parse_members j d (?rest @ CHR 0x7D # r) = Some (ms, r)"
      using Cons.prems n jn False by (intro Cons.IH) auto
    ultimately show ?thesis unfolding jn n using head [of "CHR '','' # ?rest @ CHR 0x7D # r"]
      by (simp add: kv del: parse_members.simps)
  qed
qed simp

lemma fold_max_le: "(\<forall>x \<in> set xs. (f x :: nat) \<le> fold max (map f xs) 0)"
proof -
  have "(a::nat) \<le> fold max xs a \<and> (\<forall>x \<in> set xs. x \<le> fold max xs a)" for xs a
    by (induction xs arbitrary: a) (auto, (meson max.bounded_iff order_trans)+)
  then show ?thesis by (metis image_eqI set_map)
qed

lemma literal_parses [simp]: "parses JNull" "parses (JBool b)"
  unfolding parses_def
  by (clarify; case_tac n; simp add: skip_ws_def is_ws_def scan_literal_def has_prefix_def split: if_splits)+

lemma string_parses: "valid_utf8 s \<Longrightarrow> parses (JStr s)"
  unfolding parses_def
proof clarify
  fix n d r
  assume "valid_utf8 s" "length (enc_json (JStr s)) \<le> n"
  then show "parse_value n d (enc_json (JStr s) @ r) = Some (JStr s, r)"
    by (cases n) (simp_all add: enc_string_def dec_enc_body)
qed

lemma number_parses: "scan_number s = Some (s, []) \<Longrightarrow> parses (JNum s)"
  unfolding parses_def
proof clarify
  fix n d r
  assume s: "scan_number s = Some (s, [])" and n: "length (enc_json (JNum s)) \<le> n" and r: "stops r"
  from scan_number_head [OF s] obtain c cs where c: "s = c # cs" "is_digit c \<or> c = CHR ''-''" by blast
  with is_digit_head have h: "value_head c" and ne: "c \<noteq> CHR 0x22" "c \<noteq> CHR 0x7B" "c \<noteq> CHR ''[''"
    "c \<noteq> CHR ''t''" "c \<noteq> CHR ''f''" "c \<noteq> CHR ''n''" by blast+
  have "skip_ws (s @ r) = s @ r" using h c by (simp add: skip_ws_def value_head_def)
  moreover have "scan_number (s @ r) = Some (s, r)" using scan_number_append [OF s r] by simp
  moreover obtain m where "n = Suc m" using n c by (cases n) auto
  ultimately show "parse_value n d (enc_json (JNum s) @ r) = Some (JNum s, r)"
    using c ne by simp
qed

lemma array_parses:
  assumes "\<forall>v \<in> set vs. wf_json v \<and> parses v"
  shows "parses (JArr vs)"
  unfolding parses_def
proof clarify
  fix n d r
  assume n: "length (enc_json (JArr vs)) \<le> n" and d: "d + json_depth (JArr vs) \<le> max_depth" and r: "stops r"
  then obtain m where m: "n = Suc m" by (cases n) auto
  have dd: "\<forall>v \<in> set vs. Suc d + json_depth v \<le> max_depth"
    using d fold_max_le [of vs json_depth] by fastforce
  show "parse_value n d (enc_json (JArr vs) @ r) = Some (JArr vs, r)"
  proof (cases vs)
    case Nil
    with m d show ?thesis by simp
  next
    case (Cons v ws)
    have e: "parse_elems m (Suc d) (join_with (CHR '','') (map enc_json vs) @ CHR '']'' # r) = Some (vs, r)"
      using assms dd n m Cons by (intro parse_elems_enc) auto
    obtain c cs where c: "enc_json v = c # cs" "value_head c"
      using assms Cons enc_json_head [of v] by auto
    then have "\<exists>t. join_with (CHR '','') (map enc_json vs) = c # t"
      using Cons by (cases ws) auto
    with c have "takeWhile (\<lambda>x. x = CHR '']'') (skip_ws (join_with (CHR '','') (map enc_json vs) @ CHR '']'' # r)) = []"
      by (auto simp: skip_ws_def value_head_def)
    with e m d Cons show ?thesis by simp
  qed
qed

lemma object_parses:
  assumes "\<forall>m \<in> set ms. valid_utf8 (fst m) \<and> wf_json (snd m) \<and> parses (snd m)"
  shows "parses (JObj ms)"
  unfolding parses_def
proof clarify
  fix n d r
  assume n: "length (enc_json (JObj ms)) \<le> n" and d: "d + json_depth (JObj ms) \<le> max_depth" and r: "stops r"
  then obtain m where m: "n = Suc m" by (cases n) auto
  have dd: "\<forall>x \<in> set ms. Suc d + json_depth (snd x) \<le> max_depth"
    using d fold_max_le [of ms "\<lambda>(k, v). json_depth v"] by fastforce
  show "parse_value n d (enc_json (JObj ms) @ r) = Some (JObj ms, r)"
  proof (cases ms)
    case Nil
    with m d show ?thesis by simp
  next
    case (Cons v ws)
    have e: "parse_members m (Suc d) (join_with (CHR '','') (map enc_member ms) @ CHR 0x7D # r) = Some (ms, r)"
      using assms dd n m Cons by (intro parse_members_enc) (auto simp: enc_member_eq)
    have "\<exists>t. join_with (CHR '','') (map enc_member ms) = CHR 0x22 # t"
      using Cons by (cases ws) (auto simp: enc_member_def enc_string_def)
    then have "takeWhile (\<lambda>x. x = CHR 0x7D) (skip_ws (join_with (CHR '','') (map enc_member ms) @ CHR 0x7D # r)) = []"
      by auto
    with e m d Cons show ?thesis by (simp add: enc_member_eq)
  qed
qed

lemma wf_parses: "wf_json v \<Longrightarrow> parses v"
proof (induction v)
  case (JArr vs)
  then show ?case by (intro array_parses) (auto simp: list_all_iff)
next
  case (JObj ms)
  have "parses (snd m)" if "m \<in> set ms" for m
    using JObj.IH [OF that, of "snd m"] JObj.prems that by (cases m) (auto simp: list_all_iff)
  with JObj.prems show ?case by (intro object_parses) (auto simp: list_all_iff)
qed (auto simp: string_parses number_parses)

lemma json_roundtrip:
  assumes "wf_json v" "json_depth v \<le> max_depth"
  shows "parse_json (enc_json v) = Some v"
  using parsesD [OF wf_parses [OF assms(1)], of "length (enc_json v) + 2" 0 "[]"] assms(2)
  by (simp add: parse_json_def)


text \<open>The encoder escapes every control character, so an encoded value is one line.\<close>

lemma newline_eq: "c = CHR 0x0A \<longleftrightarrow> byte_of c = 10"
  by (auto intro: byte_eq)

lemma hex_digit_line: "d < 16 \<Longrightarrow> CHR 0x0A \<noteq> hex_digit d"
proof
  assume "d < 16" "CHR 0x0A = hex_digit d"
  then have "hex_value (CHR 0x0A) = Some d" by simp
  then show False by (simp add: hex_value_def)
qed

lemma esc_ascii_line: "byte_of c < 0x80 \<Longrightarrow> CHR 0x0A \<notin> set (esc_ascii c)"
  using hex_digit_line [of "byte_of c div 16"] hex_digit_line [of "byte_of c mod 16"]
  by (auto simp: esc_ascii_def Let_def)

lemma utf8_take_high:
  assumes "2 \<le> utf8_len (c # cs)" "x \<in> set (take (utf8_len (c # cs)) (c # cs))"
  shows "0x80 \<le> byte_of x"
proof -
  from assms(1) obtain j where k: "utf8_len (c # cs) = Suc (Suc j)" "lead_len c = Suc (Suc j)"
      and ok: "list_all is_cont (take (Suc j) cs)"
    by (cases "utf8_len (c # cs)"; cases "utf8_len (c # cs) - 1")
       (auto simp: utf8_len.simps split: if_splits)
  have "\<not> byte_of c < 0x80" using k(2) lead_len_one [of c] by auto
  with assms(2) ok k(1) show ?thesis by (auto simp: list_all_iff in_range_def)
qed

lemma esc_rune_line:
  assumes "utf8_len (c # cs) \<noteq> 0"
  shows "CHR 0x0A \<notin> set (esc_rune (take (utf8_len (c # cs)) (c # cs)))"
proof (cases "utf8_len (c # cs) = 1")
  case True
  then have "byte_of c < 0x80" using utf8_len_one [of c cs] by simp
  with True show ?thesis by (simp add: esc_rune_def esc_ascii_line)
next
  case False
  with assms have two: "2 \<le> utf8_len (c # cs)" by simp
  let ?r = "take (utf8_len (c # cs)) (c # cs)"
  have "CHR 0x0A \<notin> set ?r" using utf8_take_high [OF two, of "CHR 0x0A"] by auto
  moreover have "2 \<le> length ?r" using two utf8_len_le [of "c # cs"] by simp
  moreover have "CHR 0x0A \<notin> set (esc_rune r)" if "2 \<le> length r" "CHR 0x0A \<notin> set r" for r
    using that by (cases r; cases "tl r") (simp_all add: esc_rune_def)
  ultimately show ?thesis by blast
qed

lemma enc_body_line: "CHR 0x0A \<notin> set (enc_body s)"
proof (induction s rule: enc_body.induct)
  case (2 c cs)
  then show ?case using esc_rune_line [of c cs] by auto
qed simp

lemma scan_digits_line: "scan_digits s = Some (a, b) \<Longrightarrow> CHR 0x0A \<notin> set a"
  by (auto simp: scan_digits_def is_digit_def split: if_splits dest: set_takeWhileD)

lemma scan_number_line: "scan_number s = Some (n, b) \<Longrightarrow> CHR 0x0A \<notin> set n"
proof -
  assume s: "scan_number s = Some (n, b)"
  obtain sg q where sq: "(case s of c # cs \<Rightarrow> if c = CHR ''-'' then ([c], cs) else ([], s) | [] \<Rightarrow> ([], [])) = (sg, q)"
    by fastforce
  with s obtain i f e r1 r2 where n: "n = sg @ i @ f @ e"
    and p: "scan_int q = Some (i, r1)" "scan_frac r1 = Some (f, r2)" "scan_exp r2 = Some (e, b)"
    by (auto simp: scan_number_def split: option.splits)
  have sg: "CHR 0x0A \<notin> set sg" using sq by (auto split: list.splits if_splits)
  have "CHR 0x0A \<notin> set i"
    using p(1) scan_digits_line by (auto simp: scan_int_def split: list.splits if_splits)
  moreover have "CHR 0x0A \<notin> set f"
    using p(2) scan_digits_line by (auto simp: scan_frac_def prepend_Some_iff split: list.splits if_splits)
  moreover have "CHR 0x0A \<notin> set e"
    using p(3) scan_digits_line by (auto simp: scan_exp_def prepend_Some_iff split: list.splits if_splits)
  ultimately show ?thesis using sg n by simp
qed

lemma join_with_set: "set (join_with d ws) \<subseteq> insert d (\<Union>w \<in> set ws. set w)"
  by (induction d ws rule: join_with.induct) auto

lemma enc_json_line: "wf_json v \<Longrightarrow> CHR 0x0A \<notin> set (enc_json v)"
proof (induction v)
  case (JArr vs)
  then show ?case using join_with_set [of "CHR '',''" "map enc_json vs"] by (auto simp: list_all_iff)
next
  case (JObj ms)
  have "CHR 0x0A \<notin> set (enc_member m)" if "m \<in> set ms" for m
    using JObj.IH [OF that, of "snd m"] JObj.prems that enc_body_line [of "fst m"]
    by (cases m) (auto simp: list_all_iff enc_member_def enc_string_def)
  then show ?case using join_with_set [of "CHR '',''" "map enc_member ms"]
    by (auto simp: enc_member_eq)
qed (auto simp: enc_string_def enc_body_line scan_number_line)

lemma decode_struct_object:
  assumes "wf_json (JObj ms)" "json_depth (JObj ms) \<le> max_depth"
    "fold (decode_member names set_field) ms (zero, True) = (r, True)"
  shows "decode_struct names set_field zero (enc_json (JObj ms)) = Some r"
  by (simp add: decode_struct_def json_roundtrip [OF assms(1,2)] assms(3) del: enc_json.simps)

lemma valid_utf8_ascii: "list_all (\<lambda>c. byte_of c < 128) s \<Longrightarrow> valid_utf8 s"
  by (induction s) (simp_all)

lemma nat_digits_ascii: "list_all (\<lambda>c. byte_of c < 128) (nat_digits n)"
  using nat_digits_all_digits [of n] by (fastforce simp: list_all_iff is_digit_def)

lemma valid_utf8_format [simp]: "valid_utf8 (format_int x)"
  by (intro valid_utf8_ascii) (simp add: format_int_def nat_digits_ascii)

subsection \<open>Decoded strings are valid UTF-8\<close>

lemma valid_utf8_rune:
  "utf8_len s = length s \<Longrightarrow> s \<noteq> [] \<Longrightarrow> valid_utf8 s"
  by (cases s) auto

lemma utf8_len_prefix: "utf8_len s \<noteq> 0 \<Longrightarrow> utf8_len (s @ t) = utf8_len s"
proof -
  assume nz: "utf8_len s \<noteq> 0"
  have "take (utf8_len s) s @ (drop (utf8_len s) s @ t) = s @ t" by simp
  with utf8_len_take [OF nz, of "drop (utf8_len s) s @ t"] show ?thesis by simp
qed

lemma valid_utf8_append: "valid_utf8 s \<Longrightarrow> valid_utf8 t \<Longrightarrow> valid_utf8 (s @ t)"
proof (induction s rule: valid_utf8.induct)
  case (2 c cs)
  let ?k = "utf8_len (c # cs)"
  from 2(2) have nz: "?k \<noteq> 0" and v: "valid_utf8 (drop (?k - 1) cs)" by auto
  have k: "utf8_len (c # cs @ t) = ?k" using utf8_len_prefix [OF nz, of t] by simp
  have "drop (?k - 1) (cs @ t) = drop (?k - 1) cs @ t"
    using utf8_len_le [of "c # cs"] by simp
  then show ?case using 2(1) [OF v 2(3)] nz by (simp add: k)
qed simp

lemma valid_utf8_take: "utf8_len s \<noteq> 0 \<Longrightarrow> valid_utf8 (take (utf8_len s) s)"
  using utf8_len_take [of s "[]"] utf8_len_le [of s] by (intro valid_utf8_rune) auto

lemma byte_char [simp]: "b < 256 \<Longrightarrow> byte_of (char_of b) = b"
  by (simp add: of_char_of)

lemma valid_rune_error [simp]: "valid_utf8 rune_error"
  by (rule valid_utf8_rune)
     (simp_all add: rune_error_def utf8_len.simps lead_len_def second_ok_def in_range_def)

lemma utf8_len_three:
  assumes "(a::nat) < 16" "(b::nat) < 64" "(c::nat) < 64" "a = 0 \<Longrightarrow> 32 \<le> b" "a = 13 \<Longrightarrow> b < 32"
  shows "utf8_len [char_of (0xE0 + a), char_of (0x80 + b), char_of (0x80 + c)] = 3"
proof -
  have "byte_of (char_of (0xE0 + a)) = 0xE0 + a" "byte_of (char_of (0x80 + b)) = 0x80 + b"
    "byte_of (char_of (0x80 + c)) = 0x80 + c" using assms by (intro byte_char, simp)+
  note bytes = this
  have l: "lead_len (char_of (0xE0 + a)) = 3"
    using assms(1) unfolding lead_len_def in_range_def bytes by simp
  have so: "second_ok (char_of (0xE0 + a)) (char_of (0x80 + b))"
    using assms unfolding second_ok_def bytes by auto
  have "is_cont (char_of (0x80 + b))" "is_cont (char_of (0x80 + c))"
    using assms unfolding in_range_def bytes by auto
  with l so show ?thesis unfolding utf8_len.simps by (simp add: numeral_eq_Suc)
qed

lemma utf8_len_four:
  assumes "(a::nat) < 5" "(b::nat) < 64" "(c::nat) < 64" "(d::nat) < 64" "a = 0 \<Longrightarrow> 16 \<le> b" "a = 4 \<Longrightarrow> b < 16"
  shows "utf8_len [char_of (0xF0 + a), char_of (0x80 + b), char_of (0x80 + c), char_of (0x80 + d)] = 4"
proof -
  have "byte_of (char_of (0xF0 + a)) = 0xF0 + a" "byte_of (char_of (0x80 + b)) = 0x80 + b"
    "byte_of (char_of (0x80 + c)) = 0x80 + c" "byte_of (char_of (0x80 + d)) = 0x80 + d"
    using assms by (intro byte_char, simp)+
  note bytes = this
  have l: "lead_len (char_of (0xF0 + a)) = 4"
    using assms(1) unfolding lead_len_def in_range_def bytes by simp
  have so: "second_ok (char_of (0xF0 + a)) (char_of (0x80 + b))"
    using assms unfolding second_ok_def bytes by auto
  have "is_cont (char_of (0x80 + b))" "is_cont (char_of (0x80 + c))" "is_cont (char_of (0x80 + d))"
    using assms unfolding in_range_def bytes by auto
  with l so show ?thesis unfolding utf8_len.simps by (simp add: numeral_eq_Suc)
qed

lemma mod_low: "x = k + q * 64 \<Longrightarrow> k < m \<Longrightarrow> m \<le> 64 \<Longrightarrow> x mod 64 < (m :: nat)"
  by (simp add: mod_mult_self1)

lemma valid_utf8_of: "r < 0x110000 \<Longrightarrow> \<not> surrogate r \<Longrightarrow> valid_utf8 (utf8_of r)"
proof -
  assume r: "r < 0x110000" "\<not> surrogate r"
  consider "r < 0x80" | "0x80 \<le> r" "r < 0x800" | "0x800 \<le> r" "r < 0x10000" | "0x10000 \<le> r" by linarith
  then show ?thesis
  proof cases
    case 1
    then show ?thesis by (intro valid_utf8_rune) simp_all
  next
    case 2
    then have b: "2 \<le> r div 64" "r div 64 < 32" by auto
    then show ?thesis using 2
      by (intro valid_utf8_rune)
         (simp_all add: utf8_of_def utf8_len.simps lead_len_def second_ok_def in_range_def)
  next
    case 3
    then have b: "r div 4096 < 16" by auto
    have lo: "r div 4096 = 0 \<Longrightarrow> 32 \<le> r div 64 mod 64"
    proof -
      assume "r div 4096 = 0"
      then have "r < 4096" by (simp add: div_eq_0_iff)
      then have "r div 64 < 64" by auto
      moreover have "32 \<le> r div 64" using 3 by auto
      ultimately show ?thesis by simp
    qed
    have hi: "r div 4096 = 13 \<Longrightarrow> r div 64 mod 64 < 32"
    proof -
      assume d: "r div 4096 = 13"
      then have "0xD000 \<le> r" "r < 0xE000" by auto
      with r(2) have "r < 0xD800" by (simp add: surrogate_def)
      then have "r div 64 < 864" "832 \<le> r div 64" using \<open>0xD000 \<le> r\<close> by auto
      then have "r div 64 = (r div 64 - 832) + 13 * 64" "r div 64 - 832 < 32" by auto
      then show ?thesis by (rule mod_low) simp
    qed
    have "utf8_of r = [char_of (0xE0 + r div 4096), char_of (0x80 + r div 64 mod 64), char_of (0x80 + r mod 64)]"
      using 3 by (simp add: utf8_of_def)
    then show ?thesis using utf8_len_three [of "r div 4096" "r div 64 mod 64" "r mod 64", OF b _ _ lo hi]
      by (intro valid_utf8_rune) simp_all
  next
    case 4
    then have b: "r div 262144 < 5" using r(1) by auto
    have lo: "r div 262144 = 0 \<Longrightarrow> 16 \<le> r div 4096 mod 64"
    proof -
      assume "r div 262144 = 0"
      then have "r < 262144" by (simp add: div_eq_0_iff)
      then have "r div 4096 < 64" by auto
      moreover have "16 \<le> r div 4096" using 4 by auto
      ultimately show ?thesis by simp
    qed
    have hi: "r div 262144 = 4 \<Longrightarrow> r div 4096 mod 64 < 16"
    proof -
      assume d: "r div 262144 = 4"
      have "r div 4096 < 272" "256 \<le> r div 4096" using r(1) d by auto
      then have "r div 4096 = (r div 4096 - 256) + 4 * 64" "r div 4096 - 256 < 16" by auto
      then show ?thesis by (rule mod_low) simp
    qed
    have "utf8_of r = [char_of (0xF0 + r div 262144), char_of (0x80 + r div 4096 mod 64),
        char_of (0x80 + r div 64 mod 64), char_of (0x80 + r mod 64)]"
      using 4 by (simp add: utf8_of_def)
    then show ?thesis
      using utf8_len_four [of "r div 262144" "r div 4096 mod 64" "r div 64 mod 64" "r mod 64", OF b _ _ _ lo hi]
      by (intro valid_utf8_rune) simp_all
  qed
qed


lemma hex_value_less: "hex_value c = Some d \<Longrightarrow> d < 16"
  by (auto simp: hex_value_def Let_def split: if_splits)

lemma hex4_less: "hex4 s = Some r \<Longrightarrow> r < 0x10000"
proof -
  assume h: "hex4 s = Some r"
  then obtain a b c d where m: "map hex_value (take 4 s) = [Some a, Some b, Some c, Some d]"
      and r: "r = ((a * 16 + b) * 16 + c) * 16 + d"
    by (auto simp: hex4_def split: list.splits option.splits)
  have "x < 16" if "Some x \<in> set (map hex_value (take 4 s))" for x
    using that hex_value_less by auto
  then have "a < 16" "b < 16" "c < 16" "d < 16" unfolding m by simp_all
  then have "a \<le> 15" "b \<le> 15" "c \<le> 15" "d \<le> 15" by simp_all
  then show ?thesis unfolding r by simp
qed

lemma dec_u_valid: "dec_u s = Some (r, k) \<Longrightarrow> valid_utf8 r"
proof -
  assume d: "dec_u s = Some (r, k)"
  then obtain x where x: "hex4 s = Some x" by (auto simp: dec_u_def split: option.splits)
  note xl = hex4_less [OF x]
  show ?thesis
  proof (cases "surrogate x")
    case False
    with d x xl valid_utf8_of [of x] show ?thesis by (simp add: dec_u_def)
  next
    case True
    have "r = rune_error \<or> (\<exists>y. r = utf8_of (0x10000 + (x - 0xD800) * 1024 + (y - 0xDC00)) \<and> x < 0xDC00 \<and> y < 0xE000)"
      using d x True by (auto simp: dec_u_def split: list.splits option.splits if_splits)
    then show ?thesis
    proof
      assume "\<exists>y. r = utf8_of (0x10000 + (x - 0xD800) * 1024 + (y - 0xDC00)) \<and> x < 0xDC00 \<and> y < 0xE000"
      then obtain y where y: "r = utf8_of (0x10000 + (x - 0xD800) * 1024 + (y - 0xDC00))" "x < 0xDC00" "y < 0xE000"
        by blast
      then have "(x - 0xD800) * 1024 \<le> 1023 * 1024" "y - 0xDC00 < 1024" by auto
      then show ?thesis unfolding y(1) by (intro valid_utf8_of) (auto simp: surrogate_def)
    qed simp
  qed
qed

lemma unescape_valid: "unescape c = Some x \<Longrightarrow> byte_of x < 128"
  by (auto simp: unescape_def Let_def split: if_splits)

lemma dec_body_valid: "dec_body s = Some (t, r) \<Longrightarrow> valid_utf8 t"
proof (induction s arbitrary: t rule: dec_body.induct)
  case (2 c cs)
  consider "byte_of c = 34" | "byte_of c = 92" | "byte_of c \<noteq> 34" "byte_of c \<noteq> 92" "32 \<le> byte_of c"
    | "byte_of c \<noteq> 34" "byte_of c \<noteq> 92" "byte_of c < 32" by linarith
  then show ?case
  proof cases
    case 1
    with 2(5) show ?thesis by simp
  next
    case b: 2
    with 2(5) obtain e es where cs: "cs = e # es" by (cases cs) auto
    show ?thesis
    proof (cases "e = CHR ''u''")
      case True
      with 2(5) b cs obtain u k t' where u: "dec_u es = Some (u, k)" "dec_body (drop k es) = Some (t', r)" "t = u @ t'"
        by (auto simp: prepend_Some_iff split: option.splits)
      from 2(1) [OF _ b cs True u(1) refl u(2)] have "valid_utf8 t'" using b by simp
      then show ?thesis using dec_u_valid [OF u(1)] u(3) by (simp add: valid_utf8_append)
    next
      case False
      with 2(5) b cs obtain x t' where u: "unescape e = Some x" "dec_body es = Some (t', r)" "t = x # t'"
        by (auto simp: prepend_Some_iff split: option.splits)
      from 2(2) [OF _ b cs False u(1) u(2)] have "valid_utf8 t'" using b by simp
      then show ?thesis using unescape_valid [OF u(1)] u(3) by simp
    qed
  next
    case n: 3
    let ?k = "utf8_len (c # cs)"
    show ?thesis
    proof (cases "?k = 0")
      case True
      with 2(5) n obtain t' where t': "dec_body cs = Some (t', r)" "t = rune_error @ t'"
        by (auto simp: prepend_Some_iff)
      from 2(3) [OF n(1,2) _ True t'(1)] n(3) have "valid_utf8 t'" by simp
      with t'(2) show ?thesis by (simp add: valid_utf8_append)
    next
      case False
      with 2(5) n obtain t' where t': "dec_body (drop (?k - 1) cs) = Some (t', r)" "t = take ?k (c # cs) @ t'"
        by (auto simp: prepend_Some_iff)
      from 2(4) [OF n(1,2) _ False t'(1)] n(3) have "valid_utf8 t'" by simp
      with t'(2) valid_utf8_take [OF False] show ?thesis by (simp add: valid_utf8_append)
    qed
  next
    case 4
    with 2(5) show ?thesis by simp
  qed
qed simp

fun utf8_json :: "json \<Rightarrow> bool" where
  "utf8_json (JStr s) = valid_utf8 s"
| "utf8_json (JArr vs) = list_all utf8_json vs"
| "utf8_json (JObj ms) = list_all (\<lambda>(k, v). valid_utf8 k \<and> utf8_json v) ms"
| "utf8_json _ = True"

lemma parse_utf8:
  "parse_value n d s = Some (v, r) \<Longrightarrow> utf8_json v"
  "parse_elems n d s = Some (vs, r) \<Longrightarrow> list_all utf8_json vs"
  "parse_members n d s = Some (ms, r) \<Longrightarrow> list_all (\<lambda>(k, v). valid_utf8 k \<and> utf8_json v) ms"
proof (induction n d s and n d s and n d s arbitrary: v r and vs r and ms r
    rule: parse_value_parse_elems_parse_members.induct)
  case (2 n d s)
  then show ?case
    by (auto simp: scan_literal_def dest: dec_body_valid split: list.splits if_splits)
next
  case (4 n d s)
  then show ?case by (fastforce split: list.splits if_splits option.splits prod.splits)
next
  case (6 n d s)
  from 6(3) obtain cs where s: "skip_ws s = CHR 0x22 # cs"
    by (cases "skip_ws s") (auto split: if_splits)
  from 6(3) s obtain k q where k: "dec_body cs = Some (k, q)" by (cases "dec_body cs") auto
  from 6(3) s k obtain es where q: "skip_ws q = CHR '':'' # es"
    by (cases "skip_ws q") (auto split: if_splits)
  from 6(3) s k q obtain v z where v: "parse_value n d es = Some (v, z)"
    by (cases "parse_value n d es") auto
  from 6(3) s k q v obtain f fs where z: "skip_ws z = f # fs" by (cases "skip_ws z") auto
  have kv: "valid_utf8 k" "utf8_json v"
    using dec_body_valid [OF k] 6(1) [OF s _ k _ q _ v] by auto
  show ?case
  proof (cases "f = CHR '',''")
    case True
    with 6(3) s k q v z obtain ms' where "parse_members n d fs = Some (ms', r)" "ms = (k, v) # ms'"
      by (cases "parse_members n d fs") auto
    with 6(2) [OF s _ k _ q _ v _ z True] kv show ?thesis by simp
  next
    case False
    with 6(3) s k q v z kv show ?thesis by (auto split: if_splits)
  qed
qed auto

lemma parse_json_utf8: "parse_json s = Some v \<Longrightarrow> utf8_json v"
  using parse_utf8(1) [of "length s + 2" 0 s]
  by (auto simp: parse_json_def simp del: parse_value.simps split: option.splits prod.splits if_splits)

text \<open>An invariant of the fields the decoder stores holds of the decoded struct.\<close>

lemma decode_struct_inv:
  assumes "decode_struct names set_field zero s = Some r" "P zero"
    "\<And>n v r r'. P r \<Longrightarrow> utf8_json v \<Longrightarrow> set_field n v r = Some r' \<Longrightarrow> P r'"
  shows "P r"
proof -
  have "P (fst (decode_member names set_field m st))" if "P (fst st)" "utf8_json (snd m)" for m st
    using that assms(3) by (auto simp: decode_member_def split: option.splits)
  then have fold: "P (fst st) \<Longrightarrow> \<forall>m \<in> set ms. utf8_json (snd m) \<Longrightarrow>
      P (fst (fold (decode_member names set_field) ms st))" for ms st
    by (induction ms arbitrary: st) simp_all
  show ?thesis
  proof (cases "parse_json s")
    case None
    with assms(1) show ?thesis by (simp add: decode_struct_def)
  next
    case (Some v)
    show ?thesis
    proof (cases v)
      case (JObj ms)
      then have "\<forall>m \<in> set ms. utf8_json (snd m)"
        using parse_json_utf8 [OF Some] by (auto simp: list_all_iff)
      with fold [of "(zero, True)" ms] assms(1,2) Some JObj show ?thesis
        by (auto simp: decode_struct_def split: prod.splits if_splits)
    qed (use assms(1,2) Some in \<open>auto simp: decode_struct_def\<close>)
  qed
qed

lemma json_int_range: "json_int w v = Some x \<Longrightarrow> in_width w x"
  by (auto simp: json_int_def split: json.splits option.splits if_splits)

lemma json_str_valid: "json_str v = Some x \<Longrightarrow> utf8_json v \<Longrightarrow> valid_utf8 x"
  by (auto simp: json_str_def split: json.splits)

end
