(* ===== verification/Message.thy ===== *)
theory Message
  imports Json
begin

section \<open>The message model (models/message.go)\<close>

text \<open>
  The chat message every part of the system passes around. Times are nanoseconds since the epoch.
  \<open>json.Marshal\<close> of the struct needs the JSON form of a \<open>time.Time\<close>, which depends on the local
  time zone: it is the parameter \<open>time_json\<close>, \<open>None\<close> for a year RFC 3339 cannot write.
\<close>

record message =
  m_id :: int
  m_room :: int
  m_sender :: int
  m_client_id :: string
  m_type :: int
  m_content :: string
  m_created :: int
  m_deleted :: nat

text \<open>The zero \<open>time.Time\<close>, 1 January of the year 1.\<close>

definition zero_time :: int where
  "zero_time = - 62135596800000000000"

definition jint :: "int \<Rightarrow> json" where
  "jint x = JNum (format_int x)"

lemma wf_jint [simp]: "wf_json (jint x)"
  by (simp add: jint_def)

lemma json_int_jint [simp]: "is_int64 x \<Longrightarrow> in_width w x \<Longrightarrow> json_int w (jint x) = Some x"
  by (simp add: json_int_def jint_def parse_ok_format)

lemma depth_jint [simp]: "json_depth (jint x) = 0"
  by (simp add: jint_def)

lemma jint_not_null [simp]: "jint x \<noteq> JNull"
  by (simp add: jint_def)

type_synonym time_json = "int \<Rightarrow> string option"

definition message_value :: "string \<Rightarrow> message \<Rightarrow> json" where
  "message_value created m =
     JObj [(''ID'', jint (m_id m)), (''RoomID'', jint (m_room m)), (''SenderID'', jint (m_sender m)),
           (''ClientMsgID'', JStr (m_client_id m)), (''Type'', jint (m_type m)),
           (''Content'', JStr (m_content m)), (''CreatedAt'', JStr created),
           (''DeletedAt'', jint (int (m_deleted m)))]"

definition marshal_message :: "time_json \<Rightarrow> message \<Rightarrow> string option" where
  "marshal_message tj m = map_option (\<lambda>t. enc_json (message_value t m)) (tj (m_created m))"

text \<open>What \<open>time.Time.MarshalJSON\<close> documents: an RFC 3339 string, that is ASCII.\<close>

definition time_json_ok :: "time_json \<Rightarrow> bool" where
  "time_json_ok tj \<longleftrightarrow> (\<forall>t s. tj t = Some s \<longrightarrow> valid_utf8 s)"

end
