(* ===== verification/Envelope.thy ===== *)
theory Envelope
  imports Message
begin

section \<open>The message envelope on the wire (contracts/events/message.go)\<close>

text \<open>
  \<open>Marshal\<close> and \<open>Unmarshal\<close> of the message that travels through Kafka and Redis: protobuf, with the
  legacy JSON form accepted on input. Google's protobuf runtime is not part of the repository; its
  \<open>Marshal\<close> and \<open>Unmarshal\<close> of the generated \<open>ChatMessage\<close> are the parameters \<open>pm\<close> and \<open>pu\<close>, and
  \<open>proto_codec\<close> is what their documentation states. A time is its \<open>UnixNano\<close>; \<open>now\<close> is the clock.
\<close>

record envelope =
  e_room :: int
  e_sender :: int
  e_client_id :: string
  e_type :: int
  e_content :: string
  e_created :: int

record proto_msg =
  pm_room :: int
  pm_sender :: int
  pm_client_id :: string
  pm_type :: int
  pm_content :: string
  pm_created_ns :: int

type_synonym proto_marshal = "proto_msg \<Rightarrow> string option"
type_synonym proto_unmarshal = "string \<Rightarrow> proto_msg option"

definition proto_valid :: "proto_msg \<Rightarrow> bool" where
  "proto_valid m \<longleftrightarrow>
     is_int64 (pm_room m) \<and> is_int64 (pm_sender m) \<and> in_width 32 (pm_type m) \<and> is_int64 (pm_created_ns m) \<and>
     valid_utf8 (pm_client_id m) \<and> valid_utf8 (pm_content m)"

text \<open>
  A message with valid UTF-8 strings can be marshalled, one with another string cannot; what was
  marshalled is unmarshalled again, and exactly the message whose fields all have their default values is
  encoded as the empty string.
\<close>

definition proto_default :: proto_msg where
  "proto_default = \<lparr>pm_room = 0, pm_sender = 0, pm_client_id = [], pm_type = 0, pm_content = [], pm_created_ns = 0\<rparr>"

definition proto_codec :: "proto_marshal \<Rightarrow> proto_unmarshal \<Rightarrow> bool" where
  "proto_codec pm pu \<longleftrightarrow>
     (\<forall>m. proto_valid m \<longrightarrow> (\<exists>bs. pm m = Some bs \<and> pu bs = Some m \<and> (bs = [] \<longleftrightarrow> m = proto_default))) \<and>
     (\<forall>m. \<not> (valid_utf8 (pm_client_id m) \<and> valid_utf8 (pm_content m)) \<longrightarrow> pm m = None)"

definition unix_nano :: "int \<Rightarrow> int" where
  "unix_nano t = int64_of t"

definition marshal_envelope :: "proto_marshal \<Rightarrow> envelope \<Rightarrow> string option" where
  "marshal_envelope pm msg =
     (let createdAtNS = unix_nano (e_created msg);
          createdAtNS = (if createdAtNS < 0 then 0 else createdAtNS)
      in pm \<lparr>pm_room = e_room msg, pm_sender = e_sender msg, pm_client_id = e_client_id msg,
             pm_type = e_type msg, pm_content = e_content msg, pm_created_ns = createdAtNS\<rparr>)"

datatype envelope_error =
  EmptyPayload | ProtoError | JsonError | MissingRoomId | InvalidRoomId string num_error | UnsupportedPayload

definition unmarshal_proto :: "proto_unmarshal \<Rightarrow> int \<Rightarrow> string \<Rightarrow> envelope_error + envelope" where
  "unmarshal_proto pu now data =
     (case pu data of
        None \<Rightarrow> Inl ProtoError
      | Some msg \<Rightarrow>
          (let msgType = (if pm_type msg = 0 then 1 else pm_type msg);
               ns = pm_created_ns msg
           in Inr \<lparr>e_room = pm_room msg, e_sender = pm_sender msg, e_client_id = pm_client_id msg,
                   e_type = int8_of msgType, e_content = pm_content msg,
                   e_created = (if 0 < ns then ns else now)\<rparr>))"

subsection \<open>The legacy JSON form\<close>

record legacy_message =
  lm_room :: string
  lm_sender :: int
  lm_content :: string
  lm_client_id :: string
  lm_timestamp :: int

definition legacy_fields :: "string list" where
  "legacy_fields = [''room_id'', ''sender_id'', ''content'', ''client_msg_id'', ''timestamp'']"

definition set_legacy :: "string \<Rightarrow> json \<Rightarrow> legacy_message \<Rightarrow> legacy_message option" where
  "set_legacy n v r =
     (if n = ''room_id'' then map_option (\<lambda>x. r\<lparr>lm_room := x\<rparr>) (json_str v)
      else if n = ''sender_id'' then map_option (\<lambda>x. r\<lparr>lm_sender := x\<rparr>) (json_int 64 v)
      else if n = ''content'' then map_option (\<lambda>x. r\<lparr>lm_content := x\<rparr>) (json_str v)
      else if n = ''client_msg_id'' then map_option (\<lambda>x. r\<lparr>lm_client_id := x\<rparr>) (json_str v)
      else map_option (\<lambda>x. r\<lparr>lm_timestamp := x\<rparr>) (json_int 64 v))"

definition legacy_zero :: legacy_message where
  "legacy_zero = \<lparr>lm_room = [], lm_sender = 0, lm_content = [], lm_client_id = [], lm_timestamp = 0\<rparr>"

definition decode_legacy :: "string \<Rightarrow> legacy_message option" where
  "decode_legacy data = decode_struct legacy_fields set_legacy legacy_zero data"

definition unmarshal_legacy_json :: "int \<Rightarrow> string \<Rightarrow> envelope_error + envelope" where
  "unmarshal_legacy_json now data =
     (case decode_legacy data of
        None \<Rightarrow> Inl JsonError
      | Some raw \<Rightarrow>
          if lm_room raw = [] then Inl MissingRoomId
          else (case parse_int (lm_room raw) of
                  (roomID, Some e) \<Rightarrow> Inl (InvalidRoomId (lm_room raw) e)
                | (roomID, None) \<Rightarrow>
                    Inr \<lparr>e_room = roomID, e_sender = lm_sender raw, e_client_id = lm_client_id raw,
                         e_type = 1, e_content = lm_content raw,
                         e_created = (if 0 < lm_timestamp raw then lm_timestamp raw else now)\<rparr>))"

definition unmarshal_envelope :: "proto_unmarshal \<Rightarrow> int \<Rightarrow> string \<Rightarrow> envelope_error + envelope" where
  "unmarshal_envelope pu now data =
     (if data = [] then Inl EmptyPayload
      else (case unmarshal_proto pu now data of
              Inr msg \<Rightarrow> Inr msg
            | Inl _ \<Rightarrow>
                (case unmarshal_legacy_json now data of
                   Inr msg \<Rightarrow> Inr msg
                 | Inl _ \<Rightarrow> Inl UnsupportedPayload)))"

subsection \<open>Round trip\<close>

definition envelope_valid :: "envelope \<Rightarrow> bool" where
  "envelope_valid e \<longleftrightarrow>
     is_int64 (e_room e) \<and> is_int64 (e_sender e) \<and> in_width 8 (e_type e) \<and> e_type e \<noteq> 0 \<and>
     is_int64 (e_created e) \<and> valid_utf8 (e_client_id e) \<and> valid_utf8 (e_content e)"

lemma in_width_mono: "in_width 8 x \<Longrightarrow> in_width 32 x"
  by (simp add: in_width_def)

lemma int8_id: "in_width 8 x \<Longrightarrow> int8_of x = x"
  by (simp add: wrap_int_id)

lemma is_int64_pos: "is_int64 x \<Longrightarrow> is_int64 (if x < 0 then 0 else x)"
  by (simp add: in_width_def)

lemma envelope_roundtrip_lemma:
  assumes codec: "proto_codec pm pu" and ok: "envelope_valid e"
  shows "\<exists>bs. marshal_envelope pm e = Some bs \<and> bs \<noteq> [] \<and>
     unmarshal_envelope pu now bs = Inr (e\<lparr>e_created := if 0 < e_created e then e_created e else now\<rparr>)"
proof -
  let ?ns = "if e_created e < 0 then 0 else e_created e"
  let ?m = "\<lparr>pm_room = e_room e, pm_sender = e_sender e, pm_client_id = e_client_id e,
             pm_type = e_type e, pm_content = e_content e, pm_created_ns = ?ns\<rparr>"
  have un: "unix_nano (e_created e) = e_created e"
    using ok by (simp add: unix_nano_def envelope_valid_def wrap_int_id)
  have "proto_valid ?m"
    using ok by (simp add: proto_valid_def envelope_valid_def in_width_mono is_int64_pos)
  then obtain bs where bs: "pm ?m = Some bs" "pu bs = Some ?m" "bs = [] \<longleftrightarrow> ?m = proto_default"
    using codec unfolding proto_codec_def by blast
  have "bs \<noteq> []" using bs(3) ok by (simp add: envelope_valid_def proto_default_def)
  moreover have "marshal_envelope pm e = Some bs"
    using bs(1) un by (simp add: marshal_envelope_def Let_def)
  moreover have "unmarshal_proto pu now bs =
      Inr (e\<lparr>e_created := if 0 < e_created e then e_created e else now\<rparr>)"
    using ok bs(2) by (auto simp: unmarshal_proto_def envelope_valid_def int8_id)
  ultimately show ?thesis by (auto simp: unmarshal_envelope_def)
qed

text \<open>The legacy object the old producers wrote.\<close>

definition legacy_value :: "int \<Rightarrow> int \<Rightarrow> string \<Rightarrow> string \<Rightarrow> int \<Rightarrow> json" where
  "legacy_value room sender content cid ts =
     JObj [(''room_id'', JStr (format_int room)), (''sender_id'', jint sender), (''content'', JStr content),
           (''client_msg_id'', JStr cid), (''timestamp'', jint ts)]"

lemma format_int_nonempty [simp]: "format_int x \<noteq> []"
  by (simp add: format_int_def)

lemma legacy_decodes:
  assumes "is_int64 room" "is_int64 sender" "is_int64 ts" "valid_utf8 content" "valid_utf8 cid"
  shows "unmarshal_legacy_json now (enc_json (legacy_value room sender content cid ts)) =
     Inr \<lparr>e_room = room, e_sender = sender, e_client_id = cid, e_type = 1, e_content = content,
          e_created = (if 0 < ts then ts else now)\<rparr>"
proof -
  let ?r = "\<lparr>lm_room = format_int room, lm_sender = sender, lm_content = content, lm_client_id = cid, lm_timestamp = ts\<rparr>"
  have names: "valid_utf8 ''room_id''" "valid_utf8 ''sender_id''" "valid_utf8 ''content''"
    "valid_utf8 ''client_msg_id''" "valid_utf8 ''timestamp''"
    by (simp_all add: valid_utf8_ascii)
  have "decode_legacy (enc_json (legacy_value room sender content cid ts)) = Some ?r"
    unfolding decode_legacy_def legacy_value_def
  proof (rule decode_struct_object)
    show "wf_json (JObj [(''room_id'', JStr (format_int room)), (''sender_id'', jint sender), (''content'', JStr content),
           (''client_msg_id'', JStr cid), (''timestamp'', jint ts)])"
      using names assms by simp
  qed (use assms in \<open>simp_all add: max_depth_def decode_member_def match_field_def legacy_fields_def
        set_legacy_def legacy_zero_def json_str_def\<close>)
  then show ?thesis
    using assms parse_format_int [of room] by (simp add: unmarshal_legacy_json_def)
qed

subsection \<open>A codec that satisfies the laws\<close>

definition sample_pm :: proto_marshal where
  "sample_pm m =
     (if m = proto_default then Some []
      else if valid_utf8 (pm_client_id m) \<and> valid_utf8 (pm_content m) then
        Some (enc_json (JArr [jint (pm_room m), jint (pm_sender m), JStr (pm_client_id m), jint (pm_type m),
                              JStr (pm_content m), jint (pm_created_ns m)]))
      else None)"

definition sample_pu :: proto_unmarshal where
  "sample_pu s =
     (if s = [] then Some proto_default else case parse_json s of
        Some (JArr [JNum a, JNum b, JStr c, JNum d, JStr e, JNum f]) \<Rightarrow>
          Some \<lparr>pm_room = fst (parse_int a), pm_sender = fst (parse_int b), pm_client_id = c,
                pm_type = fst (parse_int d), pm_content = e, pm_created_ns = fst (parse_int f)\<rparr>
      | _ \<Rightarrow> None)"

lemma in_width_32_64: "in_width 32 x \<Longrightarrow> is_int64 x"
  by (simp add: in_width_def)

lemma sample_codec: "proto_codec sample_pm sample_pu"
  unfolding proto_codec_def
proof (intro conjI allI impI)
  fix m assume ok: "proto_valid m"
  show "\<exists>bs. sample_pm m = Some bs \<and> sample_pu bs = Some m \<and> (bs = [] \<longleftrightarrow> m = proto_default)"
  proof (cases "m = proto_default")
    case False
  let ?v = "JArr [jint (pm_room m), jint (pm_sender m), JStr (pm_client_id m), jint (pm_type m),
                  JStr (pm_content m), jint (pm_created_ns m)]"
  have "parse_json (enc_json ?v) = Some ?v"
    using ok by (intro json_roundtrip) (simp_all add: proto_valid_def max_depth_def)
  moreover have ne: "enc_json ?v \<noteq> []" by simp
  ultimately have "sample_pu (enc_json ?v) = Some m"
    using ok in_width_32_64 [of "pm_type m"]
    by (simp add: sample_pu_def jint_def parse_format_int proto_valid_def del: enc_json.simps)
  then show ?thesis
    using ok False ne by (simp add: sample_pm_def proto_valid_def del: enc_json.simps)
  qed (simp add: sample_pm_def sample_pu_def)
next
  fix m :: proto_msg assume "\<not> (valid_utf8 (pm_client_id m) \<and> valid_utf8 (pm_content m))"
  then show "sample_pm m = None" by (auto simp: sample_pm_def proto_default_def)
qed

definition demo_envelope :: envelope where
  "demo_envelope = \<lparr>e_room = 7, e_sender = 1, e_client_id = ''a'', e_type = 1, e_content = ''hello'', e_created = 5\<rparr>"

lemma demo_envelope_valid: "envelope_valid demo_envelope"
  by (simp add: envelope_valid_def demo_envelope_def in_width_def valid_utf8_ascii)

subsection \<open>Properties\<close>

text \<open>What Go's types ensure of an envelope.\<close>

definition envelope_typed :: "envelope \<Rightarrow> bool" where
  "envelope_typed e \<longleftrightarrow> is_int64 (e_room e) \<and> is_int64 (e_sender e) \<and> in_width 8 (e_type e)"

text \<open>What a consumer makes of it: the type 0 is read as 1; a creation time is kept when its \<open>UnixNano\<close> is
  positive.\<close>

definition received :: "int \<Rightarrow> envelope \<Rightarrow> envelope" where
  "received now e =
     e\<lparr>e_type := (if e_type e = 0 then 1 else e_type e),
       e_created := (if 0 < unix_nano (e_created e) then unix_nano (e_created e) else now)\<rparr>"

definition blank_envelope :: "envelope \<Rightarrow> bool" where
  "blank_envelope e \<longleftrightarrow> e_room e = 0 \<and> e_sender e = 0 \<and> e_client_id e = [] \<and> e_type e = 0 \<and> e_content e = [] \<and>
     unix_nano (e_created e) \<le> 0"

lemma unix_nano_int64: "is_int64 (unix_nano t)"
  by (simp add: unix_nano_def wrap_int_in_width)

text \<open>C22: Wire round trip. A producer can marshal exactly the envelopes whose client id and text are valid
  UTF-8, and every consumer unmarshals what it marshals to the same envelope, except that the type 0 is read
  as 1 and that a creation time before 1970, missing or beyond the year 2262 (one whose \<open>UnixNano\<close> is not
  positive) becomes the consumer's clock; only the envelope that has nothing but zero values is marshalled
  to the empty payload, which consumers refuse. A legacy JSON message with valid text decodes to the
  envelope of type 1 with its numeric room id.\<close>

theorem envelope_roundtrip:
  assumes codec: "proto_codec pm pu" and typed: "envelope_typed e"
  shows "case marshal_envelope pm e of
       None \<Rightarrow> \<not> (valid_utf8 (e_client_id e) \<and> valid_utf8 (e_content e))
     | Some bs \<Rightarrow> valid_utf8 (e_client_id e) \<and> valid_utf8 (e_content e) \<and>
         unmarshal_envelope pu now bs = (if blank_envelope e then Inl EmptyPayload else Inr (received now e)) \<and>
         unmarshal_legacy_json now (enc_json (legacy_value (e_room e) (e_sender e) (e_content e) (e_client_id e)
             (unix_nano (e_created e)))) = Inr (received now (e\<lparr>e_type := 1\<rparr>))"
proof -
  let ?t = "unix_nano (e_created e)"
  let ?m = "\<lparr>pm_room = e_room e, pm_sender = e_sender e, pm_client_id = e_client_id e,
             pm_type = e_type e, pm_content = e_content e, pm_created_ns = if ?t < 0 then 0 else ?t\<rparr>"
  have m: "marshal_envelope pm e = pm ?m" by (simp add: marshal_envelope_def Let_def)
  show ?thesis
  proof (cases "valid_utf8 (e_client_id e) \<and> valid_utf8 (e_content e)")
    case False
    then have "pm ?m = None" using codec unfolding proto_codec_def by simp
    then show ?thesis using False m by simp
  next
    case True
    then have "proto_valid ?m"
      using typed unix_nano_int64 [of "e_created e"] is_int64_pos
      by (simp add: proto_valid_def envelope_typed_def in_width_mono)
    then obtain bs where bs: "pm ?m = Some bs" "pu bs = Some ?m" "bs = [] \<longleftrightarrow> ?m = proto_default"
      using codec unfolding proto_codec_def by blast
    have "bs = [] \<longleftrightarrow> blank_envelope e" unfolding bs(3) by (auto simp: proto_default_def blank_envelope_def)
    moreover have "unmarshal_proto pu now bs = Inr (received now e)"
      using bs(2) typed int8_id [of 1]
      by (cases e) (auto simp: unmarshal_proto_def received_def envelope_typed_def int8_id in_width_def)
    ultimately have "unmarshal_envelope pu now bs = (if blank_envelope e then Inl EmptyPayload else Inr (received now e))"
      by (simp add: unmarshal_envelope_def)
    moreover have "unmarshal_legacy_json now (enc_json (legacy_value (e_room e) (e_sender e) (e_content e) (e_client_id e) ?t))
        = Inr (received now (e\<lparr>e_type := 1\<rparr>))"
      using True typed legacy_decodes [of "e_room e" "e_sender e" ?t "e_content e" "e_client_id e" now] unix_nano_int64
      by (auto simp: envelope_typed_def received_def)
    ultimately show ?thesis using True m bs(1) by simp
  qed
qed

lemma envelope_roundtrip_witness:
  "\<exists>bs. marshal_envelope sample_pm demo_envelope = Some bs \<and> unmarshal_envelope sample_pu 9 bs = Inr demo_envelope"
proof -
  have "envelope_typed demo_envelope" "valid_utf8 (e_client_id demo_envelope)" "valid_utf8 (e_content demo_envelope)"
    "received 9 demo_envelope = demo_envelope" "\<not> blank_envelope demo_envelope"
    by (simp_all add: envelope_typed_def received_def blank_envelope_def demo_envelope_def in_width_def valid_utf8_ascii
        unix_nano_def wrap_int_id)
  with envelope_roundtrip [OF sample_codec, of demo_envelope 9] show ?thesis by (auto split: option.splits)
qed

end
