(* ===== verification/HubState.thy ===== *)
theory HubState
  imports Message
begin

section \<open>State of the WebSocket hub (services/gateway/websocket/hub.go, client.go)\<close>

text \<open>
  A \<open>*Client\<close> is an address \<open>cid\<close> into the heap \<open>h_clients\<close> of the hub, so that the aliasing of the
  code (the same client in the user map and in several room maps) is kept. The record
  \<open>client\<close> has the fields of \<open>Client\<close>; \<open>c_conn\<close> is \<open>None\<close> for a nil connection and
  \<open>Some open\<close> otherwise, \<open>c_send\<close> is \<open>None\<close> for a nil channel, \<open>c_rooms\<close> is \<open>None\<close> for a nil map and
  otherwise the keys of the map in its range order.
\<close>

type_synonym cid = nat
type_synonym user_id = int
type_synonym room_id = int
type_synonym payload = string

record client =
  c_user :: user_id
  c_conn :: "bool option"
  c_send :: "payload chan option"
  c_username :: string
  c_conn_id :: string
  c_remote_ip :: string
  c_user_agent :: string
  c_version :: string
  c_connected_at :: int
  c_active :: bool
  c_rooms :: "room_id list option"
  c_send_closed :: bool
  c_last_read :: int
  c_last_write :: int

record shard =
  s_users :: "(user_id, cid) gomap"
  s_rooms :: "(room_id, cid list) gomap"
  s_forward :: "message chan"
  s_kill :: "cid chan"

record hub =
  h_shards :: "shard list"
  h_threshold :: nat
  h_batch :: nat
  h_workers :: nat
  h_clients :: "cid \<Rightarrow> client"

definition forward_cap :: nat where "forward_cap = 1024"
definition kill_cap :: nat where "kill_cap = 64"
definition default_shards :: int where "default_shards = 64"
definition default_threshold :: int where "default_threshold = 100"
definition default_batch :: int where "default_batch = 200"

subsection \<open>Construction\<close>

text \<open>The environment is a function; an unset variable reads as the empty string.\<close>

type_synonym environment = "string \<Rightarrow> string"

definition positive_env_int :: "environment \<Rightarrow> string \<Rightarrow> int \<Rightarrow> int" where
  "positive_env_int env key fallback =
     (if env key \<noteq> [] then
        (case parse_ok (env key) of Some v \<Rightarrow> if 0 < v then v else fallback | None \<Rightarrow> fallback)
      else fallback)"

definition new_shard :: shard where
  "new_shard = \<lparr>s_users = [], s_rooms = [], s_forward = chan_new forward_cap, s_kill = chan_new kill_cap\<rparr>"

text \<open>
  \<open>clients0\<close> is the heap before any connection exists; \<open>gomaxprocs\<close> is \<open>runtime.GOMAXPROCS(0)\<close>.
\<close>

definition new_hub_with_shards :: "environment \<Rightarrow> int \<Rightarrow> (cid \<Rightarrow> client) \<Rightarrow> int \<Rightarrow> hub" where
  "new_hub_with_shards env gomaxprocs clients0 shards =
     (let n = (if shards \<le> 0 then default_shards else shards)
      in \<lparr>h_shards = replicate (nat n) new_shard,
          h_threshold = nat (positive_env_int env ''HUB_FANOUT_THRESHOLD'' default_threshold),
          h_batch = nat (positive_env_int env ''HUB_FANOUT_BATCH_SIZE'' default_batch),
          h_workers = nat (positive_env_int env ''HUB_FANOUT_WORKERS'' (gomaxprocs * 4)),
          h_clients = clients0\<rparr>)"

definition new_hub :: "environment \<Rightarrow> int \<Rightarrow> (cid \<Rightarrow> client) \<Rightarrow> hub" where
  "new_hub env gomaxprocs clients0 =
     new_hub_with_shards env gomaxprocs clients0
       (if env ''HUB_SHARD_COUNT'' \<noteq> [] then
          (case parse_ok (env ''HUB_SHARD_COUNT'') of
             Some v \<Rightarrow> if 0 < v then v else default_shards
           | None \<Rightarrow> default_shards)
        else default_shards)"

lemma positive_env_int_pos: "0 < fallback \<Longrightarrow> 0 < positive_env_int env key fallback"
  by (simp add: positive_env_int_def split: option.splits)

subsection \<open>Shards\<close>

definition shard_ix :: "hub \<Rightarrow> int \<Rightarrow> nat" where
  "shard_ix h i = nat (uint64_of i mod int (length (h_shards h)))"

definition shard_for_user :: "hub \<Rightarrow> user_id \<Rightarrow> shard" where
  "shard_for_user h u = h_shards h ! shard_ix h u"

definition shard_for_room :: "hub \<Rightarrow> room_id \<Rightarrow> shard" where
  "shard_for_room h r = h_shards h ! shard_ix h r"

definition upd_shard :: "nat \<Rightarrow> (shard \<Rightarrow> shard) \<Rightarrow> hub \<Rightarrow> hub" where
  "upd_shard i f h = h\<lparr>h_shards := (h_shards h)[i := f (h_shards h ! i)]\<rparr>"

definition upd_client :: "cid \<Rightarrow> (client \<Rightarrow> client) \<Rightarrow> hub \<Rightarrow> hub" where
  "upd_client c f h = h\<lparr>h_clients := (h_clients h)(c := f (h_clients h c))\<rparr>"

definition client_by_user :: "hub \<Rightarrow> user_id \<Rightarrow> cid option" where
  "client_by_user h u = gm_get (s_users (shard_for_user h u)) u"

text \<open>The members of \<open>rooms[r]\<close>, in range order (a missing room has none).\<close>

definition members :: "hub \<Rightarrow> room_id \<Rightarrow> cid list" where
  "members h r = (case gm_get (s_rooms (shard_for_room h r)) r of None \<Rightarrow> [] | Some cs \<Rightarrow> cs)"

definition put_user :: "user_id \<Rightarrow> cid \<Rightarrow> hub \<Rightarrow> hub" where
  "put_user u c h = upd_shard (shard_ix h u) (\<lambda>s. s\<lparr>s_users := gm_put u c (s_users s)\<rparr>) h"

definition drop_user :: "user_id \<Rightarrow> hub \<Rightarrow> hub" where
  "drop_user u h = upd_shard (shard_ix h u) (\<lambda>s. s\<lparr>s_users := gm_del u (s_users s)\<rparr>) h"

definition add_client_to_room :: "cid \<Rightarrow> room_id \<Rightarrow> hub \<Rightarrow> hub" where
  "add_client_to_room c r h =
     upd_shard (shard_ix h r)
       (\<lambda>s. let cs = (case gm_get (s_rooms s) r of None \<Rightarrow> [] | Some cs \<Rightarrow> cs)
            in s\<lparr>s_rooms := gm_put r (List.insert c cs) (s_rooms s)\<rparr>) h"

definition remove_client_from_room :: "cid \<Rightarrow> room_id \<Rightarrow> hub \<Rightarrow> hub" where
  "remove_client_from_room c r h =
     upd_shard (shard_ix h r)
       (\<lambda>s. case gm_get (s_rooms s) r of
              None \<Rightarrow> s
            | Some cs \<Rightarrow>
                (let cs' = removeAll c cs
                 in if cs' = [] then s\<lparr>s_rooms := gm_del r (s_rooms s)\<rparr>
                    else s\<lparr>s_rooms := gm_put r cs' (s_rooms s)\<rparr>)) h"

definition drop_room :: "room_id \<Rightarrow> hub \<Rightarrow> hub" where
  "drop_room r h = upd_shard (shard_ix h r) (\<lambda>s. s\<lparr>s_rooms := gm_del r (s_rooms s)\<rparr>) h"

text \<open>
  A hub that \<open>NewHub\<close> and the operations below can produce has shards, keyed maps, every user and
  room in the shard its id selects, no empty room, channels of the capacity the code makes them with,
  and in the queue of a shard only messages of the rooms of that shard.
\<close>

definition shard_ok :: "hub \<Rightarrow> nat \<Rightarrow> shard \<Rightarrow> bool" where
  "shard_ok h i s \<longleftrightarrow>
     gm_ok (s_users s) \<and> gm_ok (s_rooms s) \<and>
     (\<forall>u \<in> set (map fst (s_users s)). shard_ix h u = i) \<and>
     (\<forall>(r, cs) \<in> set (s_rooms s). shard_ix h r = i \<and> cs \<noteq> [] \<and> distinct cs) \<and>
     chan_ok (s_forward s) \<and> \<not> ch_closed (s_forward s) \<and> ch_cap (s_forward s) = forward_cap \<and>
     (\<forall>m \<in> set (ch_buf (s_forward s)). shard_ix h (m_room m) = i) \<and>
     chan_ok (s_kill s) \<and> \<not> ch_closed (s_kill s) \<and> ch_cap (s_kill s) = kill_cap"

definition shards_ok :: "hub \<Rightarrow> bool" where
  "shards_ok h \<longleftrightarrow>
     h_shards h \<noteq> [] \<and> 0 < h_threshold h \<and> 0 < h_batch h \<and>
     (\<forall>i < length (h_shards h). shard_ok h i (h_shards h ! i))"

lemma shards_ok_nonempty [dest]: "shards_ok h \<Longrightarrow> h_shards h \<noteq> []"
  by (simp add: shards_ok_def)

lemma shard_ix_less: "h_shards h \<noteq> [] \<Longrightarrow> shard_ix h i < length (h_shards h)"
  unfolding shard_ix_def by (simp add: nat_less_iff)

lemma shard_ix_upd [simp]: "shard_ix (upd_shard i f h) = shard_ix h" "shard_ix (upd_client c g h) = shard_ix h"
  by (auto simp: shard_ix_def upd_shard_def upd_client_def fun_eq_iff)

lemma shard_ok_ix: "shard_ix h' = shard_ix h \<Longrightarrow> shard_ok h' i s = shard_ok h i s"
  by (simp add: shard_ok_def)

lemma upd_shard_simps [simp]:
  "length (h_shards (upd_shard i f h)) = length (h_shards h)"
  "h_threshold (upd_shard i f h) = h_threshold h" "h_batch (upd_shard i f h) = h_batch h"
  "h_clients (upd_shard i f h) = h_clients h" "h_workers (upd_shard i f h) = h_workers h"
  by (simp_all add: upd_shard_def)

lemma upd_shard_nonempty [simp]: "h_shards (upd_shard i f h) = [] \<longleftrightarrow> h_shards h = []"
  by (simp add: upd_shard_def)

lemma upd_client_simps [simp]:
  "h_shards (upd_client c g h) = h_shards h" "h_threshold (upd_client c g h) = h_threshold h"
  "h_batch (upd_client c g h) = h_batch h"
  "h_clients (upd_client c g h) = (h_clients h)(c := g (h_clients h c))"
  "h_workers (upd_client c g h) = h_workers h"
  by (simp_all add: upd_client_def)

lemma upd_shard_nth:
  "i < length (h_shards h) \<Longrightarrow> h_shards (upd_shard i f h) ! j = (if j = i then f (h_shards h ! i) else h_shards h ! j)"
  by (auto simp: upd_shard_def)

lemma shards_ok_upd_client [simp]: "shards_ok (upd_client c g h) = shards_ok h"
  by (simp add: shards_ok_def shard_ok_ix [of "upd_client c g h" h])

lemma shards_ok_upd_shard:
  assumes "shards_ok h" "i < length (h_shards h)" "shard_ok h i (f (h_shards h ! i))"
  shows "shards_ok (upd_shard i f h)"
  using assms unfolding shards_ok_def
  by (auto simp: upd_shard_nth shard_ok_ix [of "upd_shard i f h" h])

text \<open>Locality: an update of one shard shows in the look-ups of that shard only.\<close>

lemma shard_for_upd:
  assumes "h_shards h \<noteq> []"
  shows "shard_for_user (upd_shard (shard_ix h k) f h) u =
           (if shard_ix h u = shard_ix h k then f (shard_for_user h u) else shard_for_user h u)"
    and "shard_for_room (upd_shard (shard_ix h k) f h) r =
           (if shard_ix h r = shard_ix h k then f (shard_for_room h r) else shard_for_room h r)"
  using shard_ix_less [OF assms]
  by (auto simp: shard_for_user_def shard_for_room_def upd_shard_nth)

lemma shard_for_upd_client [simp]:
  "shard_for_user (upd_client c g h) u = shard_for_user h u"
  "shard_for_room (upd_client c g h) r = shard_for_room h r"
  by (simp_all add: shard_for_user_def shard_for_room_def)

lemma lookups_upd_client [simp]:
  "client_by_user (upd_client c g h) = client_by_user h" "members (upd_client c g h) = members h"
  by (auto simp: client_by_user_def members_def fun_eq_iff)

lemma client_by_user_put:
  assumes "h_shards h \<noteq> []"
  shows "client_by_user (put_user u c h) = (client_by_user h)(u \<mapsto> c)"
    and "members (put_user u c h) = members h"
  by (auto simp: fun_eq_iff client_by_user_def members_def put_user_def shard_for_upd [OF assms] gm_get_put)

lemma client_by_user_drop:
  assumes "h_shards h \<noteq> []"
  shows "client_by_user (drop_user u h) = (client_by_user h)(u := None)"
    and "members (drop_user u h) = members h"
  by (auto simp: fun_eq_iff client_by_user_def members_def drop_user_def shard_for_upd [OF assms] gm_get_del)

lemma members_add:
  assumes "h_shards h \<noteq> []"
  shows "members (add_client_to_room c r h) = (members h)(r := List.insert c (members h r))"
    and "client_by_user (add_client_to_room c r h) = client_by_user h"
  by (auto simp: fun_eq_iff client_by_user_def members_def add_client_to_room_def shard_for_upd [OF assms]
        gm_get_put Let_def split: option.splits)

lemma members_remove:
  assumes "h_shards h \<noteq> []"
  shows "members (remove_client_from_room c r h) = (members h)(r := removeAll c (members h r))"
    and "client_by_user (remove_client_from_room c r h) = client_by_user h"
  by (auto simp: fun_eq_iff client_by_user_def members_def remove_client_from_room_def shard_for_upd [OF assms]
        gm_get_put gm_get_del Let_def split: option.splits)

lemma members_drop:
  assumes "h_shards h \<noteq> []"
  shows "members (drop_room r h) = (members h)(r := [])"
    and "client_by_user (drop_room r h) = client_by_user h"
  by (auto simp: fun_eq_iff client_by_user_def members_def drop_room_def shard_for_upd [OF assms]
        gm_get_del split: option.splits)

lemma shard_maps_frame [simp]:
  "h_clients (put_user u c h) = h_clients h" "h_clients (drop_user u h) = h_clients h"
  "h_clients (add_client_to_room c r h) = h_clients h"
  "h_clients (remove_client_from_room c r h) = h_clients h" "h_clients (drop_room r h) = h_clients h"
  "shard_ix (put_user u c h) = shard_ix h" "shard_ix (drop_user u h) = shard_ix h"
  "shard_ix (add_client_to_room c r h) = shard_ix h"
  "shard_ix (remove_client_from_room c r h) = shard_ix h" "shard_ix (drop_room r h) = shard_ix h"
  by (simp_all add: put_user_def drop_user_def add_client_to_room_def remove_client_from_room_def drop_room_def)


lemma shard_maps_nonempty [simp]:
  "h_shards (put_user u c h) = [] \<longleftrightarrow> h_shards h = []" "h_shards (drop_user u h) = [] \<longleftrightarrow> h_shards h = []"
  "h_shards (add_client_to_room c r h) = [] \<longleftrightarrow> h_shards h = []"
  "h_shards (remove_client_from_room c r h) = [] \<longleftrightarrow> h_shards h = []"
  "h_shards (drop_room r h) = [] \<longleftrightarrow> h_shards h = []"
  by (simp_all add: put_user_def drop_user_def add_client_to_room_def remove_client_from_room_def drop_room_def)

lemma shard_maps_params [simp]:
  "h_threshold (put_user u c h) = h_threshold h" "h_threshold (drop_user u h) = h_threshold h"
  "h_threshold (add_client_to_room c r h) = h_threshold h"
  "h_threshold (remove_client_from_room c r h) = h_threshold h" "h_threshold (drop_room r h) = h_threshold h"
  "h_batch (put_user u c h) = h_batch h" "h_batch (drop_user u h) = h_batch h"
  "h_batch (add_client_to_room c r h) = h_batch h"
  "h_batch (remove_client_from_room c r h) = h_batch h" "h_batch (drop_room r h) = h_batch h"
  by (simp_all add: put_user_def drop_user_def add_client_to_room_def remove_client_from_room_def drop_room_def)

text \<open>Every shard update of the hub keeps the shards well formed.\<close>

lemma gm_all_keys: "(\<forall>u \<in> set (map fst m). P u) \<longleftrightarrow> (\<forall>u v. gm_get m u = Some v \<longrightarrow> P u)"
  by (metis domI domIff list.set_map map_of_eq_None_iff not_None_eq)

lemma gm_all_entries:
  "gm_ok m \<Longrightarrow> (\<forall>(r, cs) \<in> set m. P r cs) \<longleftrightarrow> (\<forall>r cs. gm_get m r = Some cs \<longrightarrow> P r cs)"
  by auto

definition users_ok :: "hub \<Rightarrow> nat \<Rightarrow> (user_id, cid) gomap \<Rightarrow> bool" where
  "users_ok h i us \<longleftrightarrow> gm_ok us \<and> (\<forall>u c. gm_get us u = Some c \<longrightarrow> shard_ix h u = i)"

definition rooms_ok :: "hub \<Rightarrow> nat \<Rightarrow> (room_id, cid list) gomap \<Rightarrow> bool" where
  "rooms_ok h i rs \<longleftrightarrow>
     gm_ok rs \<and> (\<forall>r cs. gm_get rs r = Some cs \<longrightarrow> shard_ix h r = i \<and> cs \<noteq> [] \<and> distinct cs)"

definition queues_ok :: "hub \<Rightarrow> nat \<Rightarrow> shard \<Rightarrow> bool" where
  "queues_ok h i s \<longleftrightarrow>
     chan_ok (s_forward s) \<and> \<not> ch_closed (s_forward s) \<and> ch_cap (s_forward s) = forward_cap \<and>
     (\<forall>m \<in> set (ch_buf (s_forward s)). shard_ix h (m_room m) = i) \<and>
     chan_ok (s_kill s) \<and> \<not> ch_closed (s_kill s) \<and> ch_cap (s_kill s) = kill_cap"

lemma shard_ok_alt:
  "shard_ok h i s \<longleftrightarrow> users_ok h i (s_users s) \<and> rooms_ok h i (s_rooms s) \<and> queues_ok h i s"
  unfolding shard_ok_def users_ok_def rooms_ok_def queues_ok_def gm_all_keys
  using gm_all_entries [of "s_rooms s" "\<lambda>r cs. shard_ix h r = i \<and> cs \<noteq> [] \<and> distinct cs"]
  by argo

lemma queues_ok_maps [simp]:
  "queues_ok h i (s\<lparr>s_users := us\<rparr>) = queues_ok h i s" "queues_ok h i (s\<lparr>s_rooms := rs\<rparr>) = queues_ok h i s"
  by (simp_all add: queues_ok_def)

lemma users_ok_put: "users_ok h i us \<Longrightarrow> shard_ix h u = i \<Longrightarrow> users_ok h i (gm_put u c us)"
  by (simp add: users_ok_def gm_simps)

lemma users_ok_del: "users_ok h i us \<Longrightarrow> users_ok h i (gm_del u us)"
  by (simp add: users_ok_def gm_simps)

lemma rooms_ok_put:
  "rooms_ok h i rs \<Longrightarrow> shard_ix h r = i \<Longrightarrow> cs \<noteq> [] \<Longrightarrow> distinct cs \<Longrightarrow> rooms_ok h i (gm_put r cs rs)"
  by (simp add: rooms_ok_def gm_simps)

lemma rooms_ok_del: "rooms_ok h i rs \<Longrightarrow> rooms_ok h i (gm_del r rs)"
  by (simp add: rooms_ok_def gm_simps)

lemma rooms_okD: "rooms_ok h i rs \<Longrightarrow> gm_get rs r = Some cs \<Longrightarrow> shard_ix h r = i \<and> cs \<noteq> [] \<and> distinct cs"
  by (simp add: rooms_ok_def)

lemma shards_okD: "shards_ok h \<Longrightarrow> shard_ok h (shard_ix h k) (h_shards h ! shard_ix h k)"
  using shard_ix_less [of h k] by (auto simp: shards_ok_def)

lemma shards_ok_upd:
  assumes "shards_ok h"
    "\<And>s. shard_ok h (shard_ix h k) s \<Longrightarrow> shard_ok h (shard_ix h k) (f s)"
  shows "shards_ok (upd_shard (shard_ix h k) f h)"
  using shards_ok_upd_shard [of h "shard_ix h k" f] shard_ix_less [of h k] shards_okD [of h k] assms
  by blast

lemma shards_ok_put_user: "shards_ok h \<Longrightarrow> shards_ok (put_user u c h)"
  unfolding put_user_def by (rule shards_ok_upd) (simp_all add: shard_ok_alt users_ok_put)

lemma shards_ok_drop_user: "shards_ok h \<Longrightarrow> shards_ok (drop_user u h)"
  unfolding drop_user_def by (rule shards_ok_upd) (simp_all add: shard_ok_alt users_ok_del)

lemma shards_ok_add: "shards_ok h \<Longrightarrow> shards_ok (add_client_to_room c r h)"
  unfolding add_client_to_room_def
  by (rule shards_ok_upd)
     (auto simp: shard_ok_alt Let_def List.insert_def intro!: rooms_ok_put dest: rooms_okD split: option.splits)

lemma shards_ok_remove: "shards_ok h \<Longrightarrow> shards_ok (remove_client_from_room c r h)"
  unfolding remove_client_from_room_def
  by (rule shards_ok_upd)
     (auto simp: shard_ok_alt Let_def distinct_removeAll intro!: rooms_ok_put rooms_ok_del
       dest: rooms_okD split: option.splits)

lemma shards_ok_drop_room: "shards_ok h \<Longrightarrow> shards_ok (drop_room r h)"
  unfolding drop_room_def by (rule shards_ok_upd) (simp_all add: shard_ok_alt rooms_ok_del)

lemmas shards_ok_ops = shards_ok_put_user shards_ok_drop_user shards_ok_add shards_ok_remove shards_ok_drop_room

lemma members_distinct: "shards_ok h \<Longrightarrow> distinct (members h r)"
  using shards_okD [of h r]
  by (auto simp: members_def shard_for_room_def shard_ok_alt dest: rooms_okD split: option.splits)

lemma new_hub_with_shards_ok:
  "shards_ok (new_hub_with_shards env p cl n)"
proof -
  let ?h = "new_hub_with_shards env p cl n"
  have "0 < (if n \<le> 0 then default_shards else n)" by (simp add: default_shards_def)
  moreover have "0 < positive_env_int env ''HUB_FANOUT_THRESHOLD'' default_threshold"
      "0 < positive_env_int env ''HUB_FANOUT_BATCH_SIZE'' default_batch"
    by (simp_all add: positive_env_int_pos default_threshold_def default_batch_def)
  moreover have "shard_ok ?h i new_shard" for i
    by (simp add: shard_ok_def new_shard_def chan_new_def chan_ok_def)
  ultimately show ?thesis
    by (auto simp: shards_ok_def new_hub_with_shards_def Let_def)
qed

lemma new_hub_empty [simp]:
  "client_by_user (new_hub_with_shards env p cl n) u = None"
  "members (new_hub_with_shards env p cl n) r = []"
  "h_clients (new_hub_with_shards env p cl n) = cl"
proof -
  let ?h = "new_hub_with_shards env p cl n"
  have "h_shards ?h ! shard_ix ?h k = new_shard" for k
    using shard_ix_less [of ?h k] shards_ok_nonempty [OF new_hub_with_shards_ok, of env p cl n]
    by (simp add: new_hub_with_shards_def Let_def split: if_splits)
  then show "client_by_user ?h u = None" "members ?h r = []"
    by (simp_all add: client_by_user_def members_def shard_for_user_def shard_for_room_def new_shard_def)
  show "h_clients ?h = cl" by (simp add: new_hub_with_shards_def Let_def)
qed

end
