(* ===== verification/Hub.thy ===== *)
theory Hub
  imports HubState
begin

section \<open>Operations of the WebSocket hub (services/gateway/websocket/hub.go, client.go)\<close>

text \<open>
  One definition per method. An operation that can panic (a send on a closed channel, closing a
  channel twice) returns an option, \<open>None\<close> being the panic. The critical sections the code guards
  with \<open>Client.mu\<close> are one definition each; \<open>DisbandRoom\<close> locks its clients one after the other
  and is therefore also given by its two phases. Pointer arguments are \<open>cid option\<close>, \<open>None\<close> for nil.
  Log lines and gauges are left out.
\<close>

subsection \<open>Client\<close>

definition set_last_read :: "int \<Rightarrow> client \<Rightarrow> client" where
  "set_last_read t cl = cl\<lparr>c_last_read := unix_milli t\<rparr>"

definition set_last_write :: "int \<Rightarrow> client \<Rightarrow> client" where
  "set_last_write t cl = cl\<lparr>c_last_write := unix_milli t\<rparr>"

definition last_read_at :: "client \<Rightarrow> int" where
  "last_read_at cl = (if 0 < c_last_read cl then of_unix_milli (c_last_read cl) else c_connected_at cl)"

definition last_write_at :: "client \<Rightarrow> int" where
  "last_write_at cl = (if 0 < c_last_write cl then of_unix_milli (c_last_write cl) else c_connected_at cl)"

definition set_username :: "string \<Rightarrow> client \<Rightarrow> client" where
  "set_username n cl = cl\<lparr>c_username := n\<rparr>"

definition activate :: "client \<Rightarrow> client" where
  "activate cl = cl\<lparr>c_active := True, c_rooms := (if c_rooms cl = None then Some [] else c_rooms cl)\<rparr>"

text \<open>The keys of \<open>roomIDs\<close>; a nil map has none.\<close>

definition rooms_of :: "client \<Rightarrow> room_id list" where
  "rooms_of cl = (case c_rooms cl of None \<Rightarrow> [] | Some rs \<Rightarrow> rs)"

definition close_send :: "client \<Rightarrow> client option" where
  "close_send cl =
     (case c_send cl of
        None \<Rightarrow> Some cl
      | Some ch \<Rightarrow>
          if c_send_closed cl then Some cl
          else (case chan_close ch of
                  None \<Rightarrow> None
                | Some ch' \<Rightarrow> Some (cl\<lparr>c_send_closed := True, c_send := Some ch'\<rparr>)))"

text \<open>A send on a nil channel is never ready, so the select takes its default branch.\<close>

definition try_send :: "payload \<Rightarrow> client \<Rightarrow> (client \<times> bool) option" where
  "try_send p cl =
     (if c_send_closed cl then Some (cl, False)
      else (case c_send cl of
              None \<Rightarrow> Some (cl, False)
            | Some ch \<Rightarrow>
                (case chan_try_send p ch of
                   SendPanic \<Rightarrow> None
                 | Sent ch' \<Rightarrow> Some (cl\<lparr>c_send := Some ch'\<rparr>, True)
                 | Full \<Rightarrow> Some (cl, False))))"

subsection \<open>Registration\<close>

definition register :: "cid option \<Rightarrow> room_id list \<Rightarrow> hub \<Rightarrow> hub" where
  "register co roomIDs h =
     (case co of
        None \<Rightarrow> h
      | Some c \<Rightarrow>
          (let h1 = upd_client c (\<lambda>cl. cl\<lparr>c_active := True, c_rooms := Some (fold List.insert roomIDs [])\<rparr>) h;
               h2 = put_user (c_user (h_clients h1 c)) c h1
           in fold (add_client_to_room c) roomIDs h2))"

definition unregister :: "cid option \<Rightarrow> hub \<Rightarrow> hub option" where
  "unregister co h =
     (case co of
        None \<Rightarrow> Some h
      | Some c \<Rightarrow>
          if \<not> c_active (h_clients h c) then Some h
          else
            (let h1 = upd_client c (\<lambda>cl. cl\<lparr>c_active := False\<rparr>) h;
                 u = c_user (h_clients h1 c);
                 h2 = (if client_by_user h1 u = Some c then drop_user u h1 else h1);
                 h3 = fold (remove_client_from_room c) (rooms_of (h_clients h2 c)) h2;
                 h4 = upd_client c (\<lambda>cl. cl\<lparr>c_rooms := None\<rparr>) h3
             in map_option (\<lambda>cl. upd_client c (\<lambda>_. cl) h4) (close_send (h_clients h4 c))))"

definition update_rooms :: "cid option \<Rightarrow> room_id list \<Rightarrow> hub \<Rightarrow> hub" where
  "update_rooms co roomIDs h =
     (case co of
        None \<Rightarrow> h
      | Some c \<Rightarrow>
          if \<not> c_active (h_clients h c) then h
          else
            (let newRooms = fold List.insert roomIDs [];
                 old = rooms_of (h_clients h c);
                 h1 = fold (remove_client_from_room c) (filter (\<lambda>r. r \<notin> set newRooms) old) h;
                 h2 = fold (add_client_to_room c) (filter (\<lambda>r. r \<notin> set old) newRooms) h1
             in upd_client c (\<lambda>cl. cl\<lparr>c_rooms := Some newRooms\<rparr>) h2))"

subsection \<open>Room membership of the user's current connection\<close>

definition join_room :: "user_id \<Rightarrow> room_id \<Rightarrow> hub \<Rightarrow> hub" where
  "join_room u r h =
     (case client_by_user h u of
        None \<Rightarrow> h
      | Some c \<Rightarrow>
          if \<not> c_active (h_clients h c) then h
          else if r \<in> set (rooms_of (h_clients h c)) then h
          else add_client_to_room c r
                 (upd_client c (\<lambda>cl. cl\<lparr>c_rooms := Some (List.insert r (rooms_of cl))\<rparr>) h))"

definition leave_room :: "user_id \<Rightarrow> room_id \<Rightarrow> hub \<Rightarrow> hub" where
  "leave_room u r h =
     (case client_by_user h u of
        None \<Rightarrow> h
      | Some c \<Rightarrow>
          if \<not> c_active (h_clients h c) then h
          else if r \<notin> set (rooms_of (h_clients h c)) then h
          else remove_client_from_room c r
                 (upd_client c (\<lambda>cl. cl\<lparr>c_rooms := map_option (removeAll r) (c_rooms cl)\<rparr>) h))"

text \<open>
  \<open>DisbandRoom\<close>: the first phase, under the lock of the room's shard, takes the room out and
  remembers its clients; the second deletes the room from each of them under the client's own lock.
\<close>

definition disband_shard :: "room_id \<Rightarrow> hub \<Rightarrow> cid list \<times> hub" where
  "disband_shard r h = (members h r, drop_room r h)"

definition forget_room :: "room_id \<Rightarrow> cid \<Rightarrow> hub \<Rightarrow> hub" where
  "forget_room r c h = upd_client c (\<lambda>cl. cl\<lparr>c_rooms := map_option (removeAll r) (c_rooms cl)\<rparr>) h"

definition disband_room :: "room_id \<Rightarrow> hub \<Rightarrow> hub" where
  "disband_room r h = (case disband_shard r h of (cs, h1) \<Rightarrow> fold (forget_room r) cs h1)"

subsection \<open>Closing connections\<close>

definition close_conn :: "cid \<Rightarrow> hub \<Rightarrow> hub" where
  "close_conn c h = upd_client c (\<lambda>cl. cl\<lparr>c_conn := Some False\<rparr>) h"

definition kick :: "user_id \<Rightarrow> hub \<Rightarrow> hub" where
  "kick u h =
     (case client_by_user h u of
        None \<Rightarrow> h
      | Some c \<Rightarrow> if c_conn (h_clients h c) \<noteq> None then close_conn c h else h)"

text \<open>The loop over the shards goes on when the client found has no connection.\<close>

fun close_in_shards :: "string \<Rightarrow> shard list \<Rightarrow> hub \<Rightarrow> hub" where
  "close_in_shards k [] h = h"
| "close_in_shards k (s # ss) h =
     (case find (\<lambda>c. c_conn_id (h_clients h c) = k) (map snd (s_users s)) of
        Some c \<Rightarrow> if c_conn (h_clients h c) \<noteq> None then close_conn c h else close_in_shards k ss h
      | None \<Rightarrow> close_in_shards k ss h)"

definition close_connection :: "string \<Rightarrow> hub \<Rightarrow> hub" where
  "close_connection k h = close_in_shards k (h_shards h) h"

subsection \<open>Publishing and dispatching\<close>

definition publish :: "message option \<Rightarrow> hub \<Rightarrow> hub" where
  "publish mo h =
     (case mo of
        None \<Rightarrow> h
      | Some m \<Rightarrow>
          upd_shard (shard_ix h (m_room m)) (\<lambda>s. s\<lparr>s_forward := chan_offer m (s_forward s)\<rparr>) h)"

definition request_evict :: "cid \<Rightarrow> hub \<Rightarrow> hub" where
  "request_evict c h =
     upd_shard (shard_ix h (c_user (h_clients h c))) (\<lambda>s. s\<lparr>s_kill := chan_offer c (s_kill s)\<rparr>) h"

text \<open>One client of a dispatch: send, or ask for its eviction. The number counts the sends.\<close>

definition deliver :: "payload \<Rightarrow> cid \<Rightarrow> hub \<times> nat \<Rightarrow> (hub \<times> nat) option" where
  "deliver p c st =
     (case try_send p (h_clients (fst st) c) of
        None \<Rightarrow> None
      | Some (cl, ok) \<Rightarrow>
          if ok then Some (upd_client c (\<lambda>_. cl) (fst st), snd st + 1)
          else Some (request_evict c (fst st), snd st))"

fun deliver_all :: "payload \<Rightarrow> cid list \<Rightarrow> hub \<times> nat \<Rightarrow> (hub \<times> nat) option" where
  "deliver_all p [] st = Some st"
| "deliver_all p (c # cs) st =
     (case deliver p c st of None \<Rightarrow> None | Some st' \<Rightarrow> deliver_all p cs st')"

fun chunks :: "nat \<Rightarrow> 'a list \<Rightarrow> 'a list list" where
  "chunks k [] = []"
| "chunks k (x # xs) = (if k = 0 then [] else take k (x # xs) # chunks k (drop (k - 1) xs))"

definition fanout_tasks :: "nat \<Rightarrow> nat \<Rightarrow> nat" where
  "fanout_tasks n batch = (let t = ceil_div n batch in if t < 2 then 2 else t)"

definition fanout_batches :: "nat \<Rightarrow> 'a list \<Rightarrow> 'a list list" where
  "fanout_batches batch cs = chunks (ceil_div (length cs) (fanout_tasks (length cs) batch)) cs"

text \<open>
  The tasks of a large room run concurrently in the pool (a task the pool refuses runs in the
  dispatching goroutine) and the dispatch waits for all of them. \<open>sched\<close> is the order in which the
  sends of the batches happen, any order that runs each batch's clients once.
\<close>

type_synonym scheduler = "cid list list \<Rightarrow> cid list"

definition fair_schedule :: "scheduler \<Rightarrow> bool" where
  "fair_schedule sched \<longleftrightarrow> (\<forall>bs. mset (sched bs) = mset (concat bs))"

definition dispatch_message :: "scheduler \<Rightarrow> nat \<Rightarrow> message \<Rightarrow> payload \<Rightarrow> hub \<Rightarrow> (hub \<times> nat) option" where
  "dispatch_message sched i m p h =
     (let cs = (case gm_get (s_rooms (h_shards h ! i)) (m_room m) of None \<Rightarrow> [] | Some cs \<Rightarrow> cs)
      in if cs = [] then Some (h, 0)
         else if length cs < h_threshold h then deliver_all p cs (h, 0)
         else deliver_all p (sched (fanout_batches (h_batch h) cs)) (h, 0))"

text \<open>The two branches of a shard's loop that handle a queue entry.\<close>

definition run_forward :: "time_json \<Rightarrow> scheduler \<Rightarrow> nat \<Rightarrow> hub \<Rightarrow> hub option" where
  "run_forward tj sched i h =
     (case chan_recv (s_forward (h_shards h ! i)) of
        None \<Rightarrow> Some h
      | Some (m, ch) \<Rightarrow>
          (let h1 = upd_shard i (\<lambda>s. s\<lparr>s_forward := ch\<rparr>) h
           in case marshal_message tj m of
                None \<Rightarrow> Some h1
              | Some p \<Rightarrow> map_option fst (dispatch_message sched i m p h1)))"

definition run_kill :: "nat \<Rightarrow> hub \<Rightarrow> hub option" where
  "run_kill i h =
     (case chan_recv (s_kill (h_shards h ! i)) of
        None \<Rightarrow> Some h
      | Some (c, ch) \<Rightarrow> unregister (Some c) (upd_shard i (\<lambda>s. s\<lparr>s_kill := ch\<rparr>) h))"

subsection \<open>Snapshots\<close>

record connection_snapshot =
  cs_user_id :: user_id
  cs_username :: string
  cs_connection_id :: string
  cs_remote_ip :: string
  cs_user_agent :: string
  cs_client_version :: string
  cs_connected_at :: int
  cs_last_read_at :: int
  cs_last_write_at :: int
  cs_send_queue_len :: nat
  cs_room_ids :: "room_id list"

definition snapshot_of :: "client \<Rightarrow> connection_snapshot" where
  "snapshot_of cl =
     \<lparr>cs_user_id = c_user cl, cs_username = c_username cl, cs_connection_id = c_conn_id cl,
      cs_remote_ip = c_remote_ip cl, cs_user_agent = c_user_agent cl, cs_client_version = c_version cl,
      cs_connected_at = c_connected_at cl, cs_last_read_at = last_read_at cl,
      cs_last_write_at = last_write_at cl,
      cs_send_queue_len = (case c_send cl of None \<Rightarrow> 0 | Some ch \<Rightarrow> length (ch_buf ch)),
      cs_room_ids = rooms_of cl\<rparr>"

definition connections :: "hub \<Rightarrow> connection_snapshot list" where
  "connections h =
     map (\<lambda>c. snapshot_of (h_clients h c)) (concat (map (\<lambda>s. map snd (s_users s)) (h_shards h)))"

record hub_stats =
  st_clients :: nat
  st_rooms :: nat

definition stats :: "hub \<Rightarrow> hub_stats" where
  "stats h =
     \<lparr>st_clients = sum_list (map (\<lambda>s. length (s_users s)) (h_shards h)),
      st_rooms = sum_list (map (\<lambda>s. length (s_rooms s)) (h_shards h))\<rparr>"

end
