(* ===== verification/HubInv.thy ===== *)
theory HubInv
  imports Hub
begin

section \<open>What the hub promises: invariant, abstract specification, refinement\<close>

text \<open>
  The abstract hub has no shards: for every user the current connection, for every room the set of
  subscribed connections, and the set of live connections. Every operation of the sharded hub keeps
  the invariant \<open>hub_inv\<close>, never panics and commutes with the abstraction.
\<close>

subsection \<open>Invariant\<close>

definition client_ok :: "client \<Rightarrow> bool" where
  "client_ok cl \<longleftrightarrow>
     (case c_send cl of None \<Rightarrow> True | Some ch \<Rightarrow> chan_ok ch \<and> ch_closed ch = c_send_closed cl) \<and>
     (c_active cl \<longrightarrow> \<not> c_send_closed cl) \<and>
     (c_active cl \<longleftrightarrow> c_rooms cl \<noteq> None) \<and>
     distinct (rooms_of cl)"

definition hub_inv :: "hub \<Rightarrow> bool" where
  "hub_inv h \<longleftrightarrow>
     shards_ok h \<and>
     (\<forall>u c. client_by_user h u = Some c \<longrightarrow> c_user (h_clients h c) = u \<and> c_active (h_clients h c)) \<and>
     (\<forall>r c. c \<in> set (members h r) \<longleftrightarrow> r \<in> set (rooms_of (h_clients h c))) \<and>
     (\<forall>c. client_ok (h_clients h c))"

text \<open>A connection the endpoint has just made: never registered, its send channel open.\<close>

definition fresh_client :: "client \<Rightarrow> bool" where
  "fresh_client cl \<longleftrightarrow>
     \<not> c_active cl \<and> c_rooms cl = None \<and> \<not> c_send_closed cl \<and>
     (case c_send cl of None \<Rightarrow> True | Some ch \<Rightarrow> chan_ok ch \<and> \<not> ch_closed ch)"

lemma fresh_client_ok: "fresh_client cl \<Longrightarrow> client_ok cl"
  by (auto simp: fresh_client_def client_ok_def rooms_of_def split: option.splits)

subsection \<open>Abstract hub\<close>

record ahub =
  a_current :: "user_id \<Rightarrow> cid option"
  a_subs :: "room_id \<Rightarrow> cid set"
  a_live :: "cid set"

definition hub_abs :: "hub \<Rightarrow> ahub" where
  "hub_abs h = \<lparr>a_current = client_by_user h, a_subs = (\<lambda>r. set (members h r)),
                a_live = {c. c_active (h_clients h c)}\<rparr>"

definition a_register :: "user_id \<Rightarrow> cid \<Rightarrow> room_id list \<Rightarrow> ahub \<Rightarrow> ahub" where
  "a_register u c rs a =
     \<lparr>a_current = (a_current a)(u \<mapsto> c),
      a_subs = (\<lambda>r. if r \<in> set rs then insert c (a_subs a r) else a_subs a r),
      a_live = insert c (a_live a)\<rparr>"

definition a_unregister :: "user_id \<Rightarrow> cid \<Rightarrow> ahub \<Rightarrow> ahub" where
  "a_unregister u c a =
     (if c \<notin> a_live a then a
      else \<lparr>a_current = (if a_current a u = Some c then (a_current a)(u := None) else a_current a),
            a_subs = (\<lambda>r. a_subs a r - {c}),
            a_live = a_live a - {c}\<rparr>)"

definition a_update_rooms :: "cid \<Rightarrow> room_id list \<Rightarrow> ahub \<Rightarrow> ahub" where
  "a_update_rooms c rs a =
     (if c \<notin> a_live a then a
      else a\<lparr>a_subs := (\<lambda>r. if r \<in> set rs then insert c (a_subs a r) else a_subs a r - {c})\<rparr>)"

definition a_join :: "user_id \<Rightarrow> room_id \<Rightarrow> ahub \<Rightarrow> ahub" where
  "a_join u r a =
     (case a_current a u of None \<Rightarrow> a | Some c \<Rightarrow> a\<lparr>a_subs := (a_subs a)(r := insert c (a_subs a r))\<rparr>)"

definition a_leave :: "user_id \<Rightarrow> room_id \<Rightarrow> ahub \<Rightarrow> ahub" where
  "a_leave u r a =
     (case a_current a u of None \<Rightarrow> a | Some c \<Rightarrow> a\<lparr>a_subs := (a_subs a)(r := a_subs a r - {c})\<rparr>)"

definition a_disband :: "room_id \<Rightarrow> ahub \<Rightarrow> ahub" where
  "a_disband r a = a\<lparr>a_subs := (a_subs a)(r := {})\<rparr>"

subsection \<open>Folding the shard updates over a list of rooms\<close>

lemma fold_add_client:
  assumes "h_shards h \<noteq> []"
  shows "set (members (fold (add_client_to_room c) rs h) r)
           = (if r \<in> set rs then insert c (set (members h r)) else set (members h r))"
    and "client_by_user (fold (add_client_to_room c) rs h) = client_by_user h"
    and "h_clients (fold (add_client_to_room c) rs h) = h_clients h"
    and "shard_ix (fold (add_client_to_room c) rs h) = shard_ix h"
    and "h_shards (fold (add_client_to_room c) rs h) \<noteq> []"
  using assms by (induction rs arbitrary: h) (simp_all add: members_add)

lemma fold_remove_client:
  assumes "h_shards h \<noteq> []"
  shows "set (members (fold (remove_client_from_room c) rs h) r)
           = (if r \<in> set rs then set (members h r) - {c} else set (members h r))"
    and "client_by_user (fold (remove_client_from_room c) rs h) = client_by_user h"
    and "h_clients (fold (remove_client_from_room c) rs h) = h_clients h"
    and "shard_ix (fold (remove_client_from_room c) rs h) = shard_ix h"
    and "h_shards (fold (remove_client_from_room c) rs h) \<noteq> []"
  using assms by (induction rs arbitrary: h) (simp_all add: members_remove)

lemma shards_ok_fold:
  "shards_ok h \<Longrightarrow> shards_ok (fold (add_client_to_room c) rs h)"
  "shards_ok h \<Longrightarrow> shards_ok (fold (remove_client_from_room c) rs h)"
  by (induction rs arbitrary: h) (simp_all add: shards_ok_add shards_ok_remove)

lemma set_fold_insert: "set (fold List.insert xs ys) = set xs \<union> set ys"
  by (induction xs arbitrary: ys) auto

lemma distinct_fold_insert: "distinct ys \<Longrightarrow> distinct (fold List.insert xs ys)"
  by (induction xs arbitrary: ys) auto

lemma rooms_of_simps [simp]:
  "rooms_of (cl\<lparr>c_rooms := Some rs\<rparr>) = rs" "rooms_of (cl\<lparr>c_rooms := None\<rparr>) = []"
  "rooms_of (cl\<lparr>c_active := b\<rparr>) = rooms_of cl" "rooms_of (cl\<lparr>c_conn := x\<rparr>) = rooms_of cl"
  "rooms_of (cl\<lparr>c_send := s\<rparr>) = rooms_of cl" "rooms_of (cl\<lparr>c_send_closed := b\<rparr>) = rooms_of cl"
  "rooms_of (cl\<lparr>c_rooms := map_option f (c_rooms cl)\<rparr>) = (case c_rooms cl of None \<Rightarrow> [] | Some rs \<Rightarrow> f rs)"
  by (auto simp: rooms_of_def split: option.splits)

lemma rooms_of_removeAll: "(case c_rooms cl of None \<Rightarrow> [] | Some rs \<Rightarrow> removeAll r rs) = removeAll r (rooms_of cl)"
  by (auto simp: rooms_of_def split: option.splits)

lemma hub_invD:
  assumes "hub_inv h"
  shows "shards_ok h"
    and "client_by_user h u = Some c \<Longrightarrow> c_user (h_clients h c) = u \<and> c_active (h_clients h c)"
    and "c \<in> set (members h r) \<longleftrightarrow> r \<in> set (rooms_of (h_clients h c))"
    and "client_ok (h_clients h c)"
  using assms by (auto simp: hub_inv_def)

lemma client_ok_rooms:
  "client_ok cl \<Longrightarrow> \<not> c_active cl \<Longrightarrow> rooms_of cl = []"
  by (simp add: client_ok_def rooms_of_def)

subsection \<open>Each operation: invariant and refinement\<close>

lemma register_refines:
  assumes inv: "hub_inv h" and fr: "fresh_client (h_clients h c)"
  shows "hub_inv (register (Some c) rs h)"
    and "hub_abs (register (Some c) rs h) = a_register (c_user (h_clients h c)) c rs (hub_abs h)"
proof -
  let ?cl = "h_clients h c"
  let ?g = "\<lambda>cl. cl\<lparr>c_active := True, c_rooms := Some (fold List.insert rs [])\<rparr>"
  let ?h1 = "upd_client c ?g h"
  let ?h2 = "put_user (c_user ?cl) c ?h1"
  let ?h = "fold (add_client_to_room c) rs ?h2"
  have ne: "h_shards h \<noteq> []" using hub_invD(1) [OF inv] by auto
  then have ne1: "h_shards ?h1 \<noteq> []" and ne2: "h_shards ?h2 \<noteq> []" by simp_all
  have eq: "register (Some c) rs h = ?h" by (simp add: register_def Let_def)
  have cu: "client_by_user ?h = (client_by_user h)(c_user ?cl \<mapsto> c)"
    using fold_add_client(2) [OF ne2] client_by_user_put(1) [OF ne1] by simp
  have mem: "set (members ?h r) = (if r \<in> set rs then insert c (set (members h r)) else set (members h r))" for r
    using fold_add_client(1) [OF ne2] client_by_user_put(2) [OF ne1] by simp
  have cl: "h_clients ?h = (h_clients h)(c := ?g ?cl)"
    using fold_add_client(3) [OF ne2] by simp
  have sh: "shards_ok ?h"
    using hub_invD(1) [OF inv] by (simp add: shards_ok_fold shards_ok_put_user)
  have none: "\<not> c_active ?cl" "rooms_of ?cl = []"
    using fr by (auto simp: fresh_client_def rooms_of_def)
  have okc: "client_ok (?g ?cl)"
    using fr distinct_fold_insert [of "[]" rs] by (auto simp: fresh_client_def client_ok_def split: option.splits)
  show "hub_inv (register (Some c) rs h)"
    unfolding eq hub_inv_def
  proof (intro conjI allI impI)
    show "shards_ok ?h" by (rule sh)
  next
    fix u d assume "client_by_user ?h u = Some d"
    then show "c_user (h_clients ?h d) = u" and "c_active (h_clients ?h d)"
      using hub_invD(2) [OF inv, of u d] unfolding cu cl by (auto split: if_splits)
  next
    fix r d show "(d \<in> set (members ?h r)) = (r \<in> set (rooms_of (h_clients ?h d)))"
      using hub_invD(3) [OF inv, of d r] hub_invD(3) [OF inv, of c r] none
      unfolding mem cl by (auto simp: set_fold_insert)
  next
    fix d show "client_ok (h_clients ?h d)"
      using hub_invD(4) [OF inv, of d] okc unfolding cl by simp
  qed
  show "hub_abs (register (Some c) rs h) = a_register (c_user ?cl) c rs (hub_abs h)"
    unfolding eq hub_abs_def cu mem cl by (auto simp: a_register_def fun_eq_iff)
qed


lemma close_send_total:
  "client_ok cl \<Longrightarrow> \<exists>cl'. close_send cl = Some cl' \<and> c_user cl' = c_user cl \<and> c_active cl' = c_active cl \<and>
      c_rooms cl' = c_rooms cl \<and> (\<not> c_active cl \<longrightarrow> client_ok cl')"
  by (auto simp: close_send_def client_ok_def chan_close_def chan_ok_def rooms_of_def split: option.splits)

lemma close_send_deactivated:
  assumes "client_ok cl"
  shows "\<exists>cl'. close_send (cl\<lparr>c_active := False, c_rooms := None\<rparr>) = Some cl' \<and> c_user cl' = c_user cl \<and>
      \<not> c_active cl' \<and> c_rooms cl' = None \<and> client_ok cl'"
proof -
  have "client_ok (cl\<lparr>c_active := False, c_rooms := None\<rparr>)"
    using assms by (auto simp: client_ok_def split: option.splits)
  from close_send_total [OF this] show ?thesis by auto
qed

lemma unregister_refines:
  assumes inv: "hub_inv h"
  shows "\<exists>h'. unregister (Some c) h = Some h' \<and> hub_inv h' \<and>
           hub_abs h' = a_unregister (c_user (h_clients h c)) c (hub_abs h)"
proof (cases "c_active (h_clients h c)")
  case False
  with inv show ?thesis by (simp add: unregister_def a_unregister_def hub_abs_def)
next
  case True
  let ?cl = "h_clients h c"
  let ?u = "c_user ?cl"
  let ?h1 = "upd_client c (\<lambda>cl. cl\<lparr>c_active := False\<rparr>) h"
  define h2 where "h2 = (if client_by_user ?h1 ?u = Some c then drop_user ?u ?h1 else ?h1)"
  let ?h3 = "fold (remove_client_from_room c) (rooms_of ?cl) h2"
  let ?h4 = "upd_client c (\<lambda>cl. cl\<lparr>c_rooms := None\<rparr>) ?h3"
  obtain cl' where cs: "close_send (?cl\<lparr>c_active := False, c_rooms := None\<rparr>) = Some cl'"
    and cl': "c_user cl' = ?u" "\<not> c_active cl'" "c_rooms cl' = None" "client_ok cl'"
    using close_send_deactivated [OF hub_invD(4) [OF inv]] by blast
  let ?h = "upd_client c (\<lambda>_. cl') ?h4"
  have ne: "h_shards h \<noteq> []" using hub_invD(1) [OF inv] by auto
  then have ne1: "h_shards ?h1 \<noteq> []" and ne2: "h_shards h2 \<noteq> []" by (simp_all add: h2_def)
  have cl2: "h_clients h2 = (h_clients h)(c := ?cl\<lparr>c_active := False\<rparr>)" by (simp add: h2_def)
  have cl3: "h_clients ?h3 = (h_clients h)(c := ?cl\<lparr>c_active := False\<rparr>)"
    using fold_remove_client(3) [OF ne2] cl2 by metis
  have h2': "(if client_by_user ?h1 (c_user (h_clients ?h1 c)) = Some c
      then drop_user (c_user (h_clients ?h1 c)) ?h1 else ?h1) = h2" by (simp add: h2_def)
  have eq: "unregister (Some c) h = Some ?h"
    unfolding unregister_def Let_def option.case h2' using True cs cl3 cl2 by simp
  have cu: "client_by_user ?h = (if client_by_user h ?u = Some c then (client_by_user h)(?u := None) else client_by_user h)"
    using fold_remove_client(2) [OF ne2] client_by_user_drop(1) [OF ne1] by (simp add: h2_def)
  have mem: "set (members ?h r) = (if r \<in> set (rooms_of ?cl) then set (members h r) - {c} else set (members h r))" for r
    using fold_remove_client(1) [OF ne2, of c "rooms_of ?cl" r] client_by_user_drop(2) [OF ne1, of ?u]
    by (simp add: h2_def)
  have mem': "set (members ?h r) = set (members h r) - {c}" for r
    using mem [of r] hub_invD(3) [OF inv, of c r] by auto
  have clh: "h_clients ?h = (h_clients h)(c := cl')" using cl3 by simp
  have sh: "shards_ok ?h"
    using hub_invD(1) [OF inv] by (simp add: shards_ok_fold shards_ok_drop_user h2_def)
  have "hub_inv ?h"
    unfolding hub_inv_def
  proof (intro conjI allI impI)
    show "shards_ok ?h" by (rule sh)
  next
    fix u d assume a: "client_by_user ?h u = Some d"
    have h: "client_by_user h u = Some d" using a unfolding cu by (simp split: if_splits)
    note hd = hub_invD(2) [OF inv h]
    have "d \<noteq> c" using a h hd unfolding cu by (auto split: if_splits)
    with hd show "c_user (h_clients ?h d) = u" and "c_active (h_clients ?h d)" unfolding clh by simp_all
  next
    fix r d show "(d \<in> set (members ?h r)) = (r \<in> set (rooms_of (h_clients ?h d)))"
      using hub_invD(3) [OF inv, of d r] cl'(3) unfolding mem' clh by (simp add: rooms_of_def)
  next
    fix d show "client_ok (h_clients ?h d)"
      using hub_invD(4) [OF inv, of d] cl'(4) unfolding clh by simp
  qed
  moreover have "hub_abs ?h = a_unregister ?u c (hub_abs h)"
    using True cl'(2) unfolding hub_abs_def cu mem' clh by (auto simp: a_unregister_def fun_eq_iff)
  ultimately show ?thesis using eq by blast
qed

lemma client_ok_set_rooms:
  "client_ok cl \<Longrightarrow> c_active cl \<Longrightarrow> distinct rs \<Longrightarrow> client_ok (cl\<lparr>c_rooms := Some rs\<rparr>)"
  by (cases "c_send cl") (simp_all add: client_ok_def)

lemma update_rooms_refines:
  assumes inv: "hub_inv h"
  shows "hub_inv (update_rooms (Some c) rs h)"
    and "hub_abs (update_rooms (Some c) rs h) = a_update_rooms c rs (hub_abs h)"
proof -
  let ?cl = "h_clients h c"
  let ?new = "fold List.insert rs []"
  let ?h1 = "fold (remove_client_from_room c) (filter (\<lambda>r. r \<notin> set ?new) (rooms_of ?cl)) h"
  let ?h2 = "fold (add_client_to_room c) (filter (\<lambda>r. r \<notin> set (rooms_of ?cl)) ?new) ?h1"
  let ?h = "upd_client c (\<lambda>cl. cl\<lparr>c_rooms := Some ?new\<rparr>) ?h2"
  have ne: "h_shards h \<noteq> []" using hub_invD(1) [OF inv] by auto
  have ne1: "h_shards ?h1 \<noteq> []" by (rule fold_remove_client(5) [OF ne])
  have eq: "update_rooms (Some c) rs h = (if c_active ?cl then ?h else h)"
    by (simp add: update_rooms_def Let_def)
  have cu: "client_by_user ?h = client_by_user h"
    using fold_add_client(2) [OF ne1] fold_remove_client(2) [OF ne] by simp
  have cl: "h_clients ?h = (h_clients h)(c := ?cl\<lparr>c_rooms := Some ?new\<rparr>)"
    using fold_add_client(3) [OF ne1] fold_remove_client(3) [OF ne] by simp
  have mem: "set (members ?h r) = (if r \<in> set rs then insert c (set (members h r)) else set (members h r) - {c})" for r
    using fold_add_client(1) [OF ne1] fold_remove_client(1) [OF ne] hub_invD(3) [OF inv, of c r]
    by (auto simp: set_fold_insert split: if_splits)
  have sh: "shards_ok ?h" using hub_invD(1) [OF inv] by (simp add: shards_ok_fold)
  have "hub_inv ?h" if act: "c_active ?cl"
    unfolding hub_inv_def
  proof (intro conjI allI impI)
    show "shards_ok ?h" by (rule sh)
  next
    fix u d assume "client_by_user ?h u = Some d"
    then show "c_user (h_clients ?h d) = u" and "c_active (h_clients ?h d)"
      using hub_invD(2) [OF inv, of u d] unfolding cu cl by auto
  next
    fix r d show "(d \<in> set (members ?h r)) = (r \<in> set (rooms_of (h_clients ?h d)))"
      using hub_invD(3) [OF inv, of d r] unfolding mem cl by (auto simp: set_fold_insert)
  next
    fix d show "client_ok (h_clients ?h d)"
      using hub_invD(4) [OF inv] act distinct_fold_insert [of "[]" rs]
      unfolding cl by (simp add: client_ok_set_rooms)
  qed
  with inv show "hub_inv (update_rooms (Some c) rs h)" by (simp add: eq)
  show "hub_abs (update_rooms (Some c) rs h) = a_update_rooms c rs (hub_abs h)"
  proof (cases "c_active ?cl")
    case True
    then show ?thesis
      unfolding eq hub_abs_def if_P [OF True] cu mem cl by (auto simp: a_update_rooms_def fun_eq_iff)
  qed (simp add: eq hub_abs_def a_update_rooms_def)
qed

lemma room_change_inv:
  assumes inv: "hub_inv h" and act: "c_active (h_clients h c)" and d: "distinct rs"
    and cu: "client_by_user h' = client_by_user h"
    and cl: "h_clients h' = (h_clients h)(c := (h_clients h c)\<lparr>c_rooms := Some rs\<rparr>)"
    and mem: "\<And>r. set (members h' r) = (if r \<in> set rs then insert c (set (members h r)) else set (members h r) - {c})"
    and sh: "shards_ok h'"
  shows "hub_inv h'"
  unfolding hub_inv_def
proof (intro conjI allI impI)
  show "shards_ok h'" by (rule sh)
next
  fix u d assume "client_by_user h' u = Some d"
  then show "c_user (h_clients h' d) = u" and "c_active (h_clients h' d)"
    using hub_invD(2) [OF inv, of u d] by (auto simp: cu cl)
next
  fix r d show "(d \<in> set (members h' r)) = (r \<in> set (rooms_of (h_clients h' d)))"
    using hub_invD(3) [OF inv, of d r] by (auto simp: mem cl)
next
  fix e show "client_ok (h_clients h' e)"
    using hub_invD(4) [OF inv] act d by (simp add: cl client_ok_set_rooms)
qed

lemma active_rooms: "client_ok cl \<Longrightarrow> c_active cl \<Longrightarrow> c_rooms cl = Some (rooms_of cl)"
  by (auto simp: client_ok_def rooms_of_def split: option.splits)

lemma join_room_refines:
  assumes inv: "hub_inv h"
  shows "hub_inv (join_room u r h)" and "hub_abs (join_room u r h) = a_join u r (hub_abs h)"
proof -
  have ne: "h_shards h \<noteq> []" using hub_invD(1) [OF inv] by auto
  have "hub_inv (join_room u r h) \<and> hub_abs (join_room u r h) = a_join u r (hub_abs h)"
  proof (cases "client_by_user h u")
    case None
    with inv show ?thesis by (simp add: join_room_def a_join_def hub_abs_def)
  next
    case (Some c)
    note cur = hub_invD(2) [OF inv Some]
    let ?cl = "h_clients h c"
    show ?thesis
    proof (cases "r \<in> set (rooms_of ?cl)")
      case True
      then have "set (members h r) = insert c (set (members h r))" using hub_invD(3) [OF inv, of c r] by auto
      with True Some cur inv show ?thesis
        by (auto simp: join_room_def a_join_def hub_abs_def fun_eq_iff)
    next
      case False
      let ?h1 = "upd_client c (\<lambda>cl. cl\<lparr>c_rooms := Some (List.insert r (rooms_of cl))\<rparr>) h"
      let ?h = "add_client_to_room c r ?h1"
      have ne1: "h_shards ?h1 \<noteq> []" using ne by simp
      have eq: "join_room u r h = ?h" using Some cur False by (simp add: join_room_def)
      have mem: "members ?h = (members h)(r := List.insert c (members h r))"
        using members_add(1) [OF ne1, of c r] by simp
      have "hub_inv ?h"
      proof (rule room_change_inv [OF inv, of c "List.insert r (rooms_of ?cl)"])
        show "client_by_user ?h = client_by_user h" using members_add(2) [OF ne1, of c r] by simp
        show "shards_ok ?h" using hub_invD(1) [OF inv] by (simp add: shards_ok_add)
        show "set (members ?h q) = (if q \<in> set (List.insert r (rooms_of ?cl)) then insert c (set (members h q))
            else set (members h q) - {c})" for q
          using hub_invD(3) [OF inv, of c q] by (auto simp: mem)
      qed (use cur hub_invD(4) [OF inv, of c] in \<open>auto simp: client_ok_def\<close>)
      moreover have "hub_abs ?h = a_join u r (hub_abs h)"
        using Some members_add(2) [OF ne1, of c r] by (auto simp: hub_abs_def a_join_def mem fun_eq_iff)
      ultimately show ?thesis by (simp add: eq)
    qed
  qed
  then show "hub_inv (join_room u r h)" and "hub_abs (join_room u r h) = a_join u r (hub_abs h)" by blast+
qed

lemma leave_room_refines:
  assumes inv: "hub_inv h"
  shows "hub_inv (leave_room u r h)" and "hub_abs (leave_room u r h) = a_leave u r (hub_abs h)"
proof -
  have ne: "h_shards h \<noteq> []" using hub_invD(1) [OF inv] by auto
  have "hub_inv (leave_room u r h) \<and> hub_abs (leave_room u r h) = a_leave u r (hub_abs h)"
  proof (cases "client_by_user h u")
    case None
    with inv show ?thesis by (simp add: leave_room_def a_leave_def hub_abs_def)
  next
    case (Some c)
    note cur = hub_invD(2) [OF inv Some]
    let ?cl = "h_clients h c"
    have rooms: "c_rooms ?cl = Some (rooms_of ?cl)"
      using active_rooms [OF hub_invD(4) [OF inv]] cur by blast
    show ?thesis
    proof (cases "r \<in> set (rooms_of ?cl)")
      case False
      then have "set (members h r) - {c} = set (members h r)" using hub_invD(3) [OF inv, of c r] by auto
      with False Some cur inv show ?thesis
        by (auto simp: leave_room_def a_leave_def hub_abs_def fun_eq_iff)
    next
      case True
      let ?h1 = "upd_client c (\<lambda>cl. cl\<lparr>c_rooms := map_option (removeAll r) (c_rooms cl)\<rparr>) h"
      let ?h = "remove_client_from_room c r ?h1"
      have ne1: "h_shards ?h1 \<noteq> []" using ne by simp
      have eq: "leave_room u r h = ?h" using Some cur True by (simp add: leave_room_def)
      have mem: "members ?h = (members h)(r := removeAll c (members h r))"
        using members_remove(1) [OF ne1, of c r] by simp
      have "hub_inv ?h"
      proof (rule room_change_inv [OF inv, of c "removeAll r (rooms_of ?cl)"])
        show "client_by_user ?h = client_by_user h" using members_remove(2) [OF ne1, of c r] by simp
        show "shards_ok ?h" using hub_invD(1) [OF inv] by (simp add: shards_ok_remove)
        show "set (members ?h q) = (if q \<in> set (removeAll r (rooms_of ?cl)) then insert c (set (members h q))
            else set (members h q) - {c})" for q
          using hub_invD(3) [OF inv, of c q] by (auto simp: mem)
      qed (use cur rooms hub_invD(4) [OF inv, of c] in \<open>auto simp: client_ok_def distinct_removeAll\<close>)
      moreover have "hub_abs ?h = a_leave u r (hub_abs h)"
        using Some members_remove(2) [OF ne1, of c r] by (auto simp: hub_abs_def a_leave_def mem fun_eq_iff)
      ultimately show ?thesis by (simp add: eq)
    qed
  qed
  then show "hub_inv (leave_room u r h)" and "hub_abs (leave_room u r h) = a_leave u r (hub_abs h)" by blast+
qed

lemma fold_forget:
  "h_clients (fold (forget_room r) cs h) =
     (\<lambda>c. if c \<in> set cs then (h_clients h c)\<lparr>c_rooms := map_option (removeAll r) (c_rooms (h_clients h c))\<rparr>
          else h_clients h c)"
  "h_shards (fold (forget_room r) cs h) = h_shards h"
  "client_by_user (fold (forget_room r) cs h) = client_by_user h"
  "members (fold (forget_room r) cs h) = members h"
  "shards_ok (fold (forget_room r) cs h) = shards_ok h"
  by (induction cs arbitrary: h)
     (auto simp: forget_room_def fun_eq_iff option.map_comp comp_def removeAll_filter_not_eq
           intro!: option.map_cong)

lemma disband_room_refines:
  assumes inv: "hub_inv h"
  shows "hub_inv (disband_room r h)" and "hub_abs (disband_room r h) = a_disband r (hub_abs h)"
proof -
  let ?h1 = "drop_room r h"
  let ?h = "fold (forget_room r) (members h r) ?h1"
  have ne: "h_shards h \<noteq> []" using hub_invD(1) [OF inv] by auto
  have eq: "disband_room r h = ?h" by (simp add: disband_room_def disband_shard_def)
  have cu: "client_by_user ?h = client_by_user h" by (simp add: fold_forget members_drop(2) [OF ne])
  have mem: "members ?h = (members h)(r := [])" by (simp add: fold_forget members_drop(1) [OF ne])
  have cl: "h_clients ?h = (\<lambda>c. if c \<in> set (members h r)
      then (h_clients h c)\<lparr>c_rooms := map_option (removeAll r) (c_rooms (h_clients h c))\<rparr> else h_clients h c)"
    by (auto simp: fold_forget fun_eq_iff)
  have rooms: "set (rooms_of (h_clients ?h c)) = set (rooms_of (h_clients h c)) - {r}" for c
  proof (cases "c \<in> set (members h r)")
    case True
    then show ?thesis unfolding cl by (cases "c_rooms (h_clients h c)") (auto simp: rooms_of_def)
  next
    case False
    then show ?thesis using hub_invD(3) [OF inv, of c r] unfolding cl by auto
  qed
  have "hub_inv ?h"
    unfolding hub_inv_def
  proof (intro conjI allI impI)
    show "shards_ok ?h" using hub_invD(1) [OF inv] by (simp add: fold_forget shards_ok_drop_room)
  next
    fix u d assume "client_by_user ?h u = Some d"
    then show "c_user (h_clients ?h d) = u" and "c_active (h_clients ?h d)"
      using hub_invD(2) [OF inv, of u d] unfolding cu cl by auto
  next
    fix q d show "(d \<in> set (members ?h q)) = (q \<in> set (rooms_of (h_clients ?h d)))"
      using hub_invD(3) [OF inv, of d q] by (auto simp: mem rooms)
  next
    fix d show "client_ok (h_clients ?h d)"
      using hub_invD(4) [OF inv, of d]
      by (auto simp: cl client_ok_def rooms_of_def distinct_removeAll split: option.splits)
  qed
  then show "hub_inv (disband_room r h)" by (simp add: eq)
  show "hub_abs (disband_room r h) = a_disband r (hub_abs h)"
    unfolding eq hub_abs_def cu mem cl by (auto simp: a_disband_def fun_eq_iff)
qed

end
