(* ===== verification/HubDispatch.thy ===== *)
theory HubDispatch
  imports HubInv
begin

section \<open>Dispatching a message to a room\<close>

text \<open>
  The queues of the hub: publishing, the fan-out of a message to the subscribed connections
  (sequential or in batches), eviction requests. The central fact is \<open>deliver_all_effect\<close>: whatever
  the order of the sends, exactly the subscribed connections with room in their queue get the message.
\<close>

subsection \<open>Updates that leave the maps alone\<close>

lemma queue_update:
  assumes inv: "hub_inv h" and f: "\<And>s. s_users (f s) = s_users s" "\<And>s. s_rooms (f s) = s_rooms s"
    and q: "\<And>s. shard_ok h (shard_ix h k) s \<Longrightarrow> queues_ok h (shard_ix h k) (f s)"
  shows "hub_inv (upd_shard (shard_ix h k) f h)"
    and "client_by_user (upd_shard (shard_ix h k) f h) = client_by_user h"
    and "members (upd_shard (shard_ix h k) f h) = members h"
proof -
  have ne: "h_shards h \<noteq> []" using hub_invD(1) [OF inv] by auto
  show cu: "client_by_user (upd_shard (shard_ix h k) f h) = client_by_user h"
    and mem: "members (upd_shard (shard_ix h k) f h) = members h"
    by (auto simp: client_by_user_def members_def fun_eq_iff shard_for_upd [OF ne] f)
  have "shards_ok (upd_shard (shard_ix h k) f h)"
    using hub_invD(1) [OF inv] q by (intro shards_ok_upd) (auto simp: shard_ok_alt f)
  then show "hub_inv (upd_shard (shard_ix h k) f h)"
    using inv by (simp add: hub_inv_def cu mem)
qed

lemma forward_ok:
  "queues_ok h i s \<Longrightarrow> shard_ix h (m_room m) = i \<Longrightarrow> queues_ok h i (s\<lparr>s_forward := chan_offer m (s_forward s)\<rparr>)"
  by (auto simp: queues_ok_def chan_offer_buf)

lemma kill_ok: "queues_ok h i s \<Longrightarrow> queues_ok h i (s\<lparr>s_kill := chan_offer c (s_kill s)\<rparr>)"
  by (auto simp: queues_ok_def)

lemma publish_inv:
  assumes inv: "hub_inv h"
  shows "hub_inv (publish mo h)" and "hub_abs (publish mo h) = hub_abs h"
    and "h_clients (publish mo h) = h_clients h"
proof -
  have "hub_inv (publish mo h) \<and> hub_abs (publish mo h) = hub_abs h \<and> h_clients (publish mo h) = h_clients h"
  proof (cases mo)
    case (Some m)
    let ?f = "\<lambda>s. s\<lparr>s_forward := chan_offer m (s_forward s)\<rparr>"
    have q: "queues_ok h (shard_ix h (m_room m)) (?f s)" if "shard_ok h (shard_ix h (m_room m)) s" for s
      using that by (intro forward_ok) (auto simp: shard_ok_alt)
    show ?thesis
      using queue_update [OF inv, of ?f "m_room m"] q
      by (simp add: Some publish_def hub_abs_def)
  qed (simp add: publish_def inv)
  then show "hub_inv (publish mo h)" "hub_abs (publish mo h) = hub_abs h"
    "h_clients (publish mo h) = h_clients h" by blast+
qed

lemma request_evict_inv:
  assumes inv: "hub_inv h"
  shows "hub_inv (request_evict c h)" and "client_by_user (request_evict c h) = client_by_user h"
    and "members (request_evict c h) = members h" and "h_clients (request_evict c h) = h_clients h"
proof -
  let ?f = "\<lambda>s. s\<lparr>s_kill := chan_offer c (s_kill s)\<rparr>"
  have q: "queues_ok h (shard_ix h k) (?f s)" if "shard_ok h (shard_ix h k) s" for s k
    using that by (intro kill_ok) (auto simp: shard_ok_alt)
  note qu = queue_update [OF inv, of ?f "c_user (h_clients h c)"]
  show "hub_inv (request_evict c h)" "client_by_user (request_evict c h) = client_by_user h"
    "members (request_evict c h) = members h"
    unfolding request_evict_def using qu q by simp_all
  show "h_clients (request_evict c h) = h_clients h" by (simp add: request_evict_def)
qed

lemma close_conn_inv:
  assumes inv: "hub_inv h"
  shows "hub_inv (close_conn c h)" and "hub_abs (close_conn c h) = hub_abs h"
proof -
  have ok: "client_ok (cl\<lparr>c_conn := x\<rparr>) = client_ok cl" for cl x
    by (simp add: client_ok_def split: option.splits)
  show "hub_inv (close_conn c h)"
    using inv by (auto simp: hub_inv_def close_conn_def ok)
  show "hub_abs (close_conn c h) = hub_abs h"
    by (auto simp: hub_abs_def close_conn_def)
qed

lemma kick_inv: "hub_inv h \<Longrightarrow> hub_inv (kick u h) \<and> hub_abs (kick u h) = hub_abs h"
  by (auto simp: kick_def close_conn_inv split: option.splits)

lemma close_in_shards_cases: "close_in_shards k ss h = h \<or> (\<exists>c. close_in_shards k ss h = close_conn c h)"
  by (induction ss) (auto split: option.splits)

lemma close_connection_inv:
  "hub_inv h \<Longrightarrow> hub_inv (close_connection k h) \<and> hub_abs (close_connection k h) = hub_abs h"
  using close_in_shards_cases [of k "h_shards h" h] close_conn_inv by (auto simp: close_connection_def)

subsection \<open>One send\<close>

definition accepts :: "client \<Rightarrow> bool" where
  "accepts cl \<longleftrightarrow>
     \<not> c_send_closed cl \<and> (case c_send cl of None \<Rightarrow> False | Some ch \<Rightarrow> length (ch_buf ch) < ch_cap ch)"

definition queued :: "client \<Rightarrow> payload list" where
  "queued cl = (case c_send cl of None \<Rightarrow> [] | Some ch \<Rightarrow> ch_buf ch)"

definition push :: "payload \<Rightarrow> client \<Rightarrow> client" where
  "push p cl = (if accepts cl then cl\<lparr>c_send := map_option (chan_offer p) (c_send cl)\<rparr> else cl)"

lemma push_simps [simp]:
  "c_user (push p cl) = c_user cl" "c_active (push p cl) = c_active cl" "c_rooms (push p cl) = c_rooms cl"
  "rooms_of (push p cl) = rooms_of cl" "c_send_closed (push p cl) = c_send_closed cl"
  "c_conn (push p cl) = c_conn cl"
  by (simp_all add: push_def)

lemma client_ok_push: "client_ok cl \<Longrightarrow> client_ok (push p cl)"
  by (auto simp: client_ok_def push_def split: option.splits)

lemma queued_push:
  "client_ok cl \<Longrightarrow> queued (push p cl) = (if accepts cl then queued cl @ [p] else queued cl)"
  by (auto simp: queued_def push_def accepts_def client_ok_def chan_offer_buf split: option.splits)

lemma try_send_spec: "client_ok cl \<Longrightarrow> try_send p cl = Some (push p cl, accepts cl)"
  by (auto simp: try_send_def push_def accepts_def client_ok_def chan_try_send_def chan_offer_def
        split: option.splits)

lemma upd_push:
  assumes inv: "hub_inv h"
  shows "hub_inv (upd_client c (\<lambda>_. push p (h_clients h c)) h)"
  using inv client_ok_push unfolding hub_inv_def by auto

lemma push_id: "\<not> accepts cl \<Longrightarrow> push p cl = cl"
  by (simp add: push_def)

text \<open>What the user's shard knows of a connection the dispatch could not serve.\<close>

definition evict_pending :: "cid \<Rightarrow> hub \<Rightarrow> bool" where
  "evict_pending c h \<longleftrightarrow>
     (let ch = s_kill (shard_for_user h (c_user (h_clients h c)))
      in c \<in> set (ch_buf ch) \<or> length (ch_buf ch) = kill_cap)"

lemma deliver_spec:
  assumes inv: "hub_inv h"
  shows "\<exists>h'. deliver p c (h, n) = Some (h', if accepts (h_clients h c) then n + 1 else n) \<and>
     hub_inv h' \<and> client_by_user h' = client_by_user h \<and> members h' = members h \<and>
     h_clients h' = (h_clients h)(c := push p (h_clients h c)) \<and>
     (\<not> accepts (h_clients h c) \<longrightarrow> evict_pending c h') \<and>
     (\<forall>d. evict_pending d h \<longrightarrow> evict_pending d h')"
proof (cases "accepts (h_clients h c)")
  case True
  let ?h = "upd_client c (\<lambda>_. push p (h_clients h c)) h"
  have "deliver p c (h, n) = Some (?h, n + 1)"
    using True try_send_spec [OF hub_invD(4) [OF inv]] by (simp add: deliver_def)
  moreover have "evict_pending d h \<Longrightarrow> evict_pending d ?h" for d
    by (auto simp: evict_pending_def Let_def)
  ultimately show ?thesis using True upd_push [OF inv] by auto
next
  case False
  let ?h = "request_evict c h"
  have ne: "h_shards h \<noteq> []" using hub_invD(1) [OF inv] by auto
  have "deliver p c (h, n) = Some (?h, n)"
    using False try_send_spec [OF hub_invD(4) [OF inv]] by (simp add: deliver_def)
  moreover have "evict_pending d ?h" if "evict_pending d h \<or> d = c" for d
  proof -
    let ?s = "shard_for_user h (c_user (h_clients h d))"
    have q: "queues_ok h (shard_ix h (c_user (h_clients h d))) ?s"
      using shards_okD [OF hub_invD(1) [OF inv]] by (simp add: shard_ok_alt shard_for_user_def)
    show ?thesis
      using that q unfolding request_evict_def evict_pending_def
      by (auto simp: shard_for_upd [OF ne] Let_def chan_offer_buf queues_ok_def chan_ok_def)
  qed
  moreover have "(h_clients h)(c := push p (h_clients h c)) = h_clients h"
    using False by (auto simp: push_id)
  ultimately show ?thesis using False request_evict_inv [OF inv] by auto
qed

lemma deliver_all_effect:
  assumes inv: "hub_inv h" and d: "distinct cs"
  shows "\<exists>h'. deliver_all p cs (h, n) = Some (h', n + length (filter (\<lambda>c. accepts (h_clients h c)) cs)) \<and>
     hub_inv h' \<and> client_by_user h' = client_by_user h \<and> members h' = members h \<and>
     h_clients h' = (\<lambda>c. if c \<in> set cs then push p (h_clients h c) else h_clients h c) \<and>
     (\<forall>c \<in> set cs. \<not> accepts (h_clients h c) \<longrightarrow> evict_pending c h') \<and>
     (\<forall>c. evict_pending c h \<longrightarrow> evict_pending c h')"
  using inv d
proof (induction cs arbitrary: h n)
  case (Cons c cs)
  from deliver_spec [OF Cons.prems(1), of p c n] obtain h1 where h1:
    "deliver p c (h, n) = Some (h1, if accepts (h_clients h c) then n + 1 else n)"
    "hub_inv h1" "client_by_user h1 = client_by_user h" "members h1 = members h"
    "h_clients h1 = (h_clients h)(c := push p (h_clients h c))"
    "\<not> accepts (h_clients h c) \<longrightarrow> evict_pending c h1" "\<forall>d. evict_pending d h \<longrightarrow> evict_pending d h1"
    by blast
  let ?n = "if accepts (h_clients h c) then n + 1 else n"
  from Cons.IH [OF h1(2), of ?n] Cons.prems(2) obtain h2 where h2:
    "deliver_all p cs (h1, ?n) = Some (h2, ?n + length (filter (\<lambda>c. accepts (h_clients h1 c)) cs))"
    "hub_inv h2" "client_by_user h2 = client_by_user h1" "members h2 = members h1"
    "h_clients h2 = (\<lambda>c. if c \<in> set cs then push p (h_clients h1 c) else h_clients h1 c)"
    "\<forall>c \<in> set cs. \<not> accepts (h_clients h1 c) \<longrightarrow> evict_pending c h2"
    "\<forall>c. evict_pending c h1 \<longrightarrow> evict_pending c h2" by auto
  have same: "\<forall>d \<in> set cs. h_clients h1 d = h_clients h d" using Cons.prems(2) h1(5) by auto
  then have f: "filter (\<lambda>c. accepts (h_clients h1 c)) cs = filter (\<lambda>c. accepts (h_clients h c)) cs"
    by (auto intro!: filter_cong)
  have "deliver_all p (c # cs) (h, n)
      = Some (h2, n + length (filter (\<lambda>c. accepts (h_clients h c)) (c # cs)))"
    using h1(1) h2(1) f by simp
  moreover have "h_clients h2 = (\<lambda>d. if d \<in> set (c # cs) then push p (h_clients h d) else h_clients h d)"
    using h2(5) h1(5) Cons.prems(2) by (auto simp: fun_eq_iff)
  moreover have "\<forall>d \<in> set (c # cs). \<not> accepts (h_clients h d) \<longrightarrow> evict_pending d h2"
    using h2(6,7) h1(6) same by auto
  ultimately show ?case using h1 h2 by auto
qed auto


subsection \<open>Batches of a large room\<close>

lemma concat_chunks: "0 < k \<Longrightarrow> concat (chunks k xs) = xs"
proof (induction k xs rule: chunks.induct)
  case (2 k x xs)
  then show ?case by (cases k) simp_all
qed simp

lemma chunks_length: "b \<in> set (chunks k xs) \<Longrightarrow> b \<noteq> [] \<and> length b \<le> k"
  by (induction k xs rule: chunks.induct) (auto split: if_splits)

lemma chunks_count: "0 < k \<Longrightarrow> length xs \<le> m * k \<Longrightarrow> length (chunks k xs) \<le> m"
proof (induction k xs arbitrary: m rule: chunks.induct)
  case (2 k x xs)
  then obtain m' where m: "m = Suc m'" by (cases m) auto
  from 2(2,3) have "length (drop (k - 1) xs) \<le> m' * k" by (auto simp: m)
  with 2 m show ?case by simp
qed simp

lemma chunks_two: "0 < k \<Longrightarrow> k < length xs \<Longrightarrow> 2 \<le> length (chunks k xs)"
proof (cases xs)
  case (Cons x ys)
  assume "0 < k" "k < length xs"
  then have "drop (k - 1) ys \<noteq> []" using Cons by auto
  then obtain y zs where "drop (k - 1) ys = y # zs" by (cases "drop (k - 1) ys") auto
  with \<open>0 < k\<close> show ?thesis by (simp add: Cons)
qed simp

lemma fanout_tasks_bounds: "2 \<le> fanout_tasks n b" "0 < b \<Longrightarrow> n \<le> fanout_tasks n b * b"
proof -
  assume "0 < b"
  then have "n \<le> ceil_div n b * b" by (rule ceil_div_ge)
  moreover have "ceil_div n b \<le> fanout_tasks n b" by (simp add: fanout_tasks_def Let_def)
  ultimately show "n \<le> fanout_tasks n b * b" using mult_le_mono1 order_trans by blast
qed (simp add: fanout_tasks_def Let_def)

lemma fanout_batch_bound:
  assumes "0 < b" "0 < n"
  shows "ceil_div n (fanout_tasks n b) \<le> b" "0 < ceil_div n (fanout_tasks n b)"
    "2 \<le> n \<Longrightarrow> ceil_div n (fanout_tasks n b) < n"
proof -
  let ?t = "fanout_tasks n b"
  have t: "2 \<le> ?t" and n: "n \<le> b * ?t"
    using fanout_tasks_bounds(1) [of n b] fanout_tasks_bounds(2) [of b n] assms(1)
    by (simp_all add: mult.commute)
  show "ceil_div n ?t \<le> b" using ceil_div_le [of ?t n b] t n by simp
  show "0 < ceil_div n ?t" using ceil_div_pos [of ?t n] t assms(2) by simp
  assume two: "2 \<le> n"
  have "n \<le> (n - 1) * ?t"
  proof -
    have "n \<le> (n - 1) * 2" using two by simp
    also have "\<dots> \<le> (n - 1) * ?t" using t by (rule mult_le_mono2)
    finally show ?thesis .
  qed
  then have "ceil_div n ?t \<le> n - 1" using ceil_div_le [of ?t n "n - 1"] t by simp
  with two show "ceil_div n ?t < n" by simp
qed

lemma concat_fanout: "0 < b \<Longrightarrow> concat (fanout_batches b cs) = cs"
proof (cases "cs = []")
  case False
  assume "0 < b"
  with False fanout_batch_bound(2) [of b "length cs"] show ?thesis
    by (simp add: fanout_batches_def concat_chunks)
qed (simp add: fanout_batches_def)

lemma fair_schedule_fanout:
  assumes "fair_schedule sched" "0 < b"
  shows "mset (sched (fanout_batches b cs)) = mset cs"
  using assms by (simp add: fair_schedule_def concat_fanout)

subsection \<open>The dispatch\<close>

text \<open>The hub after a message has gone out to the connections \<open>cs\<close>.\<close>

definition delivered :: "payload \<Rightarrow> cid set \<Rightarrow> hub \<Rightarrow> hub \<Rightarrow> bool" where
  "delivered p cs h h' \<longleftrightarrow>
     hub_inv h' \<and> client_by_user h' = client_by_user h \<and> members h' = members h \<and>
     h_clients h' = (\<lambda>c. if c \<in> cs then push p (h_clients h c) else h_clients h c) \<and>
     (\<forall>c \<in> cs. \<not> accepts (h_clients h c) \<longrightarrow> evict_pending c h')"

lemma delivered_abs: "delivered p cs h h' \<Longrightarrow> hub_inv h' \<and> hub_abs h' = hub_abs h"
  by (auto simp: delivered_def hub_abs_def)

lemma dispatch_spec:
  assumes inv: "hub_inv h" and i: "i = shard_ix h (m_room m)" and sched: "fair_schedule sched"
  shows "\<exists>h'. dispatch_message sched i m p h =
       Some (h', card {c \<in> set (members h (m_room m)). accepts (h_clients h c)}) \<and>
     delivered p (set (members h (m_room m))) h h'"
proof -
  let ?cs = "members h (m_room m)"
  have d: "distinct ?cs" by (rule members_distinct [OF hub_invD(1) [OF inv]])
  have cs: "(case gm_get (s_rooms (h_shards h ! i)) (m_room m) of None \<Rightarrow> [] | Some cs \<Rightarrow> cs) = ?cs"
    by (simp add: members_def shard_for_room_def i)
  have b: "0 < h_batch h" using hub_invD(1) [OF inv] by (simp add: shards_ok_def)
  have main: "\<exists>h'. deliver_all p xs (h, 0) = Some (h', card {c \<in> set ?cs. accepts (h_clients h c)}) \<and>
      delivered p (set ?cs) h h'" if x: "mset xs = mset ?cs" for xs
  proof -
    have xs: "distinct xs" "set xs = set ?cs"
      using x d by (metis mset_eq_imp_distinct_iff, metis mset_eq_setD)
    have "length (filter (\<lambda>c. accepts (h_clients h c)) xs) = card {c \<in> set ?cs. accepts (h_clients h c)}"
      using xs by (metis distinct_card distinct_filter set_filter)
    with deliver_all_effect [OF inv xs(1), of p 0] xs show ?thesis
      unfolding delivered_def by auto
  qed
  show ?thesis
  proof (cases "?cs = []")
    case True
    with inv cs show ?thesis by (auto simp: dispatch_message_def Let_def delivered_def)
  next
    case False
    with cs main [of ?cs] main [OF fair_schedule_fanout [OF sched b]] show ?thesis
      by (auto simp: dispatch_message_def Let_def)
  qed
qed

subsection \<open>The loop of a shard\<close>

lemma shard_queue_drop:
  assumes inv: "hub_inv h" and i: "i < length (h_shards h)"
    and f: "\<And>s. s_users (f s) = s_users s" "\<And>s. s_rooms (f s) = s_rooms s"
    and q: "queues_ok h i (h_shards h ! i) \<Longrightarrow> queues_ok h i (f (h_shards h ! i))"
  shows "hub_inv (upd_shard i f h)" "client_by_user (upd_shard i f h) = client_by_user h"
    "members (upd_shard i f h) = members h"
proof -
  have ne: "h_shards h \<noteq> []" using hub_invD(1) [OF inv] by auto
  show cu: "client_by_user (upd_shard i f h) = client_by_user h"
    and mem: "members (upd_shard i f h) = members h"
    using shard_ix_less [OF ne] i
    by (auto simp: client_by_user_def members_def fun_eq_iff shard_for_user_def shard_for_room_def
        upd_shard_nth f)
  have ok: "shard_ok h i (h_shards h ! i)" using hub_invD(1) [OF inv] i by (simp add: shards_ok_def)
  then have "shards_ok (upd_shard i f h)"
    using hub_invD(1) [OF inv] i q by (intro shards_ok_upd_shard) (auto simp: shard_ok_alt f)
  then show "hub_inv (upd_shard i f h)" using inv by (simp add: hub_inv_def cu mem)
qed

lemma queues_okD:
  assumes "hub_inv h" "i < length (h_shards h)"
  shows "queues_ok h i (h_shards h ! i)"
  using hub_invD(1) [OF assms(1)] assms(2) by (simp add: shards_ok_def shard_ok_alt)

lemma run_forward_spec:
  assumes inv: "hub_inv h" and i: "i < length (h_shards h)" and sched: "fair_schedule sched"
  shows "\<exists>h'. run_forward tj sched i h = Some h' \<and> hub_inv h' \<and> hub_abs h' = hub_abs h \<and>
     (\<forall>m ms p. ch_buf (s_forward (h_shards h ! i)) = m # ms \<and> marshal_message tj m = Some p \<longrightarrow>
        h_clients h' = (\<lambda>c. if c \<in> set (members h (m_room m)) then push p (h_clients h c) else h_clients h c))"
proof (cases "ch_buf (s_forward (h_shards h ! i))")
  case Nil
  then have "run_forward tj sched i h = Some h" by (simp add: run_forward_def chan_recv_def)
  with inv Nil show ?thesis by simp
next
  case (Cons m ms)
  let ?f = "\<lambda>s. s\<lparr>s_forward := (s_forward (h_shards h ! i))\<lparr>ch_buf := ms\<rparr>\<rparr>"
  let ?h1 = "upd_shard i ?f h"
  have q: "queues_ok h i (?f (h_shards h ! i))"
    using queues_okD [OF inv i] Cons by (auto simp: queues_ok_def chan_ok_def)
  note h1 = shard_queue_drop [OF inv i, of ?f, simplified, OF q]
  have ix: "i = shard_ix ?h1 (m_room m)"
    using queues_okD [OF inv i] Cons by (auto simp: queues_ok_def)
  show ?thesis
  proof (cases "marshal_message tj m")
    case None
    then have "run_forward tj sched i h = Some ?h1"
      using Cons by (simp add: run_forward_def chan_recv_def)
    moreover have "hub_abs ?h1 = hub_abs h" using h1 by (simp add: hub_abs_def)
    ultimately show ?thesis using h1 None Cons by auto
  next
    case (Some p)
    from dispatch_spec [OF h1(1) ix sched, of p] obtain h' n where
      "dispatch_message sched i m p ?h1 = Some (h', n)" and dl: "delivered p (set (members ?h1 (m_room m))) ?h1 h'"
      by blast
    then have "run_forward tj sched i h = Some h'"
      using Cons Some by (simp add: run_forward_def chan_recv_def)
    moreover have "hub_inv h' \<and> hub_abs h' = hub_abs h"
      using delivered_abs [OF dl] h1 by (simp add: hub_abs_def)
    moreover have "h_clients h' = (\<lambda>c. if c \<in> set (members h (m_room m)) then push p (h_clients h c) else h_clients h c)"
      using dl h1 by (auto simp: delivered_def fun_eq_iff)
    ultimately show ?thesis using Cons Some by auto
  qed
qed

lemma run_kill_spec:
  assumes inv: "hub_inv h" and i: "i < length (h_shards h)"
  shows "\<exists>h'. run_kill i h = Some h' \<and> hub_inv h' \<and>
     hub_abs h' = (case ch_buf (s_kill (h_shards h ! i)) of
        [] \<Rightarrow> hub_abs h | c # _ \<Rightarrow> a_unregister (c_user (h_clients h c)) c (hub_abs h))"
proof (cases "ch_buf (s_kill (h_shards h ! i))")
  case Nil
  with inv show ?thesis by (simp add: run_kill_def chan_recv_def)
next
  case (Cons c cs)
  let ?f = "\<lambda>s. s\<lparr>s_kill := (s_kill (h_shards h ! i))\<lparr>ch_buf := cs\<rparr>\<rparr>"
  have q: "queues_ok h i (?f (h_shards h ! i))"
    using queues_okD [OF inv i] Cons by (auto simp: queues_ok_def chan_ok_def)
  note h1 = shard_queue_drop [OF inv i, of ?f, simplified, OF q]
  from unregister_refines [OF h1(1), of c] h1 Cons show ?thesis
    by (auto simp: run_kill_def chan_recv_def hub_abs_def)
qed

end
