(* ===== verification/HubSystem.thy ===== *)
theory HubSystem
  imports HubDispatch
begin

section \<open>The hub as a system of operations\<close>

text \<open>
  Every entry point of the hub as one step, the states reachable from \<open>NewHub\<close>, and the properties
  of whole runs: no panic, the refinement of the unsharded hub, delivery order, reconnection.
\<close>

datatype hub_op =
    Register cid "room_id list"
  | Unregister cid
  | UpdateRooms cid "room_id list"
  | JoinRoom user_id room_id
  | LeaveRoom user_id room_id
  | DisbandRoom room_id
  | Publish message
  | Kick user_id
  | CloseConnection string
  | ForwardNext nat
  | KillNext nat

definition run_op :: "time_json \<Rightarrow> scheduler \<Rightarrow> hub_op \<Rightarrow> hub \<Rightarrow> hub option" where
  "run_op tj sched op h =
     (case op of
        Register c rs \<Rightarrow> Some (register (Some c) rs h)
      | Unregister c \<Rightarrow> unregister (Some c) h
      | UpdateRooms c rs \<Rightarrow> Some (update_rooms (Some c) rs h)
      | JoinRoom u r \<Rightarrow> Some (join_room u r h)
      | LeaveRoom u r \<Rightarrow> Some (leave_room u r h)
      | DisbandRoom r \<Rightarrow> Some (disband_room r h)
      | Publish m \<Rightarrow> Some (publish (Some m) h)
      | Kick u \<Rightarrow> Some (kick u h)
      | CloseConnection k \<Rightarrow> Some (close_connection k h)
      | ForwardNext i \<Rightarrow> run_forward tj sched i h
      | KillNext i \<Rightarrow> run_kill i h)"

text \<open>The endpoint registers a connection once, right after it made it; shard loops exist per shard.\<close>

definition op_ok :: "hub_op \<Rightarrow> hub \<Rightarrow> bool" where
  "op_ok op h =
     (case op of
        Register c rs \<Rightarrow> fresh_client (h_clients h c)
      | ForwardNext i \<Rightarrow> i < length (h_shards h)
      | KillNext i \<Rightarrow> i < length (h_shards h)
      | _ \<Rightarrow> True)"

text \<open>The same operation on the abstract hub; the concrete state tells whose connection it is about.\<close>

definition abs_op :: "hub_op \<Rightarrow> hub \<Rightarrow> ahub \<Rightarrow> ahub" where
  "abs_op op h a =
     (case op of
        Register c rs \<Rightarrow> a_register (c_user (h_clients h c)) c rs a
      | Unregister c \<Rightarrow> a_unregister (c_user (h_clients h c)) c a
      | UpdateRooms c rs \<Rightarrow> a_update_rooms c rs a
      | JoinRoom u r \<Rightarrow> a_join u r a
      | LeaveRoom u r \<Rightarrow> a_leave u r a
      | DisbandRoom r \<Rightarrow> a_disband r a
      | KillNext i \<Rightarrow>
          (case ch_buf (s_kill (h_shards h ! i)) of
             [] \<Rightarrow> a | c # _ \<Rightarrow> a_unregister (c_user (h_clients h c)) c a)
      | _ \<Rightarrow> a)"

lemma run_op_refines:
  assumes inv: "hub_inv h" and sched: "fair_schedule sched" and ok: "op_ok op h"
  shows "\<exists>h'. run_op tj sched op h = Some h' \<and> hub_inv h' \<and> hub_abs h' = abs_op op h (hub_abs h)"
proof (cases op)
  case (ForwardNext i)
  with run_forward_spec [OF inv _ sched, of i tj] ok show ?thesis
    by (auto simp: run_op_def abs_op_def op_ok_def)
next
  case (KillNext i)
  with run_kill_spec [OF inv, of i] ok show ?thesis
    by (auto simp: run_op_def abs_op_def op_ok_def)
qed (use ok register_refines [OF inv] unregister_refines [OF inv] update_rooms_refines [OF inv]
      join_room_refines [OF inv] leave_room_refines [OF inv] disband_room_refines [OF inv]
      publish_inv [OF inv] kick_inv [OF inv] close_connection_inv [OF inv]
     in \<open>auto simp: run_op_def abs_op_def op_ok_def\<close>)

subsection \<open>Reachable states\<close>

definition hub_start :: "hub \<Rightarrow> bool" where
  "hub_start h \<longleftrightarrow> (\<exists>env p cl n. h = new_hub_with_shards env p cl n \<and> (\<forall>c. fresh_client (cl c)))"

lemma new_hub_inv:
  assumes "\<forall>c. fresh_client (cl c)"
  shows "hub_inv (new_hub_with_shards env p cl n)"
proof -
  have "rooms_of (cl c) = []" "client_ok (cl c)" for c
    using assms fresh_client_ok by (auto simp: fresh_client_def rooms_of_def)
  then show ?thesis by (simp add: hub_inv_def new_hub_with_shards_ok)
qed

inductive hub_reach :: "time_json \<Rightarrow> scheduler \<Rightarrow> hub \<Rightarrow> bool" for tj sched where
  start: "hub_start h \<Longrightarrow> hub_reach tj sched h"
| step: "hub_reach tj sched h \<Longrightarrow> op_ok op h \<Longrightarrow> run_op tj sched op h = Some h' \<Longrightarrow> hub_reach tj sched h'"
| take: "hub_reach tj sched h \<Longrightarrow> c_send (h_clients h c) = Some ch \<Longrightarrow> chan_recv ch = Some (m, ch') \<Longrightarrow>
    hub_reach tj sched (upd_client c (\<lambda>cl. cl\<lparr>c_send := Some ch'\<rparr>) h)"

text \<open>A write pump takes a message out of its connection's queue (\<open>take\<close>).\<close>

lemma take_inv:
  assumes inv: "hub_inv h" and ch: "c_send (h_clients h c) = Some ch" "chan_recv ch = Some (m, ch')"
  shows "hub_inv (upd_client c (\<lambda>cl. cl\<lparr>c_send := Some ch'\<rparr>) h)"
proof -
  let ?f = "\<lambda>cl. cl\<lparr>c_send := Some ch'\<rparr>"
  have "client_ok (?f (h_clients h c))"
    using hub_invD(4) [OF inv, of c] ch by (auto simp: client_ok_def chan_recv_def chan_ok_def split: list.splits)
  moreover have "rooms_of (?f cl) = rooms_of cl" "c_user (?f cl) = c_user cl" "c_active (?f cl) = c_active cl" for cl
    by (simp_all add: rooms_of_def)
  ultimately show ?thesis using inv by (simp add: hub_inv_def)
qed

inductive_cases hub_reachE: "hub_reach tj sched h"

lemma hub_reach_inv: "hub_reach tj sched h \<Longrightarrow> fair_schedule sched \<Longrightarrow> hub_inv h"
proof (induction rule: hub_reach.induct)
  case (start h)
  then show ?case by (auto simp: hub_start_def new_hub_inv)
next
  case (step h op h')
  with run_op_refines [of h sched op tj] show ?case by auto
next
  case (take h c ch m ch')
  then show ?case by (simp add: take_inv)
qed

subsection \<open>Concrete hub for the examples\<close>

definition demo_client :: "cid \<Rightarrow> client" where
  "demo_client c =
     \<lparr>c_user = int (c div 2), c_conn = Some True, c_send = Some (chan_new 512), c_username = [],
      c_conn_id = [], c_remote_ip = [], c_user_agent = [], c_version = [], c_connected_at = 1,
      c_active = False, c_rooms = None, c_send_closed = False, c_last_read = 0, c_last_write = 0\<rparr>"

definition demo_hub :: hub where
  "demo_hub = new_hub_with_shards (\<lambda>_. []) 4 demo_client 8"

definition demo_message :: message where
  "demo_message = \<lparr>m_id = 0, m_room = 7, m_sender = 3, m_client_id = ''a'', m_type = 1,
     m_content = ''hello'', m_created = 0, m_deleted = 0\<rparr>"

lemma demo_fresh [simp]: "fresh_client (demo_client c)"
  by (simp add: fresh_client_def demo_client_def) (simp add: chan_new_def chan_ok_def)

lemma demo_client_simps [simp]:
  "c_user (demo_client c) = int (c div 2)" "c_send (demo_client c) = Some (chan_new 512)"
  "c_send_closed (demo_client c) = False"
  by (simp_all add: demo_client_def)

lemma demo_start: "hub_start demo_hub"
  unfolding hub_start_def demo_hub_def using demo_fresh by blast

lemma demo_inv [simp]: "hub_inv demo_hub"
  by (simp add: demo_hub_def new_hub_inv)

lemma demo_clients [simp]: "h_clients demo_hub = demo_client"
  by (simp add: demo_hub_def)

lemma concat_fair [simp]: "fair_schedule concat"
  by (simp add: fair_schedule_def)

text \<open>Two connections of user 1 in room 7; the second is the user's current one.\<close>

definition demo_two :: hub where
  "demo_two = register (Some 3) [7] (register (Some 2) [7] demo_hub)"

lemma demo_two_facts:
  "hub_inv demo_two" "client_by_user demo_two 1 = Some 3" "set (members demo_two 7) = {2, 3}"
  "c_user (h_clients demo_two 2) = 1" "accepts (h_clients demo_two 2)"
proof -
  let ?h1 = "register (Some 2) [7] demo_hub"
  have r1: "hub_inv ?h1" "hub_abs ?h1 = a_register 1 2 [7] (hub_abs demo_hub)"
    using register_refines [OF demo_inv, of 2 "[7]"] by simp_all
  have c1: "h_clients ?h1 = demo_client(2 := (demo_client 2)\<lparr>c_active := True, c_rooms := Some [7]\<rparr>)"
    by (auto simp: register_def Let_def)
  then have f: "fresh_client (h_clients ?h1 3)" by simp
  have r2: "hub_inv demo_two" "hub_abs demo_two = a_register 1 3 [7] (hub_abs ?h1)"
    using register_refines [OF r1(1) f, of "[7]"] by (simp_all add: demo_two_def c1)
  show "hub_inv demo_two" by (rule r2(1))
  have e: "members demo_hub = (\<lambda>_. [])" "client_by_user demo_hub = (\<lambda>_. None)"
    by (auto simp: demo_hub_def)
  show "client_by_user demo_two 1 = Some 3" "set (members demo_two 7) = {2, 3}"
    using r1(2) r2(2) by (auto simp: hub_abs_def a_register_def e fun_eq_iff)
  have c2: "h_clients demo_two 2 = (demo_client 2)\<lparr>c_active := True, c_rooms := Some [7]\<rparr>"
    unfolding demo_two_def register_def [of "Some 3"] by (simp add: Let_def c1)
  show "c_user (h_clients demo_two 2) = 1" "accepts (h_clients demo_two 2)"
    by (simp_all add: c2 accepts_def chan_new_def)
qed


subsection \<open>Properties\<close>

text \<open>C1: Every operation of the hub (register, unregister, room updates, joins, leaves, disbanding,
  publishing, kicks, the two branches of a shard's loop), started in a well-formed state, runs without
  a panic, ends in a well-formed state and does to the sharded maps what the unsharded specification
  says: the sharding and the two-way index between rooms and connections are invisible.\<close>

theorem hub_operation_refines:
  assumes "hub_inv h" "fair_schedule sched" "op_ok op h"
  shows "\<exists>h'. run_op tj sched op h = Some h' \<and> hub_inv h' \<and> hub_abs h' = abs_op op h (hub_abs h)"
  using run_op_refines [OF assms] .

lemma hub_operation_refines_witness:
  "\<exists>h'. run_op (\<lambda>_. None) concat (Register 2 [7, 8, 7]) demo_hub = Some h' \<and> hub_inv h' \<and>
     hub_abs h' = a_register 1 2 [7, 8, 7] (hub_abs demo_hub)"
  using hub_operation_refines [OF demo_inv concat_fair, of "Register 2 [7, 8, 7]" "\<lambda>_. None"]
  by (simp add: op_ok_def abs_op_def)

text \<open>C2: In every state the hub can reach from \<open>NewHub\<close>, whatever the sequence of operations, no
  admissible operation panics (no send on a closed channel, no second close), every subscribed
  connection is open and lists the room, every queue is within its capacity and every id is in the
  shard its value selects.\<close>

theorem hub_reachable_safe:
  assumes "hub_reach tj sched h" "fair_schedule sched"
  shows "hub_inv h \<and> (\<forall>op. op_ok op h \<longrightarrow> run_op tj sched op h \<noteq> None)"
proof -
  have inv: "hub_inv h" by (rule hub_reach_inv [OF assms])
  moreover have "run_op tj sched op h \<noteq> None" if "op_ok op h" for op
    using run_op_refines [OF inv assms(2) that, of tj] by auto
  ultimately show ?thesis by blast
qed

lemma hub_reachable_safe_witness:
  "hub_inv demo_hub \<and> run_op (\<lambda>_. None) concat (Register 2 [7, 8, 7]) demo_hub \<noteq> None"
  using hub_reachable_safe [OF hub_reach.start [OF demo_start] concat_fair, of "\<lambda>_. None"]
  by (simp add: op_ok_def)

text \<open>C3: Dispatching a message sends it to exactly the connections subscribed to its room: each one
  with room in its open queue gets the payload once at the end of the queue, every other connection's
  queue is untouched, a refused connection is queued for eviction (or that queue is full), and the
  count is the number of accepting subscribers. It holds below and above the fan-out threshold and
  for every interleaving of the batches.\<close>

theorem dispatch_exactly_subscribers:
  assumes inv: "hub_inv h" and sched: "fair_schedule sched"
  shows "\<exists>h'. dispatch_message sched (shard_ix h (m_room m)) m p h =
       Some (h', card {c \<in> set (members h (m_room m)). accepts (h_clients h c)}) \<and>
     (\<forall>c. queued (h_clients h' c) =
        (if c \<in> set (members h (m_room m)) \<and> accepts (h_clients h c)
         then queued (h_clients h c) @ [p] else queued (h_clients h c))) \<and>
     (\<forall>c \<in> set (members h (m_room m)). \<not> accepts (h_clients h c) \<longrightarrow> evict_pending c h')"
proof -
  from dispatch_spec [OF inv refl sched, of m p] obtain h' where
    "dispatch_message sched (shard_ix h (m_room m)) m p h =
       Some (h', card {c \<in> set (members h (m_room m)). accepts (h_clients h c)})"
    and d: "delivered p (set (members h (m_room m))) h h'" by blast
  moreover have "queued (h_clients h' c) =
      (if c \<in> set (members h (m_room m)) \<and> accepts (h_clients h c)
       then queued (h_clients h c) @ [p] else queued (h_clients h c))" for c
    using d queued_push [OF hub_invD(4) [OF inv], of p c] by (simp add: delivered_def)
  ultimately show ?thesis by (auto simp: delivered_def)
qed

lemma dispatch_exactly_subscribers_witness:
  "\<exists>h' n. dispatch_message concat (shard_ix demo_two 7) demo_message ''x'' demo_two = Some (h', n) \<and>
     queued (h_clients h' 2) = queued (h_clients demo_two 2) @ [''x'']"
  using dispatch_exactly_subscribers [OF demo_two_facts(1) concat_fair, of demo_message "''x''"]
    demo_two_facts
  by (auto simp: demo_message_def)

text \<open>The batches of a large room partition its connections in order; with at least two
  connections there are at least two batches, none is empty or longer than the configured batch size,
  and a room of at most 2000 connections with the default size of 200 makes at most 10.\<close>

theorem fanout_batches_partition:
  assumes b: "0 < b" and n: "2 \<le> length cs"
  shows "concat (fanout_batches b cs) = cs \<and> 2 \<le> length (fanout_batches b cs) \<and>
     (\<forall>x \<in> set (fanout_batches b cs). x \<noteq> [] \<and> length x \<le> b) \<and>
     (b = 200 \<and> length cs \<le> 2000 \<longrightarrow> length (fanout_batches b cs) \<le> 10)"
proof -
  let ?n = "length cs" and ?t = "fanout_tasks (length cs) b"
  let ?k = "ceil_div ?n ?t"
  have pos: "0 < ?n" using n by linarith
  note k = fanout_batch_bound [OF b pos]
  have "2 \<le> length (fanout_batches b cs)"
    using chunks_two [of ?k cs] k(2) k(3) [OF n] by (simp add: fanout_batches_def)
  moreover have "x \<noteq> [] \<and> length x \<le> b" if "x \<in> set (fanout_batches b cs)" for x
    using chunks_length [of x ?k cs] that k(1) by (auto simp: fanout_batches_def)
  moreover have "length (fanout_batches b cs) \<le> 10" if d: "b = 200" "?n \<le> 2000"
  proof -
    have "ceil_div ?n b \<le> 10" using d by (intro ceil_div_le) simp_all
    then have t: "?t \<le> 10" by (simp add: fanout_tasks_def Let_def)
    have "0 < ?t" using fanout_tasks_bounds(1) [of ?n b] by simp
    then have "?n \<le> ?t * ?k" using ceil_div_ge [of ?t ?n] by (simp add: mult.commute)
    then have "length (fanout_batches b cs) \<le> ?t"
      using k(2) unfolding fanout_batches_def by (intro chunks_count) simp_all
    with t show ?thesis by simp
  qed
  ultimately show ?thesis using concat_fanout [OF b] by auto
qed

lemma fanout_batches_partition_witness:
  "concat (fanout_batches 2 [1, 2, 3, 4, 5 :: cid]) = [1, 2, 3, 4, 5] \<and>
   fanout_batches 2 [1, 2, 3, 4, 5 :: cid] = [[1, 2], [3, 4], [5]]"
  using fanout_batches_partition [of 2 "[1, 2, 3, 4, 5 :: cid]"]
  by (simp add: fanout_batches_def fanout_tasks_def ceil_div_def)

text \<open>When a user reconnects and the old connection is torn down afterwards, the new connection
  stays the user's current one and keeps all its rooms, and the old one is subscribed nowhere.\<close>

theorem reconnect_keeps_new_connection:
  assumes inv: "hub_inv h" and cur: "client_by_user h u = Some new" and old: "c_user (h_clients h old) = u"
    and ne: "old \<noteq> new"
  shows "\<exists>h'. unregister (Some old) h = Some h' \<and> client_by_user h' u = Some new \<and>
     (\<forall>r. (new \<in> set (members h' r)) = (new \<in> set (members h r)) \<and> old \<notin> set (members h' r))"
proof -
  from unregister_refines [OF inv, of old] old obtain h' where
    h': "unregister (Some old) h = Some h'" "hub_inv h'" "hub_abs h' = a_unregister u old (hub_abs h)" by auto
  show ?thesis
  proof (cases "c_active (h_clients h old)")
    case True
    then have "client_by_user h' = client_by_user h"
      and m: "\<And>r. set (members h' r) = set (members h r) - {old}"
      using h'(3) cur ne by (auto simp: hub_abs_def a_unregister_def fun_eq_iff)
    with h'(1) cur ne show ?thesis by auto
  next
    case False
    then have "unregister (Some old) h = Some h" by (simp add: unregister_def)
    moreover have "rooms_of (h_clients h old) = []"
      using client_ok_rooms [OF hub_invD(4) [OF inv]] False by blast
    ultimately show ?thesis using cur hub_invD(3) [OF inv, of old] by auto
  qed
qed

lemma reconnect_keeps_new_connection_witness:
  "\<exists>h'. unregister (Some 2) demo_two = Some h' \<and> client_by_user h' 1 = Some 3 \<and>
     3 \<in> set (members h' 7) \<and> 2 \<notin> set (members h' 7)"
  using reconnect_keeps_new_connection [OF demo_two_facts(1,2), of 2] demo_two_facts by auto

text \<open>\<open>LeaveRoom\<close> acts on the user's current connection only: an older connection of the same
  user that is still open stays subscribed to the room the user was removed from and goes on
  receiving its messages.\<close>

theorem leave_room_misses_older_connection:
  assumes inv: "hub_inv h" and sched: "fair_schedule sched"
    and cur: "client_by_user h u = Some new" and old: "old \<in> set (members h (m_room m))" "old \<noteq> new"
    and acc: "accepts (h_clients h old)"
  shows "\<exists>h' n. dispatch_message sched (shard_ix h (m_room m)) m p (leave_room u (m_room m) h) = Some (h', n) \<and>
     new \<notin> set (members h' (m_room m)) \<and> queued (h_clients h' old) = queued (h_clients h old) @ [p]"
proof -
  let ?h1 = "leave_room u (m_room m) h"
  have inv1: "hub_inv ?h1" and abs1: "hub_abs ?h1 = a_leave u (m_room m) (hub_abs h)"
    using leave_room_refines [OF inv] by blast+
  have mem: "set (members ?h1 (m_room m)) = set (members h (m_room m)) - {new}"
    using abs1 cur by (simp add: hub_abs_def a_leave_def fun_eq_iff)
  have cl: "h_clients ?h1 old = h_clients h old"
    using cur old(2) by (simp add: leave_room_def)
  have ix: "shard_ix h (m_room m) = shard_ix ?h1 (m_room m)"
    by (simp add: leave_room_def split: option.splits)
  from dispatch_spec [OF inv1 ix sched, of p] obtain h' n where
    h': "dispatch_message sched (shard_ix h (m_room m)) m p ?h1 = Some (h', n)"
    and d: "delivered p (set (members ?h1 (m_room m))) ?h1 h'" by blast
  have "members h' = members ?h1" and hc: "h_clients h' old = push p (h_clients h old)"
    using d old mem cl by (auto simp: delivered_def)
  then have "new \<notin> set (members h' (m_room m))" using mem by simp
  moreover have "queued (h_clients h' old) = queued (h_clients h old) @ [p]"
    using queued_push [OF hub_invD(4) [OF inv], of p old] acc hc by simp
  ultimately show ?thesis using h' by blast
qed

lemma leave_room_misses_older_connection_witness:
  "\<exists>h' n. dispatch_message concat (shard_ix demo_two 7) demo_message ''secret'' (leave_room 1 7 demo_two) = Some (h', n) \<and>
     3 \<notin> set (members h' 7) \<and> queued (h_clients h' 2) = queued (h_clients demo_two 2) @ [''secret'']"
  using leave_room_misses_older_connection [OF demo_two_facts(1) concat_fair demo_two_facts(2),
      of 2 demo_message "''secret''"] demo_two_facts
  by (simp add: demo_message_def)


subsection \<open>Order of delivery\<close>

lemma upd_shard_forward:
  "(\<And>s. s_forward (f s) = s_forward s) \<Longrightarrow>
   s_forward (h_shards (upd_shard k f h) ! j) = s_forward (h_shards h ! j)"
  by (cases "k < length (h_shards h)"; cases "j = k") (simp_all add: upd_shard_def list_update_beyond)

lemma deliver_frame:
  "deliver p c st = Some st' \<Longrightarrow>
   s_forward (h_shards (fst st') ! j) = s_forward (h_shards (fst st) ! j) \<and>
   length (h_shards (fst st')) = length (h_shards (fst st))"
  by (auto simp: deliver_def request_evict_def upd_shard_forward split: option.splits prod.splits if_splits)

lemma deliver_all_frame:
  "deliver_all p cs st = Some st' \<Longrightarrow>
   s_forward (h_shards (fst st') ! j) = s_forward (h_shards (fst st) ! j) \<and>
   length (h_shards (fst st')) = length (h_shards (fst st))"
proof (induction cs arbitrary: st)
  case (Cons c cs)
  then obtain st1 where "deliver p c st = Some st1" "deliver_all p cs st1 = Some st'"
    by (auto split: option.splits)
  with Cons.IH deliver_frame show ?case by metis
qed simp

lemma dispatch_frame:
  "dispatch_message sched i m p h = Some (h', n) \<Longrightarrow>
   s_forward (h_shards h' ! j) = s_forward (h_shards h ! j) \<and> length (h_shards h') = length (h_shards h)"
  using deliver_all_frame [of p _ "(h, 0)" "(h', n)" j]
  by (auto simp: dispatch_message_def Let_def split: if_splits)

lemma run_forward_buf:
  assumes "run_forward tj sched i h = Some h'" "ch_buf (s_forward (h_shards h ! i)) = m # ms"
    "i < length (h_shards h)"
  shows "ch_buf (s_forward (h_shards h' ! i)) = ms \<and> length (h_shards h') = length (h_shards h)"
proof (cases "marshal_message tj m")
  case None
  with assms show ?thesis by (auto simp: run_forward_def chan_recv_def Let_def upd_shard_nth)
next
  case (Some p)
  let ?h1 = "upd_shard i (\<lambda>s. s\<lparr>s_forward := (s_forward (h_shards h ! i))\<lparr>ch_buf := ms\<rparr>\<rparr>) h"
  from assms Some obtain n where "dispatch_message sched i m p ?h1 = Some (h', n)"
    by (auto simp: run_forward_def chan_recv_def Let_def)
  from dispatch_frame [OF this, of i] assms(3) show ?thesis by (simp add: upd_shard_nth)
qed

text \<open>The shard's loop run on as many messages as the number says.\<close>

fun drain :: "time_json \<Rightarrow> scheduler \<Rightarrow> nat \<Rightarrow> nat \<Rightarrow> hub \<Rightarrow> hub option" where
  "drain tj sched i 0 h = Some h"
| "drain tj sched i (Suc n) h =
     (case run_forward tj sched i h of None \<Rightarrow> None | Some h' \<Rightarrow> drain tj sched i n h')"

definition payloads_for :: "time_json \<Rightarrow> hub \<Rightarrow> cid \<Rightarrow> message list \<Rightarrow> payload list" where
  "payloads_for tj h c ms =
     map (\<lambda>m. the (marshal_message tj m)) (filter (\<lambda>m. c \<in> set (members h (m_room m))) ms)"

definition room_left :: "client \<Rightarrow> nat" where
  "room_left cl =
     (case c_send cl of None \<Rightarrow> 0
      | Some ch \<Rightarrow> if c_send_closed cl then 0 else ch_cap ch - length (ch_buf ch))"

lemma room_left_accepts: "0 < room_left cl \<longleftrightarrow> accepts cl"
  by (auto simp: room_left_def accepts_def split: option.splits)

lemma room_left_push: "client_ok cl \<Longrightarrow> room_left (push p cl) = room_left cl - 1"
  by (auto simp: room_left_def push_def accepts_def client_ok_def chan_offer_buf split: option.splits)

lemma drain_delivers:
  assumes "hub_inv h" "fair_schedule sched" "i < length (h_shards h)"
    and "ch_buf (s_forward (h_shards h ! i)) = ms"
    and "\<forall>m \<in> set ms. marshal_message tj m \<noteq> None"
  shows "\<exists>h'. drain tj sched i (length ms) h = Some h' \<and>
     (\<forall>c. length ms \<le> room_left (h_clients h c) \<longrightarrow>
        queued (h_clients h' c) = queued (h_clients h c) @ payloads_for tj h c ms)"
  using assms
proof (induction ms arbitrary: h)
  case (Cons m ms)
  from Cons.prems obtain p where p: "marshal_message tj m = Some p" by auto
  from run_forward_spec [OF Cons.prems(1,3,2), of tj] Cons.prems(4) p obtain h1 where
    h1: "run_forward tj sched i h = Some h1" "hub_inv h1" "hub_abs h1 = hub_abs h"
    "h_clients h1 = (\<lambda>c. if c \<in> set (members h (m_room m)) then push p (h_clients h c) else h_clients h c)"
    by auto
  note buf = run_forward_buf [OF h1(1) Cons.prems(4,3)]
  have mem: "\<And>r. set (members h1 r) = set (members h r)"
    using h1(3) by (simp add: hub_abs_def fun_eq_iff)
  from Cons.IH [OF h1(2) Cons.prems(2)] buf Cons.prems(3,5) obtain h2 where
    h2: "drain tj sched i (length ms) h1 = Some h2"
    "\<forall>c. length ms \<le> room_left (h_clients h1 c) \<longrightarrow>
       queued (h_clients h2 c) = queued (h_clients h1 c) @ payloads_for tj h1 c ms" by auto
  have "queued (h_clients h2 c) = queued (h_clients h c) @ payloads_for tj h c (m # ms)"
    if room: "length (m # ms) \<le> room_left (h_clients h c)" for c
  proof -
    have ok: "client_ok (h_clients h c)" by (rule hub_invD(4) [OF Cons.prems(1)])
    have acc: "accepts (h_clients h c)" using room room_left_accepts [of "h_clients h c"] by fastforce
    have "length ms \<le> room_left (h_clients h1 c)" using room room_left_push [OF ok, of p] by (auto simp: h1(4))
    with h2(2) have "queued (h_clients h2 c) = queued (h_clients h1 c) @ payloads_for tj h1 c ms" by blast
    moreover have "payloads_for tj h1 c ms = payloads_for tj h c ms" by (simp add: payloads_for_def mem)
    moreover have "queued (h_clients h1 c) @ payloads_for tj h c ms = queued (h_clients h c) @ payloads_for tj h c (m # ms)"
      using p queued_push [OF ok, of p] acc by (simp add: h1(4) payloads_for_def)
    ultimately show ?thesis by simp
  qed
  then show ?case using h1(1) h2 by simp
qed (simp add: payloads_for_def)

text \<open>C21: A shard hands its queued messages to every subscribed connection in the order in which they
  were published: a connection with room for all of them finds, after the loop has taken them, its
  queue extended by the payloads of exactly its rooms' messages, in that order.\<close>

theorem shard_delivers_in_order:
  assumes "hub_inv h" "fair_schedule sched" "i < length (h_shards h)"
    and "ch_buf (s_forward (h_shards h ! i)) = ms"
    and "\<forall>m \<in> set ms. marshal_message tj m \<noteq> None"
    and "length ms \<le> room_left (h_clients h c)"
  shows "\<exists>h'. drain tj sched i (length ms) h = Some h' \<and>
     queued (h_clients h' c) = queued (h_clients h c) @ payloads_for tj h c ms"
  using drain_delivers [OF assms(1-5)] assms(6) by blast

lemma register_forward: "s_forward (h_shards (register co rs h) ! j) = s_forward (h_shards h ! j)"
proof -
  have "s_forward (h_shards (fold (add_client_to_room c) rs h) ! j) = s_forward (h_shards h ! j)" for c h
    by (induction rs arbitrary: h) (simp_all add: add_client_to_room_def Let_def upd_shard_forward)
  then show ?thesis
    by (simp add: register_def Let_def put_user_def upd_shard_forward split: option.splits)
qed

lemma demo_published:
  "ch_buf (s_forward (h_shards (publish (Some demo_message) demo_two) ! shard_ix demo_two 7)) = [demo_message]"
proof -
  have i: "shard_ix demo_two 7 < length (h_shards demo_two)"
    by (rule shard_ix_less) (use hub_invD(1) [OF demo_two_facts(1)] in auto)
  have ix: "shard_ix demo_two = shard_ix demo_hub"
    using fold_add_client(4) [of _ _ "[7]"] by (simp add: demo_two_def register_def Let_def)
  have "shard_ix demo_hub 7 < length (h_shards demo_hub)"
    by (rule shard_ix_less) (use hub_invD(1) [OF demo_inv] in auto)
  then have "h_shards demo_hub ! shard_ix demo_hub 7 = new_shard"
    by (simp add: demo_hub_def new_hub_with_shards_def Let_def)
  then have "s_forward (h_shards demo_two ! shard_ix demo_two 7) = chan_new forward_cap"
    by (simp add: demo_two_def register_forward ix [unfolded demo_two_def] new_shard_def)
  then show ?thesis
    using i by (simp add: publish_def demo_message_def upd_shard_nth chan_offer_buf chan_new_def forward_cap_def)
qed

lemma shard_delivers_in_order_witness:
  "\<exists>h'. drain (\<lambda>_. Some ''t'') concat (shard_ix demo_two 7) 1 (publish (Some demo_message) demo_two) = Some h' \<and>
     queued (h_clients h' 2) = queued (h_clients demo_two 2) @ [enc_json (message_value ''t'' demo_message)]"
proof -
  let ?h = "publish (Some demo_message) demo_two"
  have inv: "hub_inv ?h" and ab: "hub_abs ?h = hub_abs demo_two" and cl: "h_clients ?h = h_clients demo_two"
    using publish_inv [OF demo_two_facts(1), of "Some demo_message"] by blast+
  have i: "shard_ix demo_two 7 < length (h_shards ?h)"
    using shard_ix_less [of demo_two 7] hub_invD(1) [OF demo_two_facts(1)] by (auto simp: publish_def)
  have "set (members ?h 7) = {2, 3}"
    using ab demo_two_facts(3) by (auto simp: hub_abs_def fun_eq_iff)
  then have pf: "payloads_for (\<lambda>_. Some ''t'') ?h 2 [demo_message] = [enc_json (message_value ''t'' demo_message)]"
    by (simp add: payloads_for_def marshal_message_def demo_message_def del: enc_json.simps)
  have "length [demo_message] \<le> room_left (h_clients ?h 2)"
    using demo_two_facts(5) room_left_accepts [of "h_clients demo_two 2"] by (simp add: cl)
  from shard_delivers_in_order [OF inv concat_fair i demo_published, of "\<lambda>_. Some ''t''" 2] this pf
  show ?thesis by (simp add: marshal_message_def cl del: enc_json.simps)
qed

end
