(* ===== verification/Pipeline.thy ===== *)
theory Pipeline
  imports Envelope HubSystem
begin

section \<open>From a client's frame to the subscribers (client.go, producer-kafka.go, hub.go, room_events.go)\<close>

text \<open>
  The read pump of a connection, the producer it calls, the Redis listener that feeds the hub of a
  node, the listener for room events and the write pump. Kafka and Redis are not part of the
  repository: a call to them has an outcome the environment chooses (a boolean), and the records they
  accepted are kept in \<open>bus\<close>. A frame is what \<open>ReadMessage\<close> returns; gorilla/websocket makes it fail
  for a frame longer than the limit set with \<open>SetReadLimit\<close>.
\<close>

subsection \<open>Producer\<close>

record bus =
  b_kafka :: "(string \<times> string) list"
  b_redis :: "(string \<times> string) list"

record outcome =
  o_now :: int
  o_kafka :: bool
  o_redis :: bool

datatype produce_error = IllegalRoomId | MarshalFailed | KafkaFailed

definition broadcast_prefix :: string where
  "broadcast_prefix = ''im:broadcast:room:''"

definition handle_incoming_message ::
    "proto_marshal \<Rightarrow> outcome \<Rightarrow> string \<Rightarrow> int \<Rightarrow> string \<Rightarrow> string \<Rightarrow> bus \<Rightarrow> bus \<times> produce_error option" where
  "handle_incoming_message pm env roomID senderID content clientMsgID b =
     (case parse_int roomID of
        (_, Some e) \<Rightarrow> (b, Some IllegalRoomId)
      | (roomIDInt, None) \<Rightarrow>
          (case marshal_envelope pm \<lparr>e_room = roomIDInt, e_sender = senderID, e_client_id = clientMsgID,
                                    e_type = 1, e_content = content, e_created = o_now env\<rparr> of
             None \<Rightarrow> (b, Some MarshalFailed)
           | Some payload \<Rightarrow>
               if \<not> o_kafka env then (b, Some KafkaFailed)
               else
                 (let b1 = b\<lparr>b_kafka := b_kafka b @ [(roomID, payload)]\<rparr>
                  in if o_redis env
                     then (b1\<lparr>b_redis := b_redis b1 @ [(broadcast_prefix @ roomID, payload)]\<rparr>, None)
                     else (b1, None))))"

subsection \<open>Read pump\<close>

record frame_payload =
  fp_room :: int
  fp_content :: string
  fp_client_id :: string

definition frame_fields :: "string list" where
  "frame_fields = [''room_id'', ''content'', ''client_msg_id'']"

definition set_frame :: "string \<Rightarrow> json \<Rightarrow> frame_payload \<Rightarrow> frame_payload option" where
  "set_frame n v r =
     (if n = ''room_id'' then map_option (\<lambda>x. r\<lparr>fp_room := x\<rparr>) (json_int 64 v)
      else if n = ''content'' then map_option (\<lambda>x. r\<lparr>fp_content := x\<rparr>) (json_str v)
      else map_option (\<lambda>x. r\<lparr>fp_client_id := x\<rparr>) (json_str v))"

definition decode_frame :: "string \<Rightarrow> frame_payload option" where
  "decode_frame s =
     decode_struct frame_fields set_frame \<lparr>fp_room = 0, fp_content = [], fp_client_id = []\<rparr> s"

definition max_message_size :: nat where
  "max_message_size = 4096"

text \<open>One turn of the loop for a frame that was read: the time of the read is stored on the client.\<close>

definition read_frame ::
    "proto_marshal \<Rightarrow> cid \<Rightarrow> string \<times> outcome \<Rightarrow> hub \<times> bus \<Rightarrow> hub \<times> bus" where
  "read_frame pm c fe st =
     (let h = upd_client c (set_last_read (o_now (snd fe))) (fst st)
      in case decode_frame (fst fe) of
           None \<Rightarrow> (h, snd st)
         | Some pl \<Rightarrow>
             if fp_client_id pl = [] then (h, snd st)
             else (h, fst (handle_incoming_message pm (snd fe) (format_int (fp_room pl))
                             (c_user (h_clients h c)) (fp_content pl) (fp_client_id pl) (snd st))))"

text \<open>
  The loop over the frames the peer sends, up to a read error (an oversized frame, or the end of the
  list), and the deferred clean-up: unregister, then close the connection.
\<close>

fun read_loop :: "proto_marshal \<Rightarrow> cid \<Rightarrow> (string \<times> outcome) list \<Rightarrow> hub \<times> bus \<Rightarrow> hub \<times> bus" where
  "read_loop pm c [] st = st"
| "read_loop pm c (fe # fes) st =
     (if max_message_size < length (fst fe) then st
      else read_loop pm c fes (read_frame pm c fe st))"

definition read_pump ::
    "proto_marshal \<Rightarrow> cid \<Rightarrow> (string \<times> outcome) list \<Rightarrow> hub \<times> bus \<Rightarrow> (hub \<times> bus) option" where
  "read_pump pm c fes st =
     (case read_loop pm c fes st of
        (h, b) \<Rightarrow> map_option (\<lambda>h'. (close_conn c h', b)) (unregister (Some c) h))"

subsection \<open>Write pump\<close>

datatype ws_frame = TextFrame string | CloseFrame | PingFrame

text \<open>
  The \<open>select\<close> on the send channel: a message is written together with all messages queued behind it,
  one per line; a closed and empty channel sends the close frame and ends the pump. \<open>None\<close> means that
  the receive would block. The boolean tells whether the pump goes on. The environment chooses whether the
  connection gives out a writer, and whether closing it, which sends the frame, succeeds: a pump that is
  refused the writer has lost the one message it took, a pump whose frame is not sent all of them.
\<close>

datatype write_outcome = NoWriter | CloseFails | Written

definition write_step :: "int \<Rightarrow> write_outcome \<Rightarrow> client \<Rightarrow> (client \<times> ws_frame list \<times> bool) option" where
  "write_step now outcome cl =
     (case c_send cl of
        None \<Rightarrow> None
      | Some ch \<Rightarrow>
          (case chan_recv ch of
             None \<Rightarrow> if ch_closed ch then Some (cl, [CloseFrame], False) else None
           | Some (m, ch1) \<Rightarrow>
               if outcome = NoWriter then Some (cl\<lparr>c_send := Some ch1\<rparr>, [], False)
               else
                 (let cl' = set_last_write now (cl\<lparr>c_send := Some (ch1\<lparr>ch_buf := []\<rparr>)\<rparr>)
                  in if outcome = CloseFails then Some (cl', [], False)
                     else Some (cl', [TextFrame (join_with (CHR 0x0A) (m # ch_buf ch1))], True))))"

subsection \<open>Listeners of a node\<close>

definition message_of_envelope :: "envelope \<Rightarrow> message" where
  "message_of_envelope e =
     \<lparr>m_id = 0, m_room = e_room e, m_sender = e_sender e, m_client_id = e_client_id e,
      m_type = e_type e, m_content = e_content e, m_created = e_created e, m_deleted = 0\<rparr>"

definition global_listen :: "proto_unmarshal \<Rightarrow> int \<Rightarrow> string \<Rightarrow> hub \<Rightarrow> hub" where
  "global_listen pu now payload h =
     (case unmarshal_envelope pu now payload of
        Inl _ \<Rightarrow> h
      | Inr e \<Rightarrow> publish (Some (message_of_envelope e)) h)"

record room_event =
  ev_type :: string
  ev_room :: int
  ev_user :: int

definition event_fields :: "string list" where
  "event_fields = [''type'', ''room_id'', ''user_id'']"

definition set_event :: "string \<Rightarrow> json \<Rightarrow> room_event \<Rightarrow> room_event option" where
  "set_event n v r =
     (if n = ''type'' then map_option (\<lambda>x. r\<lparr>ev_type := x\<rparr>) (json_str v)
      else if n = ''room_id'' then map_option (\<lambda>x. r\<lparr>ev_room := x\<rparr>) (json_int 64 v)
      else map_option (\<lambda>x. r\<lparr>ev_user := x\<rparr>) (json_int 64 v))"

definition decode_event :: "string \<Rightarrow> room_event option" where
  "decode_event s = decode_struct event_fields set_event \<lparr>ev_type = [], ev_room = 0, ev_user = 0\<rparr> s"

definition room_event_listen :: "string \<Rightarrow> hub \<Rightarrow> hub" where
  "room_event_listen payload h =
     (case decode_event payload of
        None \<Rightarrow> h
      | Some ev \<Rightarrow>
          if ev_type ev = ''member_joined'' then join_room (ev_user ev) (ev_room ev) h
          else if ev_type ev = ''member_left'' then leave_room (ev_user ev) (ev_room ev) h
          else if ev_type ev = ''room_disbanded'' then disband_room (ev_room ev) h
          else h)"

subsection \<open>Room events (services/rooms/events/redis_notifier.go)\<close>

text \<open>\<open>omitempty\<close> drops a zero user id.\<close>

definition event_value :: "room_event \<Rightarrow> json" where
  "event_value ev =
     JObj ([(''type'', JStr (ev_type ev)), (''room_id'', jint (ev_room ev))] @
           (if ev_user ev = 0 then [] else [(''user_id'', jint (ev_user ev))]))"

definition events_channel :: string where
  "events_channel = ''im:room:events''"

definition publish_event :: "bool \<Rightarrow> room_event \<Rightarrow> bus \<Rightarrow> bus" where
  "publish_event redis_ok ev b =
     (if redis_ok then b\<lparr>b_redis := b_redis b @ [(events_channel, enc_json (event_value ev))]\<rparr> else b)"

definition notify_join :: "bool \<Rightarrow> int \<Rightarrow> int \<Rightarrow> bus \<Rightarrow> bus" where
  "notify_join ok u r = publish_event ok \<lparr>ev_type = ''member_joined'', ev_room = r, ev_user = u\<rparr>"

definition notify_leave :: "bool \<Rightarrow> int \<Rightarrow> int \<Rightarrow> bus \<Rightarrow> bus" where
  "notify_leave ok u r = publish_event ok \<lparr>ev_type = ''member_left'', ev_room = r, ev_user = u\<rparr>"

definition notify_disband :: "bool \<Rightarrow> int \<Rightarrow> bus \<Rightarrow> bus" where
  "notify_disband ok r = publish_event ok \<lparr>ev_type = ''room_disbanded'', ev_room = r, ev_user = 0\<rparr>"

lemma decode_event_value:
  assumes "is_int64 (ev_room ev)" "is_int64 (ev_user ev)" "valid_utf8 (ev_type ev)"
  shows "decode_event (enc_json (event_value ev)) = Some ev"
  unfolding decode_event_def event_value_def
proof (rule decode_struct_object)
  have "valid_utf8 ''type''" "valid_utf8 ''room_id''" "valid_utf8 ''user_id''"
    by (simp_all add: valid_utf8_ascii)
  then show "wf_json (JObj ([(''type'', JStr (ev_type ev)), (''room_id'', jint (ev_room ev))] @
           (if ev_user ev = 0 then [] else [(''user_id'', jint (ev_user ev))])))"
    using assms by simp
qed (use assms in \<open>simp_all add: max_depth_def decode_member_def match_field_def event_fields_def
        set_event_def json_str_def\<close>)

lemma listen_event_value:
  assumes "is_int64 (ev_room ev)" "is_int64 (ev_user ev)" "valid_utf8 (ev_type ev)"
  shows "room_event_listen (enc_json (event_value ev)) h =
     (if ev_type ev = ''member_joined'' then join_room (ev_user ev) (ev_room ev) h
      else if ev_type ev = ''member_left'' then leave_room (ev_user ev) (ev_room ev) h
      else if ev_type ev = ''room_disbanded'' then disband_room (ev_room ev) h
      else h)"
  by (simp add: room_event_listen_def decode_event_value [OF assms])


subsection \<open>What a frame can do\<close>

lemma frame_ok:
  "decode_frame s = Some pl \<Longrightarrow> is_int64 (fp_room pl) \<and> valid_utf8 (fp_content pl) \<and> valid_utf8 (fp_client_id pl)"
  unfolding decode_frame_def
  by (erule decode_struct_inv)
     (auto simp: set_frame_def in_width_def dest: json_str_valid json_int_range split: if_splits)

definition frame_message :: "user_id \<Rightarrow> int \<Rightarrow> frame_payload \<Rightarrow> envelope" where
  "frame_message u now pl =
     \<lparr>e_room = fp_room pl, e_sender = u, e_client_id = fp_client_id pl, e_type = 1,
      e_content = fp_content pl, e_created = now\<rparr>"

lemma handle_incoming_frame:
  assumes "decode_frame s = Some pl"
  shows "handle_incoming_message pm env (format_int (fp_room pl)) u (fp_content pl) (fp_client_id pl) b =
     (case marshal_envelope pm (frame_message u (o_now env) pl) of
        None \<Rightarrow> (b, Some MarshalFailed)
      | Some payload \<Rightarrow>
          if \<not> o_kafka env then (b, Some KafkaFailed)
          else (\<lparr>b_kafka = b_kafka b @ [(format_int (fp_room pl), payload)],
                 b_redis = b_redis b @
                   (if o_redis env then [(broadcast_prefix @ format_int (fp_room pl), payload)] else [])\<rparr>, None))"
  using parse_format_int [of "fp_room pl"] frame_ok [OF assms]
  by (simp add: handle_incoming_message_def frame_message_def Let_def split: option.splits)

lemma set_last_read_user [simp]: "c_user (set_last_read t cl) = c_user cl"
  by (simp add: set_last_read_def)

text \<open>What Kafka may hold after a connection of user \<open>u\<close> has been read.\<close>

definition kafka_entry_of :: "proto_marshal \<Rightarrow> user_id \<Rightarrow> string \<times> string \<Rightarrow> bool" where
  "kafka_entry_of pm u kv \<longleftrightarrow>
     (\<exists>e. marshal_envelope pm e = Some (snd kv) \<and> fst kv = format_int (e_room e) \<and>
          e_sender e = u \<and> e_client_id e \<noteq> [] \<and> e_type e = 1 \<and>
          valid_utf8 (e_content e) \<and> is_int64 (e_room e))"

lemma read_frame_effect:
  "\<exists>new. b_kafka (snd (read_frame pm c fe st)) = b_kafka (snd st) @ new \<and>
     (\<forall>kv \<in> set new. kafka_entry_of pm (c_user (h_clients (fst st) c)) kv) \<and>
     (\<exists>f. fst (read_frame pm c fe st) = upd_client c (set_last_read f) (fst st))"
proof (cases "decode_frame (fst fe)")
  case None
  then show ?thesis by (auto simp: read_frame_def Let_def)
next
  case (Some pl)
  let ?u = "c_user (h_clients (fst st) c)"
  show ?thesis
  proof (cases "fp_client_id pl = []")
    case True
    with Some show ?thesis by (auto simp: read_frame_def Let_def)
  next
    case False
    then have entry: "marshal_envelope pm (frame_message ?u (o_now (snd fe)) pl) = Some v \<Longrightarrow>
        kafka_entry_of pm ?u (format_int (fp_room pl), v)" for v
      using frame_ok [OF Some] unfolding kafka_entry_of_def
      by (intro exI [of _ "frame_message ?u (o_now (snd fe)) pl"]) (auto simp: frame_message_def)
    have u: "c_user (h_clients (upd_client c (set_last_read t) (fst st)) c) = ?u" for t
      by (simp add: set_last_read_def)
    show ?thesis
      using Some False entry
      by (auto simp: read_frame_def Let_def u handle_incoming_frame [OF Some] split: option.splits)
  qed
qed

lemma read_loop_effect:
  assumes "read_loop pm c fes st = st'"
  shows "\<exists>new. b_kafka (snd st') = b_kafka (snd st) @ new \<and>
     (\<forall>kv \<in> set new. kafka_entry_of pm (c_user (h_clients (fst st) c)) kv) \<and>
     (\<exists>f. (\<forall>cl. f cl = cl \<or> (\<exists>t. f cl = set_last_read t cl)) \<and> fst st' = upd_client c f (fst st))"
  using assms
proof (induction fes arbitrary: st)
  case Nil
  then have "fst st' = upd_client c (\<lambda>cl. cl) (fst st)" by (simp add: upd_client_def)
  with Nil show ?case by (intro exI [of _ "[]"]) auto
next
  case (Cons fe fes)
  have stop: "fst st = upd_client c (\<lambda>cl. cl) (fst st)" by (simp add: upd_client_def)
  show ?case
  proof (cases "max_message_size < length (fst fe)")
    case True
    with Cons.prems stop show ?thesis by (intro exI [of _ "[]"]) auto
  next
    case False
    let ?st1 = "read_frame pm c fe st"
    from read_frame_effect [of pm c fe st] obtain n1 t where
      1: "b_kafka (snd ?st1) = b_kafka (snd st) @ n1"
      "\<forall>kv \<in> set n1. kafka_entry_of pm (c_user (h_clients (fst st) c)) kv"
      "fst ?st1 = upd_client c (set_last_read t) (fst st)" by blast
    have u: "c_user (h_clients (fst ?st1) c) = c_user (h_clients (fst st) c)"
      by (simp add: 1(3) set_last_read_def)
    from Cons.IH [of ?st1] Cons.prems False obtain n2 f where
      2: "b_kafka (snd st') = b_kafka (snd ?st1) @ n2"
      "\<forall>kv \<in> set n2. kafka_entry_of pm (c_user (h_clients (fst ?st1) c)) kv"
      "\<forall>cl. f cl = cl \<or> (\<exists>t. f cl = set_last_read t cl)"
      "fst st' = upd_client c f (fst ?st1)" by auto
    have "fst st' = upd_client c (\<lambda>cl. f (set_last_read t cl)) (fst st)"
      by (simp add: 2(4) 1(3) upd_client_def)
    moreover have "f (set_last_read t cl) = cl \<or> (\<exists>t'. f (set_last_read t cl) = set_last_read t' cl)" for cl
      using 2(3) [rule_format, of "set_last_read t cl"] by (auto simp: set_last_read_def)
    ultimately have last: "\<exists>f. (\<forall>cl. f cl = cl \<or> (\<exists>t. f cl = set_last_read t cl)) \<and>
        fst st' = upd_client c f (fst st)"
      by (intro exI [of _ "\<lambda>cl. f (set_last_read t cl)"]) blast
    have "\<forall>kv \<in> set (n1 @ n2). kafka_entry_of pm (c_user (h_clients (fst st) c)) kv"
      using 1(2) 2(2) u by auto
    moreover have "b_kafka (snd st') = b_kafka (snd st) @ n1 @ n2" using 1(1) 2(1) by simp
    ultimately show ?thesis using last by blast
  qed
qed

lemma upd_last_read_inv:
  assumes "hub_inv h" "\<forall>cl. f cl = cl \<or> (\<exists>t. f cl = set_last_read t cl)"
  shows "hub_inv (upd_client c f h)"
proof -
  have "rooms_of (f cl) = rooms_of cl" "client_ok (f cl) = client_ok cl" "c_user (f cl) = c_user cl"
    "c_active (f cl) = c_active cl" for cl
    using assms(2) [rule_format, of cl]
    by (auto simp: set_last_read_def rooms_of_def client_ok_def split: option.splits)
  with assms(1) show ?thesis by (simp add: hub_inv_def)
qed

lemma read_pump_spec:
  assumes inv: "hub_inv h"
  shows "\<exists>h' b' new. read_pump pm c fes (h, b) = Some (h', b') \<and>
     b_kafka b' = b_kafka b @ new \<and> (\<forall>kv \<in> set new. kafka_entry_of pm (c_user (h_clients h c)) kv) \<and>
     hub_inv h' \<and> c_conn (h_clients h' c) = Some False \<and> \<not> c_active (h_clients h' c) \<and>
     (\<forall>r. c \<notin> set (members h' r)) \<and> client_by_user h' (c_user (h_clients h c)) \<noteq> Some c"
proof -
  let ?u = "c_user (h_clients h c)"
  obtain h1 b1 where l: "read_loop pm c fes (h, b) = (h1, b1)" by fastforce
  from read_loop_effect [OF l] obtain new f where
    new: "b_kafka b1 = b_kafka b @ new" "\<forall>kv \<in> set new. kafka_entry_of pm ?u kv"
    and f: "\<forall>cl. f cl = cl \<or> (\<exists>t. f cl = set_last_read t cl)" and h1: "h1 = upd_client c f h" by auto
  have inv1: "hub_inv h1" unfolding h1 by (rule upd_last_read_inv [OF inv f])
  have u1: "c_user (h_clients h1 c) = ?u"
    using f [rule_format, of "h_clients h c"] by (auto simp: h1 set_last_read_def)
  from unregister_refines [OF inv1, of c] u1 obtain h2 where
    h2: "unregister (Some c) h1 = Some h2" "hub_inv h2" "hub_abs h2 = a_unregister ?u c (hub_abs h1)" by auto
  let ?h = "close_conn c h2"
  have inv3: "hub_inv ?h" and ab: "hub_abs ?h = hub_abs h2" using close_conn_inv [OF h2(2)] by blast+
  have dead: "\<not> c_active (h_clients ?h c)"
    using h2(3) ab by (auto simp: hub_abs_def a_unregister_def split: if_splits)
  then have "rooms_of (h_clients ?h c) = []" using client_ok_rooms [OF hub_invD(4) [OF inv3]] by blast
  then have "\<forall>r. c \<notin> set (members ?h r)" using hub_invD(3) [OF inv3, of c] by simp
  moreover have "client_by_user ?h ?u \<noteq> Some c" using hub_invD(2) [OF inv3, of ?u c] dead by blast
  moreover have "c_conn (h_clients ?h c) = Some False" by (simp add: close_conn_def)
  moreover have "read_pump pm c fes (h, b) = Some (?h, b1)" by (simp add: read_pump_def l h2(1))
  ultimately show ?thesis using new inv3 dead by blast
qed

text \<open>C11: Whatever frames a peer sends, everything its connection puts into Kafka is keyed by the room of
  the message, carries the connection's own user as the sender (a forged sender cannot get in), a
  non-empty client message id and valid text; and when the read pump ends, for whatever reason, the
  connection is closed, subscribed to no room and no longer the user's current one, without a panic.\<close>

theorem read_pump_authentic:
  assumes inv: "hub_inv h"
  shows "\<exists>h' b' new. read_pump pm c fes (h, b) = Some (h', b') \<and>
     b_kafka b' = b_kafka b @ new \<and> (\<forall>kv \<in> set new. kafka_entry_of pm (c_user (h_clients h c)) kv) \<and>
     hub_inv h' \<and> c_conn (h_clients h' c) = Some False \<and> \<not> c_active (h_clients h' c) \<and>
     (\<forall>r. c \<notin> set (members h' r)) \<and> client_by_user h' (c_user (h_clients h c)) \<noteq> Some c"
  by (rule read_pump_spec [OF inv])

definition demo_frame :: string where
  "demo_frame = enc_json (JObj [(''room_id'', jint 7), (''content'', JStr ''hello''), (''client_msg_id'', JStr ''a'')])"

lemma decode_demo_frame:
  "decode_frame demo_frame = Some \<lparr>fp_room = 7, fp_content = ''hello'', fp_client_id = ''a''\<rparr>"
  unfolding decode_frame_def demo_frame_def
  by (rule decode_struct_object)
     (simp_all add: valid_utf8_ascii max_depth_def decode_member_def match_field_def frame_fields_def
        set_frame_def json_str_def in_width_def)

lemma read_pump_authentic_witness:
  "\<exists>h' b'. read_pump sample_pm 2 [(demo_frame, \<lparr>o_now = 5, o_kafka = True, o_redis = True\<rparr>)]
       (demo_two, \<lparr>b_kafka = [], b_redis = []\<rparr>) = Some (h', b') \<and>
     (\<forall>kv \<in> set (b_kafka b'). kafka_entry_of sample_pm 1 kv) \<and> (\<forall>r. 2 \<notin> set (members h' r))"
proof -
  from read_pump_authentic [OF demo_two_facts(1), of sample_pm 2
      "[(demo_frame, \<lparr>o_now = 5, o_kafka = True, o_redis = True\<rparr>)]" "\<lparr>b_kafka = [], b_redis = []\<rparr>"]
  show ?thesis using demo_two_facts(4) by auto
qed

subsection \<open>End to end\<close>

text \<open>C4: End to end: when Kafka and Redis take it and the clock reads a time from 1970 to 2262, a well-formed
  frame with a client id, read from a connection of user \<open>u\<close>, is published on the room's Redis channel. On
  any node that receives it, it is queued in the room's shard behind the messages that wait there, unless
  that queue is full: then it is dropped and the hub is as it was. Once the shard's loop has taken the
  waiting messages and this one, every connection of the node that is subscribed to the room and had room in
  its own queue for all of them finds there, behind those of the waiting messages that were for it, one JSON
  line with the room, the text and the client id of the frame, the type 1, the time of the send and the
  sender \<open>u\<close>.\<close>

theorem frame_reaches_subscribers:
  assumes codec: "proto_codec pm pu" and inv: "hub_inv g" and sched: "fair_schedule sched"
    and frame: "decode_frame s = Some pl" "fp_client_id pl \<noteq> []"
    and u: "is_int64 (c_user (h_clients h c))"
    and env: "o_kafka env" "o_redis env" "0 < o_now env" "o_now env < 2 ^ 63"
    and tj: "tj (o_now env) = Some t"
    and waiting: "ch_buf (s_forward (shard_for_room g (fp_room pl))) = ms" "\<forall>m \<in> set ms. marshal_message tj m \<noteq> None"
  shows "\<exists>payload. b_redis (snd (read_frame pm c (s, env) (h, b))) =
       b_redis b @ [(broadcast_prefix @ format_int (fp_room pl), payload)] \<and>
     (length ms < forward_cap \<longrightarrow>
       (\<exists>g'. drain tj sched (shard_ix g (fp_room pl)) (length ms + 1) (global_listen pu now payload g) = Some g' \<and>
         (\<forall>d \<in> set (members g (fp_room pl)). length ms < room_left (h_clients g d) \<longrightarrow>
            queued (h_clients g' d) = queued (h_clients g d) @ payloads_for tj g d ms @
              [enc_json (message_value t (message_of_envelope (frame_message (c_user (h_clients h c)) (o_now env) pl)))]))) \<and>
     (forward_cap \<le> length ms \<longrightarrow> global_listen pu now payload g = g)"
proof -
  let ?u = "c_user (h_clients h c)"
  let ?e = "frame_message ?u (o_now env) pl"
  let ?m = "message_of_envelope ?e"
  have "envelope_valid ?e"
    using frame_ok [OF frame(1)] u env by (auto simp: envelope_valid_def frame_message_def in_width_def)
  from envelope_roundtrip_lemma [OF codec this, of now] env(3) obtain payload where
    p: "marshal_envelope pm ?e = Some payload" "unmarshal_envelope pu now payload = Inr ?e"
    by (auto simp: frame_message_def)
  have red: "b_redis (snd (read_frame pm c (s, env) (h, b))) =
      b_redis b @ [(broadcast_prefix @ format_int (fp_room pl), payload)]"
    using frame env p(1)
    by (simp add: read_frame_def Let_def handle_incoming_frame [OF frame(1)] set_last_read_def)
  let ?g1 = "publish (Some ?m) g"
  have gl: "global_listen pu now payload g = ?g1" by (simp add: global_listen_def p(2))
  have room: "m_room ?m = fp_room pl" by (simp add: message_of_envelope_def frame_message_def)
  have inv1: "hub_inv ?g1" and ab: "hub_abs ?g1 = hub_abs g" and cl: "h_clients ?g1 = h_clients g"
    using publish_inv [OF inv, of "Some ?m"] by blast+
  let ?i = "shard_ix g (fp_room pl)"
  have i: "?i < length (h_shards g)" using shard_ix_less [of g] hub_invD(1) [OF inv] by auto
  have q: "queues_ok g ?i (h_shards g ! ?i)" by (rule queues_okD [OF inv i])
  have mj: "marshal_message tj ?m = Some (enc_json (message_value t ?m))"
    using tj by (simp add: marshal_message_def message_of_envelope_def frame_message_def del: enc_json.simps)
  have mem: "set (members ?g1 r) = set (members g r)" for r
    using ab by (simp add: hub_abs_def fun_eq_iff)
  have all: "\<exists>g'. drain tj sched ?i (length ms + 1) ?g1 = Some g' \<and>
      (\<forall>d \<in> set (members g (fp_room pl)). length ms < room_left (h_clients g d) \<longrightarrow>
        queued (h_clients g' d) = queued (h_clients g d) @ payloads_for tj g d ms @ [enc_json (message_value t ?m)])"
    if "length ms < forward_cap"
  proof -
    have buf: "ch_buf (s_forward (h_shards ?g1 ! ?i)) = ms @ [?m]"
      using waiting(1) that q i
      by (simp add: publish_def room upd_shard_nth chan_offer_buf shard_for_room_def queues_ok_def)
    have len: "?i < length (h_shards ?g1)" using i by (simp add: publish_def)
    have "\<forall>m \<in> set (ms @ [?m]). marshal_message tj m \<noteq> None" using waiting(2) mj by simp
    from drain_delivers [OF inv1 sched len buf this] show ?thesis
      by (auto simp: cl payloads_for_def mem mj room)
  qed
  have full: "?g1 = g" if "forward_cap \<le> length ms"
  proof -
    have "chan_offer ?m (s_forward (h_shards g ! ?i)) = s_forward (h_shards g ! ?i)"
      using waiting(1) that q by (simp add: chan_offer_def chan_try_send_def shard_for_room_def queues_ok_def Let_def)
    then have "(h_shards g ! ?i)\<lparr>s_forward := chan_offer ?m (s_forward (h_shards g ! ?i))\<rparr> = h_shards g ! ?i" by simp
    then have "upd_shard ?i (\<lambda>s. s\<lparr>s_forward := chan_offer ?m (s_forward s)\<rparr>) g = g"
      unfolding upd_shard_def by (cases g) (simp only: list_update_id hub.simps)
    then show ?thesis by (simp only: publish_def option.case room)
  qed
  show ?thesis
  proof (intro exI [of _ payload] conjI red)
  qed (unfold gl, rule impI, erule all, rule impI, erule full)
qed

lemma demo_forward_empty: "ch_buf (s_forward (shard_for_room demo_two 7)) = []"
proof -
  have "shard_ix demo_hub 7 < length (h_shards demo_hub)"
    by (rule shard_ix_less) (use hub_invD(1) [OF demo_inv] in auto)
  then have "h_shards demo_hub ! shard_ix demo_hub 7 = new_shard"
    by (simp add: demo_hub_def new_hub_with_shards_def Let_def)
  moreover have "shard_ix demo_two = shard_ix demo_hub"
    using fold_add_client(4) [of _ _ "[7]"] by (simp add: demo_two_def register_def Let_def)
  ultimately show ?thesis
    unfolding shard_for_room_def demo_two_def register_forward
    by (simp add: new_shard_def chan_new_def)
qed

lemma frame_reaches_subscribers_witness:
  "\<exists>payload g'. drain (\<lambda>_. Some ''t'') concat (shard_ix demo_two 7) 1 (global_listen sample_pu 9 payload demo_two) = Some g' \<and>
     queued (h_clients g' 2) = queued (h_clients demo_two 2) @
       [enc_json (message_value ''t'' (message_of_envelope (frame_message 0 5 \<lparr>fp_room = 7, fp_content = ''hello'', fp_client_id = ''a''\<rparr>)))]"
proof -
  let ?env = "\<lparr>o_now = 5, o_kafka = True, o_redis = True\<rparr>"
  have u: "is_int64 (c_user (h_clients demo_hub 0))" by (simp add: in_width_def)
  have "0 < room_left (h_clients demo_two 2)" using demo_two_facts(5) room_left_accepts by blast
  with frame_reaches_subscribers [OF sample_codec demo_two_facts(1) concat_fair decode_demo_frame _ u,
      of ?env "\<lambda>_. Some ''t''" "''t''" "[]", where now = 9 and b = "\<lparr>b_kafka = [], b_redis = []\<rparr>"]
    demo_forward_empty demo_two_facts(3)
  show ?thesis by (auto simp: payloads_for_def forward_cap_def simp del: enc_json.simps drain.simps)
qed

end
