(* ===== verification/RoomRuntime.thy ===== *)
theory RoomRuntime
  imports Pipeline
begin

section \<open>The runtime interface of the room service (rooms/application, rooms/events, gateway)\<close>

text \<open>
  \<open>RuntimeNotifier\<close> is the interface through which the room service tells the live layer about
  membership changes. Its contract is the locale \<open>room_runtime\<close>: whether the current connection of a
  user is subscribed to a room changes exactly by the notified event. It is interpreted twice: on the
  hub itself (the service in the gateway's process) and on the path of the separate service, where the
  notifier publishes a JSON event and the gateway's listener applies it.
\<close>

locale room_runtime =
  fixes valid :: "int \<Rightarrow> bool"
    and ok :: "'h \<Rightarrow> bool"
    and online :: "'h \<Rightarrow> int \<Rightarrow> bool"
    and joined :: "'h \<Rightarrow> int \<Rightarrow> int \<Rightarrow> bool"
    and join :: "int \<Rightarrow> int \<Rightarrow> 'h \<Rightarrow> 'h"
    and leave :: "int \<Rightarrow> int \<Rightarrow> 'h \<Rightarrow> 'h"
    and disband :: "int \<Rightarrow> 'h \<Rightarrow> 'h"
  assumes ok_join: "ok h \<Longrightarrow> valid u \<Longrightarrow> valid r \<Longrightarrow> ok (join u r h)"
    and ok_leave: "ok h \<Longrightarrow> valid u \<Longrightarrow> valid r \<Longrightarrow> ok (leave u r h)"
    and ok_disband: "ok h \<Longrightarrow> valid r \<Longrightarrow> ok (disband r h)"
    and online_join: "ok h \<Longrightarrow> valid u \<Longrightarrow> valid r \<Longrightarrow> online (join u r h) = online h"
    and online_leave: "ok h \<Longrightarrow> valid u \<Longrightarrow> valid r \<Longrightarrow> online (leave u r h) = online h"
    and online_disband: "ok h \<Longrightarrow> valid r \<Longrightarrow> online (disband r h) = online h"
    and joined_online: "ok h \<Longrightarrow> joined h u r \<Longrightarrow> online h u"
    and joined_join: "ok h \<Longrightarrow> valid u \<Longrightarrow> valid r \<Longrightarrow>
      joined (join u r h) v q \<longleftrightarrow> joined h v q \<or> (v = u \<and> q = r \<and> online h u)"
    and joined_leave: "ok h \<Longrightarrow> valid u \<Longrightarrow> valid r \<Longrightarrow>
      joined (leave u r h) v q \<longleftrightarrow> joined h v q \<and> \<not> (v = u \<and> q = r)"
    and joined_disband: "ok h \<Longrightarrow> valid r \<Longrightarrow> joined (disband r h) v q \<longleftrightarrow> joined h v q \<and> q \<noteq> r"
begin

text \<open>The live layer agrees with the set of memberships \<open>D\<close> (user, room).\<close>

definition in_sync :: "(int \<times> int) set \<Rightarrow> 'h \<Rightarrow> bool" where
  "in_sync D h \<longleftrightarrow> ok h \<and> (\<forall>u r. online h u \<longrightarrow> (joined h u r \<longleftrightarrow> (u, r) \<in> D))"

lemma in_sync_join: "in_sync D h \<Longrightarrow> valid u \<Longrightarrow> valid r \<Longrightarrow> in_sync (insert (u, r) D) (join u r h)"
  by (auto simp: in_sync_def ok_join online_join joined_join)

lemma in_sync_leave: "in_sync D h \<Longrightarrow> valid u \<Longrightarrow> valid r \<Longrightarrow> in_sync (D - {(u, r)}) (leave u r h)"
  by (auto simp: in_sync_def ok_leave online_leave joined_leave)

lemma in_sync_disband: "in_sync D h \<Longrightarrow> valid r \<Longrightarrow> in_sync {(u, q) \<in> D. q \<noteq> r} (disband r h)"
  by (auto simp: in_sync_def ok_disband online_disband joined_disband)

lemma in_sync_cong: "in_sync D h \<Longrightarrow> D = D' \<Longrightarrow> in_sync D' h"
  by simp

text \<open>Events are idempotent, and a leave undoes a join whatever happened before.\<close>

lemma join_idem:
  assumes "ok h" "valid u" "valid r"
  shows "joined (join u r (join u r h)) v q = joined (join u r h) v q"
  using assms by (auto simp: joined_join ok_join online_join)

lemma leave_after_join:
  assumes "ok h" "valid u" "valid r"
  shows "joined (leave u r (join u r h)) v q = joined (leave u r h) v q"
  using assms by (auto simp: joined_join joined_leave ok_join)

lemma disband_final:
  assumes "ok h" "valid r"
  shows "\<not> joined (disband r h) v r"
  using assms by (simp add: joined_disband)

end

subsection \<open>The hub as runtime\<close>

definition hub_online :: "hub \<Rightarrow> int \<Rightarrow> bool" where
  "hub_online h u \<longleftrightarrow> client_by_user h u \<noteq> None"

definition hub_joined :: "hub \<Rightarrow> int \<Rightarrow> int \<Rightarrow> bool" where
  "hub_joined h u r \<longleftrightarrow> (case client_by_user h u of None \<Rightarrow> False | Some c \<Rightarrow> c \<in> set (members h r))"

lemma hub_abs_lookups:
  assumes "hub_abs h' = a"
  shows "client_by_user h' = a_current a" "set (members h' r) = a_subs a r"
  using assms by (auto simp: hub_abs_def)

lemma hub_current_inj:
  assumes "hub_inv h" "client_by_user h u = Some c" "client_by_user h v = Some c"
  shows "u = v"
  using hub_invD(2) [OF assms(1,2)] hub_invD(2) [OF assms(1,3)] by simp

lemma hub_join_facts:
  assumes inv: "hub_inv h"
  shows "hub_online (join_room u r h) = hub_online h"
    and "hub_joined (join_room u r h) v q \<longleftrightarrow> hub_joined h v q \<or> (v = u \<and> q = r \<and> hub_online h u)"
proof -
  note l = hub_abs_lookups [OF join_room_refines(2) [OF inv, of u r]]
  show "hub_online (join_room u r h) = hub_online h"
    by (auto simp: fun_eq_iff hub_online_def l a_join_def hub_abs_def split: option.splits)
  show "hub_joined (join_room u r h) v q \<longleftrightarrow> hub_joined h v q \<or> (v = u \<and> q = r \<and> hub_online h u)"
    using hub_current_inj [OF inv, of u _ v]
    by (auto simp: hub_joined_def hub_online_def l a_join_def hub_abs_def split: option.splits)
qed

lemma hub_leave_facts:
  assumes inv: "hub_inv h"
  shows "hub_online (leave_room u r h) = hub_online h"
    and "hub_joined (leave_room u r h) v q \<longleftrightarrow> hub_joined h v q \<and> \<not> (v = u \<and> q = r)"
proof -
  note l = hub_abs_lookups [OF leave_room_refines(2) [OF inv, of u r]]
  show "hub_online (leave_room u r h) = hub_online h"
    by (auto simp: fun_eq_iff hub_online_def l a_leave_def hub_abs_def split: option.splits)
  show "hub_joined (leave_room u r h) v q \<longleftrightarrow> hub_joined h v q \<and> \<not> (v = u \<and> q = r)"
    using hub_current_inj [OF inv, of u _ v]
    by (auto simp: hub_joined_def l a_leave_def hub_abs_def split: option.splits)
qed

lemma hub_disband_facts:
  assumes inv: "hub_inv h"
  shows "hub_online (disband_room r h) = hub_online h"
    and "hub_joined (disband_room r h) v q \<longleftrightarrow> hub_joined h v q \<and> q \<noteq> r"
proof -
  note l = hub_abs_lookups [OF disband_room_refines(2) [OF inv, of r]]
  show "hub_online (disband_room r h) = hub_online h"
    by (auto simp: fun_eq_iff hub_online_def l a_disband_def hub_abs_def)
  show "hub_joined (disband_room r h) v q \<longleftrightarrow> hub_joined h v q \<and> q \<noteq> r"
    by (auto simp: hub_joined_def l a_disband_def hub_abs_def split: option.splits)
qed

lemma hub_joined_online: "hub_joined h u r \<Longrightarrow> hub_online h u"
  by (auto simp: hub_joined_def hub_online_def split: option.splits)

interpretation hub_runtime: room_runtime "\<lambda>_. True" hub_inv hub_online hub_joined join_room leave_room disband_room
proof unfold_locales
  fix h u r
  assume "hub_joined h u r"
  then show "hub_online h u" by (rule hub_joined_online)
qed (auto simp: join_room_refines leave_room_refines disband_room_refines
       hub_join_facts hub_leave_facts hub_disband_facts)

subsection \<open>The event path as runtime\<close>

text \<open>The gateway applies what the notifier has put on the events channel.\<close>

definition empty_bus :: bus where
  "empty_bus = \<lparr>b_kafka = [], b_redis = []\<rparr>"

definition apply_events :: "bus \<Rightarrow> hub \<Rightarrow> hub" where
  "apply_events b h = fold room_event_listen (map snd (filter (\<lambda>e. fst e = events_channel) (b_redis b))) h"

definition remote_join :: "int \<Rightarrow> int \<Rightarrow> hub \<Rightarrow> hub" where
  "remote_join u r h = apply_events (notify_join True u r empty_bus) h"

definition remote_leave :: "int \<Rightarrow> int \<Rightarrow> hub \<Rightarrow> hub" where
  "remote_leave u r h = apply_events (notify_leave True u r empty_bus) h"

definition remote_disband :: "int \<Rightarrow> hub \<Rightarrow> hub" where
  "remote_disband r h = apply_events (notify_disband True r empty_bus) h"

lemma remote_is_local:
  assumes "is_int64 r"
  shows "is_int64 u \<Longrightarrow> remote_join u r h = join_room u r h"
    and "is_int64 u \<Longrightarrow> remote_leave u r h = leave_room u r h"
    and "remote_disband r h = disband_room r h"
proof -
  have z: "is_int64 0" by (simp add: in_width_def)
  have names: "valid_utf8 ''member_joined''" "valid_utf8 ''member_left''" "valid_utf8 ''room_disbanded''"
    by (simp_all add: valid_utf8_ascii)
  show "is_int64 u \<Longrightarrow> remote_join u r h = join_room u r h"
    using listen_event_value [of "\<lparr>ev_type = ''member_joined'', ev_room = r, ev_user = u\<rparr>" h] assms names
    by (simp add: remote_join_def apply_events_def notify_join_def publish_event_def empty_bus_def)
  show "is_int64 u \<Longrightarrow> remote_leave u r h = leave_room u r h"
    using listen_event_value [of "\<lparr>ev_type = ''member_left'', ev_room = r, ev_user = u\<rparr>" h] assms names
    by (simp add: remote_leave_def apply_events_def notify_leave_def publish_event_def empty_bus_def)
  show "remote_disband r h = disband_room r h"
    using listen_event_value [of "\<lparr>ev_type = ''room_disbanded'', ev_room = r, ev_user = 0\<rparr>" h] assms names z
    by (simp add: remote_disband_def apply_events_def notify_disband_def publish_event_def empty_bus_def)
qed

interpretation event_runtime: room_runtime is_int64 hub_inv hub_online hub_joined remote_join remote_leave remote_disband
proof unfold_locales
  fix h u r
  assume "hub_joined h u r"
  then show "hub_online h u" by (rule hub_joined_online)
qed (auto simp: remote_is_local join_room_refines leave_room_refines disband_room_refines
       hub_join_facts hub_leave_facts hub_disband_facts)

text \<open>C23: The event a separate room service publishes has, on every gateway that receives it, exactly the
  effect of the direct call: encoding the event as JSON (with the zero user id left out), decoding it
  and dispatching on its type is the corresponding hub operation.\<close>

theorem room_events_equal_direct_calls:
  assumes "is_int64 u" "is_int64 r"
  shows "apply_events (notify_join True u r empty_bus) h = join_room u r h \<and>
     apply_events (notify_leave True u r empty_bus) h = leave_room u r h \<and>
     apply_events (notify_disband True r empty_bus) h = disband_room r h"
  using remote_is_local(1,2) [OF assms(2,1)] remote_is_local(3) [OF assms(2)]
  by (simp add: remote_join_def remote_leave_def remote_disband_def)

lemma room_events_equal_direct_calls_witness:
  "apply_events (notify_leave True 1 7 empty_bus) demo_two = leave_room 1 7 demo_two"
  using room_events_equal_direct_calls [of 1 7 demo_two] by (simp add: in_width_def)

end
