(* ===== verification/Gorm.thy ===== *)
theory Gorm
  imports GoStrings
begin

section \<open>The database interface (gorm) the repositories are written against\<close>

text \<open>
  gorm and MySQL are not part of the repository. A table is a record of operations on an abstract
  database state \<open>'s\<close>, given to the repositories as an argument; \<open>table_laws\<close> states what gorm
  documents of them, over the view \<open>rows\<close> of the rows that are not soft-deleted: a query returns
  matching live rows in the asked order, a failed statement changes nothing, a create appends the row
  with the key the database assigned, an update and a (soft) delete act on the matching live rows and
  report their number. A conflict with a unique index is part of \<open>conflict\<close>. The number an update reports is
  that of the matching rows, where MySQL's RowsAffected leaves out rows that had the new values already; the
  repositories use it in \<open>Save\<close> only, which then writes the same row a second time. Predicates on strings
  compare them byte by byte; a MySQL collation that ignores case lets such a query find more.
\<close>

datatype db_error = RecordNotFound | DuplicateKey | DeadlineExceeded | Canceled | DbFailure string

record 'r query =
  q_where :: "'r \<Rightarrow> bool"
  q_order :: "'r \<Rightarrow> 'r \<Rightarrow> bool"
  q_offset :: nat
  q_limit :: "nat option"

definition query_all :: "('r \<Rightarrow> bool) \<Rightarrow> 'r query" where
  "query_all p = \<lparr>q_where = p, q_order = (\<lambda>_ _. True), q_offset = 0, q_limit = None\<rparr>"

record ('s, 'r) table =
  t_find :: "'r query \<Rightarrow> 's \<Rightarrow> db_error + 'r list"
  t_count :: "('r \<Rightarrow> bool) \<Rightarrow> 's \<Rightarrow> db_error + nat"
  t_create :: "'r \<Rightarrow> 's \<Rightarrow> 's \<times> (db_error + 'r)"
  t_create_ignore :: "'r \<Rightarrow> 's \<Rightarrow> 's \<times> (db_error + unit)"
  t_update :: "('r \<Rightarrow> bool) \<Rightarrow> ('r \<Rightarrow> 'r) \<Rightarrow> 's \<Rightarrow> 's \<times> (db_error + nat)"
  t_delete :: "('r \<Rightarrow> bool) \<Rightarrow> 's \<Rightarrow> 's \<times> (db_error + nat)"

definition page :: "nat \<Rightarrow> nat option \<Rightarrow> 'a list \<Rightarrow> 'a list" where
  "page off lim xs = (case lim of None \<Rightarrow> drop off xs | Some n \<Rightarrow> take n (drop off xs))"

text \<open>A result of a query: some arrangement of the matching rows in the asked order, then the page.\<close>

definition answers :: "'r query \<Rightarrow> 'r list \<Rightarrow> 'r list \<Rightarrow> bool" where
  "answers q live rs \<longleftrightarrow>
     (\<exists>xs. mset xs = mset (filter (q_where q) live) \<and> sorted_wrt (q_order q) xs \<and>
           rs = page (q_offset q) (q_limit q) xs)"

text \<open>
  \<open>assign\<close> puts a fresh key into a row; \<open>conflict\<close> tells that a unique index forbids a row beside
  the live ones.
\<close>

definition table_laws ::
    "('s \<Rightarrow> 'r list) \<Rightarrow> ('r \<Rightarrow> 'r \<Rightarrow> bool) \<Rightarrow> ('r list \<Rightarrow> 'r \<Rightarrow> bool) \<Rightarrow> ('s, 'r) table \<Rightarrow> bool" where
  "table_laws rows assigned conflict t \<longleftrightarrow>
     (\<forall>q s rs. t_find t q s = Inr rs \<longrightarrow> answers q (rows s) rs) \<and>
     (\<forall>p s n. t_count t p s = Inr n \<longrightarrow> n = length (filter p (rows s))) \<and>
     (\<forall>r s s' e. t_create t r s = (s', Inl e) \<longrightarrow> s' = s) \<and>
     (\<forall>r s s' r'. t_create t r s = (s', Inr r') \<longrightarrow>
        assigned r r' \<and> \<not> conflict (rows s) r' \<and> rows s' = rows s @ [r']) \<and>
     (\<forall>r s s' e. t_create_ignore t r s = (s', Inl e) \<longrightarrow> s' = s) \<and>
     (\<forall>r s s'. t_create_ignore t r s = (s', Inr ()) \<longrightarrow>
        (if conflict (rows s) r then rows s' = rows s
         else \<exists>r'. assigned r r' \<and> rows s' = rows s @ [r'])) \<and>
     (\<forall>p f s s' e. t_update t p f s = (s', Inl e) \<longrightarrow> s' = s) \<and>
     (\<forall>p f s s' n. t_update t p f s = (s', Inr n) \<longrightarrow>
        rows s' = map (\<lambda>r. if p r then f r else r) (rows s) \<and> n = length (filter p (rows s))) \<and>
     (\<forall>p s s' e. t_delete t p s = (s', Inl e) \<longrightarrow> s' = s) \<and>
     (\<forall>p s s' n. t_delete t p s = (s', Inr n) \<longrightarrow>
        rows s' = filter (\<lambda>r. \<not> p r) (rows s) \<and> n = length (filter p (rows s)))"

text \<open>Statements on one table leave the view of another table alone.\<close>

definition table_frame :: "('s \<Rightarrow> 'b) \<Rightarrow> ('s, 'r) table \<Rightarrow> bool" where
  "table_frame view t \<longleftrightarrow>
     (\<forall>r s. view (fst (t_create t r s)) = view s) \<and>
     (\<forall>r s. view (fst (t_create_ignore t r s)) = view s) \<and>
     (\<forall>p f s. view (fst (t_update t p f s)) = view s) \<and>
     (\<forall>p s. view (fst (t_delete t p s)) = view s)"

subsection \<open>gorm's finishers\<close>

text \<open>\<open>First\<close> and \<open>Take\<close>: at most one row, \<open>ErrRecordNotFound\<close> when there is none.\<close>

definition gorm_take :: "('s, 'r) table \<Rightarrow> ('r \<Rightarrow> bool) \<Rightarrow> 's \<Rightarrow> db_error + 'r" where
  "gorm_take t p s =
     (case t_find t ((query_all p)\<lparr>q_limit := Some 1\<rparr>) s of
        Inl e \<Rightarrow> Inl e
      | Inr [] \<Rightarrow> Inl RecordNotFound
      | Inr (r # _) \<Rightarrow> Inr r)"

definition gorm_first :: "('s, 'r) table \<Rightarrow> ('r \<Rightarrow> int) \<Rightarrow> ('r \<Rightarrow> bool) \<Rightarrow> 's \<Rightarrow> db_error + 'r" where
  "gorm_first t key p s =
     (case t_find t ((query_all p)\<lparr>q_order := (\<lambda>a b. key a \<le> key b), q_limit := Some 1\<rparr>) s of
        Inl e \<Rightarrow> Inl e
      | Inr [] \<Rightarrow> Inl RecordNotFound
      | Inr (r # _) \<Rightarrow> Inr r)"

text \<open>
  \<open>db.Transaction\<close>: the state of a transaction whose function fails, or whose commit fails, is thrown
  away. \<open>commit\<close> is the outcome of the commit.
\<close>

definition transaction :: "('s \<Rightarrow> db_error option) \<Rightarrow> ('s \<Rightarrow> 's \<times> (db_error + 'a)) \<Rightarrow> 's \<Rightarrow> 's \<times> (db_error + 'a)" where
  "transaction commit f s =
     (case f s of
        (s', Inl e) \<Rightarrow> (s, Inl e)
      | (s', Inr a) \<Rightarrow> (case commit s' of None \<Rightarrow> (s', Inr a) | Some e \<Rightarrow> (s, Inl e)))"

lemma table_lawsD:
  assumes "table_laws rows assigned conflict t"
  shows "t_find t q s = Inr rs \<Longrightarrow> answers q (rows s) rs"
    and "t_count t p s = Inr n \<Longrightarrow> n = length (filter p (rows s))"
    and "t_create t r s = (s', Inl e) \<Longrightarrow> s' = s"
    and "t_create t r s = (s', Inr r') \<Longrightarrow> assigned r r' \<and> \<not> conflict (rows s) r' \<and> rows s' = rows s @ [r']"
    and "t_create_ignore t r s = (s', Inl e) \<Longrightarrow> s' = s"
    and "t_create_ignore t r s = (s', Inr ()) \<Longrightarrow>
        (if conflict (rows s) r then rows s' = rows s else \<exists>r'. assigned r r' \<and> rows s' = rows s @ [r'])"
    and "t_update t p f s = (s', Inl e) \<Longrightarrow> s' = s"
    and "t_update t p f s = (s', Inr n) \<Longrightarrow>
        rows s' = map (\<lambda>r. if p r then f r else r) (rows s) \<and> n = length (filter p (rows s))"
    and "t_delete t p s = (s', Inl e) \<Longrightarrow> s' = s"
    and "t_delete t p s = (s', Inr n) \<Longrightarrow>
        rows s' = filter (\<lambda>r. \<not> p r) (rows s) \<and> n = length (filter p (rows s))"
proof -
  note laws = assms [unfolded table_laws_def]
  show "t_find t q s = Inr rs \<Longrightarrow> answers q (rows s) rs" using laws by simp
  show "t_count t p s = Inr n \<Longrightarrow> n = length (filter p (rows s))" using laws by simp
  show "t_create t r s = (s', Inl e) \<Longrightarrow> s' = s" using laws by metis
  show "t_create t r s = (s', Inr r') \<Longrightarrow> assigned r r' \<and> \<not> conflict (rows s) r' \<and> rows s' = rows s @ [r']"
    using laws by simp
  show "t_create_ignore t r s = (s', Inl e) \<Longrightarrow> s' = s" using laws by metis
  show "t_create_ignore t r s = (s', Inr ()) \<Longrightarrow>
        (if conflict (rows s) r then rows s' = rows s else \<exists>r'. assigned r r' \<and> rows s' = rows s @ [r'])"
    using laws by simp
  show "t_update t p f s = (s', Inl e) \<Longrightarrow> s' = s" using laws by metis
  show "t_update t p f s = (s', Inr n) \<Longrightarrow>
        rows s' = map (\<lambda>r. if p r then f r else r) (rows s) \<and> n = length (filter p (rows s))"
    using laws by simp
  show "t_delete t p s = (s', Inl e) \<Longrightarrow> s' = s" using laws by metis
  show "t_delete t p s = (s', Inr n) \<Longrightarrow>
        rows s' = filter (\<lambda>r. \<not> p r) (rows s) \<and> n = length (filter p (rows s))"
    using laws by simp
qed

lemma answers_one:
  assumes "answers q live rs" "q_offset q = 0" "q_limit q = Some 1"
  shows "(rs = [] \<longleftrightarrow> filter (q_where q) live = []) \<and> set rs \<subseteq> set (filter (q_where q) live) \<and>
     (\<forall>r. rs = [r] \<longrightarrow> (\<forall>x \<in> set (filter (q_where q) live). x = r \<or> q_order q r x))"
proof -
  from assms obtain xs where xs: "mset xs = mset (filter (q_where q) live)" "sorted_wrt (q_order q) xs"
      "rs = take 1 xs"
    by (auto simp: answers_def page_def)
  have "set xs = set (filter (q_where q) live)" using xs(1) by (metis set_mset_mset)
  moreover have "xs = [] \<longleftrightarrow> filter (q_where q) live = []" using xs(1) by (metis mset_zero_iff)
  ultimately show ?thesis using xs(2,3) by (cases xs) auto
qed

text \<open>Where the order tells the matching rows apart, a query has one answer.\<close>

lemma sorted_unique:
  assumes "mset xs = mset ys" and "sorted_wrt le xs" and "sorted_wrt le ys"
    and "\<forall>a \<in> set xs. \<forall>b \<in> set xs. le a b \<longrightarrow> le b a \<longrightarrow> a = b"
  shows "xs = ys"
  using assms
proof (induction xs arbitrary: ys)
  case (Cons x xs)
  then obtain y zs where ys: "ys = y # zs" by (cases ys) auto
  have sets: "set (x # xs) = set ys" using Cons.prems(1) by (metis set_mset_mset)
  have "x = y"
  proof (rule ccontr)
    assume "x \<noteq> y"
    with sets ys have "x \<in> set zs" "y \<in> set xs" by auto
    with Cons.prems(2,3) ys have "le x y" "le y x" by auto
    with Cons.prems(4) \<open>y \<in> set xs\<close> \<open>x \<noteq> y\<close> show False by auto
  qed
  with ys Cons.prems have "xs = zs" by (intro Cons.IH) auto
  with ys \<open>x = y\<close> show ?case by simp
qed simp

lemma answers_unique:
  assumes "answers q live rs" and "answers q live rs'"
    and "\<forall>a \<in> set live. \<forall>b \<in> set live. q_order q a b \<longrightarrow> q_order q b a \<longrightarrow> a = b"
  shows "rs = rs'"
proof -
  from assms(1,2) obtain xs ys where xs: "mset xs = mset (filter (q_where q) live)" "sorted_wrt (q_order q) xs"
      "rs = page (q_offset q) (q_limit q) xs"
    and ys: "mset ys = mset (filter (q_where q) live)" "sorted_wrt (q_order q) ys" "rs' = page (q_offset q) (q_limit q) ys"
    by (auto simp: answers_def)
  have "set xs \<subseteq> set live" using xs(1) by (metis filter_is_subset set_mset_mset)
  then have "xs = ys" using xs ys assms(3) by (intro sorted_unique [of xs ys "q_order q"]) auto
  then show ?thesis using xs(3) ys(3) by simp
qed

lemma gorm_take_Inr:
  assumes laws: "table_laws rows assigned conflict t" and r: "gorm_take t p s = Inr r"
  shows "r \<in> set (rows s) \<and> p r"
proof -
  from r obtain rs where rs: "t_find t ((query_all p)\<lparr>q_limit := Some 1\<rparr>) s = Inr (r # rs)"
    by (auto simp: gorm_take_def split: sum.splits list.splits)
  from answers_one [OF table_lawsD(1) [OF laws rs]] show ?thesis by (auto simp: query_all_def)
qed

lemma gorm_first_Inr:
  assumes laws: "table_laws rows assigned conflict t" and r: "gorm_first t key p s = Inr r"
  shows "r \<in> set (rows s) \<and> p r \<and> (\<forall>x \<in> set (rows s). p x \<longrightarrow> key r \<le> key x)"
proof -
  let ?q = "(query_all p)\<lparr>q_order := (\<lambda>a b. key a \<le> key b), q_limit := Some 1\<rparr>"
  from r obtain rs where rs: "t_find t ?q s = Inr (r # rs)"
    by (auto simp: gorm_first_def split: sum.splits list.splits)
  note a = table_lawsD(1) [OF laws rs]
  have "length (page 0 (Some 1) xs) \<le> 1" for xs :: "'b list" by (simp add: page_def)
  with a have "length (r # rs) \<le> 1" unfolding answers_def query_all_def by fastforce
  then have "rs = []" by simp
  with answers_one [OF a] show ?thesis by (auto simp: query_all_def)
qed

lemma gorm_first_none:
  assumes laws: "table_laws rows assigned conflict t"
    and none: "\<forall>x \<in> set (rows s). \<not> p x"
  shows "\<exists>e. gorm_first t key p s = Inl e"
proof (cases "gorm_first t key p s")
  case (Inr r)
  with gorm_first_Inr [OF laws Inr] none show ?thesis by blast
qed simp

lemma transaction_cases:
  "transaction commit f s = (s', Inl e) \<Longrightarrow> s' = s"
  "transaction commit f s = (s', Inr a) \<Longrightarrow> f s = (s', Inr a)"
  by (auto simp: transaction_def split: prod.splits sum.splits option.splits)

lemma table_frameD:
  assumes "table_frame view t"
  shows "t_create t r s = (s', x) \<Longrightarrow> view s' = view s"
    and "t_create_ignore t r s = (s', y) \<Longrightarrow> view s' = view s"
    and "t_update t p f s = (s', z) \<Longrightarrow> view s' = view s"
    and "t_delete t p s = (s', z) \<Longrightarrow> view s' = view s"
  using assms unfolding table_frame_def by (metis fst_conv)+

text \<open>Reads of a reachable database succeed: every query with a sensible order has an answer.\<close>

definition total_preorder :: "('r \<Rightarrow> 'r \<Rightarrow> bool) \<Rightarrow> bool" where
  "total_preorder le \<longleftrightarrow> (\<forall>a b. le a b \<or> le b a) \<and> (\<forall>a b c. le a b \<longrightarrow> le b c \<longrightarrow> le a c)"

definition queries_succeed :: "('s, 'r) table \<Rightarrow> 's \<Rightarrow> bool" where
  "queries_succeed t s \<longleftrightarrow> (\<forall>q. total_preorder (q_order q) \<longrightarrow> (\<exists>rs. t_find t q s = Inr rs))"

lemma total_preorder_simps [simp]:
  "total_preorder (\<lambda>_ _. True)"
  "total_preorder (\<lambda>a b. (f a :: 'k :: linorder) \<le> f b)"
  "total_preorder (\<lambda>a b. (f b :: 'k :: linorder) \<le> f a)"
  by (auto simp: total_preorder_def)

lemma gorm_first_there:
  assumes laws: "table_laws rows assigned conflict t" and up: "queries_succeed t s" and there: "\<exists>x \<in> set (rows s). p x"
  shows "\<exists>r. gorm_first t key p s = Inr r"
proof -
  let ?q = "(query_all p)\<lparr>q_order := (\<lambda>a b. key a \<le> key b), q_limit := Some 1\<rparr>"
  have "total_preorder (q_order ?q)" by simp
  then obtain rs where rs: "t_find t ?q s = Inr rs" using up unfolding queries_succeed_def by blast
  have "rs \<noteq> []"
    using answers_one [OF table_lawsD(1) [OF laws rs]] there by (auto simp: query_all_def filter_empty_conv)
  then show ?thesis using rs by (cases rs) (simp_all add: gorm_first_def)
qed

subsection \<open>A table that satisfies the laws\<close>

text \<open>A table kept as a list inside the state, used to show that the laws can be met.\<close>

fun insert_by :: "('r \<Rightarrow> 'r \<Rightarrow> bool) \<Rightarrow> 'r \<Rightarrow> 'r list \<Rightarrow> 'r list" where
  "insert_by le x [] = [x]"
| "insert_by le x (y # ys) = (if le x y then x # y # ys else y # insert_by le x ys)"

definition sort_by :: "('r \<Rightarrow> 'r \<Rightarrow> bool) \<Rightarrow> 'r list \<Rightarrow> 'r list" where
  "sort_by le xs = foldr (insert_by le) xs []"

definition list_table ::
    "('s \<Rightarrow> 'r list) \<Rightarrow> ('r list \<Rightarrow> 's \<Rightarrow> 's) \<Rightarrow> ('r list \<Rightarrow> 'r \<Rightarrow> 'r) \<Rightarrow> ('r list \<Rightarrow> 'r \<Rightarrow> bool) \<Rightarrow> ('s, 'r) table" where
  "list_table get put assign conflict =
     \<lparr>t_find = (\<lambda>q s. let xs = sort_by (q_order q) (filter (q_where q) (get s))
                      in if sorted_wrt (q_order q) xs then Inr (page (q_offset q) (q_limit q) xs)
                         else Inl (DbFailure ''order'')),
      t_count = (\<lambda>p s. Inr (length (filter p (get s)))),
      t_create = (\<lambda>r s. let r' = assign (get s) r
                        in if conflict (get s) r' then (s, Inl DuplicateKey)
                           else (put (get s @ [r']) s, Inr r')),
      t_create_ignore = (\<lambda>r s. if conflict (get s) r then (s, Inr ())
                                else (put (get s @ [assign (get s) r]) s, Inr ())),
      t_update = (\<lambda>p f s. (put (map (\<lambda>r. if p r then f r else r) (get s)) s, Inr (length (filter p (get s))))),
      t_delete = (\<lambda>p s. (put (filter (\<lambda>r. \<not> p r) (get s)) s, Inr (length (filter p (get s)))))\<rparr>"

lemma mset_insert_by: "mset (insert_by le x ys) = add_mset x (mset ys)"
  by (induction ys) auto

lemma mset_sort_by: "mset (sort_by le xs) = mset xs"
  by (induction xs) (simp_all add: sort_by_def mset_insert_by)

lemma list_table_laws:
  assumes get: "\<And>xs s. get (put xs s) = xs" and assign: "\<And>xs r. assigned r (assign xs r)"
  shows "table_laws get assigned conflict (list_table get put assign conflict)"
proof -
  let ?t = "list_table get put assign conflict"
  have "answers q (get s) rs" if "t_find ?t q s = Inr rs" for q s rs
    using that unfolding answers_def list_table_def
    by (intro exI [of _ "sort_by (q_order q) (filter (q_where q) (get s))"])
       (auto simp: Let_def mset_sort_by split: if_splits)
  moreover have "(t_find ?t, t_count ?t) = (t_find ?t, \<lambda>p s. Inr (length (filter p (get s))))"
    by (simp add: list_table_def)
  ultimately show ?thesis
    unfolding table_laws_def
    by (auto simp: list_table_def Let_def get assign split: if_splits)
qed

lemma sorted_insert_by:
  assumes "total_preorder le" "sorted_wrt le xs"
  shows "sorted_wrt le (insert_by le x xs)"
  using assms(2)
proof (induction xs)
  case (Cons y ys)
  have set: "set (insert_by le x ys) = insert x (set ys)" by (metis mset_insert_by set_mset_mset set_mset_add_mset_insert)
  show ?case
  proof (cases "le x y")
    case True
    then have "\<forall>z \<in> set ys. le x z" using Cons.prems assms(1) unfolding total_preorder_def by (metis sorted_wrt.simps(2))
    with True Cons.prems show ?thesis by simp
  next
    case False
    then have "le y x" using assms(1) by (auto simp: total_preorder_def)
    with False Cons set show ?thesis by simp
  qed
qed simp

lemma sorted_sort_by: "total_preorder le \<Longrightarrow> sorted_wrt le (sort_by le xs)"
  by (induction xs) (simp_all add: sort_by_def sorted_insert_by)

lemma list_table_queries: "queries_succeed (list_table get put assign conflict) s"
  by (simp add: queries_succeed_def list_table_def Let_def sorted_sort_by)

lemma list_table_frame:
  assumes "\<And>xs s. view (put xs s) = view s"
  shows "table_frame view (list_table get put assign conflict)"
  using assms by (simp add: table_frame_def list_table_def Let_def)

end
