(* ===== verification/RoomRepo.thy ===== *)
theory RoomRepo
  imports Gorm
begin

section \<open>Users, rooms and memberships in the database (models, repository)\<close>

text \<open>
  The rows of \<open>models/user.go\<close> and \<open>models/room.go\<close> (without the soft-delete column: the tables show
  live rows only) and the repository methods over them. The record \<open>db\<close> holds the gorm handles; the
  two joins the repositories write are operations of it; \<open>db_like\<close> is SQL's LIKE.
\<close>

record user =
  u_id :: int
  u_username :: string
  u_password :: string
  u_avatar :: string
  u_role :: int
  u_is_bot :: bool
  u_status :: int
  u_last_login :: "int option"
  u_last_active :: "int option"
  u_created :: int

record room =
  r_id :: int
  r_type :: int
  r_name :: string
  r_creator :: int
  r_agent_enabled :: bool
  r_moderation_enabled :: bool
  r_status :: int
  r_last_active :: int
  r_bot_user :: int
  r_created :: int

record room_member =
  rm_id :: int
  rm_room :: int
  rm_user :: int
  rm_role :: int
  rm_joined :: int

record 's db =
  db_users :: "('s, user) table"
  db_rooms :: "('s, room) table"
  db_members :: "('s, room_member) table"
  db_commit :: "'s \<Rightarrow> db_error option"
  db_like :: "string \<Rightarrow> string \<Rightarrow> bool"
  db_rooms_of :: "int \<Rightarrow> 's \<Rightarrow> db_error + (room \<times> room_member) list"
  db_users_of :: "int \<Rightarrow> 's \<Rightarrow> db_error + (user \<times> room_member) list"

record 's views =
  v_users :: "'s \<Rightarrow> user list"
  v_rooms :: "'s \<Rightarrow> room list"
  v_members :: "'s \<Rightarrow> room_member list"

subsection \<open>What the schema makes of a new row\<close>

text \<open>The primary key is assigned, timestamps are filled in, and a zero value of a column with a
  default becomes the default: \<open>moderation_enabled\<close> is 1, \<open>role\<close> of a membership is 1.\<close>

definition room_assigned :: "room \<Rightarrow> room \<Rightarrow> bool" where
  "room_assigned r r' \<longleftrightarrow>
     r' = r\<lparr>r_id := r_id r', r_created := r_created r', r_moderation_enabled := True\<rparr>"

definition member_assigned :: "room_member \<Rightarrow> room_member \<Rightarrow> bool" where
  "member_assigned m m' \<longleftrightarrow>
     m' = m\<lparr>rm_id := rm_id m', rm_joined := rm_joined m', rm_role := (if rm_role m = 0 then 1 else rm_role m)\<rparr>"

definition user_assigned :: "user \<Rightarrow> user \<Rightarrow> bool" where
  "user_assigned u u' \<longleftrightarrow> u' = u\<lparr>u_id := u_id u', u_created := u_created u'\<rparr>"

lemma room_assignedD:
  "room_assigned r r' \<Longrightarrow> r_name r' = r_name r \<and> r_creator r' = r_creator r \<and> r_type r' = r_type r \<and>
     r_status r' = r_status r \<and> r_agent_enabled r' = r_agent_enabled r"
  by (cases r; cases r') (simp add: room_assigned_def)

lemma member_assignedD:
  "member_assigned m m' \<Longrightarrow> rm_room m' = rm_room m \<and> rm_user m' = rm_user m \<and>
     rm_role m' = (if rm_role m = 0 then 1 else rm_role m)"
  by (cases m; cases m') (simp add: member_assigned_def)

lemma user_assignedD:
  "user_assigned u u' \<Longrightarrow> u_username u' = u_username u \<and> u_password u' = u_password u \<and> u_role u' = u_role u"
  by (cases u; cases u') (simp add: user_assigned_def)

text \<open>Unique indexes: primary keys, a user name, a membership (all among live rows).\<close>

definition room_conflict :: "room list \<Rightarrow> room \<Rightarrow> bool" where
  "room_conflict rs r \<longleftrightarrow> (\<exists>x \<in> set rs. r_id x = r_id r)"

definition member_conflict :: "room_member list \<Rightarrow> room_member \<Rightarrow> bool" where
  "member_conflict ms m \<longleftrightarrow> (\<exists>x \<in> set ms. rm_room x = rm_room m \<and> rm_user x = rm_user m)"

text \<open>Names are compared exactly; an index under a collation that ignores case forbids more.\<close>

definition user_conflict :: "user list \<Rightarrow> user \<Rightarrow> bool" where
  "user_conflict us u \<longleftrightarrow> (\<exists>x \<in> set us. u_id x = u_id u \<or> u_username x = u_username u)"

text \<open>
  The laws of the database: those of the three tables, their independence, the two joins, and that an
  assigned room id was never handed out before (\<open>AUTO_INCREMENT\<close>), so no membership mentions it.
\<close>

definition fresh_room_ids :: "'s db \<Rightarrow> 's views \<Rightarrow> bool" where
  "fresh_room_ids d v \<longleftrightarrow>
     (\<forall>r s s' r'. t_create (db_rooms d) r s = (s', Inr r') \<longrightarrow> (\<forall>m \<in> set (v_members v s). rm_room m \<noteq> r_id r'))"

definition join_laws :: "'s db \<Rightarrow> 's views \<Rightarrow> bool" where
  "join_laws d v \<longleftrightarrow>
     (\<forall>u s xs. db_rooms_of d u s = Inr xs \<longrightarrow>
        set xs = {(r, m). r \<in> set (v_rooms v s) \<and> m \<in> set (v_members v s) \<and> rm_room m = r_id r \<and> rm_user m = u}) \<and>
     (\<forall>r s xs. db_users_of d r s = Inr xs \<longrightarrow>
        set xs = {(u, m). u \<in> set (v_users v s) \<and> m \<in> set (v_members v s) \<and> rm_user m = u_id u \<and> rm_room m = r})"

definition db_laws :: "'s db \<Rightarrow> 's views \<Rightarrow> bool" where
  "db_laws d v \<longleftrightarrow>
     table_laws (v_users v) user_assigned user_conflict (db_users d) \<and>
     table_laws (v_rooms v) room_assigned room_conflict (db_rooms d) \<and>
     table_laws (v_members v) member_assigned member_conflict (db_members d) \<and>
     table_frame (v_rooms v) (db_members d) \<and> table_frame (v_members v) (db_rooms d) \<and>
     table_frame (v_users v) (db_members d) \<and> table_frame (v_users v) (db_rooms d) \<and>
     table_frame (v_rooms v) (db_users d) \<and> table_frame (v_members v) (db_users d) \<and>
     fresh_room_ids d v \<and> join_laws d v"

lemma db_lawsD:
  assumes "db_laws d v"
  shows "table_laws (v_users v) user_assigned user_conflict (db_users d)"
    and "table_laws (v_rooms v) room_assigned room_conflict (db_rooms d)"
    and "table_laws (v_members v) member_assigned member_conflict (db_members d)"
    and "table_frame (v_rooms v) (db_members d)" and "table_frame (v_members v) (db_rooms d)"
    and "table_frame (v_users v) (db_members d)" and "table_frame (v_users v) (db_rooms d)"
    and "table_frame (v_rooms v) (db_users d)" and "table_frame (v_members v) (db_users d)"
    and "t_create (db_rooms d) r s = (s', Inr r') \<Longrightarrow> \<forall>m \<in> set (v_members v s). rm_room m \<noteq> r_id r'"
    and "db_rooms_of d u s = Inr xs \<Longrightarrow>
        set xs = {(r, m). r \<in> set (v_rooms v s) \<and> m \<in> set (v_members v s) \<and> rm_room m = r_id r \<and> rm_user m = u}"
    and "db_users_of d i s = Inr ys \<Longrightarrow>
        set ys = {(u, m). u \<in> set (v_users v s) \<and> m \<in> set (v_members v s) \<and> rm_user m = u_id u \<and> rm_room m = i}"
proof -
  show "table_laws (v_users v) user_assigned user_conflict (db_users d)"
    "table_laws (v_rooms v) room_assigned room_conflict (db_rooms d)"
    "table_laws (v_members v) member_assigned member_conflict (db_members d)"
    "table_frame (v_rooms v) (db_members d)" "table_frame (v_members v) (db_rooms d)"
    "table_frame (v_users v) (db_members d)" "table_frame (v_users v) (db_rooms d)"
    "table_frame (v_rooms v) (db_users d)" "table_frame (v_members v) (db_users d)"
    using assms by (simp_all add: db_laws_def)
  have f: "fresh_room_ids d v" and j: "join_laws d v" using assms by (simp_all add: db_laws_def)
  show "t_create (db_rooms d) r s = (s', Inr r') \<Longrightarrow> \<forall>m \<in> set (v_members v s). rm_room m \<noteq> r_id r'"
    using f by (auto simp: fresh_room_ids_def)
  show "db_rooms_of d u s = Inr xs \<Longrightarrow>
        set xs = {(r, m). r \<in> set (v_rooms v s) \<and> m \<in> set (v_members v s) \<and> rm_room m = r_id r \<and> rm_user m = u}"
    using j by (simp add: join_laws_def)
  show "db_users_of d i s = Inr ys \<Longrightarrow>
        set ys = {(u, m). u \<in> set (v_users v s) \<and> m \<in> set (v_members v s) \<and> rm_user m = u_id u \<and> rm_room m = i}"
    using j by (simp add: join_laws_def)
qed

subsection \<open>User repository\<close>

definition create_user :: "'s db \<Rightarrow> user \<Rightarrow> 's \<Rightarrow> 's \<times> (db_error + user)" where
  "create_user d u s = t_create (db_users d) u s"

definition get_by_username :: "'s db \<Rightarrow> string \<Rightarrow> 's \<Rightarrow> db_error + user" where
  "get_by_username d name s = gorm_take (db_users d) (\<lambda>u. u_username u = name) s"

definition get_by_id :: "'s db \<Rightarrow> int \<Rightarrow> 's \<Rightarrow> db_error + user" where
  "get_by_id d i s = gorm_take (db_users d) (\<lambda>u. u_id u = i) s"

definition soft_delete_user :: "'s db \<Rightarrow> int \<Rightarrow> 's \<Rightarrow> 's \<times> (db_error + unit)" where
  "soft_delete_user d i s =
     (case t_delete (db_users d) (\<lambda>u. u_id u = i) s of (s', r) \<Rightarrow> (s', map_sum id (\<lambda>_. ()) r))"

subsection \<open>Room repository\<close>

definition search_rooms :: "'s db \<Rightarrow> string \<Rightarrow> int \<Rightarrow> int \<Rightarrow> 's \<Rightarrow> db_error + room list \<times> nat" where
  "search_rooms d keyword offset limit s =
     (let kw = trim_space keyword;
          p = (\<lambda>r. r_type r = 2 \<and> r_status r = 0 \<and> (kw \<noteq> [] \<longrightarrow> db_like d (''%'' @ kw @ ''%'') (r_name r)))
      in case t_count (db_rooms d) p s of
           Inl e \<Rightarrow> Inl e
         | Inr tot \<Rightarrow>
             (case t_find (db_rooms d)
                     \<lparr>q_where = p,
                      q_order = (\<lambda>a b. r_last_active b < r_last_active a \<or>
                                       (r_last_active a = r_last_active b \<and> r_id b \<le> r_id a)),
                      q_offset = nat offset, q_limit = (if 0 \<le> limit then Some (nat limit) else None)\<rparr> s of
                Inl e \<Rightarrow> Inl e
              | Inr rooms \<Rightarrow> Inr (rooms, tot)))"

definition create_room_with_creator :: "'s db \<Rightarrow> room \<Rightarrow> int \<Rightarrow> 's \<Rightarrow> 's \<times> (db_error + room)" where
  "create_room_with_creator d room creatorID s =
     transaction (db_commit d)
       (\<lambda>tx. case t_create (db_rooms d) room tx of
               (tx1, Inl e) \<Rightarrow> (tx1, Inl e)
             | (tx1, Inr room') \<Rightarrow>
                 (case t_create (db_members d)
                         \<lparr>rm_id = 0, rm_room = r_id room', rm_user = creatorID, rm_role = 2, rm_joined = 0\<rparr> tx1 of
                    (tx2, Inl e) \<Rightarrow> (tx2, Inl e)
                  | (tx2, Inr _) \<Rightarrow> (tx2, Inr room'))) s"

definition get_room_by_id :: "'s db \<Rightarrow> int \<Rightarrow> 's \<Rightarrow> db_error + room" where
  "get_room_by_id d i s = gorm_first (db_rooms d) r_id (\<lambda>r. r_id r = i) s"

definition soft_delete_room :: "'s db \<Rightarrow> int \<Rightarrow> 's \<Rightarrow> 's \<times> (db_error + unit)" where
  "soft_delete_room d i s =
     (case t_delete (db_rooms d) (\<lambda>r. r_id r = i) s of (s', r) \<Rightarrow> (s', map_sum id (\<lambda>_. ()) r))"

definition get_joined_rooms :: "'s db \<Rightarrow> int \<Rightarrow> 's \<Rightarrow> db_error + room list" where
  "get_joined_rooms d u s = map_sum id (map fst) (db_rooms_of d u s)"

record joined_room =
  jr_id :: int
  jr_name :: string
  jr_agent_enabled :: bool
  jr_creator :: int
  jr_created :: int
  jr_role :: int

definition get_joined_rooms_with_role :: "'s db \<Rightarrow> int \<Rightarrow> 's \<Rightarrow> db_error + joined_room list" where
  "get_joined_rooms_with_role d u s =
     map_sum id
       (map (\<lambda>(r, m). \<lparr>jr_id = r_id r, jr_name = r_name r, jr_agent_enabled = r_agent_enabled r,
                       jr_creator = r_creator r, jr_created = r_created r, jr_role = rm_role m\<rparr>))
       (db_rooms_of d u s)"

definition get_room_by_exact_name :: "'s db \<Rightarrow> string \<Rightarrow> 's \<Rightarrow> db_error + room" where
  "get_room_by_exact_name d name s = gorm_take (db_rooms d) (\<lambda>r. r_name r = name) s"

subsection \<open>Membership repository\<close>

definition add_member :: "'s db \<Rightarrow> int \<Rightarrow> int \<Rightarrow> int \<Rightarrow> 's \<Rightarrow> 's \<times> (db_error + unit)" where
  "add_member d roomID userID role s =
     t_create_ignore (db_members d)
       \<lparr>rm_id = 0, rm_room = roomID, rm_user = userID, rm_role = role, rm_joined = 0\<rparr> s"

definition remove_member :: "'s db \<Rightarrow> int \<Rightarrow> int \<Rightarrow> 's \<Rightarrow> 's \<times> (db_error + unit)" where
  "remove_member d roomID userID s =
     (case t_delete (db_members d) (\<lambda>m. rm_room m = roomID \<and> rm_user m = userID) s of
        (s', Inl e) \<Rightarrow> (s', Inl e)
      | (s', Inr n) \<Rightarrow> if n = 0 then (s', Inl RecordNotFound) else (s', Inr ()))"

definition get_user_room_ids :: "'s db \<Rightarrow> int \<Rightarrow> 's \<Rightarrow> db_error + int list" where
  "get_user_room_ids d userID s =
     map_sum id (map rm_room) (t_find (db_members d) (query_all (\<lambda>m. rm_user m = userID)) s)"

definition check_is_member :: "'s db \<Rightarrow> int \<Rightarrow> int \<Rightarrow> 's \<Rightarrow> db_error + bool" where
  "check_is_member d roomID userID s =
     map_sum id (\<lambda>n. 0 < n) (t_count (db_members d) (\<lambda>m. rm_room m = roomID \<and> rm_user m = userID) s)"

definition get_member_role :: "'s db \<Rightarrow> int \<Rightarrow> int \<Rightarrow> 's \<Rightarrow> db_error + int \<times> bool" where
  "get_member_role d roomID userID s =
     (case gorm_first (db_members d) rm_id (\<lambda>m. rm_room m = roomID \<and> rm_user m = userID) s of
        Inl e \<Rightarrow> if e = RecordNotFound then Inr (0, False) else Inl e
      | Inr m \<Rightarrow> Inr (rm_role m, True))"

definition get_room_members :: "'s db \<Rightarrow> int \<Rightarrow> 's \<Rightarrow> db_error + user list" where
  "get_room_members d roomID s =
     (case t_find (db_members d) (query_all (\<lambda>m. rm_room m = roomID)) s of
        Inl e \<Rightarrow> Inl e
      | Inr ms \<Rightarrow>
          if ms = [] then Inr []
          else t_find (db_users d) (query_all (\<lambda>u. u_id u \<in> rm_user ` set ms)) s)"

record member_with_role =
  mr_id :: int
  mr_username :: string
  mr_avatar :: string
  mr_role :: int

definition get_room_members_with_roles :: "'s db \<Rightarrow> int \<Rightarrow> 's \<Rightarrow> db_error + member_with_role list" where
  "get_room_members_with_roles d roomID s =
     map_sum id
       (map (\<lambda>(u, m). \<lparr>mr_id = u_id u, mr_username = u_username u, mr_avatar = u_avatar u, mr_role = rm_role m\<rparr>))
       (db_users_of d roomID s)"

subsection \<open>Facts about the repositories\<close>

definition is_member :: "'s views \<Rightarrow> 's \<Rightarrow> int \<Rightarrow> int \<Rightarrow> bool" where
  "is_member v s u r \<longleftrightarrow> (\<exists>m \<in> set (v_members v s). rm_user m = u \<and> rm_room m = r)"

definition room_live :: "'s views \<Rightarrow> 's \<Rightarrow> int \<Rightarrow> bool" where
  "room_live v s r \<longleftrightarrow> (\<exists>x \<in> set (v_rooms v s). r_id x = r)"

lemma user_room_ids_Inr:
  assumes laws: "db_laws d v" and ids: "get_user_room_ids d u s = Inr rs"
  shows "r \<in> set rs \<longleftrightarrow> is_member v s u r"
proof -
  obtain ms where ms: "t_find (db_members d) (query_all (\<lambda>m. rm_user m = u)) s = Inr ms" "rs = map rm_room ms"
    using ids by (cases "t_find (db_members d) (query_all (\<lambda>m. rm_user m = u)) s") (auto simp: get_user_room_ids_def)
  from table_lawsD(1) [OF db_lawsD(3) [OF laws] ms(1)]
  have "mset ms = mset (filter (\<lambda>m. rm_user m = u) (v_members v s))"
    by (auto simp: answers_def query_all_def page_def)
  then have "set ms = set (filter (\<lambda>m. rm_user m = u) (v_members v s))" by (metis set_mset_mset)
  then show ?thesis using ms(2) by (auto simp: is_member_def)
qed

lemma get_room_by_id_Inr:
  "db_laws d v \<Longrightarrow> get_room_by_id d i s = Inr r \<Longrightarrow> r \<in> set (v_rooms v s) \<and> r_id r = i"
  using gorm_first_Inr [OF db_lawsD(2)] by (fastforce simp: get_room_by_id_def)

lemma add_member_cases:
  assumes laws: "db_laws d v" and a: "add_member d r u role s = (s', res)"
  shows "v_rooms v s' = v_rooms v s"
    and "res = Inl e \<Longrightarrow> s' = s"
    and "res = Inr () \<Longrightarrow> is_member v s' w q \<longleftrightarrow> is_member v s w q \<or> (w = u \<and> q = r)"
proof -
  let ?m = "\<lparr>rm_id = 0, rm_room = r, rm_user = u, rm_role = role, rm_joined = 0\<rparr>"
  show "v_rooms v s' = v_rooms v s"
    using table_frameD(2) [OF db_lawsD(4) [OF laws]] a unfolding add_member_def by blast
  show "res = Inl e \<Longrightarrow> s' = s"
    using table_lawsD(5) [OF db_lawsD(3) [OF laws]] a unfolding add_member_def by blast
  assume "res = Inr ()"
  with a have "if member_conflict (v_members v s) ?m then v_members v s' = v_members v s
      else \<exists>m'. member_assigned ?m m' \<and> v_members v s' = v_members v s @ [m']"
    using table_lawsD(6) [OF db_lawsD(3) [OF laws]] unfolding add_member_def by blast
  then show "is_member v s' w q \<longleftrightarrow> is_member v s w q \<or> (w = u \<and> q = r)"
  proof (cases "member_conflict (v_members v s) ?m")
    case False
    with \<open>if _ then _ else _\<close> obtain m' where m': "member_assigned ?m m'" "v_members v s' = v_members v s @ [m']" by auto
    from m'(1) have "rm_room m' = r" "rm_user m' = u" by (auto dest: member_assignedD)
    with m'(2) show ?thesis by (auto simp: is_member_def)
  qed (auto simp: is_member_def member_conflict_def)
qed

lemma remove_member_cases:
  assumes laws: "db_laws d v" and a: "remove_member d r u s = (s', res)"
  shows "v_rooms v s' = v_rooms v s"
    and "res = Inr () \<Longrightarrow> is_member v s u r"
    and "res = Inr () \<Longrightarrow> is_member v s' w q \<longleftrightarrow> is_member v s w q \<and> \<not> (w = u \<and> q = r)"
    and "res = Inl e \<Longrightarrow> v_members v s' = v_members v s"
proof -
  let ?p = "\<lambda>m. rm_room m = r \<and> rm_user m = u"
  obtain x where t: "t_delete (db_members d) ?p s = (s', x)"
    using a by (auto simp: remove_member_def split: prod.splits sum.splits if_splits)
  show "v_rooms v s' = v_rooms v s"
    using table_frameD(4) [OF db_lawsD(4) [OF laws] t] .
  have ok: "x = Inr n \<Longrightarrow> v_members v s' = filter (\<lambda>m. \<not> ?p m) (v_members v s) \<and> n = length (filter ?p (v_members v s))" for n
    using table_lawsD(10) [OF db_lawsD(3) [OF laws]] t by blast
  show "res = Inr () \<Longrightarrow> is_member v s u r"
    using ok a t by (auto simp: remove_member_def is_member_def filter_empty_conv split: sum.splits if_splits)
  show "res = Inr () \<Longrightarrow> is_member v s' w q \<longleftrightarrow> is_member v s w q \<and> \<not> (w = u \<and> q = r)"
    using ok a t by (auto simp: remove_member_def is_member_def split: sum.splits if_splits)
  show "res = Inl e \<Longrightarrow> v_members v s' = v_members v s"
    using ok a t table_lawsD(9) [OF db_lawsD(3) [OF laws], of ?p s s']
    by (auto simp: remove_member_def filter_id_conv filter_empty_conv split: sum.splits if_splits)
qed

lemma get_member_role_cases:
  assumes laws: "db_laws d v"
  shows "get_member_role d r u s = Inr (role, True) \<Longrightarrow>
      \<exists>m \<in> set (v_members v s). rm_room m = r \<and> rm_user m = u \<and> rm_role m = role"
  using gorm_first_Inr [OF db_lawsD(3) [OF laws]]
  by (fastforce simp: get_member_role_def split: sum.splits if_splits)

lemma check_is_member_Inr:
  assumes laws: "db_laws d v" and "check_is_member d r u s = Inr b"
  shows "b \<longleftrightarrow> is_member v s u r"
proof -
  obtain n where n: "t_count (db_members d) (\<lambda>m. rm_room m = r \<and> rm_user m = u) s = Inr n" "b = (0 < n)"
    using assms(2) by (cases "t_count (db_members d) (\<lambda>m. rm_room m = r \<and> rm_user m = u) s")
      (auto simp: check_is_member_def)
  with table_lawsD(2) [OF db_lawsD(3) [OF laws] n(1)] show ?thesis
    by (auto simp: is_member_def filter_empty_conv)
qed

lemma soft_delete_room_cases:
  assumes laws: "db_laws d v" and a: "soft_delete_room d r s = (s', res)"
  shows "v_members v s' = v_members v s"
    and "res = Inr () \<Longrightarrow> room_live v s' q \<longleftrightarrow> room_live v s q \<and> q \<noteq> r"
    and "res = Inl e \<Longrightarrow> s' = s"
proof -
  obtain x where t: "t_delete (db_rooms d) (\<lambda>x. r_id x = r) s = (s', x)" "res = map_sum id (\<lambda>_. ()) x"
    using a by (auto simp: soft_delete_room_def split: prod.splits)
  show "v_members v s' = v_members v s"
    using table_frameD(4) [OF db_lawsD(5) [OF laws] t(1)] .
  show "res = Inr () \<Longrightarrow> room_live v s' q \<longleftrightarrow> room_live v s q \<and> q \<noteq> r"
    using table_lawsD(10) [OF db_lawsD(2) [OF laws], of "\<lambda>x. r_id x = r" s s'] t
    by (cases x) (auto simp: room_live_def)
  show "res = Inl e \<Longrightarrow> s' = s"
    using table_lawsD(9) [OF db_lawsD(2) [OF laws], of "\<lambda>x. r_id x = r" s s'] t by (cases x) auto
qed

lemma create_room_cases:
  assumes laws: "db_laws d v" and a: "create_room_with_creator d room u s = (s', res)"
  shows "res = Inl e \<Longrightarrow> s' = s"
    and "res = Inr r \<Longrightarrow> \<not> room_live v s (r_id r) \<and> (\<forall>w. \<not> is_member v s w (r_id r)) \<and>
      (\<forall>q. room_live v s' q \<longleftrightarrow> room_live v s q \<or> q = r_id r) \<and>
      (\<forall>w q. is_member v s' w q \<longleftrightarrow> is_member v s w q \<or> (w = u \<and> q = r_id r)) \<and>
      r \<in> set (v_rooms v s') \<and> r_name r = r_name room \<and> r_creator r = r_creator room"
proof -
  show "res = Inl e \<Longrightarrow> s' = s"
    using a unfolding create_room_with_creator_def by (simp add: transaction_cases(1))
  assume "res = Inr r"
  note f = transaction_cases(2) [OF a [unfolded create_room_with_creator_def this]]
  let ?m = "\<lparr>rm_id = 0, rm_room = r_id r, rm_user = u, rm_role = 2, rm_joined = 0\<rparr>"
  from f obtain s1 m' where c: "t_create (db_rooms d) room s = (s1, Inr r)"
    "t_create (db_members d) ?m s1 = (s', Inr m')"
    by (auto split: prod.splits sum.splits)
  note rl = table_lawsD(4) [OF db_lawsD(2) [OF laws] c(1)]
  note ml = table_lawsD(4) [OF db_lawsD(3) [OF laws] c(2)]
  have fr: "v_rooms v s' = v_rooms v s1" "v_members v s1 = v_members v s"
    using table_frameD(1) [OF db_lawsD(4) [OF laws] c(2)] table_frameD(1) [OF db_lawsD(5) [OF laws] c(1)]
    by blast+
  have rooms: "v_rooms v s' = v_rooms v s @ [r]" using rl fr(1) by metis
  have members: "v_members v s' = v_members v s @ [m']" using ml fr(2) by metis
  have m': "rm_room m' = r_id r" "rm_user m' = u"
    using ml by (auto dest: member_assignedD)
  have r: "r_name r = r_name room" "r_creator r = r_creator room"
    using rl by (auto dest: room_assignedD)
  show "\<not> room_live v s (r_id r) \<and> (\<forall>w. \<not> is_member v s w (r_id r)) \<and>
      (\<forall>q. room_live v s' q \<longleftrightarrow> room_live v s q \<or> q = r_id r) \<and>
      (\<forall>w q. is_member v s' w q \<longleftrightarrow> is_member v s w q \<or> (w = u \<and> q = r_id r)) \<and>
      r \<in> set (v_rooms v s') \<and> r_name r = r_name room \<and> r_creator r = r_creator room"
  proof (intro conjI)
    have new: "\<forall>x \<in> set (v_rooms v s). r_id x \<noteq> r_id r" using rl unfolding room_conflict_def by blast
    then show "\<not> room_live v s (r_id r)" by (auto simp: room_live_def)
    show "\<forall>w. \<not> is_member v s w (r_id r)" using db_lawsD(10) [OF laws c(1)] by (auto simp: is_member_def)
    show "\<forall>q. room_live v s' q \<longleftrightarrow> room_live v s q \<or> q = r_id r" by (auto simp: room_live_def rooms)
    show "\<forall>w q. is_member v s' w q \<longleftrightarrow> is_member v s w q \<or> (w = u \<and> q = r_id r)"
      using m' by (auto simp: is_member_def members)
    show "r \<in> set (v_rooms v s')" by (simp add: rooms)
  qed (use r in simp_all)
qed

end
