(* ===== verification/RoomService.thy ===== *)
theory RoomService
  imports RoomRepo RoomRuntime
begin

section \<open>The room service (services/rooms/application/service.go)\<close>

text \<open>
  The service works on the database state and the state of the runtime behind \<open>RuntimeNotifier\<close>. The
  operations are definitions over any notifier (\<open>None\<close> is a nil one); what they do to the live layer
  is proved once, in the locale \<open>room_runtime\<close>, and used through its interpretation on the hub.
\<close>

datatype room_error =
    ErrRoomNotFound
  | ErrNotRoomMember
  | ErrTargetNotMember
  | ErrPermissionDenied
  | ErrCannotRemoveOwner
  | ErrInvalidRoomName
  | RoomDb db_error

record 'h notifier =
  n_join :: "int \<Rightarrow> int \<Rightarrow> 'h \<Rightarrow> 'h"
  n_leave :: "int \<Rightarrow> int \<Rightarrow> 'h \<Rightarrow> 'h"
  n_disband :: "int \<Rightarrow> 'h \<Rightarrow> 'h"

definition svc_create_room ::
    "'s db \<Rightarrow> 'h notifier option \<Rightarrow> int \<Rightarrow> string \<Rightarrow> int \<Rightarrow> 's \<times> 'h \<Rightarrow> ('s \<times> 'h) \<times> (room_error + room)" where
  "svc_create_room d rt now name0 creatorID st =
     (let name = trim_space name0
      in if name = [] then (st, Inl ErrInvalidRoomName)
         else
           (let room = \<lparr>r_id = 0, r_type = 2, r_name = name, r_creator = creatorID, r_agent_enabled = False,
                        r_moderation_enabled = False, r_status = 0, r_last_active = now, r_bot_user = 0,
                        r_created = 0\<rparr>
            in case create_room_with_creator d room creatorID (fst st) of
                 (s1, Inl e) \<Rightarrow> ((s1, snd st), Inl (RoomDb e))
               | (s1, Inr room') \<Rightarrow>
                   ((s1, case rt of None \<Rightarrow> snd st | Some n \<Rightarrow> n_join n creatorID (r_id room') (snd st)), Inr room')))"

definition svc_join_room ::
    "'s db \<Rightarrow> 'h notifier option \<Rightarrow> int \<Rightarrow> int \<Rightarrow> 's \<times> 'h \<Rightarrow> ('s \<times> 'h) \<times> (room_error + unit)" where
  "svc_join_room d rt roomID userID st =
     (case get_room_by_id d roomID (fst st) of
        Inl e \<Rightarrow> (st, Inl (if e = RecordNotFound then ErrRoomNotFound else RoomDb e))
      | Inr _ \<Rightarrow>
          (case add_member d roomID userID 1 (fst st) of
             (s1, Inl e) \<Rightarrow> ((s1, snd st), Inl (RoomDb e))
           | (s1, Inr _) \<Rightarrow>
               ((s1, case rt of None \<Rightarrow> snd st | Some n \<Rightarrow> n_join n userID roomID (snd st)), Inr ())))"

text \<open>Who may remove: the test before the role of the operator is looked up, and that look-up.\<close>

definition can_remove :: "'s db \<Rightarrow> room \<Rightarrow> int \<Rightarrow> int \<Rightarrow> int \<Rightarrow> int \<Rightarrow> 's \<Rightarrow> db_error + bool" where
  "can_remove d room roomID operatorID targetUserID globalRole s =
     (if globalRole = 1 \<or> operatorID = targetUserID \<or> r_creator room = operatorID then Inr True
      else (case get_member_role d roomID operatorID s of
              Inl e \<Rightarrow> Inl e
            | Inr (role, ok) \<Rightarrow> Inr (ok \<and> 2 \<le> role)))"

definition svc_remove_member ::
    "'s db \<Rightarrow> 'h notifier option \<Rightarrow> int \<Rightarrow> int \<Rightarrow> int \<Rightarrow> int \<Rightarrow> 's \<times> 'h \<Rightarrow> ('s \<times> 'h) \<times> (room_error + unit)" where
  "svc_remove_member d rt roomID operatorID targetUserID globalRole st =
     (case get_room_by_id d roomID (fst st) of
        Inl e \<Rightarrow> (st, Inl (if e = RecordNotFound then ErrRoomNotFound else RoomDb e))
      | Inr room \<Rightarrow>
          (case can_remove d room roomID operatorID targetUserID globalRole (fst st) of
             Inl e \<Rightarrow> (st, Inl (RoomDb e))
           | Inr allowed \<Rightarrow>
               if \<not> allowed then (st, Inl ErrPermissionDenied)
               else if targetUserID = r_creator room \<and> operatorID \<noteq> targetUserID \<and> globalRole \<noteq> 1
               then (st, Inl ErrCannotRemoveOwner)
               else (case remove_member d roomID targetUserID (fst st) of
                       (s1, Inl e) \<Rightarrow> ((s1, snd st), Inl (if e = RecordNotFound then ErrTargetNotMember else RoomDb e))
                     | (s1, Inr _) \<Rightarrow>
                         ((s1, case rt of None \<Rightarrow> snd st | Some n \<Rightarrow> n_leave n targetUserID roomID (snd st)),
                          Inr ()))))"

definition svc_room_members ::
    "'s db \<Rightarrow> int \<Rightarrow> int \<Rightarrow> 's \<Rightarrow> room_error + member_with_role list \<times> int" where
  "svc_room_members d roomID requesterID s =
     (case check_is_member d roomID requesterID s of
        Inl e \<Rightarrow> Inl (RoomDb e)
      | Inr ok \<Rightarrow>
          if \<not> ok then Inl ErrNotRoomMember
          else (case get_room_by_id d roomID s of
                  Inl e \<Rightarrow> Inl (RoomDb e)
                | Inr room \<Rightarrow>
                    (case get_room_members_with_roles d roomID s of
                       Inl e \<Rightarrow> Inl (RoomDb e)
                     | Inr ms \<Rightarrow> Inr (ms, r_creator room))))"

definition svc_joined_rooms :: "'s db \<Rightarrow> int \<Rightarrow> 's \<Rightarrow> room_error + joined_room list" where
  "svc_joined_rooms d userID s = map_sum RoomDb id (get_joined_rooms_with_role d userID s)"

definition clamp_page :: "int \<Rightarrow> int \<Rightarrow> int \<times> int" where
  "clamp_page offset limit =
     (let offset = (if offset < 0 then 0 else offset);
          limit = (if limit < 1 then 20 else limit);
          limit = (if 100 < limit then 100 else limit)
      in (offset, limit))"

definition svc_search_rooms :: "'s db \<Rightarrow> string \<Rightarrow> int \<Rightarrow> int \<Rightarrow> 's \<Rightarrow> room_error + room list \<times> nat" where
  "svc_search_rooms d keyword offset limit s =
     (case clamp_page offset limit of
        (off, lim) \<Rightarrow> map_sum RoomDb id (search_rooms d keyword off lim s))"

definition svc_disband_room ::
    "'s db \<Rightarrow> 'h notifier option \<Rightarrow> int \<Rightarrow> int \<Rightarrow> 's \<times> 'h \<Rightarrow> ('s \<times> 'h) \<times> (room_error + unit)" where
  "svc_disband_room d rt roomID operatorID st =
     (case get_room_by_id d roomID (fst st) of
        Inl e \<Rightarrow> (st, Inl (if e = RecordNotFound then ErrRoomNotFound else RoomDb e))
      | Inr room \<Rightarrow>
          (case get_member_role d roomID operatorID (fst st) of
             Inl e \<Rightarrow> (st, Inl (RoomDb e))
           | Inr (role, ok) \<Rightarrow>
               if \<not> ok then (st, Inl ErrNotRoomMember)
               else if r_creator room \<noteq> operatorID \<and> role \<noteq> 3 then (st, Inl ErrPermissionDenied)
               else (case soft_delete_room d roomID (fst st) of
                       (s1, Inl e) \<Rightarrow> ((s1, snd st), Inl (RoomDb e))
                     | (s1, Inr _) \<Rightarrow>
                         ((s1, case rt of None \<Rightarrow> snd st | Some n \<Rightarrow> n_disband n roomID (snd st)), Inr ()))))"

subsection \<open>Requests\<close>

datatype room_request =
    CreateRoom string int
  | JoinRoomReq int int
  | RemoveMember int int int int
  | DisbandRoomReq int int

definition svc_run ::
    "'s db \<Rightarrow> 'h notifier option \<Rightarrow> int \<Rightarrow> room_request \<Rightarrow> 's \<times> 'h \<Rightarrow> ('s \<times> 'h) \<times> (room_error + unit)" where
  "svc_run d rt now req st =
     (case req of
        CreateRoom name u \<Rightarrow> (case svc_create_room d rt now name u st of (st', r) \<Rightarrow> (st', map_sum id (\<lambda>_. ()) r))
      | JoinRoomReq r u \<Rightarrow> svc_join_room d rt r u st
      | RemoveMember r op tgt role \<Rightarrow> svc_remove_member d rt r op tgt role st
      | DisbandRoomReq r op \<Rightarrow> svc_disband_room d rt r op st)"

text \<open>The memberships that count: of rooms that still exist.\<close>

definition live_memberships :: "'s views \<Rightarrow> 's \<Rightarrow> (int \<times> int) set" where
  "live_memberships v s = {(u, r). is_member v s u r \<and> room_live v s r}"

definition member_role :: "'s views \<Rightarrow> 's \<Rightarrow> int \<Rightarrow> int \<Rightarrow> int \<Rightarrow> bool" where
  "member_role v s u r role \<longleftrightarrow>
     (\<exists>m \<in> set (v_members v s). rm_user m = u \<and> rm_room m = r \<and> rm_role m = role)"

subsection \<open>The effect of each operation\<close>

lemma create_effect:
  assumes laws: "db_laws d v" and run: "svc_create_room d rt now name u (s, h) = ((s', h'), res)"
  obtains (refused) e where "res = Inl e" "s' = s" "h' = h"
    | (created) room where "res = Inr room" "live_memberships v s' = insert (u, r_id room) (live_memberships v s)"
        "h' = (case rt of None \<Rightarrow> h | Some n \<Rightarrow> n_join n u (r_id room) h)"
proof (cases "trim_space name = []")
  case True
  with run show ?thesis by (intro refused) (auto simp: svc_create_room_def)
next
  case False
  let ?room = "\<lparr>r_id = 0, r_type = 2, r_name = trim_space name, r_creator = u, r_agent_enabled = False,
                r_moderation_enabled = False, r_status = 0, r_last_active = now, r_bot_user = 0, r_created = 0\<rparr>"
  obtain s1 x where c: "create_room_with_creator d ?room u s = (s1, x)" by fastforce
  show ?thesis
  proof (cases x)
    case (Inl e)
    with c create_room_cases(1) [OF laws c Inl] run False show ?thesis
      by (intro refused) (auto simp: svc_create_room_def Let_def)
  next
    case (Inr r)
    have s': "s' = s1" "h' = (case rt of None \<Rightarrow> h | Some n \<Rightarrow> n_join n u (r_id r) h)" "res = Inr r"
      using run c Inr False by (auto simp: svc_create_room_def Let_def split: option.splits)
    have "live_memberships v s' = insert (u, r_id r) (live_memberships v s)"
      using create_room_cases(2) [OF laws c Inr] unfolding s' live_memberships_def by auto
    with s' show ?thesis by (intro created)
  qed
qed

lemma join_effect:
  assumes laws: "db_laws d v" and run: "svc_join_room d rt r u (s, h) = ((s', h'), res)"
  obtains (refused) e where "res = Inl e" "s' = s" "h' = h"
    | (joined) "res = Inr ()" "live_memberships v s' = insert (u, r) (live_memberships v s)"
        "h' = (case rt of None \<Rightarrow> h | Some n \<Rightarrow> n_join n u r h)"
proof (cases "get_room_by_id d r s")
  case (Inl e)
  with run show ?thesis by (intro refused) (auto simp: svc_join_room_def)
next
  case (Inr room)
  then have live: "room_live v s r" using get_room_by_id_Inr [OF laws Inr] by (auto simp: room_live_def)
  obtain s1 x where c: "add_member d r u 1 s = (s1, x)" by fastforce
  note am = add_member_cases [OF laws c]
  show ?thesis
  proof (cases x)
    case (Inl e)
    with c am(2) [OF Inl] run Inr show ?thesis by (intro refused) (auto simp: svc_join_room_def)
  next
    case ok: (Inr y)
    then have s': "s' = s1" "h' = (case rt of None \<Rightarrow> h | Some n \<Rightarrow> n_join n u r h)" "res = Inr ()"
      using run c Inr by (auto simp: svc_join_room_def split: option.splits)
    have "live_memberships v s1 = insert (u, r) (live_memberships v s)"
      using am(1) am(3) ok live by (auto simp: live_memberships_def room_live_def)
    with s' show ?thesis by (intro joined) simp_all
  qed
qed

text \<open>Who may remove whom: the operator of a successful removal is entitled to it.\<close>

lemma can_remove_True:
  assumes laws: "db_laws d v" and can: "can_remove d room r op tgt role s = Inr True"
  shows "role = 1 \<or> op = tgt \<or> r_creator room = op \<or> (\<exists>k \<ge> 2. member_role v s op r k)"
proof (cases "role = 1 \<or> op = tgt \<or> r_creator room = op")
  case False
  with can obtain k where k: "get_member_role d r op s = Inr (k, True)" "2 \<le> k"
    by (auto simp: can_remove_def split: sum.splits prod.splits)
  from get_member_role_cases [OF laws k(1)] k(2) show ?thesis by (auto simp: member_role_def)
qed auto

lemma remove_effect:
  assumes laws: "db_laws d v" and run: "svc_remove_member d rt r op tgt role (s, h) = ((s', h'), res)"
  obtains (refused) e where "res = Inl e" "v_members v s' = v_members v s" "v_rooms v s' = v_rooms v s" "h' = h"
    | (removed) room where "res = Inr ()" "room \<in> set (v_rooms v s)" "r_id room = r"
        "role = 1 \<or> op = tgt \<or> r_creator room = op \<or> (\<exists>k \<ge> 2. member_role v s op r k)"
        "tgt = r_creator room \<Longrightarrow> op = tgt \<or> role = 1"
        "is_member v s tgt r" "v_rooms v s' = v_rooms v s"
        "\<And>w q. is_member v s' w q \<longleftrightarrow> is_member v s w q \<and> \<not> (w = tgt \<and> q = r)"
        "h' = (case rt of None \<Rightarrow> h | Some n \<Rightarrow> n_leave n tgt r h)"
proof (cases res)
  case (Inl e)
  with run consider "s' = s" "h' = h" | x where "remove_member d r tgt s = (s', Inl x)" "h' = h"
    by (auto simp: svc_remove_member_def split: sum.splits prod.splits if_splits)
  then show ?thesis
  proof cases
    case 1
    with Inl show ?thesis by (intro refused) auto
  next
    case 2
    with Inl remove_member_cases(1,4) [OF laws 2(1)] show ?thesis by (intro refused) auto
  qed
next
  case (Inr y)
  from run Inr obtain room where room: "get_room_by_id d r s = Inr room"
    by (cases "get_room_by_id d r s") (auto simp: svc_remove_member_def)
  from run Inr room obtain b where b: "can_remove d room r op tgt role s = Inr b"
    by (cases "can_remove d room r op tgt role s") (auto simp: svc_remove_member_def)
  from run Inr room b have b': "b" "tgt = r_creator room \<Longrightarrow> op = tgt \<or> role = 1"
    by (auto simp: svc_remove_member_def split: if_splits)
  from run Inr room b b' have rm: "remove_member d r tgt s = (s', Inr ())"
      "h' = (case rt of None \<Rightarrow> h | Some n \<Rightarrow> n_leave n tgt r h)"
    by (auto simp: svc_remove_member_def split: prod.splits sum.splits if_splits option.splits)
  note c = remove_member_cases [OF laws rm(1)]
  show ?thesis
  proof (rule removed [of room])
    show "role = 1 \<or> op = tgt \<or> r_creator room = op \<or> (\<exists>k \<ge> 2. member_role v s op r k)"
      using can_remove_True [OF laws] b b'(1) by simp
  qed (use Inr get_room_by_id_Inr [OF laws room] b'(2) c(1) c(2,3) [OF refl] rm(2) in auto)
qed

lemma remove_live:
  assumes "v_rooms v s' = v_rooms v s"
    and "\<And>w q. is_member v s' w q \<longleftrightarrow> is_member v s w q \<and> \<not> (w = tgt \<and> q = r)"
  shows "live_memberships v s' = live_memberships v s - {(tgt, r)}"
  using assms by (auto simp: live_memberships_def room_live_def)

lemma same_live:
  "v_rooms v s' = v_rooms v s \<Longrightarrow> v_members v s' = v_members v s \<Longrightarrow> live_memberships v s' = live_memberships v s"
  by (simp add: live_memberships_def room_live_def is_member_def)

lemma disband_effect:
  assumes laws: "db_laws d v" and run: "svc_disband_room d rt r op (s, h) = ((s', h'), res)"
  obtains (refused) e where "res = Inl e" "s' = s" "h' = h"
    | (disbanded) room where "res = Inr ()" "room \<in> set (v_rooms v s)" "r_id room = r"
        "is_member v s op r" "r_creator room = op \<or> member_role v s op r 3"
        "v_members v s' = v_members v s" "\<And>q. room_live v s' q \<longleftrightarrow> room_live v s q \<and> q \<noteq> r"
        "h' = (case rt of None \<Rightarrow> h | Some n \<Rightarrow> n_disband n r h)"
proof (cases res)
  case (Inl e)
  with run consider "s' = s" "h' = h" | x where "soft_delete_room d r s = (s', Inl x)" "h' = h"
    by (auto simp: svc_disband_room_def split: sum.splits prod.splits if_splits)
  then show ?thesis
  proof cases
    case 1
    with Inl show ?thesis by (intro refused)
  next
    case 2
    with Inl soft_delete_room_cases(3) [OF laws 2(1)] show ?thesis by (intro refused) auto
  qed
next
  case (Inr y)
  from run Inr obtain room where room: "get_room_by_id d r s = Inr room"
    by (cases "get_room_by_id d r s") (auto simp: svc_disband_room_def)
  from run Inr room obtain k where k: "get_member_role d r op s = Inr (k, True)" "r_creator room = op \<or> k = 3"
    by (auto simp: svc_disband_room_def split: sum.splits prod.splits if_splits)
  from run Inr room k have del: "soft_delete_room d r s = (s', Inr ())"
      "h' = (case rt of None \<Rightarrow> h | Some n \<Rightarrow> n_disband n r h)"
    by (auto simp: svc_disband_room_def split: sum.splits prod.splits if_splits option.splits)
  note c = soft_delete_room_cases [OF laws del(1)]
  obtain m where m: "m \<in> set (v_members v s)" "rm_room m = r" "rm_user m = op" "rm_role m = k"
    using get_member_role_cases [OF laws k(1)] by blast
  show ?thesis
  proof (rule disbanded [of room])
    show "is_member v s op r" using m by (auto simp: is_member_def)
    show "r_creator room = op \<or> member_role v s op r 3" using m k(2) by (auto simp: member_role_def)
  qed (use Inr get_room_by_id_Inr [OF laws room] c(1) c(2) [OF refl] del(2) in auto)
qed

subsection \<open>The service keeps the live layer in step with the database\<close>

context room_runtime begin

lemma create_sync:
  assumes laws: "db_laws d v" and all: "\<And>x. valid x"
    and sync: "in_sync (live_memberships v s) h"
    and run: "svc_create_room d (Some \<lparr>n_join = join, n_leave = leave, n_disband = disband\<rparr>) now name u (s, h) = ((s', h'), res)"
  shows "in_sync (live_memberships v s') h'"
  using sync in_sync_join [OF sync all all]
  by (cases rule: create_effect [OF laws run]) simp_all

lemma join_sync:
  assumes laws: "db_laws d v" and all: "\<And>x. valid x"
    and sync: "in_sync (live_memberships v s) h"
    and run: "svc_join_room d (Some \<lparr>n_join = join, n_leave = leave, n_disband = disband\<rparr>) r u (s, h) = ((s', h'), res)"
  shows "in_sync (live_memberships v s') h'"
  using sync in_sync_join [OF sync all all]
  by (cases rule: join_effect [OF laws run]) simp_all

lemma remove_sync:
  assumes laws: "db_laws d v" and all: "\<And>x. valid x"
    and sync: "in_sync (live_memberships v s) h"
    and run: "svc_remove_member d (Some \<lparr>n_join = join, n_leave = leave, n_disband = disband\<rparr>) r op tgt role (s, h) = ((s', h'), res)"
  shows "in_sync (live_memberships v s') h'"
  using laws run
proof (cases rule: remove_effect)
  case refused
  with sync same_live [OF refused(3,2)] show ?thesis by simp
next
  case removed
  with in_sync_leave [OF sync all all] remove_live [OF removed(7,8)] show ?thesis by simp
qed

lemma disband_sync:
  assumes laws: "db_laws d v" and all: "\<And>x. valid x"
    and sync: "in_sync (live_memberships v s) h"
    and run: "svc_disband_room d (Some \<lparr>n_join = join, n_leave = leave, n_disband = disband\<rparr>) r op (s, h) = ((s', h'), res)"
  shows "in_sync (live_memberships v s') h'"
  using laws run
proof (cases rule: disband_effect)
  case refused
  with sync show ?thesis by simp
next
  case disbanded
  then have "live_memberships v s' = {(u, q) \<in> live_memberships v s. q \<noteq> r}"
    by (auto simp: live_memberships_def is_member_def)
  with in_sync_disband [OF sync all] disbanded show ?thesis by simp
qed

lemma run_sync:
  assumes laws: "db_laws d v" and all: "\<And>x. valid x"
    and sync: "in_sync (live_memberships v s) h"
    and run: "svc_run d (Some \<lparr>n_join = join, n_leave = leave, n_disband = disband\<rparr>) now req (s, h) = ((s', h'), res)"
  shows "in_sync (live_memberships v s') h'"
proof (cases req)
  case (CreateRoom name u)
  with run obtain r where "svc_create_room d (Some \<lparr>n_join = join, n_leave = leave, n_disband = disband\<rparr>) now name u (s, h) = ((s', h'), r)"
    by (auto simp: svc_run_def split: prod.splits)
  then show ?thesis by (rule create_sync [OF laws all sync])
next
  case (JoinRoomReq r u)
  with run show ?thesis by (intro join_sync [OF laws all sync]) (simp add: svc_run_def)
next
  case (RemoveMember r op tgt role)
  with run show ?thesis by (intro remove_sync [OF laws all sync]) (simp add: svc_run_def)
next
  case (DisbandRoomReq r op)
  with run show ?thesis by (intro disband_sync [OF laws all sync]) (simp add: svc_run_def)
qed

end

definition hub_notifier :: "hub notifier" where
  "hub_notifier = \<lparr>n_join = join_room, n_leave = leave_room, n_disband = disband_room\<rparr>"

definition hub_in_sync :: "(int \<times> int) set \<Rightarrow> hub \<Rightarrow> bool" where
  "hub_in_sync D h \<longleftrightarrow> hub_inv h \<and> (\<forall>u r. hub_online h u \<longrightarrow> (hub_joined h u r \<longleftrightarrow> (u, r) \<in> D))"

lemma hub_in_sync_iff: "hub_in_sync D h \<longleftrightarrow> hub_runtime.in_sync D h"
  by (simp add: hub_in_sync_def hub_runtime.in_sync_def)

end
