(* ===== verification/MessageRepo.thy ===== *)
theory MessageRepo
  imports Gorm Message "HOL-Library.Product_Lexorder"
begin

section \<open>The message store in MySQL (services/messages/api/mysql_repository.go)\<close>

text \<open>
  The repository over a table of messages. The pair of creation time and id, compared
  lexicographically, is the order of the history (\<open>ORDER BY created_at, id\<close>).
\<close>

text \<open>
  A zero type becomes the column's default 1. The column of the creation time is a datetime with
  milliseconds: MySQL stores a time of whole milliseconds less than a millisecond away from the one it is
  given, and a zero creation time becomes the time of the insert. Times are in nanoseconds.
\<close>

definition stored_message :: "message \<Rightarrow> message" where
  "stored_message m = m\<lparr>m_type := (if m_type m = 0 then 1 else m_type m)\<rparr>"

definition message_assigned :: "message \<Rightarrow> message \<Rightarrow> bool" where
  "message_assigned m m' \<longleftrightarrow> m' = (stored_message m)\<lparr>m_created := m_created m'\<rparr> \<and>
     m_created m' mod 1000000 = 0 \<and>
     (m_created m \<noteq> zero_time \<longrightarrow> \<bar>m_created m' - m_created m\<bar> < 1000000)"

definition message_conflict :: "message list \<Rightarrow> message \<Rightarrow> bool" where
  "message_conflict ms m \<longleftrightarrow> (\<exists>x \<in> set ms. m_id x = m_id m \<or> m_client_id x = m_client_id m)"

definition message_laws :: "('s \<Rightarrow> message list) \<Rightarrow> ('s, message) table \<Rightarrow> bool" where
  "message_laws rows t \<longleftrightarrow> table_laws rows message_assigned message_conflict t"

definition save_message :: "('s, message) table \<Rightarrow> message \<Rightarrow> 's \<Rightarrow> 's \<times> (db_error + unit)" where
  "save_message t m s = (case t_create t m s of (s', r) \<Rightarrow> (s', map_sum id (\<lambda>_. ()) r))"

text \<open>
  \<open>CreateInBatches\<close>: the rows in order, in one transaction; the first error ends it and rolls back.
\<close>

fun create_all :: "('s, 'r) table \<Rightarrow> 'r list \<Rightarrow> 's \<Rightarrow> 's \<times> (db_error + unit)" where
  "create_all t [] s = (s, Inr ())"
| "create_all t (m # ms) s =
     (case t_create t m s of
        (s', Inl e) \<Rightarrow> (s', Inl e)
      | (s', Inr _) \<Rightarrow> create_all t ms s')"

definition save_message_batch ::
    "('s, message) table \<Rightarrow> ('s \<Rightarrow> db_error option) \<Rightarrow> message list \<Rightarrow> 's \<Rightarrow> 's \<times> (db_error + unit)" where
  "save_message_batch t commit ms s =
     (if ms = [] then (s, Inr ()) else transaction commit (create_all t ms) s)"

definition hist_key :: "message \<Rightarrow> int \<times> int" where
  "hist_key m = (m_created m, m_id m)"

definition limit_opt :: "int \<Rightarrow> nat option" where
  "limit_opt n = (if 0 \<le> n then Some (nat n) else None)"

definition before_cursor :: "('s, message) table \<Rightarrow> int \<Rightarrow> 's \<Rightarrow> message \<Rightarrow> bool" where
  "before_cursor t cursor s =
     (if 0 < cursor then
        (case gorm_first t m_id (\<lambda>m. m_id m = cursor) s of
           Inr c \<Rightarrow> (\<lambda>m. m_created m < m_created c \<or> (m_created m = m_created c \<and> m_id m < cursor))
         | Inl _ \<Rightarrow> (\<lambda>m. m_id m < cursor))
      else (\<lambda>_. True))"

definition get_history_by_cursor ::
    "('s, message) table \<Rightarrow> int \<Rightarrow> int \<Rightarrow> int \<Rightarrow> 's \<Rightarrow> db_error + message list" where
  "get_history_by_cursor t roomID cursor limit s =
     map_sum id rev
       (t_find t
          \<lparr>q_where = (\<lambda>m. m_room m = roomID \<and> before_cursor t cursor s m),
           q_order = (\<lambda>a b. hist_key b \<le> hist_key a), q_offset = 0, q_limit = limit_opt limit\<rparr> s)"

definition get_messages_by_time_range ::
    "('s, message) table \<Rightarrow> int \<Rightarrow> int \<Rightarrow> int \<Rightarrow> int \<Rightarrow> 's \<Rightarrow> db_error + message list" where
  "get_messages_by_time_range t roomID start end limit s =
     t_find t \<lparr>q_where = (\<lambda>m. m_room m = roomID \<and> start \<le> m_created m \<and> m_created m < end),
               q_order = (\<lambda>a b. hist_key a \<le> hist_key b), q_offset = 0, q_limit = limit_opt limit\<rparr> s"

definition after_id :: "int \<Rightarrow> int \<Rightarrow> message \<Rightarrow> bool" where
  "after_id roomID sinceID m \<longleftrightarrow> m_room m = roomID \<and> (0 < sinceID \<longrightarrow> sinceID < m_id m)"

definition get_messages_after_id ::
    "('s, message) table \<Rightarrow> int \<Rightarrow> int \<Rightarrow> int \<Rightarrow> 's \<Rightarrow> db_error + message list" where
  "get_messages_after_id t roomID sinceID limit s =
     t_find t \<lparr>q_where = after_id roomID sinceID, q_order = (\<lambda>a b. m_id a \<le> m_id b),
               q_offset = 0, q_limit = limit_opt limit\<rparr> s"

definition count_messages_after_id :: "('s, message) table \<Rightarrow> int \<Rightarrow> int \<Rightarrow> 's \<Rightarrow> db_error + nat" where
  "count_messages_after_id t roomID sinceID s = t_count t (after_id roomID sinceID) s"

record search_params =
  sp_room :: int
  sp_keyword :: string
  sp_sender :: int
  sp_start :: int
  sp_end :: int
  sp_offset :: int
  sp_limit :: int

text \<open>\<open>LOCATE\<close>: the keyword occurs in the content, compared as the column's collation does.\<close>

definition search_where :: "(string \<Rightarrow> string \<Rightarrow> bool) \<Rightarrow> search_params \<Rightarrow> message \<Rightarrow> bool" where
  "search_where locate p m \<longleftrightarrow>
     m_room m = sp_room p \<and>
     (sp_keyword p \<noteq> [] \<longrightarrow> locate (sp_keyword p) (m_content m)) \<and>
     (0 < sp_sender p \<longrightarrow> m_sender m = sp_sender p) \<and>
     (sp_start p \<noteq> zero_time \<longrightarrow> sp_start p \<le> m_created m) \<and>
     (sp_end p \<noteq> zero_time \<longrightarrow> m_created m < sp_end p)"

definition search_messages ::
    "(string \<Rightarrow> string \<Rightarrow> bool) \<Rightarrow> ('s, message) table \<Rightarrow> search_params \<Rightarrow> 's \<Rightarrow> db_error + message list \<times> nat" where
  "search_messages locate t p s =
     (case t_count t (search_where locate p) s of
        Inl e \<Rightarrow> Inl e
      | Inr n \<Rightarrow>
          (let limit = (if sp_limit p \<le> 0 \<or> 100 < sp_limit p then 20 else sp_limit p);
               offset = (if sp_offset p < 0 then 0 else sp_offset p)
           in case t_find t \<lparr>q_where = search_where locate p, q_order = (\<lambda>a b. hist_key b \<le> hist_key a),
                              q_offset = nat offset, q_limit = Some (nat limit)\<rparr> s of
                Inl e \<Rightarrow> Inl e
              | Inr ms \<Rightarrow> Inr (ms, n)))"

definition soft_delete_user_messages :: "('s, message) table \<Rightarrow> int \<Rightarrow> int \<Rightarrow> 's \<Rightarrow> 's \<times> (db_error + unit)" where
  "soft_delete_user_messages t roomID userID s =
     (case t_delete t (\<lambda>m. m_room m = roomID \<and> m_sender m = userID) s of (s', r) \<Rightarrow> (s', map_sum id (\<lambda>_. ()) r))"

subsection \<open>Saving a batch\<close>

lemma stored_message_simps [simp]:
  "m_id (stored_message m) = m_id m" "m_client_id (stored_message m) = m_client_id m"
  "m_room (stored_message m) = m_room m" "m_created (stored_message m) = m_created m"
  "m_sender (stored_message m) = m_sender m" "m_content (stored_message m) = m_content m"
  by (simp_all add: stored_message_def)

lemma message_assigned_same:
  "message_assigned m m' \<Longrightarrow> m_id m' = m_id m \<and> m_client_id m' = m_client_id m \<and> m_room m' = m_room m"
  by (cases m'; cases m) (simp add: message_assigned_def stored_message_def)

text \<open>A time of whole milliseconds is stored as it is.\<close>

lemma message_assigned_whole:
  assumes "message_assigned m m'" and "m_created m \<noteq> zero_time" and "m_created m mod 1000000 = 0"
  shows "m' = stored_message m"
proof -
  have "m_created m' mod 1000000 = 0" and near: "\<bar>m_created m' - m_created m\<bar> < 1000000"
    using assms by (simp_all add: message_assigned_def)
  then have "1000000 dvd m_created m' - m_created m" using assms(3) by (intro dvd_diff) (simp_all add: dvd_eq_mod_eq_0)
  with near have "m_created m' = m_created m" using dvd_imp_le_int [of "m_created m' - m_created m" 1000000] by force
  then show ?thesis using assms(1) by (cases m'; cases m) (simp add: message_assigned_def stored_message_def)
qed

lemma create_all_rows:
  assumes laws: "message_laws rows t" and c: "create_all t ms s = (s', Inr ())"
  shows "(\<exists>new. rows s' = rows s @ new \<and> list_all2 message_assigned ms new) \<and> distinct (map m_client_id ms) \<and>
    (\<forall>m \<in> set ms. \<not> message_conflict (rows s) m)"
  using c
proof (induction ms arbitrary: s)
  case (Cons m ms)
  from Cons.prems obtain s1 m' where 1: "t_create t m s = (s1, Inr m')" "create_all t ms s1 = (s', Inr ())"
    by (auto split: prod.splits sum.splits)
  from table_lawsD(4) [OF laws [unfolded message_laws_def] 1(1)]
  have m': "message_assigned m m'" "\<not> message_conflict (rows s) m'" "rows s1 = rows s @ [m']" by auto
  note same = message_assigned_same [OF m'(1)]
  from Cons.IH [OF 1(2)] obtain new where new: "rows s' = rows s1 @ new" "list_all2 message_assigned ms new"
    and ih: "distinct (map m_client_id ms)" "\<forall>x \<in> set ms. \<not> message_conflict (rows s1) x" by auto
  have "m_client_id m \<notin> set (map m_client_id ms)"
    using ih(2) m'(3) same by (fastforce simp: message_conflict_def)
  moreover have "\<forall>x \<in> set (m # ms). \<not> message_conflict (rows s) x"
    using ih(2) m'(2,3) same by (auto simp: message_conflict_def)
  moreover have "rows s' = rows s @ (m' # new) \<and> list_all2 message_assigned (m # ms) (m' # new)"
    using new m' by simp
  ultimately show ?case using ih(1) by fastforce
qed simp

text \<open>C18: A batch is stored completely or not at all: on success one row for each of its messages is appended,
  in their order, with the same ids, room, sender and text, the type 1 for a type 0, and the creation time
  (the time of the insert for a message without one) as the column keeps it, in whole milliseconds and less
  than a millisecond off; on an error the database is as before. One message that repeats a
  \<open>client_msg_id\<close>, of a stored message or of another message of the batch, makes the whole batch fail, the
  other senders' messages included.\<close>

theorem batch_all_or_nothing:
  assumes laws: "message_laws rows t" and save: "save_message_batch t commit ms s = (s', res)"
  shows "(case res of
        Inl e \<Rightarrow> s' = s
      | Inr _ \<Rightarrow> \<exists>new. rows s' = rows s @ new \<and> list_all2 message_assigned ms new) \<and>
    (\<not> distinct (map m_client_id ms) \<or> (\<exists>m \<in> set ms. message_conflict (rows s) m) \<longrightarrow> (\<exists>e. res = Inl e))"
proof (cases res)
  case (Inl e)
  then have "s' = s" using save transaction_cases(1) [of commit "create_all t ms" s s' e]
    by (simp add: save_message_batch_def split: if_splits)
  then show ?thesis using Inl by simp
next
  case (Inr u)
  then have "create_all t ms s = (s', Inr ())"
    using save transaction_cases(2) [of commit "create_all t ms" s s' "()"]
    by (auto simp: save_message_batch_def split: if_splits)
  with create_all_rows [OF laws] Inr show ?thesis by auto
qed

text \<open>A table that cuts times off to the millisecond.\<close>

definition cut_message :: "message \<Rightarrow> message" where
  "cut_message m = (stored_message m)\<lparr>m_created := m_created m div 1000000 * 1000000\<rparr>"

lemma cut_message_assigned: "message_assigned m (cut_message m)"
proof -
  have "\<bar>t div 1000000 * 1000000 - t\<bar> < 1000000" for t :: int
    using div_mult_mod_eq [of t 1000000] pos_mod_bound [of 1000000 t] pos_mod_sign [of 1000000 t] by linarith
  then show ?thesis by (simp add: message_assigned_def cut_message_def stored_message_def)
qed

definition list_messages :: "(message list, message) table" where
  "list_messages = list_table (\<lambda>s. s) (\<lambda>xs _. xs) (\<lambda>_. cut_message) message_conflict"

lemma list_messages_laws: "message_laws (\<lambda>s. s) list_messages"
  unfolding message_laws_def list_messages_def
  by (rule list_table_laws) (simp_all add: cut_message_assigned)

definition demo_stored :: "int \<Rightarrow> string \<Rightarrow> message" where
  "demo_stored i k =
     \<lparr>m_id = i, m_room = 7, m_sender = i, m_client_id = k, m_type = 1, m_content = ''x'', m_created = 1000000, m_deleted = 0\<rparr>"

lemma batch_all_or_nothing_witness:
  "fst (save_message_batch list_messages (\<lambda>_. None) [demo_stored 1 ''a'', demo_stored 2 ''b'', demo_stored 3 ''a''] []) = [] \<and>
   fst (save_message_batch list_messages (\<lambda>_. None) [demo_stored 1 ''a'', demo_stored 2 ''b''] []) =
     [demo_stored 1 ''a'', demo_stored 2 ''b'']"
proof -
  let ?save = "\<lambda>ms. save_message_batch list_messages (\<lambda>_. None) ms []"
  have all: "case snd (?save ms) of Inl e \<Rightarrow> fst (?save ms) = [] | Inr _ \<Rightarrow> list_all2 message_assigned ms (fst (?save ms))"
    and dup: "\<not> distinct (map m_client_id ms) \<longrightarrow> (\<exists>e. snd (?save ms) = Inl e)" for ms
    using batch_all_or_nothing [OF list_messages_laws, of "\<lambda>_. None" ms "[]" "fst (?save ms)" "snd (?save ms)"]
    by (simp_all split: sum.splits)
  have bad: "fst (?save [demo_stored 1 ''a'', demo_stored 2 ''b'', demo_stored 3 ''a'']) = []"
    using all [of "[demo_stored 1 ''a'', demo_stored 2 ''b'', demo_stored 3 ''a'']"]
      dup [of "[demo_stored 1 ''a'', demo_stored 2 ''b'', demo_stored 3 ''a'']"]
    by (auto simp: demo_stored_def zero_time_def)
  have "snd (?save [demo_stored 1 ''a'', demo_stored 2 ''b'']) = Inr ()"
    by (simp add: save_message_batch_def transaction_def list_messages_def list_table_def message_conflict_def
        cut_message_def demo_stored_def Let_def)
  then have "list_all2 message_assigned [demo_stored 1 ''a'', demo_stored 2 ''b''] (fst (?save [demo_stored 1 ''a'', demo_stored 2 ''b'']))"
    using all [of "[demo_stored 1 ''a'', demo_stored 2 ''b'']"] by simp
  then have "fst (?save [demo_stored 1 ''a'', demo_stored 2 ''b'']) = [demo_stored 1 ''a'', demo_stored 2 ''b'']"
    by (auto simp: list_all2_Cons1 stored_message_def zero_time_def demo_stored_def dest!: message_assigned_whole)
  with bad show ?thesis by blast
qed

subsection \<open>Pages of the history\<close>

text \<open>The messages of a room, oldest first.\<close>

definition history :: "('s \<Rightarrow> message list) \<Rightarrow> int \<Rightarrow> 's \<Rightarrow> message list" where
  "history rows roomID s = sort_key hist_key (filter (\<lambda>m. m_room m = roomID) (rows s))"

definition ids_ok :: "message list \<Rightarrow> bool" where
  "ids_ok ms \<longleftrightarrow> distinct (map m_id ms) \<and> (\<forall>m \<in> set ms. 0 < m_id m)"

text \<open>The row a cursor names is found when queries succeed.\<close>

lemma first_by_id:
  assumes laws: "message_laws rows t" and up: "queries_succeed t s" and ids: "ids_ok (rows s)"
    and m: "m \<in> set (rows s)"
  shows "gorm_first t m_id (\<lambda>x. m_id x = m_id m) s = Inr m"
proof -
  let ?q = "(query_all (\<lambda>x. m_id x = m_id m))\<lparr>q_order := (\<lambda>a b. m_id a \<le> m_id b), q_limit := Some 1\<rparr>"
  obtain ms where ms: "t_find t ?q s = Inr ms" using up by (force simp: queries_succeed_def query_all_def)
  from table_lawsD(1) [OF laws [unfolded message_laws_def] ms] obtain xs where
    xs: "mset xs = mset (filter (\<lambda>x. m_id x = m_id m) (rows s))" "ms = take 1 xs"
    by (auto simp: answers_def query_all_def page_def)
  have "set xs = {x \<in> set (rows s). m_id x = m_id m}" using xs(1) by (metis set_filter set_mset_mset)
  also have "\<dots> = {m}"
    using ids m by (auto simp: ids_ok_def distinct_map inj_on_def)
  finally have set: "set xs = {m}" .
  then obtain y ys where "xs = y # ys" by (cases xs) auto
  with set have "ms = [m]" using xs(2) by auto
  then show ?thesis using ms by (simp add: gorm_first_def)
qed

lemma distinct_hist_key: "distinct (map m_id xs) \<Longrightarrow> distinct (map hist_key xs)"
  by (induction xs) (auto simp: hist_key_def)

lemma inj_hist_key: "distinct (map m_id xs) \<Longrightarrow> inj_on hist_key (set xs)"
  using distinct_hist_key [of xs] by (simp add: distinct_map)

lemma distinct_history: "ids_ok (rows s) \<Longrightarrow> distinct (map m_id (history rows room s))"
proof -
  assume ids: "ids_ok (rows s)"
  have "mset (map m_id (history rows room s)) = mset (map m_id (filter (\<lambda>m. m_room m = room) (rows s)))"
    by (simp add: history_def)
  moreover have "distinct (map m_id (filter (\<lambda>m. m_room m = room) (rows s)))"
    using ids by (simp add: ids_ok_def distinct_map_filter)
  ultimately show ?thesis by (blast dest: mset_eq_imp_distinct_iff)
qed

lemma page_rev: "rev (page 0 (Some n) (rev xs)) = drop (length xs - n) xs"
  by (simp add: page_def rev_take)

text \<open>What a page is: the last messages of the part of the history before the cursor.\<close>

lemma history_page:
  assumes laws: "message_laws rows t" and ids: "ids_ok (rows s)" and lim: "0 \<le> limit"
    and q: "get_history_by_cursor t room cursor limit s = Inr ms"
  shows "ms = (let hs = filter (before_cursor t cursor s) (history rows room s)
               in drop (length hs - nat limit) hs)"
proof -
  let ?p = "\<lambda>m. m_room m = room \<and> before_cursor t cursor s m"
  let ?hs = "filter (before_cursor t cursor s) (history rows room s)"
  let ?q = "\<lparr>q_where = ?p, q_order = (\<lambda>a b. hist_key b \<le> hist_key a), q_offset = 0, q_limit = limit_opt limit\<rparr>"
  obtain rs where rs: "t_find t ?q s = Inr rs" "ms = rev rs"
    using q unfolding get_history_by_cursor_def by (cases "t_find t ?q s") auto
  from table_lawsD(1) [OF laws [unfolded message_laws_def] rs(1)] obtain xs where
    xs: "mset xs = mset (filter ?p (rows s))" "sorted_wrt (\<lambda>a b. hist_key b \<le> hist_key a) xs"
      "rs = page 0 (Some (nat limit)) xs"
    using lim by (auto simp: answers_def limit_opt_def)
  have set: "set xs = set (filter ?p (rows s))" using xs(1) by (metis set_mset_mset)
  have dp: "distinct (map m_id (filter ?p (rows s)))"
    using ids by (simp add: ids_ok_def distinct_map_filter)
  have "mset (map m_id xs) = mset (map m_id (filter ?p (rows s)))" using xs(1) by (simp add: mset_map [symmetric])
  then have dx: "distinct (map m_id xs)" using dp by (metis mset_eq_imp_distinct_iff)
  have "rev xs = ?hs"
  proof (rule map_sorted_distinct_set_unique [where f = hist_key])
    show "inj_on hist_key (set (rev xs) \<union> set ?hs)"
      using inj_hist_key [of "rows s"] ids set
      by (auto simp: ids_ok_def history_def intro: inj_on_subset)
    show "sorted (map hist_key (rev xs))"
      using xs(2) by (simp add: sorted_wrt_rev rev_map [symmetric] sorted_wrt_map)
    show "distinct (map hist_key (rev xs))" using distinct_hist_key [OF dx] by (simp add: rev_map [symmetric])
    show "sorted (map hist_key ?hs)" by (simp add: history_def sorted_filter)
    have "distinct (map m_id (history rows room s))" using ids by (rule distinct_history)
    then show "distinct (map hist_key ?hs)"
      using distinct_hist_key [of "history rows room s"] by (simp add: distinct_map_filter)
    show "set (rev xs) = set ?hs" using set by (auto simp: history_def)
  qed
  then have "xs = rev ?hs" by (metis rev_rev_ident)
  then show ?thesis using rs(2) xs(3) page_rev [of "nat limit" ?hs] by (simp add: Let_def)
qed

end
