(* ===== verification/SampleDb.thy ===== *)
theory SampleDb
  imports RoomRepo MessageRepo
begin

section \<open>A database that satisfies the laws\<close>

text \<open>
  Three lists as tables. It is used only to apply the theorems about the database clients to
  concrete states, which shows that their hypotheses can be met.
\<close>

record sample_state =
  sd_users :: "user list"
  sd_rooms :: "room list"
  sd_members :: "room_member list"
  sd_messages :: "message list"

definition next_key :: "('r \<Rightarrow> int) \<Rightarrow> 'r list \<Rightarrow> int" where
  "next_key key xs = 1 + fold max (map key xs) 0"

definition sample_users :: "(sample_state, user) table" where
  "sample_users = list_table sd_users (\<lambda>xs s. s\<lparr>sd_users := xs\<rparr>) (\<lambda>xs u. u\<lparr>u_id := next_key u_id xs\<rparr>) user_conflict"

definition sample_members :: "(sample_state, room_member) table" where
  "sample_members =
     list_table sd_members (\<lambda>xs s. s\<lparr>sd_members := xs\<rparr>)
       (\<lambda>xs m. m\<lparr>rm_id := next_key rm_id xs, rm_role := (if rm_role m = 0 then 1 else rm_role m)\<rparr>) member_conflict"

definition sample_rooms0 :: "(sample_state, room) table" where
  "sample_rooms0 =
     list_table sd_rooms (\<lambda>xs s. s\<lparr>sd_rooms := xs\<rparr>)
       (\<lambda>xs r. r\<lparr>r_id := next_key r_id xs, r_moderation_enabled := True\<rparr>) room_conflict"

text \<open>A key that a membership still mentions is refused.\<close>

definition sample_rooms :: "(sample_state, room) table" where
  "sample_rooms = sample_rooms0\<lparr>t_create := (\<lambda>r s.
     if \<exists>m \<in> set (sd_members s). rm_room m = next_key r_id (sd_rooms s) then (s, Inl DuplicateKey)
     else t_create sample_rooms0 r s)\<rparr>"

definition sample_db :: "sample_state db" where
  "sample_db =
     \<lparr>db_users = sample_users, db_rooms = sample_rooms, db_members = sample_members,
      db_commit = (\<lambda>_. None), db_like = (\<lambda>_ _. True),
      db_rooms_of = (\<lambda>u s. Inr (filter (\<lambda>(r, m). rm_room m = r_id r \<and> rm_user m = u)
                                  (List.product (sd_rooms s) (sd_members s)))),
      db_users_of = (\<lambda>r s. Inr (filter (\<lambda>(u, m). rm_user m = u_id u \<and> rm_room m = r)
                                  (List.product (sd_users s) (sd_members s))))\<rparr>"

definition sample_views :: "sample_state views" where
  "sample_views = \<lparr>v_users = sd_users, v_rooms = sd_rooms, v_members = sd_members\<rparr>"

lemma table_laws_guard:
  assumes "table_laws rows assigned conflict t"
  shows "table_laws rows assigned conflict (t\<lparr>t_create := (\<lambda>r s. if g r s then (s, Inl e) else t_create t r s)\<rparr>)"
  using assms unfolding table_laws_def by (simp split: if_splits)

lemma sample_rooms_created:
  "t_create sample_rooms r s = (s', Inr r') \<Longrightarrow> \<forall>m \<in> set (sd_members s). rm_room m \<noteq> r_id r'"
  by (auto simp: sample_rooms_def sample_rooms0_def list_table_def Let_def split: if_splits)

lemma sample_laws: "db_laws sample_db sample_views"
proof -
  have "table_laws sd_users user_assigned user_conflict sample_users"
    unfolding sample_users_def by (rule list_table_laws) (simp_all add: user_assigned_def)
  moreover have "table_laws sd_members member_assigned member_conflict sample_members"
    unfolding sample_members_def by (rule list_table_laws) (simp_all add: member_assigned_def)
  moreover have "table_laws sd_rooms room_assigned room_conflict sample_rooms"
    unfolding sample_rooms_def sample_rooms0_def
    by (rule table_laws_guard, rule list_table_laws) (simp_all add: room_assigned_def)
  moreover have "table_frame sd_rooms sample_members" "table_frame sd_users sample_members"
    "table_frame sd_rooms sample_users" "table_frame sd_members sample_users"
    unfolding sample_members_def sample_users_def by (rule list_table_frame, simp)+
  moreover have "table_frame sd_members sample_rooms" "table_frame sd_users sample_rooms"
    by (simp_all add: table_frame_def sample_rooms_def sample_rooms0_def list_table_def Let_def)
  ultimately show ?thesis
    using sample_rooms_created
    by (auto simp: db_laws_def sample_db_def sample_views_def fresh_room_ids_def join_laws_def)
qed

definition sample_messages :: "(sample_state, message) table" where
  "sample_messages = list_table sd_messages (\<lambda>xs s. s\<lparr>sd_messages := xs\<rparr>) (\<lambda>xs m. cut_message m) message_conflict"

lemma sample_messages_laws: "message_laws sd_messages sample_messages"
  unfolding message_laws_def sample_messages_def by (rule list_table_laws) (simp_all add: cut_message_assigned)

lemma sample_messages_queries: "queries_succeed sample_messages s"
  by (simp add: sample_messages_def list_table_queries)

text \<open>Rooms 7 (created by user 1, with user 2 as a plain member) and two users.\<close>

definition demo_room :: room where
  "demo_room = \<lparr>r_id = 7, r_type = 2, r_name = ''lobby'', r_creator = 1, r_agent_enabled = False,
     r_moderation_enabled = True, r_status = 0, r_last_active = 5, r_bot_user = 0, r_created = 5\<rparr>"

definition demo_user :: "int \<Rightarrow> string \<Rightarrow> user" where
  "demo_user i n = \<lparr>u_id = i, u_username = n, u_password = ''hash'', u_avatar = [], u_role = 0, u_is_bot = False,
     u_status = 0, u_last_login = None, u_last_active = None, u_created = 5\<rparr>"

definition demo_db :: sample_state where
  "demo_db =
     \<lparr>sd_users = [demo_user 1 ''ann'', demo_user 2 ''bob''], sd_rooms = [demo_room],
      sd_members = [\<lparr>rm_id = 1, rm_room = 7, rm_user = 1, rm_role = 2, rm_joined = 5\<rparr>,
                    \<lparr>rm_id = 2, rm_room = 7, rm_user = 2, rm_role = 1, rm_joined = 6\<rparr>],
      sd_messages = []\<rparr>"

end
