(* ===== verification/RoomProps.thy ===== *)
theory RoomProps
  imports RoomService SampleDb
begin

section \<open>Properties of the room service\<close>

text \<open>
  What the room service guarantees over the hub of its own process and over the sample database: the
  subscriptions follow the memberships, and only authorised callers remove members or disband rooms.
\<close>

subsection \<open>Synchronisation with the live layer\<close>

text \<open>C8: When the room service runs in the gateway's process, every request it serves, successful or not,
  keeps the hub in step with the database: a user who is online is subscribed to a room through the
  current connection if and only if the database has a membership of an existing room.\<close>

theorem room_service_keeps_hub_in_sync:
  assumes "db_laws d v" "hub_in_sync (live_memberships v s) h"
    and "svc_run d (Some hub_notifier) now req (s, h) = ((s', h'), res)"
  shows "hub_in_sync (live_memberships v s') h'"
  using hub_runtime.run_sync [OF assms(1) TrueI, of s h now req s' h' res] assms(2,3)
  by (simp add: hub_in_sync_iff hub_notifier_def)

lemma demo_sync: "hub_in_sync (live_memberships sample_views demo_db) demo_hub"
  by (simp add: hub_in_sync_def hub_online_def demo_hub_def new_hub_inv)

lemma demo_join_run:
  "svc_run sample_db (Some hub_notifier) 9 (JoinRoomReq 7 3) (demo_db, demo_hub) =
     ((demo_db\<lparr>sd_members := sd_members demo_db @ [\<lparr>rm_id = 3, rm_room = 7, rm_user = 3, rm_role = 1, rm_joined = 0\<rparr>]\<rparr>,
       join_room 3 7 demo_hub), Inr ())"
  by (simp add: svc_run_def svc_join_room_def get_room_by_id_def gorm_first_def sample_db_def sample_rooms_def
      sample_rooms0_def list_table_def query_all_def sort_by_def page_def demo_db_def demo_room_def Let_def
      add_member_def sample_members_def member_conflict_def next_key_def hub_notifier_def)

lemma room_service_keeps_hub_in_sync_witness:
  "hub_in_sync (live_memberships sample_views
     (demo_db\<lparr>sd_members := sd_members demo_db @ [\<lparr>rm_id = 3, rm_room = 7, rm_user = 3, rm_role = 1, rm_joined = 0\<rparr>]\<rparr>))
     (join_room 3 7 demo_hub)"
  by (rule room_service_keeps_hub_in_sync [OF sample_laws demo_sync demo_join_run])

subsection \<open>Authorisation\<close>

text \<open>C10: A membership is only ever removed by someone entitled to it: if \<open>RemoveMember\<close> succeeds, the
  room exists, the operator is a global administrator, the member itself, the creator, or an
  administrator of the room; the creator is removed by nobody but itself and a global administrator;
  exactly this one membership is gone and the runtime was told exactly that. If it fails, no membership
  has changed and the runtime was not told anything.\<close>

theorem remove_member_authorised:
  assumes laws: "db_laws d v"
    and run: "svc_remove_member d (Some n) r op tgt role (s, h) = ((s', h'), res)"
  shows "(case res of
       Inr _ \<Rightarrow>
         (\<exists>room \<in> set (v_rooms v s). r_id room = r \<and>
            (role = 1 \<or> op = tgt \<or> r_creator room = op \<or> (\<exists>k \<ge> 2. member_role v s op r k)) \<and>
            (tgt = r_creator room \<longrightarrow> op = tgt \<or> role = 1)) \<and>
         is_member v s tgt r \<and>
         (\<forall>w q. is_member v s' w q \<longleftrightarrow> is_member v s w q \<and> \<not> (w = tgt \<and> q = r)) \<and>
         h' = n_leave n tgt r h
     | Inl _ \<Rightarrow> (\<forall>w q. is_member v s' w q \<longleftrightarrow> is_member v s w q) \<and> h' = h)"
  using laws run
proof (cases rule: remove_effect)
  case refused
  then show ?thesis by (simp add: is_member_def)
next
  case removed
  then show ?thesis by auto
qed

lemma demo_remove_run:
  "svc_remove_member sample_db (Some hub_notifier) 7 1 2 0 (demo_db, demo_hub) =
     ((demo_db\<lparr>sd_members := [\<lparr>rm_id = 1, rm_room = 7, rm_user = 1, rm_role = 2, rm_joined = 5\<rparr>]\<rparr>,
       leave_room 2 7 demo_hub), Inr ())"
  by (simp add: svc_remove_member_def can_remove_def get_room_by_id_def gorm_first_def sample_db_def sample_rooms_def
      sample_rooms0_def list_table_def query_all_def sort_by_def page_def demo_db_def demo_room_def Let_def
      remove_member_def sample_members_def hub_notifier_def)

lemma remove_member_authorised_witness:
  "is_member sample_views demo_db 2 7 \<and>
   \<not> is_member sample_views (demo_db\<lparr>sd_members := [\<lparr>rm_id = 1, rm_room = 7, rm_user = 1, rm_role = 2, rm_joined = 5\<rparr>]\<rparr>) 2 7"
  using remove_member_authorised [OF sample_laws demo_remove_run] by simp

text \<open>A room is disbanded only by a current member who created it or holds the owner role; afterwards
  the room no longer exists, every other room still does, nobody's current connection is subscribed to
  it, and a later join is answered with "no such room".\<close>

theorem disband_room_authorised:
  assumes laws: "db_laws d v" and inv: "hub_inv h"
    and run: "svc_disband_room d (Some hub_notifier) r op (s, h) = ((s', h'), Inr ())"
  shows "(\<exists>room \<in> set (v_rooms v s). r_id room = r \<and>
       is_member v s op r \<and> (r_creator room = op \<or> member_role v s op r 3)) \<and>
     (\<forall>q. room_live v s' q \<longleftrightarrow> room_live v s q \<and> q \<noteq> r) \<and>
     (\<forall>c. c \<notin> set (members h' r)) \<and>
     (\<forall>u n. \<exists>e. svc_join_room d n r u (s', h') = ((s', h'), Inl e))"
  using laws run
proof (cases rule: disband_effect)
  case refused
  then show ?thesis by simp
next
  case (disbanded room)
  have "\<forall>x \<in> set (v_rooms v s'). r_id x \<noteq> r" using disbanded(7) [of r] by (auto simp: room_live_def)
  then obtain e where e: "get_room_by_id d r s' = Inl e"
    using gorm_first_none [OF db_lawsD(2) [OF laws], of s' "\<lambda>x. r_id x = r"] by (auto simp: get_room_by_id_def)
  have "hub_abs h' = a_disband r (hub_abs h)"
    using disband_room_refines(2) [OF inv] disbanded(8) by (simp add: hub_notifier_def)
  then have "set (members h' r) = {}" by (simp add: hub_abs_def a_disband_def fun_eq_iff)
  with disbanded(2-5,7) e show ?thesis by (auto simp: svc_join_room_def)
qed

lemma demo_disband_run:
  "svc_disband_room sample_db (Some hub_notifier) 7 1 (demo_db, demo_hub) =
     ((demo_db\<lparr>sd_rooms := []\<rparr>, disband_room 7 demo_hub), Inr ())"
  by (simp add: svc_disband_room_def get_room_by_id_def get_member_role_def gorm_first_def sample_db_def sample_rooms_def
      sample_rooms0_def list_table_def query_all_def sort_by_def page_def demo_db_def demo_room_def Let_def
      soft_delete_room_def sample_members_def hub_notifier_def)

lemma disband_room_authorised_witness:
  "is_member sample_views demo_db 1 7 \<and> \<not> room_live sample_views (demo_db\<lparr>sd_rooms := []\<rparr>) 7"
  using disband_room_authorised [OF sample_laws demo_inv demo_disband_run] by blast

text \<open>The rows of \<open>room_members\<close> outlive the room: after a successful disbanding every member's list of
  room ids, which the WebSocket endpoint subscribes a new connection to, still contains the disbanded
  room, so a member who reconnects is subscribed to it again.\<close>

theorem disbanded_room_is_resubscribed:
  assumes laws: "db_laws d v" and inv: "hub_inv h"
    and run: "svc_disband_room d (Some hub_notifier) r op (s, h) = ((s', h'), Inr ())"
    and mem: "is_member v s u r" and ids: "get_user_room_ids d u s' = Inr rs"
    and fresh: "fresh_client (h_clients h' c)"
  shows "\<not> room_live v s' r \<and> r \<in> set rs \<and> c \<in> set (members (register (Some c) rs h') r)"
proof -
  from run have del: "soft_delete_room d r s = (s', Inr ())" "h' = disband_room r h"
    by (auto simp: svc_disband_room_def hub_notifier_def split: sum.splits prod.splits if_splits)
  have same: "v_members v s' = v_members v s" by (rule soft_delete_room_cases(1) [OF laws del(1)])
  have r: "r \<in> set rs" using mem same user_room_ids_Inr [OF laws ids, of r] by (simp add: is_member_def)
  have inv': "hub_inv h'" using disband_room_refines(1) [OF inv] del(2) by simp
  have "hub_abs (register (Some c) rs h') = a_register (c_user (h_clients h' c)) c rs (hub_abs h')"
    by (rule register_refines(2) [OF inv' fresh])
  then have "c \<in> set (members (register (Some c) rs h') r)"
    using r by (auto simp: hub_abs_def a_register_def fun_eq_iff split: if_splits)
  moreover have "\<not> room_live v s' r" using soft_delete_room_cases(2) [OF laws del(1) refl] by simp
  ultimately show ?thesis using r by blast
qed

lemma disbanded_room_is_resubscribed_witness:
  "4 \<in> set (members (register (Some 4) [7] (disband_room 7 demo_hub)) 7)"
proof -
  have ids: "get_user_room_ids sample_db 2 (demo_db\<lparr>sd_rooms := []\<rparr>) = Inr [7]"
    by (simp add: get_user_room_ids_def sample_db_def sample_members_def list_table_def query_all_def
        sort_by_def page_def demo_db_def)
  have mem: "is_member sample_views demo_db 2 7"
    by (simp add: is_member_def sample_views_def demo_db_def)
  have "h_clients (disband_room 7 demo_hub) = demo_client"
    by (simp add: disband_room_def disband_shard_def demo_hub_def)
  then have "fresh_client (h_clients (disband_room 7 demo_hub) 4)" by simp
  from disbanded_room_is_resubscribed [OF sample_laws demo_inv demo_disband_run mem ids this]
  show ?thesis by blast
qed

end
