(* ===== verification/LoginProtector.thy ===== *)
theory LoginProtector
  imports GoStrings
begin

section \<open>Login protection (services/auth/security/login_protector.go)\<close>

text \<open>
  The in-process rate limiter of the login and its pool of bcrypt slots. Times are nanoseconds since
  the year 1, so the zero \<open>time.Time\<close> is 0. \<open>lower\<close> stands for \<open>strings.ToLower\<close> (Unicode tables).
\<close>

datatype protect_error = ErrIPRateLimited | ErrPairRateLimited | ErrBcryptBusy

record protect_config =
  pc_ip_limit :: int
  pc_ip_window :: int
  pc_pair_limit :: int
  pc_pair_window :: int
  pc_bcrypt :: int

record window_entry =
  we_start :: int
  we_count :: int

record protector =
  lp_ips :: "(string, window_entry) gomap"
  lp_pairs :: "(string, window_entry) gomap"
  lp_slots :: nat
  lp_config :: protect_config
  lp_next_gc :: int

definition minute :: int where
  "minute = 60 * 1000000000"

definition default_config :: "int \<Rightarrow> protect_config" where
  "default_config cpus =
     \<lparr>pc_ip_limit = 200, pc_ip_window = minute, pc_pair_limit = 5, pc_pair_window = minute,
      pc_bcrypt = max 1 (cpus * 2)\<rparr>"

text \<open>\<open>None\<close> is the panic on an invalid configuration.\<close>

definition new_protector :: "protect_config \<Rightarrow> protector option" where
  "new_protector c =
     (if pc_ip_limit c \<le> 0 \<or> pc_ip_window c \<le> 0 \<or> pc_pair_limit c \<le> 0 \<or> pc_pair_window c \<le> 0 \<or> pc_bcrypt c \<le> 0
      then None
      else Some \<lparr>lp_ips = [], lp_pairs = [], lp_slots = 0, lp_config = c, lp_next_gc = 0\<rparr>)"

text \<open>The entry a map look-up of a missing key yields.\<close>

definition entry_at :: "(string, window_entry) gomap \<Rightarrow> string \<Rightarrow> window_entry" where
  "entry_at m k = (case gm_get m k of None \<Rightarrow> \<lparr>we_start = 0, we_count = 0\<rparr> | Some e \<Rightarrow> e)"

definition increment_window :: "window_entry \<Rightarrow> int \<Rightarrow> int \<Rightarrow> window_entry" where
  "increment_window st now window =
     (let st = (if we_start st = 0 \<or> window \<le> now - we_start st then \<lparr>we_start = now, we_count = 0\<rparr> else st)
      in st\<lparr>we_count := we_count st + 1\<rparr>)"

definition expire :: "int \<Rightarrow> int \<Rightarrow> (string, window_entry) gomap \<Rightarrow> (string, window_entry) gomap" where
  "expire now window m = filter (\<lambda>(k, e). \<not> window \<le> now - we_start e) m"

definition cleanup :: "int \<Rightarrow> protector \<Rightarrow> protector" where
  "cleanup now p =
     p\<lparr>lp_ips := expire now (pc_ip_window (lp_config p)) (lp_ips p),
       lp_pairs := expire now (pc_pair_window (lp_config p)) (lp_pairs p)\<rparr>"

definition normalize_username :: "(string \<Rightarrow> string) \<Rightarrow> string \<Rightarrow> string" where
  "normalize_username lower name = lower (trim_space name)"

definition pair_key :: "string \<Rightarrow> string \<Rightarrow> string" where
  "pair_key ip name = ip @ CHR 0x00 # name"

definition maybe_cleanup :: "int \<Rightarrow> protector \<Rightarrow> protector" where
  "maybe_cleanup now p =
     (if lp_next_gc p = 0 \<or> \<not> now < lp_next_gc p
      then (cleanup now p)\<lparr>lp_next_gc := now + min (pc_ip_window (lp_config p)) (pc_pair_window (lp_config p))\<rparr>
      else p)"

definition allow :: "(string \<Rightarrow> string) \<Rightarrow> int \<Rightarrow> string \<Rightarrow> string \<Rightarrow> protector \<Rightarrow> protector \<times> protect_error option" where
  "allow lower now ip name0 p0 =
     (let name = normalize_username lower name0;
          p = maybe_cleanup now p0;
          ipState = increment_window (entry_at (lp_ips p) ip) now (pc_ip_window (lp_config p));
          p1 = p\<lparr>lp_ips := gm_put ip ipState (lp_ips p)\<rparr>
      in if pc_ip_limit (lp_config p) < we_count ipState then (p1, Some ErrIPRateLimited)
         else
           (let key = pair_key ip name;
                pairState = increment_window (entry_at (lp_pairs p1) key) now (pc_pair_window (lp_config p));
                p2 = p1\<lparr>lp_pairs := gm_put key pairState (lp_pairs p1)\<rparr>
            in if pc_pair_limit (lp_config p) < we_count pairState then (p2, Some ErrPairRateLimited)
               else (p2, None)))"

subsection \<open>Bcrypt slots\<close>

text \<open>
  \<open>Compare\<close> takes a slot or gives up at once; the slot is returned when the comparison ends, also when
  the caller has left before. The environment chooses: \<open>ctx_done\<close> whether the context is already
  over (then the select may take that branch, \<open>pick_ctx\<close>).
\<close>

datatype compare_outcome = Started | StartBusy | StartCanceled

definition compare_start :: "bool \<Rightarrow> bool \<Rightarrow> protector \<Rightarrow> protector \<times> compare_outcome" where
  "compare_start ctx_done pick_ctx p =
     (if int (lp_slots p) < pc_bcrypt (lp_config p) \<and> \<not> (ctx_done \<and> pick_ctx)
      then (p\<lparr>lp_slots := lp_slots p + 1\<rparr>, Started)
      else if ctx_done then (p, StartCanceled)
      else (p, StartBusy))"

definition compare_finish :: "protector \<Rightarrow> protector" where
  "compare_finish p = p\<lparr>lp_slots := lp_slots p - 1\<rparr>"

definition active_bcrypt :: "protector \<Rightarrow> nat" where
  "active_bcrypt p = lp_slots p"

datatype bcrypt_event = StartCompare bool bool | FinishCompare

text \<open>A comparison finishes only when one runs.\<close>

definition bcrypt_step :: "bcrypt_event \<Rightarrow> protector \<Rightarrow> protector" where
  "bcrypt_step ev p =
     (case ev of
        StartCompare cd pk \<Rightarrow> fst (compare_start cd pk p)
      | FinishCompare \<Rightarrow> if 0 < lp_slots p then compare_finish p else p)"

subsection \<open>One window table\<close>

text \<open>What a table entry promises about the requests counted since its window began.\<close>

lemma increment_window_cases:
  "increment_window e now w =
     (if we_start e = 0 \<or> w \<le> now - we_start e then \<lparr>we_start = now, we_count = 1\<rparr>
      else \<lparr>we_start = we_start e, we_count = we_count e + 1\<rparr>)"
  by (cases e) (simp add: increment_window_def Let_def)

lemma get_expire:
  "gm_ok m \<Longrightarrow> gm_get (expire now w m) k =
     (case gm_get m k of None \<Rightarrow> None | Some e \<Rightarrow> if w \<le> now - we_start e then None else Some e)"
proof (induction m)
  case (Cons x m)
  obtain k' e where x: "x = (k', e)" by force
  have "k' \<notin> set (map fst m)" and ok: "gm_ok m" using Cons.prems x by auto
  then have none: "gm_get m k' = None" by (simp add: map_of_eq_None_iff)
  from Cons.IH [OF ok] none show ?case
    by (auto simp: expire_def x split: option.splits if_splits)
qed (simp add: expire_def)

lemma gm_ok_expire: "gm_ok m \<Longrightarrow> gm_ok (expire now w m)"
  unfolding expire_def by (induction m) auto

definition maps_ok :: "protector \<Rightarrow> bool" where
  "maps_ok p \<longleftrightarrow> gm_ok (lp_ips p) \<and> gm_ok (lp_pairs p)"

lemma maps_ok_cleanup: "maps_ok p \<Longrightarrow> maps_ok (maybe_cleanup now p)"
  by (simp add: maps_ok_def maybe_cleanup_def cleanup_def gm_ok_expire)

lemma maybe_cleanup_config [simp]: "lp_config (maybe_cleanup now p) = lp_config p"
  "lp_slots (maybe_cleanup now p) = lp_slots p"
  by (simp_all add: maybe_cleanup_def cleanup_def)

text \<open>
  Clean-up is invisible: the entry it removes and the missing entry give the same next state, because an
  expired window starts afresh.
\<close>

lemma cleanup_invisible:
  assumes "maps_ok p"
  shows "increment_window (entry_at (lp_ips (maybe_cleanup now p)) k) now (pc_ip_window (lp_config p))
       = increment_window (entry_at (lp_ips p) k) now (pc_ip_window (lp_config p))"
    and "increment_window (entry_at (lp_pairs (maybe_cleanup now p)) k) now (pc_pair_window (lp_config p))
       = increment_window (entry_at (lp_pairs p) k) now (pc_pair_window (lp_config p))"
  using assms
  by (auto simp: maybe_cleanup_def cleanup_def maps_ok_def entry_at_def get_expire increment_window_cases
      split: option.splits)


subsection \<open>Runs\<close>

record attempt =
  at_time :: int
  at_ip :: string
  at_name :: string

fun run_attempts :: "(string \<Rightarrow> string) \<Rightarrow> attempt list \<Rightarrow> protector \<Rightarrow> protect_error option list" where
  "run_attempts lower [] p = []"
| "run_attempts lower (a # as) p =
     (case allow lower (at_time a) (at_ip a) (at_name a) p of
        (p', r) \<Rightarrow> r # run_attempts lower as p')"

text \<open>The limiter without any clean-up, over total tables.\<close>

type_synonym ideal = "(string \<Rightarrow> window_entry) \<times> (string \<Rightarrow> window_entry)"

definition ideal_allow :: "(string \<Rightarrow> string) \<Rightarrow> protect_config \<Rightarrow> attempt \<Rightarrow> ideal \<Rightarrow> ideal \<times> protect_error option" where
  "ideal_allow lower c a t =
     (let ip = increment_window (fst t (at_ip a)) (at_time a) (pc_ip_window c);
          key = pair_key (at_ip a) (normalize_username lower (at_name a));
          pair = increment_window (snd t key) (at_time a) (pc_pair_window c);
          ips = (fst t)(at_ip a := ip)
      in if pc_ip_limit c < we_count ip then ((ips, snd t), Some ErrIPRateLimited)
         else ((ips, (snd t)(key := pair)),
               if pc_pair_limit c < we_count pair then Some ErrPairRateLimited else None))"

fun run_ideal :: "(string \<Rightarrow> string) \<Rightarrow> protect_config \<Rightarrow> attempt list \<Rightarrow> ideal \<Rightarrow> protect_error option list" where
  "run_ideal lower c [] t = []"
| "run_ideal lower c (a # as) t =
     (case ideal_allow lower c a t of (t', r) \<Rightarrow> r # run_ideal lower c as t')"

definition ideal_start :: ideal where
  "ideal_start = ((\<lambda>_. \<lparr>we_start = 0, we_count = 0\<rparr>), (\<lambda>_. \<lparr>we_start = 0, we_count = 0\<rparr>))"

text \<open>From a time on, the two tables cannot be told apart by a request.\<close>

definition same_from :: "int \<Rightarrow> protector \<Rightarrow> ideal \<Rightarrow> bool" where
  "same_from now p t \<longleftrightarrow>
     (\<forall>k u. now \<le> u \<longrightarrow>
        increment_window (entry_at (lp_ips p) k) u (pc_ip_window (lp_config p)) =
          increment_window (fst t k) u (pc_ip_window (lp_config p)) \<and>
        increment_window (entry_at (lp_pairs p) k) u (pc_pair_window (lp_config p)) =
          increment_window (snd t k) u (pc_pair_window (lp_config p)))"

lemma cleanup_entry:
  assumes "maps_ok p" "now \<le> u"
  shows "increment_window (entry_at (lp_ips (maybe_cleanup now p)) k) u (pc_ip_window (lp_config p))
       = increment_window (entry_at (lp_ips p) k) u (pc_ip_window (lp_config p))"
    and "increment_window (entry_at (lp_pairs (maybe_cleanup now p)) k) u (pc_pair_window (lp_config p))
       = increment_window (entry_at (lp_pairs p) k) u (pc_pair_window (lp_config p))"
  using assms
  by (auto simp: maybe_cleanup_def cleanup_def maps_ok_def entry_at_def get_expire increment_window_cases
      split: option.splits)

lemma entry_at_put: "entry_at (gm_put k e m) = (entry_at m)(k := e)"
  by (auto simp: entry_at_def gm_get_put fun_eq_iff)

lemma allow_config: "allow lower now ip name p = (p', r) \<Longrightarrow>
    lp_config p' = lp_config p \<and> lp_slots p' = lp_slots p \<and> (maps_ok p \<longrightarrow> maps_ok p')"
  using maps_ok_cleanup [of p now]
  by (auto simp: allow_def Let_def maps_ok_def gm_ok_put split: if_splits)

lemma allow_simulates:
  assumes ok: "maps_ok p" and same: "same_from now p t" and now: "now \<le> at_time a"
    and step: "allow lower (at_time a) (at_ip a) (at_name a) p = (p', r)"
  shows "\<exists>t'. ideal_allow lower (lp_config p) a t = (t', r) \<and> same_from (at_time a) p' t'"
proof -
  let ?p = "maybe_cleanup (at_time a) p" and ?c = "lp_config p"
  let ?ip = "increment_window (fst t (at_ip a)) (at_time a) (pc_ip_window ?c)"
  let ?key = "pair_key (at_ip a) (normalize_username lower (at_name a))"
  let ?pair = "increment_window (snd t ?key) (at_time a) (pc_pair_window ?c)"
  have s: "same_from (at_time a) ?p t"
    using same now unfolding same_from_def
    by (simp add: cleanup_entry [OF ok])
  have ip: "increment_window (entry_at (lp_ips ?p) (at_ip a)) (at_time a) (pc_ip_window ?c) = ?ip"
    and pair: "increment_window (entry_at (lp_pairs ?p) ?key) (at_time a) (pc_pair_window ?c) = ?pair"
    using s by (auto simp: same_from_def)
  show ?thesis
  proof (cases "pc_ip_limit ?c < we_count ?ip")
    case True
    with step ip have "p' = ?p\<lparr>lp_ips := gm_put (at_ip a) ?ip (lp_ips ?p)\<rparr>" "r = Some ErrIPRateLimited"
      by (auto simp: allow_def Let_def)
    with True s show ?thesis
      by (auto simp: ideal_allow_def Let_def same_from_def entry_at_put)
  next
    case False
    with step ip pair have
      "p' = ?p\<lparr>lp_ips := gm_put (at_ip a) ?ip (lp_ips ?p), lp_pairs := gm_put ?key ?pair (lp_pairs ?p)\<rparr>"
      "r = (if pc_pair_limit ?c < we_count ?pair then Some ErrPairRateLimited else None)"
      by (auto simp: allow_def Let_def split: if_splits)
    with False s show ?thesis
      by (auto simp: ideal_allow_def Let_def same_from_def entry_at_put)
  qed
qed

lemma run_simulates:
  "maps_ok p \<Longrightarrow> same_from now p t \<Longrightarrow> sorted (map at_time as) \<Longrightarrow> \<forall>a \<in> set as. now \<le> at_time a \<Longrightarrow>
   run_attempts lower as p = run_ideal lower (lp_config p) as t"
proof (induction as arbitrary: p t now)
  case (Cons a as)
  obtain p' r where st: "allow lower (at_time a) (at_ip a) (at_name a) p = (p', r)" by force
  from allow_simulates [OF Cons.prems(1,2) _ st] Cons.prems(4) obtain t' where
    t': "ideal_allow lower (lp_config p) a t = (t', r)" "same_from (at_time a) p' t'" by auto
  have "run_attempts lower as p' = run_ideal lower (lp_config p') as t'"
    using Cons.prems allow_config [OF st] t'(2) by (intro Cons.IH [of p' "at_time a"]) auto
  with st t'(1) allow_config [OF st] show ?case by simp
qed simp

text \<open>C19: Clean-up is unobservable: with a clock that does not go backwards, the limiter, which throws
  expired entries away, answers every sequence of login attempts exactly like a limiter that keeps every
  entry for ever, so evicting an entry never lets an attempt through that would have been refused.\<close>

theorem login_cleanup_unobservable:
  assumes "new_protector c = Some p" "sorted (map at_time as)"
  shows "run_attempts lower as p = run_ideal lower c as ideal_start"
proof -
  have p: "p = \<lparr>lp_ips = [], lp_pairs = [], lp_slots = 0, lp_config = c, lp_next_gc = 0\<rparr>"
    using assms(1) by (simp add: new_protector_def split: if_splits)
  have "same_from (Min (insert 0 (set (map at_time as)))) p ideal_start"
    by (simp add: same_from_def p ideal_start_def entry_at_def)
  from run_simulates [OF _ this assms(2), of lower] show ?thesis
    by (simp add: p maps_ok_def)
qed

definition demo_attempts :: "attempt list" where
  "demo_attempts = map (\<lambda>t. \<lparr>at_time = t, at_ip = ''1.2.3.4'', at_name = '' Ann''\<rparr>) [1, 2, 3, minute + 5]"

definition demo_config :: protect_config where
  "demo_config = \<lparr>pc_ip_limit = 200, pc_ip_window = minute, pc_pair_limit = 2, pc_pair_window = minute, pc_bcrypt = 2\<rparr>"

lemma login_cleanup_unobservable_witness:
  "run_attempts id demo_attempts \<lparr>lp_ips = [], lp_pairs = [], lp_slots = 0, lp_config = demo_config, lp_next_gc = 0\<rparr>
     = run_ideal id demo_config demo_attempts ideal_start"
  by (rule login_cleanup_unobservable)
     (simp_all add: new_protector_def demo_config_def demo_attempts_def minute_def)

subsection \<open>The limit\<close>

definition attempt_key :: "(string \<Rightarrow> string) \<Rightarrow> attempt \<Rightarrow> string" where
  "attempt_key lower a = pair_key (at_ip a) (normalize_username lower (at_name a))"

text \<open>The number of attempts of a run that were let through and satisfy a predicate.\<close>

definition allowed_count :: "(attempt \<Rightarrow> bool) \<Rightarrow> attempt list \<Rightarrow> protect_error option list \<Rightarrow> nat" where
  "allowed_count P as rs = length (filter (\<lambda>(a, r). r = None \<and> P a) (zip as rs))"

text \<open>
  How many attempts an entry can still let through in a stretch of time that begins at \<open>t0\<close> and is not
  longer than the window: a window that begins within the stretch does not end in it, an older one can end
  and be followed by one more.
\<close>

definition window_room :: "int \<Rightarrow> int \<Rightarrow> window_entry \<Rightarrow> int" where
  "window_room t0 limit e =
     (if we_start e = 0 then limit
      else if t0 \<le> we_start e then max 0 (limit - we_count e)
      else max 0 (limit - we_count e) + limit)"

lemma window_room_bounds:
  "0 < limit \<Longrightarrow> 0 \<le> window_room t0 limit e"
  "0 < limit \<Longrightarrow> 0 \<le> we_count e \<Longrightarrow> window_room t0 limit e \<le> 2 * limit"
  by (auto simp: window_room_def)

lemma window_room_step:
  "0 < limit \<Longrightarrow> 0 < t0 \<Longrightarrow> t0 \<le> now \<Longrightarrow> now < t0 + w \<Longrightarrow> e' = increment_window e now w \<Longrightarrow>
     (if we_count e' \<le> limit then 1 else 0) + window_room t0 limit e' \<le> window_room t0 limit e"
  by (auto simp: window_room_def increment_window_cases)

text \<open>The state of the tables after some attempts.\<close>

definition after_attempts :: "(string \<Rightarrow> string) \<Rightarrow> protect_config \<Rightarrow> attempt list \<Rightarrow> ideal \<Rightarrow> ideal" where
  "after_attempts lower c as t = fold (\<lambda>a t. fst (ideal_allow lower c a t)) as t"

lemma run_ideal_append:
  "run_ideal lower c (as @ bs) t = run_ideal lower c as t @ run_ideal lower c bs (after_attempts lower c as t)"
  by (induction as arbitrary: t) (auto simp: after_attempts_def split: prod.splits)

lemma length_run_ideal [simp]: "length (run_ideal lower c as t) = length as"
  by (induction as arbitrary: t) (auto split: prod.splits)

lemma ideal_allow_cases:
  assumes "ideal_allow lower c a t = (t', r)"
  defines "ip \<equiv> increment_window (fst t (at_ip a)) (at_time a) (pc_ip_window c)"
    and "pair \<equiv> increment_window (snd t (attempt_key lower a)) (at_time a) (pc_pair_window c)"
  shows "fst t' = (fst t)(at_ip a := ip)"
    and "snd t' = (if pc_ip_limit c < we_count ip then snd t else (snd t)(attempt_key lower a := pair))"
    and "r = None \<longleftrightarrow> we_count ip \<le> pc_ip_limit c \<and> we_count pair \<le> pc_pair_limit c"
  using assms by (auto simp: ideal_allow_def Let_def attempt_key_def split: if_splits)

definition counts_ok :: "ideal \<Rightarrow> bool" where
  "counts_ok t \<longleftrightarrow> (\<forall>k. 0 \<le> we_count (fst t k) \<and> 0 \<le> we_count (snd t k))"

lemma counts_ok_step: "counts_ok t \<Longrightarrow> counts_ok (fst (ideal_allow lower c a t))"
  using ideal_allow_cases(1,2) [of lower c a t "fst (ideal_allow lower c a t)" "snd (ideal_allow lower c a t)"]
  by (auto simp: counts_ok_def increment_window_cases)

lemma counts_ok_after: "counts_ok t \<Longrightarrow> counts_ok (after_attempts lower c as t)"
  unfolding after_attempts_def by (induction as arbitrary: t) (simp_all add: counts_ok_step)

lemma allowed_count_Cons:
  "allowed_count P (a # as) (r # rs) = (if r = None \<and> P a then 1 else 0) + allowed_count P as rs"
  by (simp add: allowed_count_def)

lemma pair_limit_stretch:
  assumes "0 < t0" "0 < pc_pair_limit c" "\<forall>a \<in> set as. t0 \<le> at_time a \<and> at_time a < t0 + pc_pair_window c"
  shows "int (allowed_count (\<lambda>a. attempt_key lower a = k) as (run_ideal lower c as t)) \<le> window_room t0 (pc_pair_limit c) (snd t k)"
  using assms(3)
proof (induction as arbitrary: t)
  case Nil
  then show ?case using window_room_bounds(1) [OF assms(2)] by (simp add: allowed_count_def)
next
  case (Cons a as)
  obtain t' r where st: "ideal_allow lower c a t = (t', r)" by (cases "ideal_allow lower c a t") auto
  note cs = ideal_allow_cases [OF st]
  have "(if r = None \<and> attempt_key lower a = k then 1 else 0) + window_room t0 (pc_pair_limit c) (snd t' k)
      \<le> window_room t0 (pc_pair_limit c) (snd t k)"
    using window_room_step [OF assms(2,1) _ _ refl, of "at_time a" "pc_pair_window c" "snd t k"] Cons.prems cs(2,3)
    by (auto split: if_splits)
  moreover have "int (allowed_count (\<lambda>a. attempt_key lower a = k) as (run_ideal lower c as t'))
      \<le> window_room t0 (pc_pair_limit c) (snd t' k)" using Cons by simp
  ultimately show ?case by (auto simp: st allowed_count_Cons split: if_splits)
qed

lemma ip_limit_stretch:
  assumes "0 < t0" "0 < pc_ip_limit c" "\<forall>a \<in> set as. t0 \<le> at_time a \<and> at_time a < t0 + pc_ip_window c"
  shows "int (allowed_count (\<lambda>a. at_ip a = ip) as (run_ideal lower c as t)) \<le> window_room t0 (pc_ip_limit c) (fst t ip)"
  using assms(3)
proof (induction as arbitrary: t)
  case Nil
  then show ?case using window_room_bounds(1) [OF assms(2)] by (simp add: allowed_count_def)
next
  case (Cons a as)
  obtain t' r where st: "ideal_allow lower c a t = (t', r)" by (cases "ideal_allow lower c a t") auto
  note cs = ideal_allow_cases [OF st]
  have "(if r = None \<and> at_ip a = ip then 1 else 0) + window_room t0 (pc_ip_limit c) (fst t' ip)
      \<le> window_room t0 (pc_ip_limit c) (fst t ip)"
    using window_room_step [OF assms(2,1) _ _ refl, of "at_time a" "pc_ip_window c" "fst t ip"] Cons.prems cs(1,3)
    by (auto split: if_splits)
  moreover have "int (allowed_count (\<lambda>a. at_ip a = ip) as (run_ideal lower c as t'))
      \<le> window_room t0 (pc_ip_limit c) (fst t' ip)" using Cons by simp
  ultimately show ?case by (auto simp: st allowed_count_Cons split: if_splits)
qed

text \<open>C13: The limiter stops guessing. In any stretch of time that is shorter than a window, whatever was tried
  before it, at most twice \<open>PairLimit\<close> attempts are let through for a user name (after trimming and
  lower-casing) from one address, and at most twice \<open>IPLimit\<close> from one address over all names, however
  many attempts there are and whatever else is tried in between; twice, because the windows are fixed and
  the stretch can lie across the end of one. From the start of the protector until a window has passed it is
  at most the limit itself. The clock must not step back.\<close>

theorem login_attempts_limited:
  fixes lower :: "string \<Rightarrow> string" and k ip :: string
  assumes p: "new_protector c = Some p" and sorted: "sorted (map at_time (before @ as))"
    and t0: "0 < t0" "\<forall>a \<in> set as. t0 \<le> at_time a"
  defines "answers \<equiv> drop (length before) (run_attempts lower (before @ as) p)"
    and "twice \<equiv> if before = [] then 1 else 2 :: int"
  shows "((\<forall>a \<in> set as. at_time a < t0 + pc_pair_window c) \<longrightarrow>
        int (allowed_count (\<lambda>a. attempt_key lower a = k) as answers) \<le> twice * pc_pair_limit c) \<and>
     ((\<forall>a \<in> set as. at_time a < t0 + pc_ip_window c) \<longrightarrow>
        int (allowed_count (\<lambda>a. at_ip a = ip) as answers) \<le> twice * pc_ip_limit c)"
proof -
  let ?t = "after_attempts lower c before ideal_start"
  have pos: "0 < pc_pair_limit c" "0 < pc_ip_limit c"
    and p': "p = \<lparr>lp_ips = [], lp_pairs = [], lp_slots = 0, lp_config = c, lp_next_gc = 0\<rparr>"
    using p by (auto simp: new_protector_def split: if_splits)
  have "same_from (Min (insert 0 (set (map at_time (before @ as))))) p ideal_start"
    by (simp add: same_from_def p' ideal_start_def entry_at_def)
  moreover have "\<forall>a \<in> set (before @ as). Min (insert 0 (set (map at_time (before @ as)))) \<le> at_time a" by (auto intro!: Min_le)
  ultimately have "run_attempts lower (before @ as) p = run_ideal lower (lp_config p) (before @ as) ideal_start"
    by (intro run_simulates [OF _ _ sorted]) (auto simp: p' maps_ok_def)
  then have run: "answers = run_ideal lower c as ?t" by (simp add: answers_def run_ideal_append p')
  have "counts_ok ?t" by (rule counts_ok_after) (simp add: counts_ok_def ideal_start_def)
  then have counts: "0 \<le> we_count (fst ?t ip)" "0 \<le> we_count (snd ?t k)" by (simp_all add: counts_ok_def)
  have "window_room t0 (pc_pair_limit c) (snd ?t k) \<le> twice * pc_pair_limit c \<and>
    window_room t0 (pc_ip_limit c) (fst ?t ip) \<le> twice * pc_ip_limit c"
  proof (cases "before = []")
    case True
    then show ?thesis by (simp add: twice_def after_attempts_def ideal_start_def window_room_def)
  next
    case False
    with window_room_bounds(2) [OF pos(1) counts(2)] window_room_bounds(2) [OF pos(2) counts(1)]
    show ?thesis by (simp add: twice_def)
  qed
  with pair_limit_stretch [OF t0(1) pos(1), of as lower k ?t] ip_limit_stretch [OF t0(1) pos(2), of as ip lower ?t] t0(2)
  show ?thesis by (fastforce simp: run)
qed

lemma login_attempts_limited_witness:
  "int (allowed_count (\<lambda>a. attempt_key id a = ''x'') (drop 1 (take 3 demo_attempts)) (drop 1 (run_attempts id (take 3 demo_attempts)
     \<lparr>lp_ips = [], lp_pairs = [], lp_slots = 0, lp_config = demo_config, lp_next_gc = 0\<rparr>))) \<le> 4"
proof -
  let ?p = "\<lparr>lp_ips = [], lp_pairs = [], lp_slots = 0, lp_config = demo_config, lp_next_gc = 0\<rparr>"
  let ?a = "take 1 demo_attempts" and ?b = "drop 1 (take 3 demo_attempts)"
  have p: "new_protector demo_config = Some ?p" by (simp add: new_protector_def demo_config_def minute_def)
  have s: "sorted (map at_time (?a @ ?b))" by (simp add: demo_attempts_def)
  have "\<forall>a \<in> set ?b. 1 \<le> at_time a" "\<forall>a \<in> set ?b. at_time a < 1 + pc_pair_window demo_config"
    by (simp_all add: demo_attempts_def demo_config_def minute_def)
  moreover have "?a @ ?b = take 3 demo_attempts" "length ?a = 1" "?a \<noteq> []" by (simp_all add: demo_attempts_def)
  ultimately show ?thesis using login_attempts_limited [OF p s, of 1 id "''x''"] by (simp add: demo_config_def)
qed

text \<open>Password comparisons are bounded: whatever the order of comparisons that start, end or outlive
  their request, no more than the configured number ever run at once, a request is turned away as busy
  only when all slots are taken, and a slot that is taken comes back when the comparison ends.\<close>

theorem bcrypt_slots_bounded:
  assumes "new_protector c = Some p"
  shows "int (lp_slots (fold bcrypt_step evs p)) \<le> pc_bcrypt c \<and>
     (snd (compare_start False pick (fold bcrypt_step evs p)) = StartBusy \<longleftrightarrow>
        int (lp_slots (fold bcrypt_step evs p)) = pc_bcrypt c) \<and>
     (\<forall>q cd pk. snd (compare_start cd pk q) = Started \<longrightarrow>
        compare_finish (fst (compare_start cd pk q)) = q)"
proof -
  have step: "int (lp_slots q) \<le> pc_bcrypt (lp_config q) \<Longrightarrow>
      int (lp_slots (bcrypt_step ev q)) \<le> pc_bcrypt (lp_config q) \<and> lp_config (bcrypt_step ev q) = lp_config q" for ev q
    by (cases ev) (auto simp: bcrypt_step_def compare_start_def compare_finish_def)
  have inv: "int (lp_slots q) \<le> pc_bcrypt (lp_config q) \<Longrightarrow>
      int (lp_slots (fold bcrypt_step evs q)) \<le> pc_bcrypt (lp_config (fold bcrypt_step evs q)) \<and>
      lp_config (fold bcrypt_step evs q) = lp_config q" for q
  proof (induction evs arbitrary: q)
    case (Cons ev evs)
    from Cons.IH [of "bcrypt_step ev q"] step [of q ev] Cons.prems show ?case
      unfolding fold_simps by metis
  qed simp
  have "lp_slots p = 0" "lp_config p = c" "0 < pc_bcrypt c"
    using assms by (auto simp: new_protector_def split: if_splits)
  with inv [of p] show ?thesis by (auto simp: compare_start_def compare_finish_def)
qed

lemma bcrypt_slots_bounded_witness:
  "int (lp_slots (fold bcrypt_step [StartCompare False False, StartCompare False False, StartCompare False False]
     \<lparr>lp_ips = [], lp_pairs = [], lp_slots = 0, lp_config = demo_config, lp_next_gc = 0\<rparr>)) \<le> 2"
proof -
  have "new_protector demo_config = Some \<lparr>lp_ips = [], lp_pairs = [], lp_slots = 0, lp_config = demo_config, lp_next_gc = 0\<rparr>"
    by (simp add: new_protector_def demo_config_def minute_def)
  from bcrypt_slots_bounded [OF this, of "[StartCompare False False, StartCompare False False, StartCompare False False]"]
  have "int (lp_slots (fold bcrypt_step [StartCompare False False, StartCompare False False, StartCompare False False]
     \<lparr>lp_ips = [], lp_pairs = [], lp_slots = 0, lp_config = demo_config, lp_next_gc = 0\<rparr>)) \<le> pc_bcrypt demo_config"
    by (rule conjunct1)
  moreover have "pc_bcrypt demo_config = 2" by (simp add: demo_config_def)
  ultimately show ?thesis by (simp only:)
qed

end
