(* ===== verification/MsgId.thy ===== *)
theory MsgId
  imports Prelude
begin

unbundle bit_operations_syntax

section \<open>Message ids (services/messages/archiver/worker-kafka.go, nextID)\<close>

text \<open>
  A simplified snowflake: 10 low bits of sequence under the milliseconds since \<open>idEpoch\<close>. The clock is
  the list of its readings (in milliseconds); the busy wait of the code consumes readings until one is
  later than the last id's, and has no result (\<open>None\<close>) on a list that has none.
\<close>

definition id_epoch :: int where
  "id_epoch = 1750000000000"

record id_state =
  id_sequence :: int
  id_last_ms :: int

definition id_start :: id_state where
  "id_start = \<lparr>id_sequence = 0, id_last_ms = 0\<rparr>"

fun wait_past :: "int \<Rightarrow> int list \<Rightarrow> (int \<times> int list) option" where
  "wait_past lms [] = None"
| "wait_past lms (t # ts) = (if t \<le> lms then wait_past lms ts else Some (t, ts))"

definition make_id :: "int \<Rightarrow> int \<Rightarrow> int" where
  "make_id now sq = int64_of (push_bit 10 (now - id_epoch) OR sq)"

definition next_id :: "id_state \<Rightarrow> int list \<Rightarrow> (int \<times> id_state \<times> int list) option" where
  "next_id st clock =
     (case clock of
        [] \<Rightarrow> None
      | now # ts \<Rightarrow>
          if now = id_last_ms st then
            (let sq = (id_sequence st + 1) AND 0x3FF
             in if sq = 0 then
                  (case wait_past (id_last_ms st) ts of
                     None \<Rightarrow> None
                   | Some (now', ts') \<Rightarrow> Some (make_id now' 0, \<lparr>id_sequence = 0, id_last_ms = now'\<rparr>, ts'))
                else Some (make_id now sq, \<lparr>id_sequence = sq, id_last_ms = now\<rparr>, ts))
          else Some (make_id now 0, \<lparr>id_sequence = 0, id_last_ms = now\<rparr>, ts))"

fun next_ids :: "nat \<Rightarrow> id_state \<Rightarrow> int list \<Rightarrow> (int list \<times> id_state \<times> int list) option" where
  "next_ids 0 st clock = Some ([], st, clock)"
| "next_ids (Suc n) st clock =
     (case next_id st clock of
        None \<Rightarrow> None
      | Some (i, st', clock') \<Rightarrow> map_option (\<lambda>(is, r). (i # is, r)) (next_ids n st' clock'))"

subsection \<open>Arithmetic of an id\<close>

lemma or_low_bits: "0 \<le> s \<Longrightarrow> s < 1024 \<Longrightarrow> push_bit 10 x OR s = x * 1024 + (s :: int)"
proof -
  assume s: "0 \<le> s" "s < 1024"
  then have t: "take_bit 10 s = s" by (simp add: take_bit_int_eq_self)
  have "push_bit 10 x AND take_bit 10 s = 0"
    by (rule bit_eqI) (auto simp: bit_and_iff bit_push_bit_iff bit_take_bit_iff)
  then have "push_bit 10 x + s = push_bit 10 x OR s"
    using disjunctive_add_eq_or [of "push_bit 10 x" s] by (simp add: t)
  then show ?thesis by (simp add: push_bit_eq_mult)
qed

lemma sequence_mask: "x AND 0x3FF = x mod (1024 :: int)"
proof -
  have "x AND mask 10 = take_bit 10 x" by (simp add: take_bit_eq_mask)
  then show ?thesis by (simp add: mask_eq_exp_minus_1 take_bit_eq_mod)
qed

text \<open>Within the range of the format an id is its time and sequence number.\<close>

definition in_id_range :: "int \<Rightarrow> bool" where
  "in_id_range t \<longleftrightarrow> - (2 ^ 53) \<le> t - id_epoch \<and> t - id_epoch < 2 ^ 53"

lemma make_id_value:
  assumes "in_id_range t" "0 \<le> s" "s < 1024"
  shows "make_id t s = (t - id_epoch) * 1024 + s"
proof -
  have "is_int64 ((t - id_epoch) * 1024 + s)"
    using assms by (simp add: in_id_range_def in_width_def)
  then show ?thesis by (simp add: make_id_def or_low_bits assms wrap_int_id)
qed

definition id_state_ok :: "id_state \<Rightarrow> bool" where
  "id_state_ok st \<longleftrightarrow> 0 \<le> id_sequence st \<and> id_sequence st < 1024"

definition last_id :: "id_state \<Rightarrow> int" where
  "last_id st = (id_last_ms st - id_epoch) * 1024 + id_sequence st"

lemma wait_past_Some:
  "wait_past lms ts = Some (t, ts') \<Longrightarrow> lms < t \<and> (\<exists>us. ts = us @ t # ts')"
proof (induction ts)
  case (Cons u us)
  show ?case
  proof (cases "u \<le> lms")
    case True
    with Cons obtain vs where "lms < t" "us = vs @ t # ts'" by auto
    then show ?thesis by (auto intro: exI [of _ "u # vs"])
  next
    case False
    with Cons.prems show ?thesis by (auto intro: exI [of _ "[]"])
  qed
qed simp

lemma wait_past_total: "\<exists>t \<in> set ts. lms < t \<Longrightarrow> wait_past lms ts \<noteq> None"
  by (induction ts) auto

lemma next_id_spec:
  assumes st: "id_state_ok st" and sorted: "sorted (id_last_ms st # clock)"
    and range: "\<forall>t \<in> set clock. in_id_range t"
    and step: "next_id st clock = Some (i, st', clock')"
  shows "last_id st < i" "i = last_id st'" "id_state_ok st'" "sorted (id_last_ms st' # clock')"
    "set clock' \<subseteq> set clock"
proof -
  from step obtain now ts where clock: "clock = now # ts"
    by (cases clock) (auto simp: next_id_def)
  have now: "in_id_range now" using range clock by simp
  have sq: "0 \<le> id_sequence st" "id_sequence st < 1024" using st by (simp_all add: id_state_ok_def)
  have "last_id st < i \<and> i = last_id st' \<and> id_state_ok st' \<and> sorted (id_last_ms st' # clock') \<and> set clock' \<subseteq> set clock"
  proof (cases "now = id_last_ms st")
    case same: True
    let ?sq = "(id_sequence st + 1) AND 0x3FF"
    show ?thesis
    proof (cases "?sq = 0")
      case True
      with step clock same obtain now' ts' where w: "wait_past (id_last_ms st) ts = Some (now', ts')"
        and r: "i = make_id now' 0" "st' = \<lparr>id_sequence = 0, id_last_ms = now'\<rparr>" "clock' = ts'"
        by (auto simp: next_id_def split: option.splits)
      from wait_past_Some [OF w] obtain us where us: "id_last_ms st < now'" "ts = us @ now' # ts'" by blast
      have "in_id_range now'" using range clock us(2) by simp
      then have "i = (now' - id_epoch) * 1024" using make_id_value [of now' 0] r(1) by simp
      moreover have "sorted (now' # ts')" using sorted clock us(2) by (simp add: sorted_append)
      ultimately show ?thesis
        using us sq r clock by (auto simp: last_id_def id_state_ok_def)
    next
      case False
      then have less: "id_sequence st + 1 < 1024" "?sq = id_sequence st + 1"
        using sq sequence_mask [of "id_sequence st + 1"]
        by (cases "id_sequence st + 1 = 1024"; simp)+
      from False step clock same have r: "i = make_id now ?sq"
        "st' = \<lparr>id_sequence = ?sq, id_last_ms = now\<rparr>" "clock' = ts"
        by (auto simp: next_id_def Let_def)
      have "i = (now - id_epoch) * 1024 + (id_sequence st + 1)"
        using make_id_value [OF now, of "id_sequence st + 1"] less sq r(1) by simp
      then show ?thesis
        using less sq r sorted clock same by (auto simp: last_id_def id_state_ok_def)
    qed
  next
    case False
    with sorted clock have "id_last_ms st < now" by simp
    moreover from False step clock have r: "i = make_id now 0"
        "st' = \<lparr>id_sequence = 0, id_last_ms = now\<rparr>" "clock' = ts"
      by (auto simp: next_id_def)
    moreover have "i = (now - id_epoch) * 1024" using make_id_value [OF now, of 0] r(1) by simp
    ultimately show ?thesis
      using sq sorted clock by (auto simp: last_id_def id_state_ok_def)
  qed
  then show "last_id st < i" "i = last_id st'" "id_state_ok st'" "sorted (id_last_ms st' # clock')"
    "set clock' \<subseteq> set clock" by blast+
qed

lemma next_ids_above:
  "id_state_ok st \<Longrightarrow> sorted (id_last_ms st # clock) \<Longrightarrow> \<forall>t \<in> set clock. in_id_range t \<Longrightarrow>
   next_ids n st clock = Some (is, st', clock') \<Longrightarrow>
   sorted_wrt (<) (last_id st # is) \<and> length is = n"
proof (induction n arbitrary: st clock "is")
  case (Suc n)
  from Suc.prems(4) obtain i st1 clock1 js where
    1: "next_id st clock = Some (i, st1, clock1)" "next_ids n st1 clock1 = Some (js, st', clock')" "is = i # js"
    by (auto split: option.splits prod.splits)
  note s = next_id_spec [OF Suc.prems(1-3) 1(1)]
  have "sorted_wrt (<) (last_id st1 # js) \<and> length js = n"
    using s Suc.prems(3) by (intro Suc.IH [OF _ _ _ 1(2)]) auto
  with s 1(3) show ?case by fastforce
qed simp

text \<open>C20: Message ids are strictly increasing, so no two messages get the same one and their order is the
  order in which the archiver read them: for every number of calls and every clock that does not go
  backwards and stays in the range of the format, including bursts of more than 1024 ids in one
  millisecond, after which the generator waits for the next one.\<close>

theorem message_ids_increase:
  assumes "sorted clock" "\<forall>t \<in> set clock. 0 \<le> t \<and> in_id_range t"
    and "next_ids n id_start clock = Some (is, st', clock')"
  shows "sorted_wrt (<) is \<and> distinct is \<and> length is = n"
proof -
  have "sorted (id_last_ms id_start # clock)" using assms(1,2) by (auto simp: id_start_def)
  moreover have "id_state_ok id_start" by (simp add: id_state_ok_def id_start_def)
  ultimately have "sorted_wrt (<) (last_id id_start # is) \<and> length is = n"
    using next_ids_above [OF _ _ _ assms(3)] assms(2) by blast
  then show ?thesis using strict_sorted_iff [of "is"] by auto
qed

lemma message_ids_increase_witness: "distinct [make_id 1750000000001 0, make_id 1750000000001 1]"
proof -
  have clock: "next_ids 2 id_start [1750000000001, 1750000000001] =
      Some ([make_id 1750000000001 0, make_id 1750000000001 1], \<lparr>id_sequence = 1, id_last_ms = 1750000000001\<rparr>, [])"
    by (simp add: next_id_def id_start_def numeral_2_eq_2)
  from message_ids_increase [OF _ _ clock] show ?thesis by (simp add: in_id_range_def id_epoch_def)
qed

text \<open>C24: The generator always returns: it needs one reading of the clock, and only when a millisecond's
  1024 numbers are used up does it wait, until the first later reading and no longer. The wait is not a
  deadlock and not an endless loop as soon as the clock moves.\<close>

theorem next_id_returns:
  assumes "\<exists>t \<in> set ts. id_last_ms st < t"
  shows "\<exists>i st' rest. next_id st (now # ts) = Some (i, st', rest) \<and>
     (now \<noteq> id_last_ms st \<or> (id_sequence st + 1) mod 1024 \<noteq> 0 \<longrightarrow> rest = ts) \<and>
     (now = id_last_ms st \<and> (id_sequence st + 1) mod 1024 = 0 \<longrightarrow>
        id_last_ms st < id_last_ms st' \<and>
        (\<exists>us. ts = us @ id_last_ms st' # rest \<and> (\<forall>u \<in> set us. u \<le> id_last_ms st)))"
proof -
  have first: "wait_past lms xs = Some (t, xs') \<Longrightarrow>
      \<exists>us. xs = us @ t # xs' \<and> (\<forall>u \<in> set us. u \<le> lms)" for lms t xs xs'
  proof (induction xs)
    case (Cons u us)
    show ?case
    proof (cases "u \<le> lms")
      case True
      with Cons obtain vs where "us = vs @ t # xs'" "\<forall>v \<in> set vs. v \<le> lms" by auto
      with True show ?thesis by (auto intro: exI [of _ "u # vs"])
    next
      case False
      with Cons.prems show ?thesis by (auto intro: exI [of _ "[]"])
    qed
  qed simp
  obtain t ts' where w: "wait_past (id_last_ms st) ts = Some (t, ts')"
    using wait_past_total [OF assms] by auto
  show ?thesis
    using wait_past_Some [OF w] first [OF w] w
    by (auto simp: next_id_def Let_def sequence_mask)
qed

lemma next_id_returns_witness:
  "\<exists>i st' rest. next_id \<lparr>id_sequence = 1023, id_last_ms = 7\<rparr> [7, 7, 7, 8, 9] = Some (i, st', rest) \<and> 7 < id_last_ms st'"
  using next_id_returns [of "[7, 7, 8, 9]" "\<lparr>id_sequence = 1023, id_last_ms = 7\<rparr>" 7] by auto

text \<open>When the clock steps back (an NTP correction), the generator has no memory of the later time: it
  restarts the sequence at 0 and, once the clock reaches the old time again, hands out an id for the
  second time.\<close>

theorem clock_step_back_repeats_id:
  assumes "t0 \<noteq> id_last_ms st" "t1 \<noteq> t0"
  shows "\<exists>st' i j. next_ids 3 st [t0, t1, t0] = Some ([i, j, i], st', [])"
  using assms by (simp add: next_id_def numeral_3_eq_3)

lemma clock_step_back_repeats_id_witness:
  "\<exists>st' i j. next_ids 3 id_start [1750000000010, 1750000000009, 1750000000010] = Some ([i, j, i], st', [])"
  using clock_step_back_repeats_id [of 1750000000010 id_start 1750000000009] by (simp add: id_start_def)

end
