(* ===== verification/Redis.thy ===== *)
theory Redis
  imports GoStrings
begin

section \<open>The Redis commands the program issues\<close>

text \<open>
  Redis is not part of the repository. It is a record of the calls the program makes, given as an
  argument to the operations that use it; \<open>redis_laws\<close> states the documented effect of the commands
  on a view of the key space, with expiry (times are milliseconds). A call that fails has executed
  some prefix of its commands. A Lua script runs atomically; here it is the choice of commands made
  from the value of its key.
\<close>

datatype redis_value = RStr string | RList "string list"

type_synonym redis_view = "string \<Rightarrow> (redis_value \<times> int option) option"

datatype redis_cmd =
    RSet string string int
  | RDel string
  | RExpire string int
  | RLPush string string
  | RLTrim string int int

datatype redis_error = RedisNil | RedisDown

definition purge :: "int \<Rightarrow> redis_view \<Rightarrow> redis_view" where
  "purge now st k =
     (case st k of
        Some (v, Some d) \<Rightarrow> if d \<le> now then None else st k
      | e \<Rightarrow> e)"

definition range_index :: "nat \<Rightarrow> int \<Rightarrow> int" where
  "range_index n i = (if i < 0 then i + int n else i)"

definition lrange :: "int \<Rightarrow> int \<Rightarrow> 'a list \<Rightarrow> 'a list" where
  "lrange a b xs =
     (let a' = nat (range_index (length xs) a)
      in take (nat (range_index (length xs) b + 1) - a') (drop a' xs))"

fun redis_apply :: "int \<Rightarrow> redis_cmd \<Rightarrow> redis_view \<Rightarrow> redis_view" where
  "redis_apply now (RSet k v ttl) st =
     (purge now st)(k := Some (RStr v, if ttl = 0 then None else Some (now + ttl)))"
| "redis_apply now (RDel k) st = (purge now st)(k := None)"
| "redis_apply now (RExpire k ttl) st =
     (case purge now st k of
        None \<Rightarrow> purge now st
      | Some (v, _) \<Rightarrow> (purge now st)(k := Some (v, Some (now + ttl))))"
| "redis_apply now (RLPush k v) st =
     (case purge now st k of
        None \<Rightarrow> (purge now st)(k := Some (RList [v], None))
      | Some (RList xs, d) \<Rightarrow> (purge now st)(k := Some (RList (v # xs), d))
      | Some (RStr _, _) \<Rightarrow> purge now st)"
| "redis_apply now (RLTrim k a b) st =
     (case purge now st k of
        Some (RList xs, d) \<Rightarrow>
          (purge now st)(k := (if lrange a b xs = [] then None else Some (RList (lrange a b xs), d)))
      | _ \<Rightarrow> purge now st)"

abbreviation redis_run :: "int \<Rightarrow> redis_cmd list \<Rightarrow> redis_view \<Rightarrow> redis_view" where
  "redis_run now cmds st \<equiv> fold (redis_apply now) cmds st"

definition get_string :: "int \<Rightarrow> redis_view \<Rightarrow> string \<Rightarrow> string option" where
  "get_string now st k = (case purge now st k of Some (RStr v, _) \<Rightarrow> Some v | _ \<Rightarrow> None)"

definition get_list :: "int \<Rightarrow> redis_view \<Rightarrow> string \<Rightarrow> string list" where
  "get_list now st k = (case purge now st k of Some (RList xs, _) \<Rightarrow> xs | _ \<Rightarrow> [])"

record 'r redis =
  rd_get :: "int \<Rightarrow> string \<Rightarrow> 'r \<Rightarrow> redis_error + string"
  rd_lrange :: "int \<Rightarrow> string \<Rightarrow> int \<Rightarrow> int \<Rightarrow> 'r \<Rightarrow> redis_error + string list"
  rd_exec :: "int \<Rightarrow> redis_cmd list \<Rightarrow> 'r \<Rightarrow> 'r \<times> bool"
  rd_eval :: "int \<Rightarrow> string \<Rightarrow> (string option \<Rightarrow> redis_cmd list) \<Rightarrow> 'r \<Rightarrow> 'r \<times> bool"

definition redis_laws :: "('r \<Rightarrow> redis_view) \<Rightarrow> 'r redis \<Rightarrow> bool" where
  "redis_laws view rd \<longleftrightarrow>
     (\<forall>now k s v. rd_get rd now k s = Inr v \<longrightarrow> get_string now (view s) k = Some v) \<and>
     (\<forall>now k s. rd_get rd now k s = Inl RedisNil \<longrightarrow> purge now (view s) k = None) \<and>
     (\<forall>now k a b s xs. rd_lrange rd now k a b s = Inr xs \<longrightarrow> xs = lrange a b (get_list now (view s) k)) \<and>
     (\<forall>now cmds s s'. rd_exec rd now cmds s = (s', True) \<longrightarrow> view s' = redis_run now cmds (view s)) \<and>
     (\<forall>now cmds s s'. rd_exec rd now cmds s = (s', False) \<longrightarrow>
        (\<exists>n. view s' = redis_run now (take n cmds) (view s))) \<and>
     (\<forall>now k scr s s'. rd_eval rd now k scr s = (s', True) \<longrightarrow>
        view s' = redis_run now (scr (get_string now (view s) k)) (view s)) \<and>
     (\<forall>now k scr s s'. rd_eval rd now k scr s = (s', False) \<longrightarrow>
        (\<exists>n. view s' = redis_run now (take n (scr (get_string now (view s) k))) (view s)))"

lemma redis_lawsD:
  assumes "redis_laws view rd"
  shows "rd_get rd now k s = Inr v \<Longrightarrow> get_string now (view s) k = Some v"
    and "rd_get rd now k s = Inl RedisNil \<Longrightarrow> purge now (view s) k = None"
    and "rd_lrange rd now k a b s = Inr xs \<Longrightarrow> xs = lrange a b (get_list now (view s) k)"
    and "rd_exec rd now cmds s = (s', True) \<Longrightarrow> view s' = redis_run now cmds (view s)"
    and "rd_eval rd now k scr s = (s', True) \<Longrightarrow>
        view s' = redis_run now (scr (get_string now (view s) k)) (view s)"
proof -
  note laws = assms [unfolded redis_laws_def]
  show "rd_get rd now k s = Inr v \<Longrightarrow> get_string now (view s) k = Some v" using laws by simp
  show "rd_get rd now k s = Inl RedisNil \<Longrightarrow> purge now (view s) k = None" using laws by simp
  show "rd_lrange rd now k a b s = Inr xs \<Longrightarrow> xs = lrange a b (get_list now (view s) k)" using laws by simp
  show "rd_exec rd now cmds s = (s', True) \<Longrightarrow> view s' = redis_run now cmds (view s)" using laws by simp
  show "rd_eval rd now k scr s = (s', True) \<Longrightarrow> view s' = redis_run now (scr (get_string now (view s) k)) (view s)"
    using laws by simp
qed

lemma purge_purge: "now \<le> now' \<Longrightarrow> purge now' (purge now st) = purge now' st"
  by (auto simp: fun_eq_iff purge_def split: option.splits)

lemma purge_idem [simp]: "purge now (purge now st) = purge now st"
  by (simp add: purge_purge)

lemma purge_upd:
  "purge now (st(k := e)) = (purge now st)(k := purge now (\<lambda>_. e) k)"
  by (auto simp: fun_eq_iff purge_def split: option.splits)

lemma purge_const [simp]:
  "purge now (\<lambda>_. None) k = None"
  "purge now (\<lambda>_. Some (v, None)) k = Some (v, None)"
  "purge now (\<lambda>_. Some (v, Some d)) k = (if d \<le> now then None else Some (v, Some d))"
  by (simp_all add: purge_def)

lemma purge_cong: "f k = g k \<Longrightarrow> purge now f k = purge now g k"
  by (auto simp: purge_def split: option.splits)

lemma purge_after: "t \<le> now \<Longrightarrow> f k = purge t st k \<Longrightarrow> purge now f k = purge now st k"
  by (metis purge_cong purge_purge)

text \<open>A command on one key leaves the live entries of the others alone.\<close>

fun cmd_key :: "redis_cmd \<Rightarrow> string" where
  "cmd_key (RSet k _ _) = k"
| "cmd_key (RDel k) = k"
| "cmd_key (RExpire k _) = k"
| "cmd_key (RLPush k _) = k"
| "cmd_key (RLTrim k _ _) = k"

lemma redis_apply_other: "cmd_key c \<noteq> k \<Longrightarrow> redis_apply now c st k = purge now st k"
  by (cases c) (auto split: option.splits redis_value.splits)

lemma redis_run_other:
  "\<forall>c \<in> set cmds. cmd_key c \<noteq> k \<Longrightarrow> t \<le> now \<Longrightarrow> purge now (redis_run t cmds st) k = purge now st k"
proof (induction cmds arbitrary: st)
  case (Cons c cmds)
  then show ?case using purge_after [of t now "redis_apply t c st" k st] redis_apply_other [of c k t st] by simp
qed simp

lemma redis_apply_cong:
  "cmd_key c = k \<Longrightarrow> purge now st k = purge now st' k \<Longrightarrow> redis_apply now c st k = redis_apply now c st' k"
  by (cases c) (auto split: option.splits redis_value.splits)

lemma lrange_head: "0 \<le> b \<Longrightarrow> lrange 0 b xs = take (nat (b + 1)) xs"
  by (simp add: lrange_def range_index_def)

text \<open>A key space that never fails meets the laws.\<close>

definition sample_redis :: "redis_view redis" where
  "sample_redis =
     \<lparr>rd_get = (\<lambda>now k s. case purge now s k of Some (RStr v, _) \<Rightarrow> Inr v | None \<Rightarrow> Inl RedisNil | _ \<Rightarrow> Inl RedisDown),
      rd_lrange = (\<lambda>now k a b s. Inr (lrange a b (get_list now s k))),
      rd_exec = (\<lambda>now cmds s. (redis_run now cmds s, True)),
      rd_eval = (\<lambda>now k scr s. (redis_run now (scr (get_string now s k)) s, True))\<rparr>"

lemma sample_redis_laws: "redis_laws id sample_redis"
  unfolding redis_laws_def sample_redis_def
  by (auto simp: get_string_def split: option.splits redis_value.splits)

end
