(* ===== verification/Presence.thy ===== *)
theory Presence
  imports Redis
begin

section \<open>Online state in Redis (cache/redisconfig.go)\<close>

text \<open>
  The key of a user holds the owner of the online state, the node and the connection that set it,
  and expires unless the connection's heartbeat renews it. Taking over is a plain write; renewing
  and leaving are scripts that act only while the connection still is the owner.
\<close>

definition online_prefix :: string where
  "online_prefix = ''im:user:online:''"

definition online_ttl :: int where
  "online_ttl = 60000"

definition online_key :: "int \<Rightarrow> string" where
  "online_key u = online_prefix @ format_int u"

definition online_owner :: "string \<Rightarrow> string \<Rightarrow> string" where
  "online_owner node conn = node @ '':'' @ conn"

definition set_user_online :: "'r redis \<Rightarrow> int \<Rightarrow> int \<Rightarrow> string \<Rightarrow> 'r \<Rightarrow> 'r \<times> bool" where
  "set_user_online rd now u node = rd_exec rd now [RSet (online_key u) node online_ttl]"

definition set_user_connection_online ::
    "'r redis \<Rightarrow> int \<Rightarrow> int \<Rightarrow> string \<Rightarrow> string \<Rightarrow> 'r \<Rightarrow> 'r \<times> bool" where
  "set_user_connection_online rd now u node conn =
     rd_exec rd now [RSet (online_key u) (online_owner node conn) online_ttl]"

definition set_user_offline :: "'r redis \<Rightarrow> int \<Rightarrow> int \<Rightarrow> 'r \<Rightarrow> 'r \<times> bool" where
  "set_user_offline rd now u = rd_exec rd now [RDel (online_key u)]"

definition delete_owned_script :: "string \<Rightarrow> string \<Rightarrow> string option \<Rightarrow> redis_cmd list" where
  "delete_owned_script key owner v = (if v = Some owner then [RDel key] else [])"

definition set_user_connection_offline ::
    "'r redis \<Rightarrow> int \<Rightarrow> int \<Rightarrow> string \<Rightarrow> string \<Rightarrow> 'r \<Rightarrow> 'r \<times> bool" where
  "set_user_connection_offline rd now u node conn =
     rd_eval rd now (online_key u) (delete_owned_script (online_key u) (online_owner node conn))"

definition renew_user_online :: "'r redis \<Rightarrow> int \<Rightarrow> int \<Rightarrow> 'r \<Rightarrow> 'r \<times> bool" where
  "renew_user_online rd now u = rd_exec rd now [RExpire (online_key u) online_ttl]"

definition renew_owned_script :: "string \<Rightarrow> string \<Rightarrow> int \<Rightarrow> string option \<Rightarrow> redis_cmd list" where
  "renew_owned_script key owner ttl v = (if v = Some owner then [RExpire key ttl] else [])"

definition renew_user_connection_online ::
    "'r redis \<Rightarrow> int \<Rightarrow> int \<Rightarrow> string \<Rightarrow> string \<Rightarrow> 'r \<Rightarrow> 'r \<times> bool" where
  "renew_user_connection_online rd now u node conn =
     rd_eval rd now (online_key u) (renew_owned_script (online_key u) (online_owner node conn) online_ttl)"

text \<open>Every error of the read counts as offline.\<close>

definition check_user_online :: "'r redis \<Rightarrow> int \<Rightarrow> int \<Rightarrow> 'r \<Rightarrow> bool \<times> string" where
  "check_user_online rd now u s =
     (case rd_get rd now (online_key u) s of Inl _ \<Rightarrow> (False, []) | Inr v \<Rightarrow> (True, v))"

text \<open>
  The pipelined reads. The pipeline's error is the first error of its commands; a missing key is not
  an error of the call, any other error makes the whole answer empty.
\<close>

definition first_error :: "('e + 'a) list \<Rightarrow> 'e option" where
  "first_error rs = (case filter isl rs of [] \<Rightarrow> None | r # _ \<Rightarrow> Some (projl r))"

definition check_users_online ::
    "'r redis \<Rightarrow> int \<Rightarrow> int list \<Rightarrow> 'r \<Rightarrow> (int \<times> bool) list \<times> redis_error option" where
  "check_users_online rd now us s =
     (if us = [] then ([], None)
      else (let rs = map (\<lambda>u. rd_get rd now (online_key u) s) us
            in case first_error rs of
                 Some RedisDown \<Rightarrow> ([], Some RedisDown)
               | _ \<Rightarrow> (fold (\<lambda>(u, r). gm_put u (\<not> isl r)) (zip us rs) [], None)))"

subsection \<open>Who is online, abstractly\<close>

datatype presence_event =
    GoOnline int "string \<times> string"
  | GoOffline int "string \<times> string"
  | Heartbeat int "string \<times> string"

fun event_user :: "presence_event \<Rightarrow> int" where
  "event_user (GoOnline u _) = u"
| "event_user (GoOffline u _) = u"
| "event_user (Heartbeat u _) = u"

fun event_conn :: "presence_event \<Rightarrow> string \<times> string" where
  "event_conn (GoOnline _ c) = c"
| "event_conn (GoOffline _ c) = c"
| "event_conn (Heartbeat _ c) = c"

fun presence_step :: "'r redis \<Rightarrow> int \<times> presence_event \<Rightarrow> 'r \<Rightarrow> 'r \<times> bool" where
  "presence_step rd (now, GoOnline u (n, c)) = set_user_connection_online rd now u n c"
| "presence_step rd (now, GoOffline u (n, c)) = set_user_connection_offline rd now u n c"
| "presence_step rd (now, Heartbeat u (n, c)) = renew_user_connection_online rd now u n c"

fun presence_run :: "'r redis \<Rightarrow> (int \<times> presence_event) list \<Rightarrow> 'r \<Rightarrow> 'r option" where
  "presence_run rd [] s = Some s"
| "presence_run rd (e # es) s = (case presence_step rd e s of (s', ok) \<Rightarrow> if ok then presence_run rd es s' else None)"

text \<open>The specification for one user: the connection that is online and the end of its lease.\<close>

type_synonym lease = "((string \<times> string) \<times> int) option"

definition lease_at :: "int \<Rightarrow> lease \<Rightarrow> lease" where
  "lease_at now l = (case l of Some (c, d) \<Rightarrow> if d \<le> now then None else l | None \<Rightarrow> None)"

fun lease_step :: "int \<Rightarrow> int \<times> presence_event \<Rightarrow> lease \<Rightarrow> lease" where
  "lease_step u (now, GoOnline u' c) l = (if u' = u then Some (c, now + online_ttl) else l)"
| "lease_step u (now, GoOffline u' c) l =
     (if u' = u \<and> map_option fst (lease_at now l) = Some c then None else l)"
| "lease_step u (now, Heartbeat u' c) l =
     (if u' = u \<and> map_option fst (lease_at now l) = Some c then Some (c, now + online_ttl) else l)"

definition owner_entry :: "lease \<Rightarrow> (redis_value \<times> int option) option" where
  "owner_entry l = map_option (\<lambda>((n, c), d). (RStr (online_owner n c), Some d)) l"

definition conn_ok :: "string \<times> string \<Rightarrow> bool" where
  "conn_ok c \<longleftrightarrow> CHR '':'' \<notin> set (snd c)"

lemma online_owner_inj:
  assumes "conn_ok (n, c)" "conn_ok (n', c')"
  shows "online_owner n c = online_owner n' c' \<longleftrightarrow> n = n' \<and> c = c'"
proof
  assume "online_owner n c = online_owner n' c'"
  then have "rev (n @ '':'' @ c) = rev (n' @ '':'' @ c')" by (simp add: online_owner_def)
  then have eq: "rev c @ CHR '':'' # rev n = rev c' @ CHR '':'' # rev n'" by simp
  have colon: "takeWhile (\<lambda>x. x \<noteq> CHR '':'') (rev a @ CHR '':'' # b) = rev a" if "CHR '':'' \<notin> set a" for a b
    using that by (subst takeWhile_append2) auto
  have "rev c = rev c'"
    using colon [of c "rev n"] colon [of c' "rev n'"] assms by (simp add: eq conn_ok_def)
  with eq show "n = n' \<and> c = c'" by simp
qed simp

lemma online_key_inj: "is_int64 u \<Longrightarrow> is_int64 v \<Longrightarrow> online_key u = online_key v \<longleftrightarrow> u = v"
  using format_int_inj [of u v] by (auto simp: online_key_def)

text \<open>The lease is what the key of the user holds.\<close>

definition leases :: "redis_view \<Rightarrow> int \<Rightarrow> (int \<Rightarrow> lease) \<Rightarrow> bool" where
  "leases st now ls \<longleftrightarrow> (\<forall>u now'. is_int64 u \<longrightarrow> now \<le> now' \<longrightarrow>
     purge now' st (online_key u) = owner_entry (lease_at now' (ls u))) \<and>
     (\<forall>u c d. ls u = Some (c, d) \<longrightarrow> conn_ok c)"

lemma lease_at_Some: "lease_at now l = Some x \<Longrightarrow> l = Some x"
  by (auto simp: lease_at_def split: option.splits if_splits)

lemma lease_string:
  "leases st now ls \<Longrightarrow> is_int64 u \<Longrightarrow> now \<le> t \<Longrightarrow>
     get_string t st (online_key u) = map_option (\<lambda>((n, c), d). online_owner n c) (lease_at t (ls u))"
  by (auto simp: leases_def get_string_def owner_entry_def split: option.splits)

lemma lease_owner:
  assumes "leases st now ls" "is_int64 u" "now \<le> t" "conn_ok (n, c)"
  shows "get_string t st (online_key u) = Some (online_owner n c) \<longleftrightarrow>
    map_option fst (lease_at t (ls u)) = Some (n, c)"
proof -
  have ok: "conn_ok (n', c')" if "lease_at t (ls u) = Some ((n', c'), d)" for n' c' d
    using assms(1) lease_at_Some [OF that] unfolding leases_def by blast
  show ?thesis
    using lease_string [OF assms(1-3)] online_owner_inj [OF ok assms(4)]
    by (cases "lease_at t (ls u)") auto
qed

lemma lease_step_conn:
  "conn_ok (event_conn e) \<Longrightarrow> (\<forall>c d. l = Some (c, d) \<longrightarrow> conn_ok c) \<Longrightarrow>
     lease_step u (t, e) l = Some (c, d) \<Longrightarrow> conn_ok c"
  by (cases e; cases l; cases c) (auto split: if_splits)

lemma lease_step_other: "event_user e \<noteq> u \<Longrightarrow> lease_step u (t, e) l = l"
  by (cases e) auto

text \<open>The commands an event runs on the key of its user.\<close>

fun event_cmds :: "presence_event \<Rightarrow> string option \<Rightarrow> redis_cmd list" where
  "event_cmds (GoOnline u (n, c)) v = [RSet (online_key u) (online_owner n c) online_ttl]"
| "event_cmds (GoOffline u (n, c)) v = delete_owned_script (online_key u) (online_owner n c) v"
| "event_cmds (Heartbeat u (n, c)) v = renew_owned_script (online_key u) (online_owner n c) online_ttl v"

lemma presence_step_view:
  assumes "redis_laws view rd" "presence_step rd (t, e) s = (s', True)"
  shows "view s' = redis_run t (event_cmds e (get_string t (view s) (online_key (event_user e)))) (view s)"
  using assms
  by (cases e) (auto simp: set_user_connection_online_def set_user_connection_offline_def
      renew_user_connection_online_def dest: redis_lawsD)

lemma event_cmds_key: "\<forall>c \<in> set (event_cmds e v). cmd_key c = online_key (event_user e)"
  by (cases e) (auto simp: delete_owned_script_def renew_owned_script_def)

lemma event_cmds_other:
  "online_key (event_user e) \<noteq> k \<Longrightarrow> t \<le> now \<Longrightarrow> purge now (redis_run t (event_cmds e v) st) k = purge now st k"
  using event_cmds_key [of e v] by (auto intro: redis_run_other)

lemma event_cmds_own:
  assumes ls: "leases st now ls" and u: "is_int64 (event_user e)" and t: "now \<le> t" "t \<le> now'"
    and ok: "conn_ok (event_conn e)"
  defines "k \<equiv> online_key (event_user e)"
  shows "purge now' (redis_run t (event_cmds e (get_string t st k)) st) k =
    owner_entry (lease_at now' (lease_step (event_user e) (t, e) (ls (event_user e))))"
proof -
  obtain n c where c: "event_conn e = (n, c)" by (cases "event_conn e")
  note own = lease_owner [OF ls u t(1) ok [unfolded c]]
  have old: "purge now' st k = owner_entry (lease_at now' (ls (event_user e)))"
    using ls u t by (auto simp: leases_def k_def)
  have now: "purge t st k = owner_entry (lease_at t (ls (event_user e)))"
    using ls u t by (auto simp: leases_def k_def)
  show ?thesis
  proof (cases e)
    case (GoOnline u' c')
    then show ?thesis using c by (simp add: k_def purge_upd owner_entry_def lease_at_def online_ttl_def)
  next
    case (GoOffline u' c')
    then show ?thesis
      using c own old by (auto simp: k_def delete_owned_script_def purge_upd owner_entry_def lease_at_def [of _ None])
  next
    case (Heartbeat u' c')
    show ?thesis
    proof (cases "map_option fst (lease_at t (ls (event_user e))) = Some (n, c)")
      case True
      then obtain d where "lease_at t (ls (event_user e)) = Some ((n, c), d)" by auto
      then show ?thesis
        using Heartbeat c own now True
        by (simp add: k_def renew_owned_script_def purge_upd owner_entry_def lease_at_def [of now'])
    next
      case False
      then show ?thesis using Heartbeat c own old by (simp add: k_def renew_owned_script_def)
    qed
  qed
qed

lemma presence_step_leases:
  assumes laws: "redis_laws view rd" and ls: "leases (view s) now ls" and t: "now \<le> t"
    and u: "is_int64 (event_user e)" and ok: "conn_ok (event_conn e)"
    and st: "presence_step rd (t, e) s = (s', True)"
  shows "leases (view s') t (\<lambda>u. lease_step u (t, e) (ls u))"
proof -
  let ?v = "get_string t (view s) (online_key (event_user e))"
  have v: "view s' = redis_run t (event_cmds e ?v) (view s)" by (rule presence_step_view [OF laws st])
  have "purge now' (view s') (online_key w) = owner_entry (lease_at now' (lease_step w (t, e) (ls w)))"
    if "is_int64 w" "t \<le> now'" for w now'
  proof (cases "w = event_user e")
    case True
    then show ?thesis using event_cmds_own [OF ls u t that(2) ok] v by simp
  next
    case False
    then have "online_key (event_user e) \<noteq> online_key w" using online_key_inj u that(1) by blast
    then have "purge now' (view s') (online_key w) = purge now' (view s) (online_key w)"
      using event_cmds_other [OF _ that(2)] v by simp
    then show ?thesis using ls that t False by (simp add: leases_def lease_step_other)
  qed
  moreover have "conn_ok c" if "lease_step w (t, e) (ls w) = Some (c, d)" for w c d
    using lease_step_conn [OF ok _ that] ls by (auto simp: leases_def)
  ultimately show ?thesis by (simp add: leases_def)
qed

definition events_ok :: "int \<Rightarrow> (int \<times> presence_event) list \<Rightarrow> bool" where
  "events_ok t0 evs \<longleftrightarrow> sorted (map fst evs) \<and>
     list_all (\<lambda>(t, e). t0 \<le> t \<and> is_int64 (event_user e) \<and> conn_ok (event_conn e)) evs"

lemma presence_run_leases:
  "redis_laws view rd \<Longrightarrow> leases (view s) t0 ls \<Longrightarrow> events_ok t0 evs \<Longrightarrow> presence_run rd evs s = Some s' \<Longrightarrow>
     t0 \<le> now \<Longrightarrow> (\<forall>te \<in> set evs. fst te \<le> now) \<Longrightarrow>
     leases (view s') now (\<lambda>u. fold (lease_step u) evs (ls u))"
proof (induction evs arbitrary: s t0 ls)
  case Nil
  then show ?case by (auto simp: leases_def)
next
  case (Cons te evs)
  obtain t e where te: "te = (t, e)" by (cases te)
  from Cons.prems(4) obtain s1 where 1: "presence_step rd (t, e) s = (s1, True)" "presence_run rd evs s1 = Some s'"
    by (auto simp: te split: prod.splits if_splits)
  have ok: "t0 \<le> t" "is_int64 (event_user e)" "conn_ok (event_conn e)"
    using Cons.prems(3) by (auto simp: events_ok_def te)
  have "events_ok t evs" using Cons.prems(3) by (auto simp: events_ok_def te list_all_iff)
  from Cons.IH [OF Cons.prems(1) presence_step_leases [OF Cons.prems(1,2) ok 1(1)] this 1(2)] Cons.prems(6)
  show ?case by (simp add: te)
qed

lemma no_leases: "(\<And>k. st k = None) \<Longrightarrow> leases st now (\<lambda>_. None)"
  by (simp add: leases_def purge_def owner_entry_def lease_at_def)

subsection \<open>Property\<close>

text \<open>C7: The online state follows the newest connection: after any sequence of logins, heartbeats and
  disconnects of any users and connections, interleaved in any order, a user is reported online exactly
  while the lease of the connection that logged in last is held and not expired, with that connection
  as the owner. The late heartbeat or disconnect of an older connection changes nothing.\<close>

theorem presence_follows_newest_connection:
  assumes laws: "redis_laws view rd" and empty: "\<And>k. view s k = None"
    and evs: "events_ok t0 evs" and run: "presence_run rd evs s = Some s'"
    and now: "t0 \<le> now" "\<forall>te \<in> set evs. fst te \<le> now"
    and u: "is_int64 u" and up: "rd_get rd now (online_key u) s' \<noteq> Inl RedisDown"
  shows "check_user_online rd now u s' =
    (case lease_at now (fold (lease_step u) evs None) of
       None \<Rightarrow> (False, [])
     | Some ((node, conn), _) \<Rightarrow> (True, online_owner node conn))"
proof -
  let ?l = "lease_at now (fold (lease_step u) evs None)"
  have ls: "leases (view s') now (\<lambda>u. fold (lease_step u) evs None)"
    using presence_run_leases [OF laws no_leases [of "view s" t0] evs run now] empty by simp
  have entry: "purge now (view s') (online_key u) = owner_entry ?l" using ls u by (simp add: leases_def)
  show ?thesis
  proof (cases "rd_get rd now (online_key u) s'")
    case (Inl e)
    with up have "rd_get rd now (online_key u) s' = Inl RedisNil" by (cases e) auto
    with redis_lawsD(2) [OF laws this] entry show ?thesis
      by (auto simp: check_user_online_def owner_entry_def split: option.splits)
  next
    case (Inr v)
    with redis_lawsD(1) [OF laws this] entry show ?thesis
      by (auto simp: check_user_online_def owner_entry_def get_string_def split: option.splits)
  qed
qed

definition demo_presence :: "(int \<times> presence_event) list" where
  "demo_presence =
     [(0, GoOnline 7 (''a'', ''1'')), (50000, GoOnline 7 (''b'', ''2'')), (50001, GoOffline 7 (''a'', ''1'')),
      (55000, Heartbeat 7 (''a'', ''1'')), (100000, Heartbeat 7 (''b'', ''2''))]"

lemma presence_follows_newest_connection_witness:
  "check_user_online sample_redis 155000 7 (the (presence_run sample_redis demo_presence (\<lambda>_. None))) = (True, ''b:2'') \<and>
   check_user_online sample_redis 160000 7 (the (presence_run sample_redis demo_presence (\<lambda>_. None))) = (False, [])"
proof -
  have run: "presence_run sample_redis demo_presence (\<lambda>_. None) =
      Some (the (presence_run sample_redis demo_presence (\<lambda>_. None)))"
    by (simp add: demo_presence_def sample_redis_def set_user_connection_online_def
        set_user_connection_offline_def renew_user_connection_online_def)
  have ok: "events_ok 0 demo_presence" by (simp add: events_ok_def demo_presence_def in_width_def conn_ok_def)
  have up: "rd_get sample_redis now (online_key 7) (the (presence_run sample_redis demo_presence (\<lambda>_. None)))
      \<noteq> Inl RedisDown" if "now \<in> {155000, 160000}" for now
  proof -
    have "leases (the (presence_run sample_redis demo_presence (\<lambda>_. None))) now
        (\<lambda>u. fold (lease_step u) demo_presence None)"
      using presence_run_leases [OF sample_redis_laws no_leases [of "id (\<lambda>_. None)" 0] ok run, of now] that
      by (auto simp: demo_presence_def)
    then have "purge now (the (presence_run sample_redis demo_presence (\<lambda>_. None))) (online_key 7) =
        owner_entry (lease_at now (fold (lease_step 7) demo_presence None))"
      by (auto simp: leases_def in_width_def)
    then show ?thesis by (auto simp: sample_redis_def owner_entry_def split: option.splits)
  qed
  note p = presence_follows_newest_connection [OF sample_redis_laws _ ok run, where u = 7]
  show ?thesis
    using p [of 155000] p [of 160000] up
    by (simp add: demo_presence_def in_width_def lease_at_def online_ttl_def online_owner_def)
qed

end
