(* ===== verification/RoomCache.thy ===== *)
theory RoomCache
  imports Redis Message
begin

section \<open>The latest messages of a room in Redis (cache/redisconfig.go, the archiver's writer)\<close>

text \<open>
  A list per room, newest first, of at most \<open>room_latest_max\<close> JSON messages. The archiver pushes what
  it has stored, a history request that missed pushes the page it read. The JSON form of a time is the
  pair of parameters \<open>tj\<close> (\<open>MarshalJSON\<close>) and \<open>tp\<close> (\<open>UnmarshalJSON\<close>, on the text between the quotes).
\<close>

definition room_latest_prefix :: string where
  "room_latest_prefix = ''im:room:latest:''"

definition room_latest_ttl :: int where
  "room_latest_ttl = 1800000"

definition room_latest_max :: int where
  "room_latest_max = 100"

definition room_latest_key :: "int \<Rightarrow> string" where
  "room_latest_key r = room_latest_prefix @ format_int r"

record cached_msg =
  cm_id :: int
  cm_room :: int
  cm_sender :: int
  cm_type :: int
  cm_content :: string
  cm_created :: int

definition cached_of :: "message \<Rightarrow> cached_msg" where
  "cached_of m = \<lparr>cm_id = m_id m, cm_room = m_room m, cm_sender = m_sender m, cm_type = m_type m,
                  cm_content = m_content m, cm_created = m_created m\<rparr>"

definition cached_value :: "string \<Rightarrow> cached_msg \<Rightarrow> json" where
  "cached_value t m =
     JObj [(''id'', JStr (format_int (cm_id m))), (''room_id'', JStr (format_int (cm_room m))),
           (''sender_id'', JStr (format_int (cm_sender m))), (''type'', jint (cm_type m)),
           (''content'', JStr (cm_content m)), (''created_at'', JStr t)]"

definition marshal_cached :: "time_json \<Rightarrow> cached_msg \<Rightarrow> string option" where
  "marshal_cached tj m = map_option (\<lambda>t. enc_json (cached_value t m)) (tj (cm_created m))"

text \<open>
  A field with the \<open>string\<close> option: a JSON string that holds the number. A quoted null is ignored.
\<close>

definition json_quoted_int :: "json \<Rightarrow> int option option" where
  "json_quoted_int v =
     (case v of
        JStr s \<Rightarrow>
          (if s = ''null'' then Some None
           else (case s of
                   [] \<Rightarrow> None
                 | c # _ \<Rightarrow> if c = CHR ''-'' \<or> is_digit c then map_option Some (parse_ok s) else None))
      | _ \<Rightarrow> None)"

definition keep_or :: "('a \<Rightarrow> 'r) \<Rightarrow> 'r \<Rightarrow> 'a option \<Rightarrow> 'r" where
  "keep_or f r v = (case v of None \<Rightarrow> r | Some x \<Rightarrow> f x)"

type_synonym time_parse = "string \<Rightarrow> int option"

definition cached_fields :: "string list" where
  "cached_fields = [''id'', ''room_id'', ''sender_id'', ''type'', ''content'', ''created_at'']"

definition set_cached :: "time_parse \<Rightarrow> string \<Rightarrow> json \<Rightarrow> cached_msg \<Rightarrow> cached_msg option" where
  "set_cached tp n v r =
     (if n = ''id'' then map_option (keep_or (\<lambda>x. r\<lparr>cm_id := x\<rparr>) r) (json_quoted_int v)
      else if n = ''room_id'' then map_option (keep_or (\<lambda>x. r\<lparr>cm_room := x\<rparr>) r) (json_quoted_int v)
      else if n = ''sender_id'' then map_option (keep_or (\<lambda>x. r\<lparr>cm_sender := x\<rparr>) r) (json_quoted_int v)
      else if n = ''type'' then map_option (\<lambda>x. r\<lparr>cm_type := x\<rparr>) (json_int 8 v)
      else if n = ''content'' then map_option (\<lambda>x. r\<lparr>cm_content := x\<rparr>) (json_str v)
      else (case json_str v of None \<Rightarrow> None | Some s \<Rightarrow> map_option (\<lambda>x. r\<lparr>cm_created := x\<rparr>) (tp s)))"

definition cached_zero :: cached_msg where
  "cached_zero = \<lparr>cm_id = 0, cm_room = 0, cm_sender = 0, cm_type = 0, cm_content = [], cm_created = zero_time\<rparr>"

definition unmarshal_cached :: "time_parse \<Rightarrow> string \<Rightarrow> cached_msg option" where
  "unmarshal_cached tp s = decode_struct cached_fields (set_cached tp) cached_zero s"

text \<open>\<open>GetLatestMessages\<close>: entries that do not decode are skipped, the rest is turned oldest first.\<close>

definition get_latest_messages ::
    "'r redis \<Rightarrow> time_parse \<Rightarrow> int \<Rightarrow> int \<Rightarrow> int \<Rightarrow> 'r \<Rightarrow> redis_error + cached_msg list" where
  "get_latest_messages rd tp now roomID limit s =
     (case rd_lrange rd now (room_latest_key roomID) 0 (limit - 1) s of
        Inl e \<Rightarrow> Inl e
      | Inr vals \<Rightarrow> Inr (rev (List.map_filter (unmarshal_cached tp) vals)))"

text \<open>
  The commands of the pipeline. The rooms are the keys of a Go map; the order in which their expiry
  is set does not matter, it is the order of first occurrence here.
\<close>

definition push_cmds :: "time_json \<Rightarrow> message \<Rightarrow> redis_cmd list" where
  "push_cmds tj m =
     (case marshal_cached tj (cached_of m) of
        None \<Rightarrow> []
      | Some p \<Rightarrow> [RLPush (room_latest_key (m_room m)) p,
                   RLTrim (room_latest_key (m_room m)) 0 (room_latest_max - 1)])"

definition latest_cmds :: "time_json \<Rightarrow> message list \<Rightarrow> redis_cmd list" where
  "latest_cmds tj ms =
     concat (map (push_cmds tj) ms) @
     map (\<lambda>r. RExpire (room_latest_key r) room_latest_ttl)
       (remdups (map m_room (filter (\<lambda>m. marshal_cached tj (cached_of m) \<noteq> None) ms)))"

definition backfill_room_cache :: "'r redis \<Rightarrow> time_json \<Rightarrow> int \<Rightarrow> message list \<Rightarrow> 'r \<Rightarrow> 'r" where
  "backfill_room_cache rd tj now ms s =
     (if ms = [] then s else fst (rd_exec rd now (latest_cmds tj ms) s))"

text \<open>The archiver's own copy of the routine; \<open>None\<close> is a worker without a Redis client.\<close>

definition push_latest_to_redis :: "'r redis option \<Rightarrow> time_json \<Rightarrow> int \<Rightarrow> message list \<Rightarrow> 'r \<Rightarrow> 'r" where
  "push_latest_to_redis rdb tj now ms s =
     (case rdb of
        None \<Rightarrow> s
      | Some rd \<Rightarrow> if ms = [] then s else fst (rd_exec rd now (latest_cmds tj ms) s))"

subsection \<open>An entry read back is the message\<close>

definition time_codec :: "time_json \<Rightarrow> time_parse \<Rightarrow> int \<Rightarrow> bool" where
  "time_codec tj tp t \<longleftrightarrow> (\<exists>s. tj t = Some s \<and> valid_utf8 s \<and> tp s = Some t)"

definition cacheable :: "time_json \<Rightarrow> time_parse \<Rightarrow> message \<Rightarrow> bool" where
  "cacheable tj tp m \<longleftrightarrow> is_int64 (m_id m) \<and> is_int64 (m_room m) \<and> is_int64 (m_sender m) \<and>
     in_width 8 (m_type m) \<and> valid_utf8 (m_content m) \<and> time_codec tj tp (m_created m)"

lemma format_int_head: "\<exists>c cs. format_int x = c # cs \<and> (c = CHR ''-'' \<or> is_digit c)"
proof (cases "x < 0")
  case False
  then show ?thesis using hd_nat_digits [of "nat x"] by (cases "nat_digits (nat x)") (auto simp: format_int_def)
qed (simp add: format_int_def)

lemma int8_int64: "in_width 8 x \<Longrightarrow> is_int64 x"
  by (auto simp: in_width_def)

lemma quoted_format: "is_int64 x \<Longrightarrow> json_quoted_int (JStr (format_int x)) = Some (Some x)"
proof -
  assume x: "is_int64 x"
  obtain c cs where c: "format_int x = c # cs" "c = CHR ''-'' \<or> is_digit c"
    using format_int_head [of x] by blast
  then have "format_int x \<noteq> ''null''" by (auto simp: is_digit_def)
  then show ?thesis using c parse_ok_format [OF x] by (simp add: json_quoted_int_def)
qed

lemma cached_roundtrip:
  assumes "cacheable tj tp m"
  shows "\<exists>p. marshal_cached tj (cached_of m) = Some p \<and> unmarshal_cached tp p = Some (cached_of m)"
proof -
  from assms obtain t where t: "tj (m_created m) = Some t" "valid_utf8 t" "tp t = Some (m_created m)"
    by (auto simp: cacheable_def time_codec_def)
  let ?v = "cached_value t (cached_of m)"
  have "unmarshal_cached tp (enc_json ?v) = Some (cached_of m)"
    unfolding unmarshal_cached_def cached_value_def
    by (rule decode_struct_object)
       (use assms t in \<open>simp_all add: cacheable_def max_depth_def decode_member_def match_field_def
          cached_fields_def set_cached_def quoted_format keep_or_def int8_int64 json_str_def cached_of_def cached_zero_def\<close>)
  then show ?thesis using t(1) by (simp add: marshal_cached_def cached_of_def)
qed

subsection \<open>What the list of a room holds\<close>

definition last_n :: "nat \<Rightarrow> 'a list \<Rightarrow> 'a list" where
  "last_n n xs = drop (length xs - n) xs"

lemma rev_take_rev: "rev (take n (rev xs)) = last_n n xs"
  by (simp add: last_n_def rev_take)

lemma last_n_last_n [simp]: "m \<le> n \<Longrightarrow> last_n m (last_n n xs) = last_n m xs"
  unfolding last_n_def drop_drop length_drop by (rule arg_cong [where f = "\<lambda>k. drop k xs"]) arith

lemma last_n_all: "length xs \<le> n \<Longrightarrow> last_n n xs = xs"
  by (simp add: last_n_def)

lemma take_append_take: "take n (xs @ take n ys) = take n (xs @ ys)"
  by (simp add: min_def)

definition key_list :: "int \<Rightarrow> redis_view \<Rightarrow> string \<Rightarrow> string list \<Rightarrow> bool" where
  "key_list now st k xs \<longleftrightarrow> (if xs = [] then purge now st k = None else \<exists>d. purge now st k = Some (RList xs, d))"

lemma get_list_key_list: "key_list now st k xs \<Longrightarrow> get_list now st k = xs"
  by (auto simp: key_list_def get_list_def split: if_splits)

lemma key_list_push:
  assumes "key_list now st k xs"
  shows "key_list now (redis_run now [RLPush k p, RLTrim k 0 (room_latest_max - 1)] st) k (take 100 (p # xs))"
proof -
  have 1: "\<exists>d. redis_apply now (RLPush k p) st k = Some (RList (p # xs), d) \<and>
      purge now (redis_apply now (RLPush k p) st) k = Some (RList (p # xs), d)"
    using assms by (auto simp: key_list_def purge_upd split: if_splits) (auto simp: purge_def split: option.splits if_splits)
  then obtain d where d: "purge now (redis_apply now (RLPush k p) st) k = Some (RList (p # xs), d)" by blast
  then have "purge now (\<lambda>_. Some (RList (take 100 (p # xs)), d)) k = Some (RList (take 100 (p # xs)), d)"
    by (auto simp: purge_def split: option.splits if_splits)
  then show ?thesis using d by (simp add: key_list_def purge_upd lrange_head room_latest_max_def)
qed

lemma key_list_cong: "purge now st k = purge now st' k \<Longrightarrow> key_list now st k xs = key_list now st' k xs"
  by (simp add: key_list_def)

lemma room_latest_key_inj: "is_int64 r \<Longrightarrow> is_int64 r' \<Longrightarrow> room_latest_key r = room_latest_key r' \<longleftrightarrow> r = r'"
  using format_int_inj [of r r'] by (auto simp: room_latest_key_def)

text \<open>The payloads of a batch for one room, in order.\<close>

definition payloads :: "time_json \<Rightarrow> int \<Rightarrow> message list \<Rightarrow> string list" where
  "payloads tj r ms = List.map_filter (\<lambda>m. if m_room m = r then marshal_cached tj (cached_of m) else None) ms"

lemma push_cmds_key: "\<forall>c \<in> set (push_cmds tj m). cmd_key c = room_latest_key (m_room m)"
  by (auto simp: push_cmds_def split: option.splits)

lemma key_list_batch:
  assumes "is_int64 r" "\<forall>m \<in> set ms. is_int64 (m_room m)" "key_list now st (room_latest_key r) xs" "length xs \<le> 100"
  shows "key_list now (redis_run now (concat (map (push_cmds tj) ms)) st) (room_latest_key r)
    (take 100 (rev (payloads tj r ms) @ xs))"
  using assms(2-4)
proof (induction ms arbitrary: st xs)
  case Nil
  then show ?case by (simp add: payloads_def map_filter_simps)
next
  case (Cons m ms)
  let ?st = "redis_run now (push_cmds tj m) st"
  show ?case
  proof (cases "m_room m = r \<and> marshal_cached tj (cached_of m) \<noteq> None")
    case True
    then obtain p where p: "m_room m = r" "marshal_cached tj (cached_of m) = Some p" by auto
    then have cmds: "push_cmds tj m = [RLPush (room_latest_key r) p, RLTrim (room_latest_key r) 0 (room_latest_max - 1)]"
      by (simp add: push_cmds_def)
    have "key_list now ?st (room_latest_key r) (take 100 (p # xs))"
      unfolding cmds by (rule key_list_push [OF Cons.prems(2)])
    from Cons.IH [OF _ this] Cons.prems(1) show ?thesis
      using p by (simp add: payloads_def map_filter_simps take_append_take del: take_Cons_numeral take_append)
  next
    case False
    have "purge now ?st (room_latest_key r) = purge now st (room_latest_key r)"
    proof (cases "m_room m = r")
      case True
      with False show ?thesis by (simp add: push_cmds_def)
    next
      case neq: False
      then have "room_latest_key (m_room m) \<noteq> room_latest_key r"
        using room_latest_key_inj assms(1) Cons.prems(1) by auto
      then show ?thesis using push_cmds_key [of tj m] by (intro redis_run_other) auto
    qed
    from Cons.IH [of ?st, OF _ key_list_cong [OF this, THEN iffD2, OF Cons.prems(2)] Cons.prems(3)] Cons.prems(1) False
    show ?thesis by (auto simp: payloads_def map_filter_simps)
  qed
qed

lemma key_list_expire:
  assumes "key_list now st k xs" "xs \<noteq> []" "list_all (\<lambda>c. \<exists>k'. c = RExpire k' room_latest_ttl) cs"
    "RExpire k room_latest_ttl \<in> set cs"
  shows "redis_run now cs st k = Some (RList xs, Some (now + room_latest_ttl))"
proof -
  have keep: "redis_run now cs st k = Some (RList xs, Some (now + room_latest_ttl))"
    if "list_all (\<lambda>c. \<exists>k'. c = RExpire k' room_latest_ttl) cs" "st k = Some (RList xs, Some (now + room_latest_ttl))" for cs st
    using that
  proof (induction cs arbitrary: st)
    case (Cons c cs)
    then have "purge now st k = st k" by (simp add: purge_def room_latest_ttl_def)
    moreover obtain k' where "c = RExpire k' room_latest_ttl" using Cons.prems(1) by auto
    ultimately have "redis_apply now c st k = Some (RList xs, Some (now + room_latest_ttl))"
      using Cons.prems(2) by (cases "k' = k") (auto split: option.splits)
    with Cons show ?case by simp
  qed simp
  obtain as bs where cs: "cs = as @ RExpire k room_latest_ttl # bs" "RExpire k room_latest_ttl \<notin> set as"
    using split_list_first [OF assms(4)] by blast
  have "\<forall>c \<in> set as. cmd_key c \<noteq> k"
  proof
    fix c assume c: "c \<in> set as"
    with assms(3) cs(1) obtain k' where "c = RExpire k' room_latest_ttl" by (auto simp: list_all_iff)
    with c cs(2) show "cmd_key c \<noteq> k" by auto
  qed
  then have "purge now (redis_run now as st) k = purge now st k" by (intro redis_run_other) auto
  then obtain d where "purge now (redis_run now as st) k = Some (RList xs, d)"
    using assms(1,2) by (auto simp: key_list_def)
  then show ?thesis using keep [of bs] assms(3) cs(1) by simp
qed

text \<open>After a pipeline that succeeded.\<close>

lemma latest_cmds_list:
  assumes "is_int64 r" "\<forall>m \<in> set ms. is_int64 (m_room m)" "key_list now st (room_latest_key r) xs" "length xs \<le> 100"
    "payloads tj r ms \<noteq> []" "now \<le> now'" "now' < now + room_latest_ttl"
  shows "get_list now' (redis_run now (latest_cmds tj ms) st) (room_latest_key r) = take 100 (rev (payloads tj r ms) @ xs)"
proof -
  let ?ys = "take 100 (rev (payloads tj r ms) @ xs)"
  let ?rs = "remdups (map m_room (filter (\<lambda>m. marshal_cached tj (cached_of m) \<noteq> None) ms))"
  have ne: "?ys \<noteq> []" using assms(5) by simp
  have "\<exists>m \<in> set ms. m_room m = r \<and> marshal_cached tj (cached_of m) \<noteq> None"
    using assms(5) by (induction ms) (auto simp: payloads_def map_filter_simps split: if_splits option.splits)
  then have "RExpire (room_latest_key r) room_latest_ttl \<in> set (map (\<lambda>r. RExpire (room_latest_key r) room_latest_ttl) ?rs)"
    by auto
  from key_list_expire [OF key_list_batch [OF assms(1-4)] ne _ this]
  have "redis_run now (latest_cmds tj ms) st (room_latest_key r) = Some (RList ?ys, Some (now + room_latest_ttl))"
    by (simp add: latest_cmds_def list_all_iff)
  then show ?thesis using assms(7) by (simp add: get_list_def purge_def)
qed

text \<open>The cache holds these messages of a room, oldest first.\<close>

definition cache_holds :: "time_json \<Rightarrow> int \<Rightarrow> redis_view \<Rightarrow> int \<Rightarrow> message list \<Rightarrow> bool" where
  "cache_holds tj now st r ms \<longleftrightarrow>
     key_list now st (room_latest_key r) (rev (map (\<lambda>m. the (marshal_cached tj (cached_of m))) ms))"

lemma payloads_eq:
  "\<forall>m \<in> set ms. cacheable tj tp m \<Longrightarrow>
     payloads tj r ms = map (\<lambda>m. the (marshal_cached tj (cached_of m))) (filter (\<lambda>m. m_room m = r) ms)"
proof (induction ms)
  case (Cons m ms)
  then show ?case using cached_roundtrip [of tj tp m] by (auto simp: payloads_def map_filter_simps)
qed (simp add: payloads_def map_filter_simps)

lemma unmarshal_payloads:
  "\<forall>m \<in> set ms. cacheable tj tp m \<Longrightarrow>
     List.map_filter (unmarshal_cached tp) (map (\<lambda>m. the (marshal_cached tj (cached_of m))) ms) = map cached_of ms"
proof (induction ms)
  case (Cons m ms)
  obtain p where "marshal_cached tj (cached_of m) = Some p" "unmarshal_cached tp p = Some (cached_of m)"
    using cached_roundtrip [of tj tp m] Cons.prems by auto
  with Cons show ?case by (simp add: map_filter_simps)
qed (simp add: map_filter_simps)

lemma map_filter_rev: "List.map_filter f (rev xs) = rev (List.map_filter f xs)"
  by (simp add: List.map_filter_def rev_map rev_filter)

lemma get_latest_holds:
  assumes laws: "redis_laws view rd" and list: "get_list now (view s) (room_latest_key r) =
      take 100 (rev (map (\<lambda>m. the (marshal_cached tj (cached_of m))) ms))"
    and ms: "\<forall>m \<in> set ms. cacheable tj tp m" and limit: "1 \<le> limit" "limit \<le> 100"
    and get: "get_latest_messages rd tp now r limit s = Inr xs"
  shows "xs = map cached_of (last_n (nat limit) ms)"
proof -
  let ?enc = "\<lambda>m. the (marshal_cached tj (cached_of m))"
  obtain vals where vals: "rd_lrange rd now (room_latest_key r) 0 (limit - 1) s = Inr vals"
    "xs = rev (List.map_filter (unmarshal_cached tp) vals)"
    using get by (auto simp: get_latest_messages_def split: sum.splits)
  have "vals = take (nat limit) (rev (map ?enc ms))"
    using redis_lawsD(3) [OF laws vals(1)] limit nat_mono [OF limit(2)] by (simp add: list lrange_head min_absorb1)
  also have "\<dots> = rev (map ?enc (last_n (nat limit) ms))"
    by (simp add: rev_take_rev [symmetric] rev_map take_map)
  finally show ?thesis
    using vals(2) unmarshal_payloads [of "last_n (nat limit) ms" tj tp] ms
    by (auto simp: map_filter_rev last_n_def dest: in_set_dropD)
qed

subsection \<open>Property\<close>

text \<open>C14: The room cache is a faithful window: when the archiver (or the backfill of a history request)
  pushes a stored batch into a room's list and the pipeline succeeds, a read of the latest \<open>limit\<close>
  messages within the list's life time returns exactly the last \<open>limit\<close> of the messages cached before
  followed by the batch's messages of that room, oldest first and field by field equal.\<close>

theorem cache_returns_latest:
  assumes laws: "redis_laws view rd"
    and before: "cache_holds tj now (view s) r cs" "length cs \<le> 100"
    and ok: "\<forall>m \<in> set (cs @ ms). cacheable tj tp m" "is_int64 r" "\<exists>m \<in> set ms. m_room m = r"
    and pushed: "snd (rd_exec rd now (latest_cmds tj ms) s)"
    and time: "now \<le> now'" "now' < now + room_latest_ttl" and limit: "1 \<le> limit" "limit \<le> 100"
    and get: "get_latest_messages rd tp now' r limit (push_latest_to_redis (Some rd) tj now ms s) = Inr xs"
  shows "xs = map cached_of (last_n (nat limit) (cs @ filter (\<lambda>m. m_room m = r) ms))"
proof -
  let ?enc = "\<lambda>m. the (marshal_cached tj (cached_of m))"
  obtain s' where s': "rd_exec rd now (latest_cmds tj ms) s = (s', True)"
    using pushed by (cases "rd_exec rd now (latest_cmds tj ms) s") auto
  have pl: "payloads tj r ms = map ?enc (filter (\<lambda>m. m_room m = r) ms)"
    using payloads_eq ok(1) by (metis Un_iff set_append)
  have ne: "payloads tj r ms \<noteq> []" using ok(3) pl by (simp add: filter_empty_conv)
  have rooms: "\<forall>m \<in> set ms. is_int64 (m_room m)" using ok(1) by (simp add: cacheable_def)
  have "get_list now' (view s') (room_latest_key r) = take 100 (rev (map ?enc (cs @ filter (\<lambda>m. m_room m = r) ms)))"
    using latest_cmds_list [OF ok(2) rooms before(1) [unfolded cache_holds_def] _ ne time] before(2)
      redis_lawsD(4) [OF laws s'] pl
    by simp
  moreover have "push_latest_to_redis (Some rd) tj now ms s = s'"
    using s' ok(3) by (auto simp: push_latest_to_redis_def)
  ultimately show ?thesis
    using get_latest_holds [OF laws _ _ limit, of now' s' r tj "cs @ filter (\<lambda>m. m_room m = r) ms" tp xs] get ok(1)
    by auto
qed

definition demo_cached :: "message list" where
  "demo_cached =
     [\<lparr>m_id = 5, m_room = 7, m_sender = 1, m_client_id = ''a'', m_type = 1, m_content = ''x'', m_created = 10, m_deleted = 0\<rparr>,
      \<lparr>m_id = 6, m_room = 7, m_sender = 2, m_client_id = ''b'', m_type = 1, m_content = ''y'', m_created = 20, m_deleted = 0\<rparr>]"

definition sample_time :: "int \<Rightarrow> string option" where
  "sample_time t = Some (format_int t)"

lemma demo_cacheable: "\<forall>m \<in> set demo_cached. cacheable sample_time parse_ok m"
  by (simp add: demo_cached_def cacheable_def in_width_def time_codec_def sample_time_def parse_ok_format valid_utf8_ascii)

lemma cache_returns_latest_witness:
  "get_latest_messages sample_redis parse_ok 5 7 1
     (push_latest_to_redis (Some sample_redis) sample_time 0 demo_cached (\<lambda>_. None)) =
   Inr [\<lparr>cm_id = 6, cm_room = 7, cm_sender = 2, cm_type = 1, cm_content = ''y'', cm_created = 20\<rparr>]"
proof -
  have "\<exists>xs. get_latest_messages sample_redis parse_ok 5 7 1
     (push_latest_to_redis (Some sample_redis) sample_time 0 demo_cached (\<lambda>_. None)) = Inr xs"
    by (simp add: get_latest_messages_def sample_redis_def)
  then obtain xs where xs: "get_latest_messages sample_redis parse_ok 5 7 1
     (push_latest_to_redis (Some sample_redis) sample_time 0 demo_cached (\<lambda>_. None)) = Inr xs" ..
  have "xs = map cached_of (last_n (nat 1) ([] @ filter (\<lambda>m. m_room m = 7) demo_cached))"
    by (rule cache_returns_latest [OF sample_redis_laws _ _ _ _ _ _ _ _ _ _ xs])
       (use demo_cacheable in \<open>simp_all add: cache_holds_def key_list_def purge_def room_latest_ttl_def in_width_def
          demo_cached_def sample_redis_def\<close>)
  then show ?thesis using xs by (simp add: demo_cached_def last_n_def cached_of_def)
qed

end
