(* ===== verification/ChatHistory.thy ===== *)
theory ChatHistory
  imports RoomCache SampleDb
begin

section \<open>The history endpoint (services/messages/api/history_handler.go)\<close>

text \<open>
  \<open>GET /api/v1/rooms/:id/messages\<close>. Query parameters are absent or a string. The first page is served
  from the room cache when it holds exactly the asked number of messages, otherwise the page is read
  from the database, and a first page is handed to a goroutine that fills the cache: the second
  component of the result is that goroutine's argument.
\<close>

datatype history_error = InvalidRoomId | NotAMember | HistoryFailed

record history_page =
  hp_messages :: "cached_msg list"
  hp_next :: string
  hp_more :: bool
  hp_redis :: bool

type_synonym history_reply = "int \<times> (history_error + history_page)"

definition query_int :: "string \<Rightarrow> string option \<Rightarrow> int" where
  "query_int fallback q = fst (parse_int (case q of None \<Rightarrow> fallback | Some s \<Rightarrow> s))"

definition history_limit :: "string option \<Rightarrow> int" where
  "history_limit q =
     (let limit = query_int ''50'' q
      in if 100 < limit then 100 else if limit \<le> 0 then 50 else limit)"

definition get_chat_history ::
    "'s db \<Rightarrow> ('s, message) table \<Rightarrow> 'r redis \<Rightarrow> time_parse \<Rightarrow> int \<Rightarrow> bool \<Rightarrow>
     string \<Rightarrow> int \<Rightarrow> string option \<Rightarrow> string option \<Rightarrow> 's \<Rightarrow> 'r \<Rightarrow> history_reply \<times> message list option" where
  "get_chat_history d t rd tp now mongo idStr userID cursorStr limitStr s r =
     (case parse_ok idStr of
        None \<Rightarrow> ((400, Inl InvalidRoomId), None)
      | Some roomID \<Rightarrow>
          if check_is_member d roomID userID s \<noteq> Inr True then ((403, Inl NotAMember), None)
          else
            (let cursor = query_int ''0'' cursorStr;
                 limit = history_limit limitStr;
                 cached = (if cursor = 0 \<and> \<not> mongo then
                             (case get_latest_messages rd tp now roomID limit r of
                                Inr ms \<Rightarrow> if int (length ms) = limit then Some ms else None
                              | Inl _ \<Rightarrow> None)
                           else None)
             in case cached of
                  Some ms \<Rightarrow>
                    ((200, Inr \<lparr>hp_messages = ms, hp_next = format_int (if ms = [] then 0 else cm_id (hd ms)),
                                hp_more = True, hp_redis = True\<rparr>), None)
                | None \<Rightarrow>
                    (case get_history_by_cursor t roomID cursor limit s of
                       Inl _ \<Rightarrow> ((500, Inl HistoryFailed), None)
                     | Inr ms \<Rightarrow>
                         ((200, Inr \<lparr>hp_messages = map cached_of ms,
                                     hp_next = format_int (if ms = [] then 0 else m_id (hd ms)),
                                     hp_more = (int (length ms) = limit), hp_redis = False\<rparr>),
                          if cursor = 0 \<and> ms \<noteq> [] then Some ms else None))))"

text \<open>
  The goroutine runs with the request's context, which ends with the handler: the pipeline may be
  cancelled before it is sent.
\<close>

definition run_backfill :: "'r redis \<Rightarrow> time_json \<Rightarrow> int \<Rightarrow> bool \<Rightarrow> message list option \<Rightarrow> 'r \<Rightarrow> 'r" where
  "run_backfill rd tj now cancelled job r =
     (case job of
        None \<Rightarrow> r
      | Some ms \<Rightarrow> if cancelled then r else backfill_room_cache rd tj now ms r)"

subsection \<open>Pages\<close>

definition cut_before :: "('s, message) table \<Rightarrow> int \<Rightarrow> 's \<Rightarrow> message list \<Rightarrow> message list" where
  "cut_before t cursor s ms = filter (before_cursor t cursor s) ms"

lemma history_set [simp]: "set (history rows r s) = {m \<in> set (rows s). m_room m = r}"
  by (auto simp: history_def)

lemma sorted_history: "sorted (map hist_key (history rows r s))"
  by (simp add: history_def)

lemma cut_before_element:
  assumes laws: "message_laws rows t" and up: "queries_succeed t s" and ids: "ids_ok (rows s)"
    and h: "history rows r s = as @ m # bs"
  shows "cut_before t (m_id m) s (history rows r s) = as"
proof -
  have m: "m \<in> set (rows s)" using history_set [of rows r s] h by auto
  have pos: "0 < m_id m" using ids m by (simp add: ids_ok_def)
  have b: "before_cursor t (m_id m) s = (\<lambda>x. hist_key x < hist_key m)"
    using first_by_id [OF laws up ids m] pos
    by (auto simp: before_cursor_def hist_key_def fun_eq_iff less_prod_def')
  have dist: "distinct (map hist_key (as @ m # bs))"
    using distinct_hist_key [OF distinct_history [where rows = rows and room = r, OF ids]] h by simp
  have srt: "sorted (map hist_key (as @ m # bs))" using sorted_history [of rows r s] h by simp
  have "hist_key x < hist_key m" if "x \<in> set as" for x
  proof -
    have "hist_key x \<le> hist_key m" using srt that by (simp add: sorted_append)
    moreover have "hist_key m \<notin> hist_key ` set as" using dist by simp
    ultimately show ?thesis using that by (metis image_eqI less_le)
  qed
  moreover have "\<not> hist_key x < hist_key m" if "x \<in> set bs" for x
  proof -
    have "hist_key m \<le> hist_key x" using srt that by (simp add: sorted_append)
    then show ?thesis by (simp only: not_less)
  qed
  moreover have "\<not> hist_key m < hist_key m" by (rule less_irrefl)
  ultimately have "filter (\<lambda>x. hist_key x < hist_key m) as = as" "filter (\<lambda>x. hist_key x < hist_key m) (m # bs) = []"
    by (auto intro: filter_True filter_False simp del: filter_eq_Cons_iff)
  then show ?thesis unfolding cut_before_def b h by (simp only: filter_append append_Nil2)
qed

text \<open>The cursor of a client that has read all but the first \<open>k\<close> messages of the history.\<close>

definition cursor_at :: "message list \<Rightarrow> nat \<Rightarrow> string option" where
  "cursor_at hs k = (if k < length hs then Some (format_int (m_id (hs ! k))) else None)"

lemma history_limit_range: "1 \<le> history_limit q \<and> history_limit q \<le> 100"
  by (simp add: history_limit_def Let_def)

lemma take_before:
  assumes laws: "message_laws rows t" and up: "queries_succeed t s"
    and ids: "ids_ok (rows s)" "\<forall>m \<in> set (rows s). is_int64 (m_id m)" and k: "k \<le> length (history rows r s)"
  defines "c \<equiv> query_int ''0'' (cursor_at (history rows r s) k)"
  shows "cut_before t c s (history rows r s) = take k (history rows r s) \<and>
    (c = 0 \<longleftrightarrow> k = length (history rows r s))"
proof (cases "k < length (history rows r s)")
  case True
  let ?m = "history rows r s ! k"
  have m: "?m \<in> set (rows s)" using nth_mem [OF True] by simp
  have "is_int64 (m_id ?m)" "0 < m_id ?m" using ids m by (auto simp: ids_ok_def)
  then have c: "c = m_id ?m" "c \<noteq> 0" using parse_format_int [of "m_id ?m"] True by (auto simp: c_def cursor_at_def query_int_def)
  from cut_before_element [OF laws up ids(1) id_take_nth_drop [OF True]] c True show ?thesis by simp
next
  case False
  then have "c = 0" by (simp add: c_def cursor_at_def query_int_def parse_int_def digit_value_def is_digit_def)
  then show ?thesis using False k by (simp add: cut_before_def before_cursor_def)
qed

lemma hd_last_n: "0 < n \<Longrightarrow> n \<le> k \<Longrightarrow> k \<le> length xs \<Longrightarrow>
    last_n n (take k xs) \<noteq> [] \<and> hd (last_n n (take k xs)) = xs ! (k - n)"
  by (simp add: last_n_def hd_drop_conv_nth)

lemma get_history_up:
  "queries_succeed t s \<Longrightarrow> \<exists>ms. get_history_by_cursor t r c l s = Inr ms"
proof -
  assume up: "queries_succeed t s"
  let ?q = "\<lparr>q_where = (\<lambda>m. m_room m = r \<and> before_cursor t c s m), q_order = (\<lambda>a b. hist_key b \<le> hist_key a),
    q_offset = 0, q_limit = limit_opt l\<rparr>"
  obtain ms where "t_find t ?q s = Inr ms" using up by (force simp: queries_succeed_def)
  then show ?thesis by (simp add: get_history_by_cursor_def)
qed

text \<open>A cache that is used and full for a page of this size holds the newest messages.\<close>

definition cache_fresh ::
    "'r redis \<Rightarrow> time_parse \<Rightarrow> int \<Rightarrow> bool \<Rightarrow> int \<Rightarrow> int \<Rightarrow> message list \<Rightarrow> 'r \<Rightarrow> bool" where
  "cache_fresh rd tp now mongo room limit hs r \<longleftrightarrow> mongo \<or>
     (\<forall>ms. get_latest_messages rd tp now room limit r = Inr ms \<longrightarrow> int (length ms) = limit \<longrightarrow>
        ms = map cached_of (last_n (nat limit) hs))"

text \<open>The reply to a request with that cursor.\<close>

lemma history_reply_at:
  assumes laws: "message_laws rows t" and up: "queries_succeed t s"
    and ids: "ids_ok (rows s)" "\<forall>m \<in> set (rows s). is_int64 (m_id m)"
    and req: "parse_ok idStr = Some room" "check_is_member d room u s = Inr True"
    and fresh: "cache_fresh rd tp now mongo room (history_limit limitStr) (history rows room s) r"
    and k: "k \<le> length (history rows room s)"
  defines "H \<equiv> history rows room s" and "n \<equiv> nat (history_limit limitStr)"
  shows "\<exists>p. fst (get_chat_history d t rd tp now mongo idStr u (cursor_at H k) limitStr s r) = (200, Inr p) \<and>
    hp_messages p = map cached_of (last_n n (take k H)) \<and> (hp_more p \<longleftrightarrow> n \<le> k) \<and>
    (hp_more p \<longrightarrow> Some (hp_next p) = cursor_at H (k - n))"
proof -
  let ?c = "query_int ''0'' (cursor_at H k)"
  have cut: "cut_before t ?c s H = take k H" "?c = 0 \<longleftrightarrow> k = length H"
    using take_before [OF laws up ids k] by (auto simp: H_def)
  have n: "0 < n" "int n = history_limit limitStr" using history_limit_range [of limitStr] by (auto simp: n_def)
  have next1: "Some (format_int (if last_n n (take k H) = [] then 0 else m_id (hd (last_n n (take k H))))) = cursor_at H (k - n)"
    if "n \<le> k" using hd_last_n [OF n(1) that k [folded H_def]] that n(1) k by (auto simp: cursor_at_def H_def)
  let ?g = "get_chat_history d t rd tp now mongo idStr u (cursor_at H k) limitStr s r"
  let ?hit = "?c = 0 \<and> \<not> mongo \<and> (\<exists>ms. get_latest_messages rd tp now room (history_limit limitStr) r = Inr ms \<and>
      int (length ms) = history_limit limitStr)"
  show ?thesis
  proof (cases ?hit)
    case True
    then obtain ms where ms: "get_latest_messages rd tp now room (history_limit limitStr) r = Inr ms"
      "int (length ms) = history_limit limitStr" by blast
    have m: "ms = map cached_of (last_n n (take k H))"
      using fresh ms True cut(2) by (simp add: cache_fresh_def H_def n_def)
    have "length ms = n" using ms(2) n(2) by simp
    then have nk: "n \<le> k" using m k by (simp add: last_n_def H_def)
    have "fst ?g = (200, Inr \<lparr>hp_messages = ms, hp_next = format_int (if ms = [] then 0 else cm_id (hd ms)),
        hp_more = True, hp_redis = True\<rparr>)"
      using True ms req by (simp add: get_chat_history_def Let_def)
    moreover have "(if ms = [] then 0 else cm_id (hd ms)) =
        (if last_n n (take k H) = [] then 0 else m_id (hd (last_n n (take k H))))"
      by (cases "last_n n (take k H)") (simp_all add: m cached_of_def)
    ultimately show ?thesis using m nk next1 by simp
  next
    case False
    from get_history_up [OF up] obtain ms where
      ms: "get_history_by_cursor t room ?c (history_limit limitStr) s = Inr ms" by blast
    have m: "ms = last_n n (take k H)"
      using history_page [OF laws ids(1) _ ms] history_limit_range [of limitStr] cut(1)
      by (simp add: Let_def H_def n_def cut_before_def last_n_def)
    have miss: "(if ?c = 0 \<and> \<not> mongo then
        (case get_latest_messages rd tp now room (history_limit limitStr) r of
           Inr ms \<Rightarrow> if int (length ms) = history_limit limitStr then Some ms else None | Inl _ \<Rightarrow> None) else None) = None"
      using False by (auto split: sum.splits)
    have "fst ?g = (200, Inr \<lparr>hp_messages = map cached_of ms, hp_next = format_int (if ms = [] then 0 else m_id (hd ms)),
        hp_more = (int (length ms) = history_limit limitStr), hp_redis = False\<rparr>)"
      using req ms miss by (simp add: get_chat_history_def Let_def)
    moreover have "int (length ms) = history_limit limitStr \<longleftrightarrow> n \<le> k"
      using m n k by (auto simp: last_n_def H_def)
    ultimately show ?thesis using m next1 by auto
  qed
qed

text \<open>A client that follows the cursors until the server says there is no more.\<close>

fun read_all :: "(string option \<Rightarrow> history_reply) \<Rightarrow> nat \<Rightarrow> string option \<Rightarrow> cached_msg list option" where
  "read_all get 0 c = None"
| "read_all get (Suc n) c =
     (case get c of
        (_, Inl _) \<Rightarrow> None
      | (_, Inr p) \<Rightarrow>
          if hp_more p then map_option (\<lambda>older. older @ hp_messages p) (read_all get n (Some (hp_next p)))
          else Some (hp_messages p))"

text \<open>C6: Paging the history is complete: a member who follows the cursors from the first page until
  \<open>has_more\<close> is false receives every message of the room exactly once, in the order of creation, for
  every page size, whether the first page comes from a cache that is up to date or from the database.
  At most one request more than the room has messages is needed.\<close>

theorem history_walk_complete:
  assumes laws: "message_laws rows t" and up: "queries_succeed t s"
    and ids: "ids_ok (rows s)" "\<forall>m \<in> set (rows s). is_int64 (m_id m)"
    and req: "parse_ok idStr = Some room" "check_is_member d room u s = Inr True"
    and fresh: "cache_fresh rd tp now mongo room (history_limit limitStr) (history rows room s) r"
  shows "read_all (\<lambda>c. fst (get_chat_history d t rd tp now mongo idStr u c limitStr s r))
      (Suc (length (history rows room s))) None = Some (map cached_of (history rows room s))"
proof -
  let ?H = "history rows room s" and ?n = "nat (history_limit limitStr)"
  let ?get = "\<lambda>c. fst (get_chat_history d t rd tp now mongo idStr u c limitStr s r)"
  have n: "0 < ?n" using history_limit_range [of limitStr] by simp
  have "read_all ?get (Suc f) (cursor_at ?H k) = Some (map cached_of (take k ?H))" if "k \<le> length ?H" "k \<le> f" for f k
    using that
  proof (induction f arbitrary: k)
    case 0
    from history_reply_at [OF laws up ids req fresh 0(1)] obtain p where
      "?get (cursor_at ?H k) = (200, Inr p)" "hp_messages p = map cached_of (last_n ?n (take k ?H))"
      "hp_more p \<longleftrightarrow> ?n \<le> k" by blast
    with 0 n show ?case by (simp add: last_n_def)
  next
    case (Suc f)
    from history_reply_at [OF laws up ids req fresh Suc.prems(1)] obtain p where
      p: "?get (cursor_at ?H k) = (200, Inr p)" "hp_messages p = map cached_of (last_n ?n (take k ?H))"
        "hp_more p \<longleftrightarrow> ?n \<le> k" "hp_more p \<longrightarrow> Some (hp_next p) = cursor_at ?H (k - ?n)" by blast
    show ?case
    proof (cases "?n \<le> k")
      case True
      have "length (take k ?H) = k" using Suc.prems(1) by simp
      then have "last_n ?n (take k ?H) = drop (k - ?n) (take k ?H)" unfolding last_n_def by (simp only:)
      moreover have "take (k - ?n) (take k ?H) = take (k - ?n) ?H" by (simp add: min_absorb1)
      ultimately have "take (k - ?n) ?H @ last_n ?n (take k ?H) = take k ?H"
        using append_take_drop_id [of "k - ?n" "take k ?H"] by (simp only:)
      with Suc.IH [of "k - ?n"] Suc.prems n True p show ?thesis
        by (simp del: map_append add: map_append [symmetric])
    next
      case False
      then show ?thesis using p by (simp add: last_n_def)
    qed
  qed
  from this [of "length ?H" "length ?H"] show ?thesis by (simp add: cursor_at_def)
qed

definition demo_chat :: sample_state where
  "demo_chat = demo_db\<lparr>sd_messages := demo_cached\<rparr>"

lemma history_walk_complete_witness:
  "read_all (\<lambda>c. fst (get_chat_history sample_db sample_messages sample_redis parse_ok 0 False ''7'' 1 c (Some ''1'')
       demo_chat (\<lambda>_. None))) 3 None = Some (map cached_of demo_cached)"
proof -
  have H: "history sd_messages 7 demo_chat = demo_cached"
    by (simp add: history_def demo_chat_def demo_cached_def hist_key_def)
  have lim: "history_limit (Some ''1'') = 1"
    by (simp add: history_limit_def query_int_def parse_int_def is_digit_def digit_value_def)
  have "read_all (\<lambda>c. fst (get_chat_history sample_db sample_messages sample_redis parse_ok 0 False ''7'' 1 c (Some ''1'')
       demo_chat (\<lambda>_. None))) (Suc (length (history sd_messages 7 demo_chat))) None =
      Some (map cached_of (history sd_messages 7 demo_chat))"
  proof (rule history_walk_complete [OF sample_messages_laws sample_messages_queries])
    show "ids_ok (sd_messages demo_chat)" "\<forall>m \<in> set (sd_messages demo_chat). is_int64 (m_id m)"
      by (simp_all add: ids_ok_def demo_chat_def demo_cached_def in_width_def)
    show "parse_ok ''7'' = Some 7"
      by (simp add: parse_ok_def parse_int_def is_digit_def digit_value_def)
    show "check_is_member sample_db 7 1 demo_chat = Inr True"
      by (simp add: check_is_member_def sample_db_def sample_members_def list_table_def demo_chat_def demo_db_def)
    show "cache_fresh sample_redis parse_ok 0 False 7 (history_limit (Some ''1''))
        (history sd_messages 7 demo_chat) (\<lambda>_. None)"
      by (simp add: cache_fresh_def lim get_latest_messages_def sample_redis_def get_list_def purge_def lrange_def
          map_filter_simps)
  qed
  moreover have "Suc (length demo_cached) = 3" by (simp add: demo_cached_def)
  ultimately show ?thesis by (simp only: H)
qed

subsection \<open>The backfill\<close>

lemma last_n_append: "n \<le> length xs + length ys \<Longrightarrow> length ys \<le> n \<Longrightarrow>
    last_n n (xs @ ys) = last_n (n - length ys) xs @ ys"
  by (simp add: last_n_def)

text \<open>The backfill pushes a page onto a list that is not empty: when the archiver has cached some
  messages of a room that has fewer messages than the page asks for, a first-page request misses, reads
  the room from the database and pushes all of it on top of the cached messages. Once the list has
  \<open>limit\<close> entries, the next request is served from it and shows messages twice.\<close>

theorem backfill_repeats_messages:
  assumes rl: "redis_laws view rd" and ml: "message_laws rows t" and up: "queries_succeed t s"
    and ids: "ids_ok (rows s)" and ok: "\<forall>m \<in> set (rows s). cacheable tj tp m"
    and req: "parse_ok idStr = Some room" "check_is_member d room u s = Inr True"
    and part: "cache_holds tj now (view r) room cs" "set cs \<subseteq> set (history rows room s)" "cs \<noteq> []"
    and few: "length (history rows room s) < n" "length cs < n" "n \<le> length cs + length (history rows room s)" "n \<le> 100"
    and lim: "history_limit limitStr = int n"
    and pushed: "snd (rd_exec rd now (latest_cmds tj (history rows room s)) r)"
    and time: "now \<le> now'" "now' < now + room_latest_ttl"
    and second: "get_latest_messages rd tp now' room (int n)
      (run_backfill rd tj now False (snd (get_chat_history d t rd tp now False idStr u None limitStr s r)) r) = Inr xs"
  shows "\<exists>p. fst (get_chat_history d t rd tp now' False idStr u None limitStr s
      (run_backfill rd tj now False (snd (get_chat_history d t rd tp now False idStr u None limitStr s r)) r)) =
      (200, Inr p) \<and> hp_redis p \<and> \<not> distinct (map cm_id (hp_messages p))"
proof -
  let ?H = "history rows room s" and ?enc = "\<lambda>m. the (marshal_cached tj (cached_of m))"
  have H: "?H \<noteq> []" using part(2,3) by (metis set_empty subset_empty)
  have Hok: "\<forall>m \<in> set ?H. cacheable tj tp m" using ok by simp
  have room: "is_int64 room" using H Hok hd_in_set [OF H] by (auto simp: cacheable_def)
  have c: "query_int ''0'' None = 0" by (simp add: query_int_def parse_int_def is_digit_def digit_value_def)
  obtain ms where ms: "get_history_by_cursor t room 0 (int n) s = Inr ms" using get_history_up [OF up] by blast
  have "ms = ?H" using history_page [OF ml ids _ ms] few(1) by (simp add: before_cursor_def)
  have csok: "\<forall>m \<in> set cs. cacheable tj tp m" using part(2) Hok by blast
  have listed: "get_list now (view r) (room_latest_key room) = take 100 (rev (map ?enc cs))"
    using get_list_key_list [OF part(1) [unfolded cache_holds_def]] few(2,4) by simp
  have miss: "length ys \<noteq> n" if "get_latest_messages rd tp now room (int n) r = Inr ys" for ys
    using get_latest_holds [OF rl listed csok _ _ that] few by (auto simp: last_n_all)
  have job: "snd (get_chat_history d t rd tp now False idStr u None limitStr s r) = Some ?H"
    using req ms miss \<open>ms = ?H\<close> H by (auto simp: get_chat_history_def Let_def c lim split: sum.splits)
  obtain r' where r': "rd_exec rd now (latest_cmds tj ?H) r = (r', True)"
    using pushed by (cases "rd_exec rd now (latest_cmds tj ?H) r") auto
  have filled: "run_backfill rd tj now False (Some ?H) r = r'" using r' H by (simp add: run_backfill_def backfill_room_cache_def)
  have pl: "payloads tj room ?H = map ?enc ?H" using payloads_eq [OF Hok, of room] by (simp add: filter_id_conv)
  have "get_list now' (view r') (room_latest_key room) = take 100 (rev (map ?enc (cs @ ?H)))"
    using latest_cmds_list [where tj = tj and ms = ?H, OF room _ part(1) [unfolded cache_holds_def] _ _ time] few(2,4) pl H Hok
      redis_lawsD(4) [OF rl r'] room by (simp add: cacheable_def)
  moreover have "\<forall>m \<in> set (cs @ ?H). cacheable tj tp m" using csok Hok by auto
  ultimately have xs: "xs = map cached_of (last_n n (cs @ ?H))"
    using get_latest_holds [OF rl, of now' r' room tj "cs @ ?H" tp "int n" xs] second few H job filled by auto
  have eq: "last_n n (cs @ ?H) = last_n (n - length ?H) cs @ ?H" using few by (intro last_n_append) auto
  have len: "length xs = n" using xs few by (simp add: last_n_def)
  have "last_n (n - length ?H) cs \<noteq> []" using few by (simp add: last_n_def)
  then obtain m where m: "m \<in> set (last_n (n - length ?H) cs)" by (cases "last_n (n - length ?H) cs") auto
  then have "m \<in> set ?H" using part(2) by (auto simp: last_n_def dest: in_set_dropD)
  with m have "\<not> distinct (map cm_id xs)" unfolding xs eq by (auto simp: cached_of_def)
  moreover have "xs \<noteq> []" using len few by auto
  ultimately show ?thesis using req second len by (simp add: job get_chat_history_def Let_def c lim)
qed

lemma backfill_repeats_messages_witness:
  "\<exists>p. fst (get_chat_history sample_db sample_messages sample_redis parse_ok 5 False ''7'' 1 None (Some ''3'') demo_chat
      (run_backfill sample_redis sample_time 0 False
         (snd (get_chat_history sample_db sample_messages sample_redis parse_ok 0 False ''7'' 1 None (Some ''3'') demo_chat
           (redis_run 0 (latest_cmds sample_time [demo_cached ! 1]) (\<lambda>_. None))))
         (redis_run 0 (latest_cmds sample_time [demo_cached ! 1]) (\<lambda>_. None)))) = (200, Inr p) \<and>
     hp_redis p \<and> \<not> distinct (map cm_id (hp_messages p))"
proof -
  let ?r = "redis_run 0 (latest_cmds sample_time [demo_cached ! 1]) (\<lambda>_. None)"
  have H: "history sd_messages 7 demo_chat = demo_cached"
    by (simp add: history_def demo_chat_def demo_cached_def hist_key_def)
  have lim: "history_limit (Some ''3'') = int 3"
    by (simp add: history_limit_def query_int_def parse_int_def is_digit_def digit_value_def)
  define m where "m = demo_cached ! 1"
  have m: "m_room m = 7" "m \<in> set demo_cached" by (simp_all add: m_def demo_cached_def)
  obtain p where p: "marshal_cached sample_time (cached_of m) = Some p"
    by (simp add: marshal_cached_def sample_time_def)
  have cmds: "latest_cmds sample_time [m] = [RLPush (room_latest_key 7) p,
      RLTrim (room_latest_key 7) 0 (room_latest_max - 1), RExpire (room_latest_key 7) room_latest_ttl]"
    by (simp add: latest_cmds_def push_cmds_def p m)
  have "cache_holds sample_time 0 (id (redis_run 0 (latest_cmds sample_time [m]) (\<lambda>_. None))) 7 [m]"
    by (simp add: cache_holds_def key_list_def cmds p purge_def room_latest_max_def
        lrange_def range_index_def room_latest_ttl_def)
  then have "cache_holds sample_time 0 (id ?r) 7 [demo_cached ! 1]" by (simp add: m_def)
  moreover have "parse_ok ''7'' = Some 7" by (simp add: parse_ok_def parse_int_def is_digit_def digit_value_def)
  moreover have "check_is_member sample_db 7 1 demo_chat = Inr True"
    by (simp add: check_is_member_def sample_db_def sample_members_def list_table_def demo_chat_def demo_db_def)
  moreover have "ids_ok (sd_messages demo_chat)" by (simp add: ids_ok_def demo_chat_def demo_cached_def)
  moreover have "\<forall>m \<in> set (sd_messages demo_chat). cacheable sample_time parse_ok m"
    using demo_cacheable by (simp add: demo_chat_def)
  moreover have "get_latest_messages sample_redis parse_ok 5 7 (int 3)
      (run_backfill sample_redis sample_time 0 False
         (snd (get_chat_history sample_db sample_messages sample_redis parse_ok 0 False ''7'' 1 None (Some ''3'') demo_chat ?r))
         ?r) = Inr (projr (get_latest_messages sample_redis parse_ok 5 7 (int 3)
      (run_backfill sample_redis sample_time 0 False
         (snd (get_chat_history sample_db sample_messages sample_redis parse_ok 0 False ''7'' 1 None (Some ''3'') demo_chat ?r))
         ?r)))"
    by (simp add: get_latest_messages_def sample_redis_def)
  moreover have "snd (rd_exec sample_redis 0 (latest_cmds sample_time (history sd_messages 7 demo_chat)) ?r)"
    by (simp add: sample_redis_def)
  moreover have "set [demo_cached ! 1] \<subseteq> set (history sd_messages 7 demo_chat)" "length (history sd_messages 7 demo_chat) = 2"
    by (simp_all only: H) (simp_all add: demo_cached_def)
  ultimately show ?thesis
    by (intro backfill_repeats_messages [OF sample_redis_laws sample_messages_laws sample_messages_queries,
          where n = 3 and cs = "[demo_cached ! 1]" and room = 7 and now = 0 and now' = 5])
      (simp_all add: lim room_latest_ttl_def)
qed

end
