(* ===== verification/Archiver.thy ===== *)
theory Archiver
  imports MsgId RoomCache SampleDb Pipeline
begin

section \<open>The archiver (services/messages/archiver/worker-kafka.go)\<close>

text \<open>
  One consumer reads the topic and collects messages; a full batch, a tick of the flush timer and the
  shutdown hand the batch, with the offset of its last message, to a task of the process's pool. A task
  stores the batch in MySQL, indexes it, pushes it into the room caches and saves its offset in Redis.
  The tasks run concurrently with the consumer and with each other; each is one atomic step here.
\<close>

definition batch_size :: nat where
  "batch_size = 1000"

record archiver =
  ar_batch :: "message list"
  ar_last :: int
  ar_ids :: id_state

definition archiver_start :: archiver where
  "archiver_start = \<lparr>ar_batch = [], ar_last = 0, ar_ids = id_start\<rparr>"

type_synonym archive_task = "message list \<times> int"

text \<open>\<open>flush\<close>: an empty batch makes no task.\<close>

definition flush :: "archiver \<Rightarrow> archiver \<times> archive_task list" where
  "flush a = (if ar_batch a = [] then (a, []) else (a\<lparr>ar_batch := []\<rparr>, [(ar_batch a, ar_last a)]))"

text \<open>What \<open>select\<close> finds, and what \<open>ReadMessage\<close> returns; every read error is skipped.\<close>

datatype turn = Stop | Tick | Poll

datatype kafka_read = ReadFailed | ReadMessage int string

definition archive_message :: "int \<Rightarrow> envelope \<Rightarrow> message" where
  "archive_message i e = (message_of_envelope e)\<lparr>m_id := i\<rparr>"

text \<open>
  The rest of the loop's body. \<open>now\<close> is the clock \<open>Unmarshal\<close> reads, \<open>clock\<close> the readings of the id
  generator, which waits for ever when they run out (\<open>None\<close>).
\<close>

definition archive_read ::
    "proto_unmarshal \<Rightarrow> int \<Rightarrow> kafka_read \<Rightarrow> archiver \<times> int list \<Rightarrow>
     ((archiver \<times> int list) \<times> archive_task list) option" where
  "archive_read pu now rd st =
     (case rd of
        ReadFailed \<Rightarrow> Some (st, [])
      | ReadMessage off value \<Rightarrow>
          (case unmarshal_envelope pu now value of
             Inl _ \<Rightarrow> Some (st, [])
           | Inr e \<Rightarrow>
               (case next_id (ar_ids (fst st)) (snd st) of
                  None \<Rightarrow> None
                | Some (i, ids, clock) \<Rightarrow>
                    (let a = (fst st)\<lparr>ar_batch := ar_batch (fst st) @ [archive_message i e], ar_last := off, ar_ids := ids\<rparr>
                     in if batch_size \<le> length (ar_batch a)
                        then Some ((fst (flush a), clock), snd (flush a))
                        else Some ((a, clock), [])))))"

definition archive_turn ::
    "proto_unmarshal \<Rightarrow> turn \<times> int \<times> kafka_read \<Rightarrow> archiver \<times> int list \<Rightarrow>
     ((archiver \<times> int list) \<times> archive_task list \<times> bool) option" where
  "archive_turn pu tn st =
     (case tn of
        (Stop, _, _) \<Rightarrow> Some ((fst (flush (fst st)), snd st), snd (flush (fst st)), True)
      | (Tick, now, rd) \<Rightarrow>
          map_option (\<lambda>(st', ts). (st', snd (flush (fst st)) @ ts, False))
            (archive_read pu now rd (fst (flush (fst st)), snd st))
      | (Poll, now, rd) \<Rightarrow> map_option (\<lambda>(st', ts). (st', ts, False)) (archive_read pu now rd st))"

text \<open>\<open>Start\<close> over the turns of its loop: the tasks submitted, in order.\<close>

fun archive_loop ::
    "proto_unmarshal \<Rightarrow> (turn \<times> int \<times> kafka_read) list \<Rightarrow> archiver \<times> int list \<Rightarrow>
     ((archiver \<times> int list) \<times> archive_task list) option" where
  "archive_loop pu [] st = Some (st, [])"
| "archive_loop pu (tn # tns) st =
     (case archive_turn pu tn st of
        None \<Rightarrow> None
      | Some (st', ts, stopped) \<Rightarrow>
          if stopped then Some (st', ts)
          else map_option (\<lambda>(st'', ts'). (st'', ts @ ts')) (archive_loop pu tns st'))"

subsection \<open>The task\<close>

definition save_offset :: "'r redis option \<Rightarrow> string \<Rightarrow> int \<Rightarrow> int \<Rightarrow> 'r \<Rightarrow> 'r" where
  "save_offset rdb key now off r =
     (case rdb of None \<Rightarrow> r | Some rd \<Rightarrow> fst (rd_exec rd now [RSet key (format_int off) 0] r))"

definition offset_key :: "string \<Rightarrow> int \<Rightarrow> string" where
  "offset_key topic part = ''im:kafka:offset:{'' @ topic @ ''}:'' @ format_int part"

definition archive_task ::
    "('s, message) table \<Rightarrow> ('s \<Rightarrow> db_error option) \<Rightarrow> (message list \<Rightarrow> 'i \<Rightarrow> 'i) \<Rightarrow> 'r redis option \<Rightarrow> time_json \<Rightarrow>
     string \<Rightarrow> int \<Rightarrow> archive_task \<Rightarrow> 's \<times> 'i \<times> 'r \<Rightarrow> 's \<times> 'i \<times> 'r" where
  "archive_task t commit index rdb tj key now task st =
     (case st of (s, i, r) \<Rightarrow>
        (case save_message_batch t commit (fst task) s of
           (s', Inl _) \<Rightarrow> (s', i, r)
         | (s', Inr _) \<Rightarrow>
             (s', index (fst task) i,
              save_offset rdb key now (snd task) (push_latest_to_redis rdb tj now (fst task) r))))"

text \<open>
  \<open>NewWorker\<close>: where the reader starts; \<open>kafka_first\<close> is the client's constant for the oldest offset.
\<close>

definition start_offset :: "'r redis option \<Rightarrow> int \<Rightarrow> string \<Rightarrow> int \<Rightarrow> 'r \<Rightarrow> int" where
  "start_offset rdb kafka_first topic now r =
     (case rdb of
        None \<Rightarrow> kafka_first
      | Some rd \<Rightarrow>
          (case rd_get rd now (offset_key topic 0) r of
             Inl _ \<Rightarrow> kafka_first
           | Inr v \<Rightarrow> (case parse_ok v of None \<Rightarrow> kafka_first | Some saved \<Rightarrow> int64_of (saved + 1))))"

subsection \<open>What the consumer hands over\<close>

text \<open>The envelopes the consumer accepts, in the order of the topic.\<close>

fun accepted :: "proto_unmarshal \<Rightarrow> (turn \<times> int \<times> kafka_read) list \<Rightarrow> (int \<times> envelope) list" where
  "accepted pu [] = []"
| "accepted pu ((tn, now, rd) # tns) =
     (if tn = Stop then []
      else (case rd of
              ReadFailed \<Rightarrow> []
            | ReadMessage off value \<Rightarrow>
                (case unmarshal_envelope pu now value of Inl _ \<Rightarrow> [] | Inr e \<Rightarrow> [(off, e)])) @ accepted pu tns)"

text \<open>The messages of an archiver and its tasks, and the offset of the last of each.\<close>

definition task_ok :: "archive_task \<Rightarrow> bool" where
  "task_ok task \<longleftrightarrow> fst task \<noteq> [] \<and> length (fst task) \<le> batch_size"

lemma flush_simps:
  "concat (map fst (snd (flush a))) @ ar_batch (fst (flush a)) = ar_batch a"
  "ar_batch (fst (flush a)) = []" "ar_ids (fst (flush a)) = ar_ids a" "ar_last (fst (flush a)) = ar_last a"
  "length (ar_batch a) \<le> batch_size \<Longrightarrow> list_all task_ok (snd (flush a))"
  by (auto simp: flush_def task_ok_def)

definition unnumbered :: "message \<Rightarrow> message" where
  "unnumbered m = m\<lparr>m_id := 0\<rparr>"

text \<open>Each task carries the offset of the last message of its batch.\<close>

fun offsets_ok :: "(int \<times> envelope) list \<Rightarrow> archive_task list \<Rightarrow> bool" where
  "offsets_ok acc [] \<longleftrightarrow> True"
| "offsets_ok acc ((b, off) # ts) \<longleftrightarrow>
     length b \<le> length acc \<and> off = fst (acc ! (length b - 1)) \<and> offsets_ok (drop (length b) acc) ts"

definition handed_over :: "(int \<times> envelope) list \<Rightarrow> archive_task list \<Rightarrow> archiver \<Rightarrow> bool" where
  "handed_over acc ts a \<longleftrightarrow>
     map unnumbered (concat (map fst ts) @ ar_batch a) = map (\<lambda>(_, e). message_of_envelope e) acc \<and>
     offsets_ok acc ts \<and> list_all task_ok ts \<and> (ar_batch a \<noteq> [] \<longrightarrow> ar_last a = fst (last acc))"

lemma offsets_ok_append: "list_all task_ok ts \<Longrightarrow> offsets_ok acc ts \<Longrightarrow> offsets_ok (acc @ xs) ts"
proof (induction acc ts rule: offsets_ok.induct)
  case (2 acc b off ts)
  then have "length b - 1 < length acc" by (cases b) (auto simp: task_ok_def)
  with 2 show ?case by (auto simp: nth_append task_ok_def)
qed simp

lemma offsets_ok_snoc:
  "offsets_ok acc ts \<Longrightarrow> length acc = length (concat (map fst ts)) + length b \<Longrightarrow> b \<noteq> [] \<Longrightarrow>
     off = fst (last acc) \<Longrightarrow> offsets_ok acc (ts @ [(b, off)])"
proof (induction acc ts rule: offsets_ok.induct)
  case (1 acc)
  then have "acc \<noteq> []" by auto
  with 1 show ?case by (simp add: last_conv_nth)
next
  case (2 acc b' off' ts)
  then show ?case by (auto simp: last_drop)
qed

lemma handed_length: "handed_over acc ts a \<Longrightarrow> length acc = length (concat (map fst ts)) + length (ar_batch a)"
  unfolding handed_over_def by (metis length_append length_map)

lemma handed_flush:
  assumes "handed_over acc ts a" "length (ar_batch a) \<le> batch_size"
  shows "handed_over acc (ts @ snd (flush a)) (fst (flush a))"
proof (cases "ar_batch a = []")
  case False
  then have "offsets_ok acc (ts @ [(ar_batch a, ar_last a)])"
    using assms(1) handed_length [OF assms(1)] by (intro offsets_ok_snoc) (auto simp: handed_over_def)
  then show ?thesis using assms False by (simp add: handed_over_def flush_def task_ok_def)
qed (use assms in \<open>simp add: flush_def\<close>)

lemma unnumbered_archive [simp]: "unnumbered (archive_message i e) = message_of_envelope e"
  by (simp add: unnumbered_def archive_message_def message_of_envelope_def)

lemma handed_add:
  "handed_over acc ts a \<Longrightarrow>
     handed_over (acc @ [(off, e)]) ts (a\<lparr>ar_batch := ar_batch a @ [archive_message i e], ar_last := off, ar_ids := ids\<rparr>)"
  by (auto simp: handed_over_def offsets_ok_append)

definition read_envelope :: "proto_unmarshal \<Rightarrow> int \<Rightarrow> kafka_read \<Rightarrow> (int \<times> envelope) list" where
  "read_envelope pu now rd =
     (case rd of
        ReadFailed \<Rightarrow> []
      | ReadMessage off value \<Rightarrow>
          (case unmarshal_envelope pu now value of Inl _ \<Rightarrow> [] | Inr e \<Rightarrow> [(off, e)]))"

text \<open>A read numbers what it accepts with the next id.\<close>

lemma archive_read_cases:
  assumes "archive_read pu now rd (a, clock) = Some ((a', clock'), ts)"
  obtains "read_envelope pu now rd = []" "a' = a" "clock' = clock" "ts = []"
  | off e i ids b where "read_envelope pu now rd = [(off, e)]" "next_id (ar_ids a) clock = Some (i, ids, clock')"
      "b = a\<lparr>ar_batch := ar_batch a @ [archive_message i e], ar_last := off, ar_ids := ids\<rparr>"
      "(a', ts) = (if batch_size \<le> length (ar_batch b) then flush b else (b, []))"
proof (cases rd)
  case (ReadMessage off v)
  show ?thesis
  proof (cases "unmarshal_envelope pu now v")
    case (Inr e)
    with ReadMessage assms obtain i ids cl where n: "next_id (ar_ids a) clock = Some (i, ids, cl)"
      by (cases "next_id (ar_ids a) clock") (auto simp: archive_read_def)
    with ReadMessage Inr assms show ?thesis
      by (intro that(2) [OF _ _ refl, of off e i ids]) (auto simp: archive_read_def read_envelope_def Let_def split: if_splits)
  qed (use ReadMessage assms that(1) in \<open>simp add: archive_read_def read_envelope_def\<close>)
qed (use assms that(1) in \<open>simp add: archive_read_def read_envelope_def\<close>)

lemma archive_read_handed:
  assumes "archive_read pu now rd (a, clock) = Some ((a', clock'), ts')" "handed_over acc ts a"
    "length (ar_batch a) < batch_size"
  shows "handed_over (acc @ read_envelope pu now rd) (ts @ ts') a' \<and> length (ar_batch a') < batch_size"
  using assms(1)
proof (cases rule: archive_read_cases)
  case (2 off e i ids b)
  have b: "handed_over (acc @ [(off, e)]) ts b" using handed_add [OF assms(2)] 2(3) by simp
  have len: "length (ar_batch b) \<le> batch_size" using 2(3) assms(3) by simp
  show ?thesis
  proof (cases "batch_size \<le> length (ar_batch b)")
    case True
    then have "a' = fst (flush b)" "ts' = snd (flush b)" using 2(4) by (metis fst_conv snd_conv)+
    then show ?thesis using handed_flush [OF b len] 2(1) by (simp add: flush_simps(2) batch_size_def)
  next
    case False
    then show ?thesis using 2 b by simp
  qed
qed (use assms in simp)

lemma archive_turn_handed:
  assumes "archive_turn pu (tn, now, rd) (a, clock) = Some ((a', clock'), ts', stopped)" "handed_over acc ts a"
    "length (ar_batch a) < batch_size"
  shows "handed_over (acc @ accepted pu [(tn, now, rd)]) (ts @ ts') a' \<and> length (ar_batch a') < batch_size \<and>
    (stopped \<longleftrightarrow> tn = Stop)"
proof (cases tn)
  case Stop
  then show ?thesis using assms handed_flush [OF assms(2)]
    by (auto simp: archive_turn_def flush_simps(2) batch_size_def)
next
  case Tick
  have f: "handed_over acc (ts @ snd (flush a)) (fst (flush a))" using handed_flush [OF assms(2)] assms(3) by simp
  from Tick assms(1) obtain ts1 where
    "archive_read pu now rd (fst (flush a), clock) = Some ((a', clock'), ts1)" "ts' = snd (flush a) @ ts1" "\<not> stopped"
    by (auto simp: archive_turn_def)
  with archive_read_handed [OF this(1) f] Tick show ?thesis
    by (auto simp: flush_simps(2) batch_size_def read_envelope_def)
next
  case Poll
  with assms(1) have r: "archive_read pu now rd (a, clock) = Some ((a', clock'), ts')" "\<not> stopped"
    by (auto simp: archive_turn_def)
  with archive_read_handed [OF r(1) assms(2,3)] Poll show ?thesis by (simp add: read_envelope_def)
qed

lemma accepted_Cons: "accepted pu (x # xs) = accepted pu [x] @ (if fst x = Stop then [] else accepted pu xs)"
  by (cases x) auto

lemma archive_loop_handed:
  "archive_loop pu tns (a, clock) = Some ((a', clock'), ts') \<Longrightarrow> handed_over acc ts a \<Longrightarrow>
     length (ar_batch a) < batch_size \<Longrightarrow>
     handed_over (acc @ accepted pu tns) (ts @ ts') a' \<and> length (ar_batch a') < batch_size"
proof (induction tns arbitrary: a clock acc ts ts')
  case (Cons x tns)
  obtain tn now rd where x: "x = (tn, now, rd)" by (cases x)
  from Cons.prems(1) obtain a1 c1 ts1 stopped where
    1: "archive_turn pu (tn, now, rd) (a, clock) = Some ((a1, c1), ts1, stopped)"
    by (auto simp: x split: option.splits)
  note h = archive_turn_handed [OF 1 Cons.prems(2,3)]
  show ?case
  proof (cases stopped)
    case True
    then show ?thesis using h 1 Cons.prems(1) by (simp add: x)
  next
    case False
    with 1 Cons.prems(1) obtain ts2 where "archive_loop pu tns (a1, c1) = Some ((a', clock'), ts2)" "ts' = ts1 @ ts2"
      by (auto simp: x)
    with Cons.IH [OF this(1) h [THEN conjunct1] h [THEN conjunct2, THEN conjunct1]] h False show ?thesis
      by (simp only: accepted_Cons [of pu x tns]) (simp add: x)
  qed
qed simp

subsection \<open>The ids the consumer assigns\<close>

lemma next_ids_add:
  "next_ids m st c = Some (is, st1, c1) \<Longrightarrow> next_ids n st1 c1 = Some (js, st2, c2) \<Longrightarrow>
     next_ids (m + n) st c = Some (is @ js, st2, c2)"
  by (induction m arbitrary: st c "is") (auto split: option.splits)

text \<open>The ids of what was handed over and of what is left, before and after.\<close>

definition numbered :: "archiver \<Rightarrow> int list \<Rightarrow> archive_task list \<Rightarrow> archiver \<Rightarrow> int list \<Rightarrow> bool" where
  "numbered a clock ts a' clock' \<longleftrightarrow> (\<exists>n is. next_ids n (ar_ids a) clock = Some (is, ar_ids a', clock') \<and>
     map m_id (concat (map fst ts) @ ar_batch a') = map m_id (ar_batch a) @ is)"

lemma numbered_flush: "numbered a clock (snd (flush a)) (fst (flush a)) clock"
  unfolding numbered_def by (intro exI [of _ 0] exI [of _ "[]"]) (simp add: flush_simps(1,3))

lemma numbered_trans:
  assumes "numbered a c ts a1 c1" "numbered a1 c1 ts' a2 c2"
  shows "numbered a c (ts @ ts') a2 c2"
proof -
  from assms obtain m "is" n js where
    "next_ids m (ar_ids a) c = Some (is, ar_ids a1, c1)"
    "map m_id (concat (map fst ts) @ ar_batch a1) = map m_id (ar_batch a) @ is"
    "next_ids n (ar_ids a1) c1 = Some (js, ar_ids a2, c2)"
    "map m_id (concat (map fst ts') @ ar_batch a2) = map m_id (ar_batch a1) @ js"
    by (auto simp: numbered_def)
  then show ?thesis
    unfolding numbered_def by (intro exI [of _ "m + n"] exI [of _ "is @ js"]) (auto intro: next_ids_add)
qed

lemma archive_read_numbered:
  assumes "archive_read pu now rd (a, clock) = Some ((a', clock'), ts)"
  shows "numbered a clock ts a' clock'"
  using assms
proof (cases rule: archive_read_cases)
  case 1
  then show ?thesis unfolding numbered_def by (intro exI [of _ 0] exI [of _ "[]"]) simp
next
  case (2 off e i ids b)
  have "numbered a clock [] b clock'"
    unfolding numbered_def by (intro exI [of _ 1] exI [of _ "[i]"]) (simp add: 2 archive_message_def)
  show ?thesis
  proof (cases "batch_size \<le> length (ar_batch b)")
    case True
    with 2(4) have "a' = fst (flush b)" "ts = snd (flush b)" by (simp_all add: prod_eq_iff)
    with numbered_trans [OF \<open>numbered a clock [] b clock'\<close> numbered_flush] show ?thesis by simp
  next
    case False
    with 2(4) \<open>numbered a clock [] b clock'\<close> show ?thesis by simp
  qed
qed

lemma archive_turn_numbered:
  assumes "archive_turn pu (tn, now, rd) (a, clock) = Some ((a', clock'), ts, stopped)"
  shows "numbered a clock ts a' clock'"
proof (cases tn)
  case Tick
  with assms obtain ts1 where "archive_read pu now rd (fst (flush a), clock) = Some ((a', clock'), ts1)"
    "ts = snd (flush a) @ ts1" by (auto simp: archive_turn_def)
  with numbered_trans [OF numbered_flush archive_read_numbered [OF this(1)]] show ?thesis by simp
next
  case Stop
  with assms numbered_flush [of a clock] show ?thesis by (auto simp: archive_turn_def)
next
  case Poll
  with assms archive_read_numbered show ?thesis by (auto simp: archive_turn_def)
qed

lemma archive_loop_numbered:
  "archive_loop pu tns (a, clock) = Some ((a', clock'), ts) \<Longrightarrow> numbered a clock ts a' clock'"
proof (induction tns arbitrary: a clock ts)
  case Nil
  then show ?case unfolding numbered_def by (intro exI [of _ 0] exI [of _ "[]"]) simp
next
  case (Cons x tns)
  obtain tn now rd where x: "x = (tn, now, rd)" by (cases x)
  from Cons.prems obtain a1 c1 ts1 stopped where
    1: "archive_turn pu (tn, now, rd) (a, clock) = Some ((a1, c1), ts1, stopped)"
    by (auto simp: x split: option.splits)
  show ?case
  proof (cases stopped)
    case True
    then show ?thesis using archive_turn_numbered [OF 1] 1 Cons.prems by (simp add: x)
  next
    case False
    with 1 Cons.prems obtain ts2 where "archive_loop pu tns (a1, c1) = Some ((a', clock'), ts2)" "ts = ts1 @ ts2"
      by (auto simp: x)
    with numbered_trans [OF archive_turn_numbered [OF 1] Cons.IH [OF this(1)]] show ?thesis by simp
  qed
qed

subsection \<open>Properties\<close>

text \<open>C5: The archiver loses and repeats nothing on its way to the store: over any run of its loop, with
  any ticks, read errors, undecodable records and a shutdown, and whatever the clock shows, the batches it
  hands over, followed by the batch it still collects, are exactly the accepted messages in the order of the
  topic; no batch is empty or larger than 1000, and each carries the offset of its last message. When the
  clock in addition never steps back and stays within \<open>2 ^ 53\<close> milliseconds of the epoch of the ids, the
  ids they are given increase strictly; without that two messages can get one id.\<close>

theorem archiver_hands_over_everything:
  assumes run: "archive_loop pu tns (archiver_start, clock) = Some ((a, rest), tasks)"
  defines "out \<equiv> concat (map fst tasks) @ ar_batch a"
  shows "map unnumbered out = map (\<lambda>(_, e). message_of_envelope e) (accepted pu tns) \<and>
    list_all task_ok tasks \<and> length (ar_batch a) < batch_size \<and> offsets_ok (accepted pu tns) tasks \<and>
    (sorted clock \<and> (\<forall>t \<in> set clock. 0 \<le> t \<and> in_id_range t) \<longrightarrow> sorted_wrt (<) (map m_id out))"
proof -
  have "handed_over [] [] archiver_start" by (simp add: handed_over_def archiver_start_def)
  from archive_loop_handed [OF run this] have h: "handed_over (accepted pu tns) tasks a" "length (ar_batch a) < batch_size"
    by (simp_all add: archiver_start_def batch_size_def)
  from archive_loop_numbered [OF run] obtain n "is" where
    "next_ids n id_start clock = Some (is, ar_ids a, rest)" "map m_id out = is"
    by (auto simp: numbered_def archiver_start_def out_def)
  moreover have "id_state_ok id_start" by (simp add: id_state_ok_def id_start_def)
  ultimately have "sorted clock \<and> (\<forall>t \<in> set clock. 0 \<le> t \<and> in_id_range t) \<longrightarrow> sorted_wrt (<) (map m_id out)"
    using next_ids_above [of id_start clock n "is"] by (auto simp: id_start_def)
  with h show ?thesis by (simp add: handed_over_def out_def)
qed

lemma archiver_hands_over_everything_witness:
  "\<exists>bs a tasks. archive_loop sample_pu [(Poll, 9, ReadMessage 5 bs), (Tick, 9, ReadFailed)]
       (archiver_start, [1750000000001]) = Some ((a, []), tasks) \<and>
     map unnumbered (concat (map fst tasks) @ ar_batch a) = [message_of_envelope demo_envelope] \<and>
     map snd tasks = [5]"
proof -
  obtain bs where bs: "unmarshal_envelope sample_pu 9 bs = Inr demo_envelope"
    using envelope_roundtrip_lemma [OF sample_codec demo_envelope_valid, of 9]
    by (auto simp: demo_envelope_def)
  let ?tns = "[(Poll, 9, ReadMessage 5 bs), (Tick, 9, ReadFailed)]"
  let ?m = "archive_message (make_id 1750000000001 0) demo_envelope"
  have run: "archive_loop sample_pu ?tns (archiver_start, [1750000000001]) =
      Some (((\<lparr>ar_batch = [], ar_last = 5, ar_ids = \<lparr>id_sequence = 0, id_last_ms = 1750000000001\<rparr>\<rparr>), []), [([?m], 5)])"
    using bs by (simp add: archive_turn_def archive_read_def archiver_start_def next_id_def id_start_def flush_def batch_size_def)
  have "map unnumbered (concat (map fst [([?m], 5)]) @ []) = [message_of_envelope demo_envelope]"
    using archiver_hands_over_everything [OF run] bs by (simp add: in_id_range_def id_epoch_def)
  with run show ?thesis
    by (intro exI [of _ bs] exI [of _ "\<lparr>ar_batch = [], ar_last = 5, ar_ids = \<lparr>id_sequence = 0, id_last_ms = 1750000000001\<rparr>\<rparr>"]
        exI [of _ "[([?m], 5)]"] conjI) simp_all
qed

text \<open>A batch that fails is skipped for good: if the task of a batch fails (one repeated
  \<open>client_msg_id\<close> is enough) and the task of a later batch succeeds, the saved offset is that of the later
  batch: the start offset a restarted archiver configures lies behind the failed batch, whose messages
  are not in the store.\<close>

theorem failed_batch_is_skipped:
  assumes ml: "message_laws rows t" and rl: "redis_laws view rd"
    and b1: "\<not> distinct (map m_client_id ms1) \<or> (\<exists>m \<in> set ms1. message_conflict (rows s) m)"
    and b2: "save_message_batch t commit ms2 s = (s2, Inr ())"
    and new: "\<forall>m \<in> set ms1. \<forall>m' \<in> set (rows s) \<union> set ms2. m_id m \<noteq> m_id m'"
    and off: "off1 < off2" "is_int64 off2" "is_int64 (off2 + 1)"
    and saved: "\<And>r'. snd (rd_exec rd tm [RSet (offset_key topic 0) (format_int off2) 0] r')"
    and up: "\<exists>v. rd_get rd tm (offset_key topic 0) r' = Inr v"
    and run: "(s', i', r') = archive_task t commit index (Some rd) tj (offset_key topic 0) tm (ms2, off2)
      (archive_task t commit index (Some rd) tj (offset_key topic 0) tm (ms1, off1) (s, i, r))"
  shows "start_offset (Some rd) first topic tm r' = off2 + 1 \<and>
    (\<exists>added. rows s' = rows s @ added \<and> list_all2 message_assigned ms2 added) \<and>
    (\<forall>m \<in> set ms1. m_id m \<notin> m_id ` set (rows s'))"
proof -
  obtain s1 res where sv: "save_message_batch t commit ms1 s = (s1, res)" by (cases "save_message_batch t commit ms1 s")
  have fail: "\<exists>e. res = Inl e" "s1 = s"
  proof -
    show "\<exists>e. res = Inl e"
    proof (rule ccontr)
      assume "\<not> ?thesis"
      then have "res = Inr ()" by (cases res) auto
      then have "create_all t ms1 s = (s1, Inr ())"
        using sv transaction_cases(2) [of commit "create_all t ms1" s s1 "()"] b1
        by (auto simp: save_message_batch_def split: if_splits)
      with create_all_rows [OF ml this] b1 show False by auto
    qed
    then obtain e where "res = Inl e" ..
    then show "s1 = s" using sv transaction_cases(1) [of commit "create_all t ms1" s s1 e]
      by (simp add: save_message_batch_def split: if_splits)
  qed
  then have one: "archive_task t commit index (Some rd) tj (offset_key topic 0) tm (ms1, off1) (s, i, r) = (s, i, r)"
    using sv by (auto simp: archive_task_def)
  let ?r = "push_latest_to_redis (Some rd) tj tm ms2 r"
  obtain r2 where r2: "rd_exec rd tm [RSet (offset_key topic 0) (format_int off2) 0] ?r = (r2, True)"
    using saved [of ?r] by (cases "rd_exec rd tm [RSet (offset_key topic 0) (format_int off2) 0] ?r") auto
  have "(s', i', r') = archive_task t commit index (Some rd) tj (offset_key topic 0) tm (ms2, off2) (s, i, r)"
    using run unfolding one .
  then have eqs: "s' = s2" "r' = r2" using b2 r2 by (simp_all add: archive_task_def save_offset_def)
  have "view r2 (offset_key topic 0) = Some (RStr (format_int off2), None)"
    using redis_lawsD(4) [OF rl r2] by simp
  then have "get_string tm (view r2) (offset_key topic 0) = Some (format_int off2)"
    by (simp add: get_string_def purge_def)
  moreover obtain v where v: "rd_get rd tm (offset_key topic 0) r2 = Inr v" using up eqs(2) by blast
  ultimately have "v = format_int off2" using redis_lawsD(1) [OF rl v] by simp
  then have start: "start_offset (Some rd) first topic tm r' = off2 + 1"
    using v off by (simp add: eqs start_offset_def parse_ok_format wrap_int_id)
  have "\<exists>added. rows s2 = rows s @ added \<and> list_all2 message_assigned ms2 added"
  proof (cases "ms2 = []")
    case False
    then have "create_all t ms2 s = (s2, Inr ())"
      using b2 transaction_cases(2) [of commit "create_all t ms2" s s2 "()"] by (simp add: save_message_batch_def)
    with create_all_rows [OF ml this] show ?thesis by auto
  qed (use b2 in \<open>simp add: save_message_batch_def\<close>)
  then obtain added where added: "rows s2 = rows s @ added" "list_all2 message_assigned ms2 added" by blast
  from added(2) have "map m_id added = map m_id ms2" by (induction rule: list_all2_induct) (auto dest: message_assigned_same)
  then have "m_id ` set added = m_id ` set ms2" by (metis list.set_map)
  then have "m_id m \<notin> m_id ` set (rows s @ added)" if "m \<in> set ms1" for m
    using new that by (auto simp: image_iff image_Un)
  with start eqs(1) added show ?thesis by auto
qed

lemma failed_batch_is_skipped_witness:
  "\<exists>s' i' r'. archive_task list_messages (\<lambda>_. None) (\<lambda>_ i. i) (Some sample_redis) sample_time (offset_key ''t'' 0) 0
       ([demo_stored 3 ''c''], 9) (archive_task list_messages (\<lambda>_. None) (\<lambda>_ i. i) (Some sample_redis) sample_time
         (offset_key ''t'' 0) 0 ([demo_stored 1 ''a'', demo_stored 2 ''a''], 8) ([], (), \<lambda>_. None)) = (s', i', r') \<and>
     start_offset (Some sample_redis) (- 2) ''t'' 0 r' = 10 \<and> s' = [demo_stored 3 ''c'']"
proof -
  let ?run = "archive_task list_messages (\<lambda>_. None) (\<lambda>_ i. i) (Some sample_redis) sample_time (offset_key ''t'' 0) 0
       ([demo_stored 3 ''c''], 9) (archive_task list_messages (\<lambda>_. None) (\<lambda>_ i. i) (Some sample_redis) sample_time
         (offset_key ''t'' 0) 0 ([demo_stored 1 ''a'', demo_stored 2 ''a''], 8) ([], (), \<lambda>_. None))"
  have save: "save_message_batch list_messages (\<lambda>_. None) [demo_stored 3 ''c''] [] = ([demo_stored 3 ''c''], Inr ())"
    by (simp add: save_message_batch_def transaction_def list_messages_def list_table_def message_conflict_def
        demo_stored_def cut_message_def stored_message_def Let_def)
  have dup: "save_message_batch list_messages (\<lambda>_. None) [demo_stored 1 ''a'', demo_stored 2 ''a''] [] = ([], Inl DuplicateKey)"
    by (simp add: save_message_batch_def transaction_def list_messages_def list_table_def message_conflict_def
        demo_stored_def cut_message_def stored_message_def Let_def)
  define r1 where "r1 = push_latest_to_redis (Some sample_redis) sample_time 0 [demo_stored 3 ''c''] (\<lambda>_. None)"
  obtain s' i' r' where run: "?run = (s', i', r')" by (metis prod_cases3)
  have r': "r' = redis_run 0 [RSet (offset_key ''t'' 0) (format_int 9) 0] r1"
    using run by (auto simp: archive_task_def dup save save_offset_def sample_redis_def r1_def)
  have "rd_get sample_redis 0 (offset_key ''t'' 0) r' \<noteq> Inl e" for e
    by (simp add: r' sample_redis_def purge_def)
  then have up: "\<exists>v. rd_get sample_redis 0 (offset_key ''t'' 0) r' = Inr v"
    by (cases "rd_get sample_redis 0 (offset_key ''t'' 0) r'") auto
  have "start_offset (Some sample_redis) (- 2) ''t'' 0 r' = 9 + 1 \<and>
    (\<exists>added. s' = [] @ added \<and> list_all2 message_assigned [demo_stored 3 ''c''] added) \<and>
    (\<forall>m \<in> set [demo_stored 1 ''a'', demo_stored 2 ''a'']. m_id m \<notin> m_id ` set s')"
    by (rule failed_batch_is_skipped [OF list_messages_laws sample_redis_laws _ save _ _ _ _ _ up run [symmetric]])
       (simp_all add: demo_stored_def zero_time_def in_width_def sample_redis_def)
  moreover have "s' = [demo_stored 3 ''c'']"
    using calculation by (auto simp: list_all2_Cons1 stored_message_def zero_time_def demo_stored_def dest!: message_assigned_whole)
  ultimately show ?thesis using run by simp
qed

end
