(* ===== verification/Http.thy ===== *)
theory Http
  imports Json
begin

section \<open>Requests and replies of the HTTP handlers\<close>

text \<open>
  A reply is the status and the body; a body is a constructor of the handler's own type. A request
  carries strings: path parameters, query parameters, headers and the body. What the middleware puts
  into gin's context for the handlers is the record \<open>identity\<close>.
\<close>

type_synonym 'b reply = "int \<times> 'b"

record identity =
  id_user :: "int option"
  id_role :: "int option"

text \<open>\<open>c.GetInt64("user_id")\<close>, \<open>c.GetInt8("user_role")\<close>: zero when absent.\<close>

definition ctx_user :: "identity \<Rightarrow> int" where
  "ctx_user c = (case id_user c of None \<Rightarrow> 0 | Some u \<Rightarrow> u)"

definition ctx_role :: "identity \<Rightarrow> int" where
  "ctx_role c = (case id_role c of None \<Rightarrow> 0 | Some r \<Rightarrow> r)"

text \<open>
  \<open>ShouldBindJSON\<close>: the decoder reads one value from the body and leaves the rest unread.
\<close>

definition bind_json ::
    "string list \<Rightarrow> (string \<Rightarrow> json \<Rightarrow> 'r \<Rightarrow> 'r option) \<Rightarrow> 'r \<Rightarrow> string \<Rightarrow> 'r option" where
  "bind_json names set_field zero s =
     (case parse_value (length s + 2) 0 s of
        None \<Rightarrow> None
      | Some (JNull, _) \<Rightarrow> Some zero
      | Some (JObj ms, _) \<Rightarrow>
          (case fold (decode_member names set_field) ms (zero, True) of
             (r, ok) \<Rightarrow> if ok then Some r else None)
      | Some _ \<Rightarrow> None)"

text \<open>\<open>utf8.RuneCountInString\<close> of a decoded string: every byte that is not a continuation byte starts a rune.\<close>

definition rune_count :: "string \<Rightarrow> nat" where
  "rune_count s = length (filter (\<lambda>c. \<not> is_cont c) s)"

lemma bind_json_of_decode: "decode_struct names f zero s = Some r \<Longrightarrow> bind_json names f zero s = Some r"
  by (auto simp: decode_struct_def bind_json_def parse_json_def split: option.splits json.splits if_splits prod.splits)

end
