(* ===== verification/Rbac.thy ===== *)
theory Rbac
  imports Http
begin

section \<open>Roles and permissions (models/admin.go, the middleware, the admin routes)\<close>

text \<open>
  The role numbers and the permissions of the admin console, the guards of the middleware and the guard
  chain the router puts in front of every admin route.
\<close>

definition role_user :: int where "role_user = 0"
definition role_super_admin :: int where "role_super_admin = 1"
definition role_moderator :: int where "role_moderator = 2"
definition role_operator :: int where "role_operator = 3"

datatype permission =
    PermDashboardRead | PermUserRead | PermUserBan | PermUserKick | PermUserRoleUpdate | PermUserDelete
  | PermRoomRead | PermRoomFreeze | PermRoomDelete | PermMessageRead | PermMessageDelete
  | PermModerationRead | PermModerationReview | PermAgentRead | PermAgentConfig | PermFileRead
  | PermFileDelete | PermConnectionRead | PermConnectionClose | PermAuditRead | PermSystemRead

text \<open>The map from a role to its permissions; the super administrator is not in it.\<close>

definition role_permission_map :: "(int, permission list) gomap" where
  "role_permission_map =
     [(role_moderator,
       [PermDashboardRead, PermUserRead, PermUserBan, PermUserKick, PermRoomRead, PermRoomFreeze,
        PermRoomDelete, PermMessageRead, PermMessageDelete, PermModerationRead, PermModerationReview,
        PermAgentRead, PermFileRead, PermConnectionRead]),
      (role_operator,
       [PermDashboardRead, PermUserRead, PermRoomRead, PermMessageRead, PermModerationRead,
        PermAgentRead, PermFileRead, PermConnectionRead, PermAuditRead, PermSystemRead])]"

definition role_name :: "int \<Rightarrow> string" where
  "role_name r =
     (if r = role_super_admin then ''super_admin''
      else if r = role_moderator then ''moderator''
      else if r = role_operator then ''operator''
      else ''user'')"

definition is_admin_role :: "int \<Rightarrow> bool" where
  "is_admin_role r \<longleftrightarrow> r = role_super_admin \<or> r = role_moderator \<or> r = role_operator"

definition has_permission :: "int \<Rightarrow> permission \<Rightarrow> bool" where
  "has_permission r p =
     (if r = role_super_admin then True
      else (case gm_get role_permission_map r of
              None \<Rightarrow> False
            | Some perms \<Rightarrow> p \<in> set perms))"

subsection \<open>Middleware (shared/http/middleware/rbac.go, jwt_auth.go)\<close>

datatype refusal = NotAnAdmin | MissingIdentity | NoPermission | SuperAdminsOnly

text \<open>A middleware lets the request through (\<open>None\<close>) or aborts it with a reply.\<close>

type_synonym guard = "identity \<Rightarrow> refusal reply option"

definition require_admin :: guard where
  "require_admin c =
     (case id_role c of
        None \<Rightarrow> Some (403, NotAnAdmin)
      | Some r \<Rightarrow> if \<not> is_admin_role r then Some (403, NotAnAdmin) else None)"

definition require_permission :: "permission \<Rightarrow> guard" where
  "require_permission p c =
     (case id_role c of
        None \<Rightarrow> Some (403, NoPermission)
      | Some r \<Rightarrow> if \<not> has_permission r p then Some (403, NoPermission) else None)"

definition require_any_permission :: "permission list \<Rightarrow> guard" where
  "require_any_permission ps c =
     (case id_role c of
        None \<Rightarrow> Some (403, MissingIdentity)
      | Some r \<Rightarrow> if list_ex (has_permission r) ps then None else Some (403, NoPermission))"

definition super_admin_only :: guard where
  "super_admin_only c = (if id_role c \<noteq> Some 1 then Some (403, SuperAdminsOnly) else None)"

subsection \<open>Permissions of an action (services/admin/api/admin_permission.go)\<close>

definition admin_has_permission :: "identity \<Rightarrow> permission \<Rightarrow> bool" where
  "admin_has_permission c p = (case id_role c of None \<Rightarrow> False | Some r \<Rightarrow> has_permission r p)"

definition require_action_permission :: "identity \<Rightarrow> permission \<Rightarrow> refusal reply option" where
  "require_action_permission c p = (if admin_has_permission c p then None else Some (403, NoPermission))"

definition user_action_permission :: "string \<Rightarrow> permission option" where
  "user_action_permission a =
     (if a \<in> {''ban'', ''unban''} then Some PermUserBan
      else if a \<in> {''role_super_admin'', ''role_moderator'', ''role_operator'', ''role_user''}
      then Some PermUserRoleUpdate
      else None)"

definition room_action_permission :: "string \<Rightarrow> permission option" where
  "room_action_permission a =
     (if a \<in> {''freeze'', ''unfreeze'', ''remove_member'', ''set_admin'', ''transfer_owner''} then Some PermRoomFreeze
      else if a = ''disband'' then Some PermRoomDelete
      else if a \<in> {''agent_enable'', ''agent_disable''} then Some PermAgentConfig
      else if a \<in> {''moderation_enable'', ''moderation_disable''} then Some PermModerationReview
      else None)"

subsection \<open>The admin routes (services/admin/api/router.go, module.go)\<close>

text \<open>The handlers that are registered, and for the merged ones the action they are asked for.\<close>

datatype admin_call =
    RagQueries | ModerationDashboard | ModerationList | ModerationDetail | ModerationAction
  | UserList | UserDetail | UserAction string
  | RoomList | RoomDetail | RoomAction string
  | FileList | FileScan | FileCleanup | FileDetail | FileDownload | FileDelete
  | AgentConfigGet | AgentConfigHistory | AgentConfigUpdate | AgentConfigRollback
  | ToolCallList | AuditList | DeleteRoom

fun route_guard :: "admin_call \<Rightarrow> guard" where
  "route_guard RagQueries = require_permission PermAgentRead"
| "route_guard ModerationDashboard = require_permission PermModerationRead"
| "route_guard ModerationList = require_permission PermModerationRead"
| "route_guard ModerationDetail = require_permission PermModerationRead"
| "route_guard ModerationAction = require_permission PermModerationReview"
| "route_guard UserList = require_permission PermUserRead"
| "route_guard UserDetail = require_permission PermUserRead"
| "route_guard (UserAction _) = require_any_permission [PermUserBan, PermUserRoleUpdate]"
| "route_guard RoomList = require_permission PermRoomRead"
| "route_guard RoomDetail = require_permission PermRoomRead"
| "route_guard (RoomAction _) = require_any_permission [PermRoomFreeze, PermRoomDelete, PermAgentConfig]"
| "route_guard FileList = require_permission PermFileRead"
| "route_guard FileScan = require_permission PermFileRead"
| "route_guard FileCleanup = require_permission PermFileDelete"
| "route_guard FileDetail = require_permission PermFileRead"
| "route_guard FileDownload = require_permission PermFileRead"
| "route_guard FileDelete = require_permission PermFileDelete"
| "route_guard AgentConfigGet = require_permission PermAgentRead"
| "route_guard AgentConfigHistory = require_permission PermAgentRead"
| "route_guard AgentConfigUpdate = require_permission PermAgentConfig"
| "route_guard AgentConfigRollback = require_permission PermAgentConfig"
| "route_guard ToolCallList = require_permission PermAgentRead"
| "route_guard AuditList = require_permission PermAuditRead"
| "route_guard DeleteRoom = require_permission PermRoomDelete"

text \<open>The check inside the merged action handlers; \<open>Inl\<close> is an unknown action.\<close>

definition action_guard :: "(string \<Rightarrow> permission option) \<Rightarrow> string \<Rightarrow> identity \<Rightarrow> (int + refusal reply) option" where
  "action_guard perm_of a c =
     (case perm_of a of
        None \<Rightarrow> Some (Inl 400)
      | Some p \<Rightarrow> map_option Inr (require_action_permission c p))"

fun handler_guard :: "admin_call \<Rightarrow> identity \<Rightarrow> (int + refusal reply) option" where
  "handler_guard (UserAction a) c = action_guard user_action_permission a c"
| "handler_guard (RoomAction a) c = action_guard room_action_permission a c"
| "handler_guard _ c = None"

text \<open>The chain of the group: an administrator, then the route's guard, then the handler's own.\<close>

definition admin_allowed :: "admin_call \<Rightarrow> identity \<Rightarrow> bool" where
  "admin_allowed k c \<longleftrightarrow>
     require_admin c = None \<and> route_guard k c = None \<and> handler_guard k c = None"

text \<open>The calls that change something.\<close>

fun changes_state :: "admin_call \<Rightarrow> bool" where
  "changes_state ModerationAction = True"
| "changes_state (UserAction _) = True"
| "changes_state (RoomAction _) = True"
| "changes_state FileCleanup = True"
| "changes_state FileDelete = True"
| "changes_state AgentConfigUpdate = True"
| "changes_state AgentConfigRollback = True"
| "changes_state DeleteRoom = True"
| "changes_state _ = False"

text \<open>The merged routes know these actions.\<close>

fun known_action :: "admin_call \<Rightarrow> bool" where
  "known_action (UserAction a) \<longleftrightarrow> user_action_permission a \<noteq> None"
| "known_action (RoomAction a) \<longleftrightarrow> room_action_permission a \<noteq> None"
| "known_action _ \<longleftrightarrow> True"

lemmas role_defs = role_user_def role_super_admin_def role_moderator_def role_operator_def

lemma has_permission_cases:
  "has_permission r p \<longleftrightarrow> r = 1 \<or>
     r = 2 \<and> p \<in> {PermDashboardRead, PermUserRead, PermUserBan, PermUserKick, PermRoomRead, PermRoomFreeze,
       PermRoomDelete, PermMessageRead, PermMessageDelete, PermModerationRead, PermModerationReview,
       PermAgentRead, PermFileRead, PermConnectionRead} \<or>
     r = 3 \<and> p \<in> {PermDashboardRead, PermUserRead, PermRoomRead, PermMessageRead, PermModerationRead,
       PermAgentRead, PermFileRead, PermConnectionRead, PermAuditRead, PermSystemRead}"
  by (auto simp: has_permission_def role_permission_map_def role_defs split: option.splits)

lemma guard_simps:
  "require_admin c = None \<longleftrightarrow> (\<exists>r. id_role c = Some r \<and> r \<in> {1, 2, 3})"
  "require_permission p c = None \<longleftrightarrow> (\<exists>r. id_role c = Some r \<and> has_permission r p)"
  "require_any_permission ps c = None \<longleftrightarrow> (\<exists>r. id_role c = Some r \<and> (\<exists>p \<in> set ps. has_permission r p))"
  "action_guard perm_of a c = None \<longleftrightarrow>
     (\<exists>p r. perm_of a = Some p \<and> id_role c = Some r \<and> has_permission r p)"
  by (auto simp: require_admin_def is_admin_role_def role_defs require_permission_def require_any_permission_def
      list_ex_iff action_guard_def require_action_permission_def admin_has_permission_def split: option.splits if_splits)

subsection \<open>Property\<close>

text \<open>C25: The admin interface enforces the roles: nobody but the three admin roles gets past the group's
  guards; an operator can call only what reads; a moderator can change users only by banning and
  unbanning and rooms in every way but the agent's, and cannot change roles, files or the agent's
  configuration; the super administrator can call every route with a known action. The inner check of
  the merged action routes closes the gap that their outer any-of guards leave.\<close>

theorem admin_roles_enforced:
  "(admin_allowed k c \<longrightarrow> (\<exists>r. id_role c = Some r \<and> is_admin_role r \<and>
      (r = role_operator \<longrightarrow> \<not> changes_state k) \<and>
      (r = role_moderator \<longrightarrow> changes_state k \<longrightarrow>
         k \<in> {ModerationAction, DeleteRoom, UserAction ''ban'', UserAction ''unban''} \<or>
         (\<exists>a. k = RoomAction a \<and> a \<notin> {''agent_enable'', ''agent_disable''})))) \<and>
   (id_role c = Some role_super_admin \<longrightarrow> (admin_allowed k c \<longleftrightarrow> known_action k))"
proof (rule conjI)
  show "id_role c = Some role_super_admin \<longrightarrow> (admin_allowed k c \<longleftrightarrow> known_action k)"
    by (cases k) (auto simp: admin_allowed_def guard_simps has_permission_cases role_defs)
next
  show "admin_allowed k c \<longrightarrow> (\<exists>r. id_role c = Some r \<and> is_admin_role r \<and>
      (r = role_operator \<longrightarrow> \<not> changes_state k) \<and>
      (r = role_moderator \<longrightarrow> changes_state k \<longrightarrow>
         k \<in> {ModerationAction, DeleteRoom, UserAction ''ban'', UserAction ''unban''} \<or>
         (\<exists>a. k = RoomAction a \<and> a \<notin> {''agent_enable'', ''agent_disable''})))"
  proof
  assume assms: "admin_allowed k c"
  from assms obtain r where r: "id_role c = Some r" "r \<in> {1, 2, 3}"
    by (auto simp: admin_allowed_def guard_simps)
  have route: "route_guard k c = None" and handler: "handler_guard k c = None"
    using assms by (auto simp: admin_allowed_def)
  have "\<not> changes_state k" if "r = 3"
    using route r(1) that by (cases k) (auto simp: guard_simps has_permission_cases)
  moreover have "k \<in> {ModerationAction, DeleteRoom, UserAction ''ban'', UserAction ''unban''} \<or>
      (\<exists>a. k = RoomAction a \<and> a \<notin> {''agent_enable'', ''agent_disable''})" if "r = 2" "changes_state k"
    using route handler r(1) that
    by (cases k) (auto simp: guard_simps has_permission_cases user_action_permission_def room_action_permission_def
        split: if_splits)
  ultimately show "\<exists>r. id_role c = Some r \<and> is_admin_role r \<and>
      (r = role_operator \<longrightarrow> \<not> changes_state k) \<and>
      (r = role_moderator \<longrightarrow> changes_state k \<longrightarrow>
         k \<in> {ModerationAction, DeleteRoom, UserAction ''ban'', UserAction ''unban''} \<or>
         (\<exists>a. k = RoomAction a \<and> a \<notin> {''agent_enable'', ''agent_disable''}))"
    using r by (auto simp: is_admin_role_def role_defs)
  qed
qed

lemma admin_roles_enforced_witness:
  "admin_allowed (UserAction ''ban'') \<lparr>id_user = Some 5, id_role = Some 2\<rparr> \<and> is_admin_role 2"
proof -
  have a: "admin_allowed (UserAction ''ban'') \<lparr>id_user = Some 5, id_role = Some 2\<rparr>"
    by (simp add: admin_allowed_def guard_simps has_permission_cases user_action_permission_def)
  from admin_roles_enforced [of "UserAction ''ban''" "\<lparr>id_user = Some 5, id_role = Some 2\<rparr>"] a show ?thesis by simp
qed

end
