(* ===== verification/Auth.thy ===== *)
theory Auth
  imports Rbac SampleDb LoginProtector HubState
begin

section \<open>Tokens, login and registration\<close>

text \<open>
  The token library (golang-jwt) and bcrypt are parameters. \<open>jw_sign\<close> is HS256 signing; \<open>jw_parse\<close>
  verifies a token with the key a function chooses from whether the token's algorithm is an HMAC.
  Times are nanoseconds since the year 1, as in the login protector.
\<close>

record claims =
  cl_user :: int
  cl_role :: int
  cl_expires :: "int option"
  cl_issued :: int
  cl_issuer :: string

record jwt =
  jw_sign :: "string \<Rightarrow> claims \<Rightarrow> string option"
  jw_parse :: "(bool \<Rightarrow> string option) \<Rightarrow> int \<Rightarrow> string \<Rightarrow> claims option"

definition claims_live :: "int \<Rightarrow> claims \<Rightarrow> bool" where
  "claims_live now c \<longleftrightarrow> (case cl_expires c of None \<Rightarrow> True | Some e \<Rightarrow> now < e)"

text \<open>
  What the library documents: a signed token parses back to its claims with the same key while it is
  live; nothing parses without a key, and nothing expired parses.
\<close>

definition jwt_laws :: "jwt \<Rightarrow> bool" where
  "jwt_laws j \<longleftrightarrow>
     (\<forall>k c t kf now. jw_sign j k c = Some t \<longrightarrow> kf True = Some k \<longrightarrow>
        jw_parse j kf now t = (if claims_live now c then Some c else None)) \<and>
     (\<forall>k c t. jw_sign j k c = Some t \<longrightarrow> t \<noteq> []) \<and>
     (\<forall>kf now t c. jw_parse j kf now t = Some c \<longrightarrow> claims_live now c \<and> (\<exists>b. kf b \<noteq> None))"

subsection \<open>Tokens (pkg/jwt.go)\<close>

definition jwt_secret :: "environment \<Rightarrow> string" where
  "jwt_secret env =
     (if env ''JWT_SECRET'' = [] then ''fK29gArL2zTtX7V8ErD9bF2wR4qJ6pM3'' else env ''JWT_SECRET'')"

text \<open>\<open>NewNumericDate\<close> truncates to seconds.\<close>

definition numeric_date :: "int \<Rightarrow> int" where
  "numeric_date t = t - t mod 1000000000"

definition day :: int where
  "day = 24 * 60 * minute"

definition generate_token :: "jwt \<Rightarrow> environment \<Rightarrow> int \<Rightarrow> int \<Rightarrow> int \<Rightarrow> string option" where
  "generate_token j env now userID role =
     jw_sign j (jwt_secret env)
       \<lparr>cl_user = userID, cl_role = role, cl_expires = Some (numeric_date (now + day)),
        cl_issued = numeric_date now, cl_issuer = ''lan-im-server''\<rparr>"

definition token_key :: "environment \<Rightarrow> bool \<Rightarrow> string option" where
  "token_key env hmac = (if hmac then Some (jwt_secret env) else None)"

definition parse_token :: "jwt \<Rightarrow> environment \<Rightarrow> int \<Rightarrow> string \<Rightarrow> claims option" where
  "parse_token j env now t = jw_parse j (token_key env) now t"

subsection \<open>The authentication middleware (shared/http/middleware/jwt_auth.go)\<close>

datatype auth_error = InvalidAuthorizationHeader | MissingToken | InvalidToken

definition bearer_token :: "string \<Rightarrow> string \<Rightarrow> auth_error + string" where
  "bearer_token header query =
     (if header \<noteq> [] then
        (case split_n 2 (CHR '' '') header of
           [a, b] \<Rightarrow> if a = ''Bearer'' then Inr b else Inl InvalidAuthorizationHeader
         | _ \<Rightarrow> Inl InvalidAuthorizationHeader)
      else Inr query)"

definition jwt_auth :: "jwt \<Rightarrow> environment \<Rightarrow> int \<Rightarrow> string \<Rightarrow> string \<Rightarrow> auth_error reply + identity" where
  "jwt_auth j env now header query =
     (case bearer_token header query of
        Inl e \<Rightarrow> Inl (401, e)
      | Inr t \<Rightarrow>
          if t = [] then Inl (401, MissingToken)
          else (case parse_token j env now t of
                  None \<Rightarrow> Inl (401, InvalidToken)
                | Some c \<Rightarrow> Inr \<lparr>id_user = Some (cl_user c), id_role = Some (cl_role c)\<rparr>))"

subsection \<open>Login (services/gateway/handlers/auth_handler.go, services/admin/api/admin_auth.go)\<close>

text \<open>The environment of a handler, its fallbacks; \<open>strings.TrimSpace\<close> first, unlike the hub's reader.\<close>

definition trimmed_env_int :: "environment \<Rightarrow> string \<Rightarrow> int \<Rightarrow> int" where
  "trimmed_env_int env name fallback =
     (case parse_ok (trim_space (env name)) of
        None \<Rightarrow> fallback
      | Some v \<Rightarrow> if v \<le> 0 then fallback else v)"

definition login_protection_config :: "environment \<Rightarrow> int \<Rightarrow> protect_config" where
  "login_protection_config env cpus =
     (let c = default_config cpus
      in c\<lparr>pc_ip_limit := trimmed_env_int env ''LOGIN_IP_LIMIT_PER_MINUTE'' (pc_ip_limit c),
           pc_pair_limit := trimmed_env_int env ''LOGIN_IP_USERNAME_LIMIT_PER_MINUTE'' (pc_pair_limit c),
           pc_bcrypt := trimmed_env_int env ''LOGIN_BCRYPT_CONCURRENCY'' (pc_bcrypt c)\<rparr>)"

definition login_timeout :: "environment \<Rightarrow> int" where
  "login_timeout env = int64_of (trimmed_env_int env ''LOGIN_TIMEOUT_SECONDS'' 5 * 1000000000)"

record credentials =
  cr_username :: string
  cr_password :: string

definition credential_fields :: "string list" where
  "credential_fields = [''username'', ''password'']"

definition set_credential :: "string \<Rightarrow> json \<Rightarrow> credentials \<Rightarrow> credentials option" where
  "set_credential n v r =
     (if n = ''username'' then map_option (\<lambda>x. r\<lparr>cr_username := x\<rparr>) (json_str v)
      else map_option (\<lambda>x. r\<lparr>cr_password := x\<rparr>) (json_str v))"

definition bind_credentials :: "string \<Rightarrow> credentials option" where
  "bind_credentials body =
     bind_json credential_fields set_credential \<lparr>cr_username = [], cr_password = []\<rparr> body"

text \<open>The \<open>required\<close> tags.\<close>

definition bind_login :: "string \<Rightarrow> credentials option" where
  "bind_login body =
     (case bind_credentials body of
        None \<Rightarrow> None
      | Some r \<Rightarrow> if cr_username r = [] \<or> cr_password r = [] then None else Some r)"

datatype login_error =
    InvalidRequest | RateLimited | LoginTimedOut | BadCredentials | LoginBusy | UseAdminLogin
  | NoAdminAccess | TokenFailed

record logged_in =
  li_token :: string
  li_id :: int
  li_username :: string
  li_role :: int
  li_avatar :: string

text \<open>
  What the handler meets: the clock, the client's address, whether the request's context is over when
  the comparison starts (and which branch its select then takes) or before it ends.
\<close>

record login_env =
  le_now :: int
  le_ip :: string
  le_ctx_done :: bool
  le_pick_ctx :: bool
  le_timed_out :: bool

definition context_error :: "db_error \<Rightarrow> bool" where
  "context_error e \<longleftrightarrow> e = DeadlineExceeded \<or> e = Canceled"

text \<open>
  The part the two logins share: limiter, look-up, comparison. A started comparison holds its slot in
  the returned protector until it ends (\<open>compare_finish\<close>), which may be after the reply.
\<close>

definition check_credentials ::
    "(string \<Rightarrow> string) \<Rightarrow> (string \<Rightarrow> string \<Rightarrow> bool) \<Rightarrow> 's db \<Rightarrow> login_env \<Rightarrow> string \<Rightarrow> protector \<Rightarrow> 's \<Rightarrow>
     protector \<times> (login_error reply + user)" where
  "check_credentials lower matches d le body p s =
     (case bind_login body of
        None \<Rightarrow> (p, Inl (400, InvalidRequest))
      | Some r \<Rightarrow>
          (case allow lower (le_now le) (le_ip le) (cr_username r) p of
             (p1, Some _) \<Rightarrow> (p1, Inl (429, RateLimited))
           | (p1, None) \<Rightarrow>
               (case get_by_username d (cr_username r) s of
                  Inl e \<Rightarrow> (p1, Inl (if context_error e then (504, LoginTimedOut) else (401, BadCredentials)))
                | Inr u \<Rightarrow>
                    (case compare_start (le_ctx_done le) (le_pick_ctx le) p1 of
                       (p2, StartCanceled) \<Rightarrow> (p2, Inl (504, LoginTimedOut))
                     | (p2, StartBusy) \<Rightarrow> (p2, Inl (503, LoginBusy))
                     | (p2, Started) \<Rightarrow>
                         if le_timed_out le then (p2, Inl (504, LoginTimedOut))
                         else if \<not> matches (u_password u) (cr_password r) then (p2, Inl (401, BadCredentials))
                         else (p2, Inr u)))))"

definition issue_token :: "jwt \<Rightarrow> environment \<Rightarrow> int \<Rightarrow> user \<Rightarrow> (login_error + logged_in) reply" where
  "issue_token j env now u =
     (case generate_token j env now (u_id u) (u_role u) of
        None \<Rightarrow> (500, Inl TokenFailed)
      | Some t \<Rightarrow> (200, Inr \<lparr>li_token = t, li_id = u_id u, li_username = u_username u, li_role = u_role u,
                             li_avatar = u_avatar u\<rparr>))"

definition login_handler ::
    "(string \<Rightarrow> string) \<Rightarrow> (string \<Rightarrow> string \<Rightarrow> bool) \<Rightarrow> jwt \<Rightarrow> environment \<Rightarrow> 's db \<Rightarrow> login_env \<Rightarrow> string \<Rightarrow>
     protector \<Rightarrow> 's \<Rightarrow> protector \<times> (login_error + logged_in) reply" where
  "login_handler lower matches j env d le body p s =
     (case check_credentials lower matches d le body p s of
        (p', Inl (st, e)) \<Rightarrow> (p', (st, Inl e))
      | (p', Inr u) \<Rightarrow>
          if u_role u \<noteq> role_user then (p', (403, Inl UseAdminLogin))
          else (p', issue_token j env (le_now le) u))"

definition admin_login ::
    "(string \<Rightarrow> string) \<Rightarrow> (string \<Rightarrow> string \<Rightarrow> bool) \<Rightarrow> jwt \<Rightarrow> environment \<Rightarrow> 's db \<Rightarrow> login_env \<Rightarrow> string \<Rightarrow>
     protector \<Rightarrow> 's \<Rightarrow> protector \<times> (login_error + logged_in) reply" where
  "admin_login lower matches j env d le body p s =
     (case check_credentials lower matches d le body p s of
        (p', Inl (st, e)) \<Rightarrow> (p', (st, Inl e))
      | (p', Inr u) \<Rightarrow>
          if \<not> is_admin_role (u_role u) then (p', (403, Inl NoAdminAccess))
          else (p', issue_token j env (le_now le) u))"

subsection \<open>Registration\<close>

datatype register_reply = InvalidRegistration | UsernameTaken | HashFailed | RegisterConflict | Registered

text \<open>\<open>hash\<close> is bcrypt with the salt of this call; \<open>None\<close> for a password it refuses (over 72 bytes).\<close>

definition register_handler ::
    "(string \<Rightarrow> string option) \<Rightarrow> 's db \<Rightarrow> string \<Rightarrow> 's \<Rightarrow> 's \<times> register_reply reply" where
  "register_handler hash d body s =
     (case bind_credentials body of
        None \<Rightarrow> (s, (400, InvalidRegistration))
      | Some r \<Rightarrow>
          if rune_count (cr_username r) < 3 \<or> 32 < rune_count (cr_username r) \<or>
             rune_count (cr_password r) < 6 \<or> 32 < rune_count (cr_password r)
          then (s, (400, InvalidRegistration))
          else if is_ok (get_by_username d (cr_username r) s) then (s, (409, UsernameTaken))
          else (case hash (cr_password r) of
                  None \<Rightarrow> (s, (500, HashFailed))
                | Some h \<Rightarrow>
                    (case create_user d \<lparr>u_id = 0, u_username = cr_username r, u_password = h, u_avatar = [],
                            u_role = 0, u_is_bot = False, u_status = 0, u_last_login = None,
                            u_last_active = None, u_created = 0\<rparr> s of
                       (s', Inl _) \<Rightarrow> (s', (500, RegisterConflict))
                     | (s', Inr _) \<Rightarrow> (s', (200, Registered)))))"

subsection \<open>What a login checks\<close>

lemma bearer_split: "split_n 2 (CHR '' '') (''Bearer '' @ t) = [''Bearer'', t]"
proof -
  have "split_on (CHR '' '') (''Bearer'' @ CHR '' '' # t) = ''Bearer'' # split_on (CHR '' '') t"
    by (rule split_on_append_sep) simp
  moreover have "''Bearer'' @ CHR '' '' # t = ''Bearer '' @ t" by simp
  ultimately have e: "split_on (CHR '' '') (''Bearer '' @ t) = ''Bearer'' # split_on (CHR '' '') t" by metis
  obtain w ws where w: "split_on (CHR '' '') t = w # ws" by (cases "split_on (CHR '' '') t") auto
  have j: "join_with (CHR '' '') (w # ws) = t" using join_split [of "CHR '' ''" t] w by simp
  show ?thesis unfolding split_n_def e w using j by (cases ws) (auto simp: Let_def)
qed

lemma token_accepted:
  assumes laws: "jwt_laws j" and t: "generate_token j env now u r = Some t" and live: "now' < numeric_date (now + day)"
  shows "jwt_auth j env now' (''Bearer '' @ t) q = Inr \<lparr>id_user = Some u, id_role = Some r\<rparr>"
proof -
  let ?c = "\<lparr>cl_user = u, cl_role = r, cl_expires = Some (numeric_date (now + day)),
      cl_issued = numeric_date now, cl_issuer = ''lan-im-server''\<rparr>"
  have sign: "jw_sign j (jwt_secret env) ?c = Some t" using t by (simp add: generate_token_def)
  have "jw_parse j (token_key env) now' t = Some ?c"
    using laws sign live unfolding jwt_laws_def by (simp add: token_key_def claims_live_def)
  moreover have "t \<noteq> []" using laws sign unfolding jwt_laws_def by blast
  ultimately show ?thesis by (simp add: jwt_auth_def bearer_token_def bearer_split [simplified] parse_token_def)
qed

text \<open>The only way to a user: the account exists and the password matches.\<close>

lemma check_credentials_Inr:
  assumes "check_credentials lower matches d le body p s = (p', Inr u)"
  obtains r where "bind_login body = Some r" "get_by_username d (cr_username r) s = Inr u"
    "matches (u_password u) (cr_password r)"
  using assms
  by (auto simp: check_credentials_def split: option.splits prod.splits sum.splits compare_outcome.splits if_splits)

lemma get_by_username_Inr:
  assumes "db_laws d v" "get_by_username d n s = Inr u"
  shows "u \<in> set (v_users v s) \<and> u_username u = n"
  using gorm_take_Inr [OF db_lawsD(1) [OF assms(1)]] assms(2) by (auto simp: get_by_username_def)

lemma check_credentials_pass:
  assumes "bind_login body = Some r" "allow lower (le_now le) (le_ip le) (cr_username r) p = (pa, None)"
    "get_by_username d (cr_username r) s = Inr u" "int (lp_slots pa) < pc_bcrypt (lp_config pa)"
    "\<not> le_ctx_done le" "\<not> le_timed_out le" "matches (u_password u) (cr_password r)"
  shows "check_credentials lower matches d le body p s = (pa\<lparr>lp_slots := lp_slots pa + 1\<rparr>, Inr u)"
  using assms by (simp add: check_credentials_def compare_start_def)

subsection \<open>A concrete login\<close>

text \<open>A token library for one key and one set of claims.\<close>

definition sample_jwt :: "string \<Rightarrow> claims \<Rightarrow> jwt" where
  "sample_jwt k0 c0 =
     \<lparr>jw_sign = (\<lambda>k c. if k = k0 \<and> c = c0 then Some ''token'' else None),
      jw_parse = (\<lambda>kf now t. if t = ''token'' \<and> kf True = Some k0 \<and> claims_live now c0 then Some c0 else None)\<rparr>"

lemma sample_jwt_laws: "jwt_laws (sample_jwt k0 c0)"
  by (auto simp: jwt_laws_def sample_jwt_def split: if_splits)

definition demo_claims :: "int \<Rightarrow> claims" where
  "demo_claims i =
     \<lparr>cl_user = i, cl_role = 0, cl_expires = Some (numeric_date day), cl_issued = 0, cl_issuer = ''lan-im-server''\<rparr>"

definition demo_jwt :: "int \<Rightarrow> jwt" where
  "demo_jwt i = sample_jwt (jwt_secret (\<lambda>_. [])) (demo_claims i)"

lemma demo_token: "generate_token (demo_jwt i) (\<lambda>_. []) 0 i 0 = Some ''token''"
  by (simp add: generate_token_def demo_jwt_def sample_jwt_def demo_claims_def numeric_date_def)

definition demo_matches :: "string \<Rightarrow> string \<Rightarrow> bool" where
  "demo_matches h pw \<longleftrightarrow> h = ''#'' @ pw"

definition demo_body :: "string \<Rightarrow> string" where
  "demo_body name = enc_json (JObj [(''username'', JStr name), (''password'', JStr ''secret'')])"

lemma bind_demo:
  assumes "valid_utf8 name"
  shows "bind_credentials (demo_body name) = Some \<lparr>cr_username = name, cr_password = ''secret''\<rparr>"
  unfolding bind_credentials_def demo_body_def
  by (rule bind_json_of_decode, rule decode_struct_object)
    (use assms in \<open>simp_all add: max_depth_def decode_member_def match_field_def credential_fields_def
       set_credential_def json_str_def valid_utf8_ascii\<close>)

definition demo_login :: login_env where
  "demo_login = \<lparr>le_now = 0, le_ip = ''i'', le_ctx_done = False, le_pick_ctx = False, le_timed_out = False\<rparr>"

lemma demo_login_simps [simp]:
  "le_now demo_login = 0" "le_ip demo_login = ''i''" "\<not> le_ctx_done demo_login" "\<not> le_timed_out demo_login"
  by (simp_all add: demo_login_def)

definition demo_protector :: "nat \<Rightarrow> protector" where
  "demo_protector n = \<lparr>lp_ips = [], lp_pairs = [], lp_slots = n, lp_config = default_config 1, lp_next_gc = 0\<rparr>"

lemma demo_allow:
  "snd (allow id 0 ''i'' name (demo_protector n)) = None \<and> lp_slots (fst (allow id 0 ''i'' name (demo_protector n))) = n \<and>
   lp_config (fst (allow id 0 ''i'' name (demo_protector n))) = default_config 1"
  by (simp add: allow_def maybe_cleanup_def demo_protector_def cleanup_def expire_def increment_window_def
      entry_at_def default_config_def Let_def)

definition demo_account :: "int \<Rightarrow> sample_state" where
  "demo_account status = demo_db\<lparr>sd_users := [(demo_user 1 ''ann'')\<lparr>u_password := ''#secret'', u_status := status\<rparr>]\<rparr>"

lemma demo_lookup:
  "get_by_username sample_db ''ann'' (demo_account st) = Inr ((demo_user 1 ''ann'')\<lparr>u_password := ''#secret'', u_status := st\<rparr>)"
  "get_by_username sample_db ''eve'' (demo_account st) = Inl RecordNotFound"
  by (simp_all add: get_by_username_def gorm_take_def sample_db_def sample_users_def list_table_def query_all_def
      demo_account_def demo_user_def sort_by_def page_def Let_def)

lemma demo_login_bind: "valid_utf8 name \<Longrightarrow> name \<noteq> [] \<Longrightarrow>
    bind_login (demo_body name) = Some \<lparr>cr_username = name, cr_password = ''secret''\<rparr>"
  by (simp add: bind_login_def bind_demo)

lemma demo_name [simp]: "valid_utf8 ''ann''" "valid_utf8 ''eve''"
  by (simp_all add: valid_utf8_ascii)

lemma demo_checked:
  "check_credentials id demo_matches sample_db demo_login (demo_body ''ann'') (demo_protector 0) (demo_account st) =
     ((fst (allow id 0 ''i'' ''ann'' (demo_protector 0)))\<lparr>lp_slots := 1\<rparr>,
      Inr ((demo_user 1 ''ann'')\<lparr>u_password := ''#secret'', u_status := st\<rparr>))"
proof -
  obtain pa where pa: "allow id 0 ''i'' ''ann'' (demo_protector 0) = (pa, None)" "lp_slots pa = 0"
    "lp_config pa = default_config 1"
    using demo_allow [of "''ann''" 0] by (cases "allow id 0 ''i'' ''ann'' (demo_protector 0)") auto
  then show ?thesis
    by (subst check_credentials_pass [OF demo_login_bind, where pa = pa])
      (simp_all add: demo_lookup demo_matches_def default_config_def)
qed

subsection \<open>Properties\<close>

text \<open>C26: A token is issued only for an existing account whose password matched, by the login that fits the
  account's role, and it is that account's token: for 24 hours (to the second) the authentication
  middleware turns it into the account's id and role, and into nothing else.\<close>

theorem login_issues_own_token:
  assumes laws: "db_laws d v" "jwt_laws j"
    and login: "login_handler lower matches j env d le body p s = (p', (200, Inr li)) \<and> k = (\<lambda>r. r = role_user) \<or>
      admin_login lower matches j env d le body p s = (p', (200, Inr li)) \<and> k = is_admin_role"
  shows "\<exists>r u. bind_login body = Some r \<and> u \<in> set (v_users v s) \<and> u_username u = cr_username r \<and>
    matches (u_password u) (cr_password r) \<and> k (u_role u) \<and> li_id li = u_id u \<and>
    (\<forall>now' q. now' < numeric_date (le_now le + day) \<longrightarrow>
       jwt_auth j env now' (''Bearer '' @ li_token li) q = Inr \<lparr>id_user = Some (u_id u), id_role = Some (u_role u)\<rparr>)"
proof -
  obtain u where u: "check_credentials lower matches d le body p s = (p', Inr u)" "k (u_role u)"
    "issue_token j env (le_now le) u = (200, Inr li)"
    using login
    by (cases "check_credentials lower matches d le body p s")
       (auto simp: login_handler_def admin_login_def split: sum.splits prod.splits if_splits)
  from u(1) obtain r where r: "bind_login body = Some r" "get_by_username d (cr_username r) s = Inr u"
    "matches (u_password u) (cr_password r)" by (rule check_credentials_Inr)
  from u(3) obtain t where t: "generate_token j env (le_now le) (u_id u) (u_role u) = Some t"
    "li_token li = t" "li_id li = u_id u"
    by (auto simp: issue_token_def split: option.splits)
  show ?thesis
    using r get_by_username_Inr [OF laws(1) r(2)] u(2) t token_accepted [OF laws(2) t(1)] by blast
qed

lemma login_issues_own_token_witness:
  "\<exists>p' li. login_handler id demo_matches (demo_jwt 1) (\<lambda>_. []) sample_db demo_login (demo_body ''ann'')
       (demo_protector 0) (demo_account 0) = (p', (200, Inr li)) \<and>
     jwt_auth (demo_jwt 1) (\<lambda>_. []) 5 (''Bearer '' @ li_token li) [] = Inr \<lparr>id_user = Some 1, id_role = Some 0\<rparr>"
proof -
  obtain p' li where l: "login_handler id demo_matches (demo_jwt 1) (\<lambda>_. []) sample_db demo_login (demo_body ''ann'')
       (demo_protector 0) (demo_account 0) = (p', (200, Inr li))"
    by (simp add: login_handler_def demo_checked demo_user_def role_user_def issue_token_def demo_token)
  then have "login_handler id demo_matches (demo_jwt 1) (\<lambda>_. []) sample_db demo_login (demo_body ''ann'')
       (demo_protector 0) (demo_account 0) = (p', (200, Inr li)) \<and> (\<lambda>r. r = role_user) = (\<lambda>r. r = role_user) \<or>
     admin_login id demo_matches (demo_jwt 1) (\<lambda>_. []) sample_db demo_login (demo_body ''ann'')
       (demo_protector 0) (demo_account 0) = (p', (200, Inr li)) \<and> (\<lambda>r. r = role_user) = is_admin_role" by simp
  from login_issues_own_token [OF sample_laws sample_jwt_laws [of "jwt_secret (\<lambda>_. [])" "demo_claims 1", folded demo_jwt_def] this]
  obtain u where "u \<in> set (v_users sample_views (demo_account 0))"
    "\<forall>now' q. now' < numeric_date (le_now demo_login + day) \<longrightarrow>
       jwt_auth (demo_jwt 1) (\<lambda>_. []) now' (''Bearer '' @ li_token li) q = Inr \<lparr>id_user = Some (u_id u), id_role = Some (u_role u)\<rparr>"
    by blast
  moreover have "5 < numeric_date (le_now demo_login + day)"
    by (simp add: numeric_date_def day_def minute_def)
  ultimately show ?thesis using l by (auto simp: sample_views_def demo_account_def demo_user_def)
qed

text \<open>C27: Whoever registers can log in: after a successful registration the same body logs in as a plain
  user under the registered name, unless the limiter, a full comparison pool or a time-out intervenes.\<close>

theorem registered_user_can_login:
  assumes laws: "db_laws d v" "jwt_laws j" and bcrypt: "\<And>pw h. hash pw = Some h \<Longrightarrow> matches h pw"
    and reg: "register_handler hash d body s = (s', (200, Registered))"
    and up: "queries_succeed (db_users d) s'"
    and sign: "\<forall>u \<in> set (v_users v s'). u_username u = cr_username r \<longrightarrow>
      generate_token j env (le_now le) (u_id u) (u_role u) \<noteq> None"
    and r: "bind_credentials body = Some r"
    and free: "allow lower (le_now le) (le_ip le) (cr_username r) p = (pa, None)"
      "int (lp_slots pa) < pc_bcrypt (lp_config pa)" "\<not> le_ctx_done le" "\<not> le_timed_out le"
  shows "\<exists>p' li. login_handler lower matches j env d le body p s' = (p', (200, Inr li)) \<and>
    li_username li = cr_username r \<and> li_role li = role_user"
proof -
  let ?u0 = "\<lambda>h. \<lparr>u_id = 0, u_username = cr_username r, u_password = h, u_avatar = [], u_role = 0, u_is_bot = False,
      u_status = 0, u_last_login = None, u_last_active = None, u_created = 0\<rparr>"
  have len: "3 \<le> rune_count (cr_username r)" "6 \<le> rune_count (cr_password r)"
    using reg r by (auto simp: register_handler_def split: if_splits)
  have "\<exists>h u. hash (cr_password r) = Some h \<and> t_create (db_users d) (?u0 h) s = (s', Inr u)"
    using reg r by (auto simp: register_handler_def create_user_def split: option.splits sum.splits if_splits prod.splits)
  then obtain h u where h: "hash (cr_password r) = Some h" and c: "t_create (db_users d) (?u0 h) s = (s', Inr u)" by blast
  define u0 where "u0 = ?u0 h"
  have u0: "u_username u0 = cr_username r" "u_password u0 = h" "u_role u0 = 0" by (simp_all add: u0_def)
  have u: "user_assigned u0 u" "\<not> user_conflict (v_users v s) u" "v_users v s' = v_users v s @ [u]"
    using table_lawsD(4) [OF db_lawsD(1) [OF laws(1)] c [folded u0_def]] by auto
  have ueq: "u_username u = cr_username r" "u_password u = h" "u_role u = 0"
    using user_assignedD [OF u(1)] u0 by simp_all
  have bind: "bind_login body = Some r"
    using r len by (auto simp: bind_login_def rune_count_def)
  let ?q = "(query_all (\<lambda>x. u_username x = cr_username r))\<lparr>q_limit := Some 1\<rparr>"
  obtain rs where rs: "t_find (db_users d) ?q s' = Inr rs" using up by (force simp: queries_succeed_def query_all_def)
  have "rs \<noteq> []"
  proof
    assume "rs = []"
    with table_lawsD(1) [OF db_lawsD(1) [OF laws(1)] rs] obtain xs where
      "mset xs = mset (filter (\<lambda>x. u_username x = cr_username r) (v_users v s'))" "take 1 xs = []"
      by (auto simp: answers_def query_all_def page_def)
    then have "filter (\<lambda>x. u_username x = cr_username r) (v_users v s') = []" by simp
    then show False using u(3) ueq(1) by simp
  qed
  then obtain x where x: "get_by_username d (cr_username r) s' = Inr x"
    using rs by (cases rs) (auto simp: get_by_username_def gorm_take_def)
  then have "x \<in> set (v_users v s')" "u_username x = cr_username r"
    using get_by_username_Inr [OF laws(1)] by auto
  then have "x = u" using u(2,3) ueq(1) by (auto simp: user_conflict_def)
  then have "check_credentials lower matches d le body p s' = (pa\<lparr>lp_slots := lp_slots pa + 1\<rparr>, Inr u)"
    using bcrypt [OF h] ueq(2) by (intro check_credentials_pass [where matches = matches, OF bind free(1) x [unfolded \<open>x = u\<close>] free(2-4)]) simp
  moreover obtain t where "generate_token j env (le_now le) (u_id u) (u_role u) = Some t"
    using sign u(3) ueq(1) by fastforce
  ultimately show ?thesis using ueq by (auto simp: login_handler_def role_user_def issue_token_def)
qed

lemma registered_user_can_login_witness:
  "\<exists>s' p' li. register_handler (\<lambda>pw. Some (''#'' @ pw)) sample_db (demo_body ''eve'') (demo_account 0) = (s', (200, Registered)) \<and>
     login_handler id demo_matches (demo_jwt 2) (\<lambda>_. []) sample_db demo_login (demo_body ''eve'') (demo_protector 0) s' =
       (p', (200, Inr li)) \<and> li_username li = ''eve''"
proof -
  define s' where "s' = fst (register_handler (\<lambda>pw. Some (''#'' @ pw)) sample_db (demo_body ''eve'') (demo_account 0))"
  let ?users = "\<lambda>us. (demo_account 0)\<lparr>sd_users := us\<rparr>"
  let ?eve = "\<lambda>i. \<lparr>u_id = i, u_username = ''eve'', u_password = ''#secret'', u_avatar = [],
          u_role = 0, u_is_bot = False, u_status = 0, u_last_login = None, u_last_active = None, u_created = 0\<rparr>"
  have "create_user sample_db (?eve 0) (demo_account 0) = (?users (sd_users (demo_account 0) @ [?eve 2]), Inr (?eve 2))"
    by (simp add: create_user_def sample_db_def sample_users_def list_table_def demo_account_def user_conflict_def
        next_key_def demo_user_def Let_def)
  then have reg: "register_handler (\<lambda>pw. Some (''#'' @ pw)) sample_db (demo_body ''eve'') (demo_account 0) =
      (?users (sd_users (demo_account 0) @ [?eve 2]), (200, Registered))"
    by (simp add: register_handler_def bind_demo rune_count_def in_range_def demo_lookup)
  then have s': "s' = ?users (sd_users (demo_account 0) @ [\<lparr>u_id = 2, u_username = ''eve'', u_password = ''#secret'', u_avatar = [],
          u_role = 0, u_is_bot = False, u_status = 0, u_last_login = None, u_last_active = None, u_created = 0\<rparr>])"
    by (simp add: s'_def)
  obtain pa where pa: "allow id 0 ''i'' ''eve'' (demo_protector 0) = (pa, None)" "lp_slots pa = 0"
    "lp_config pa = default_config 1"
    using demo_allow [of "''eve''" 0] by (cases "allow id 0 ''i'' ''eve'' (demo_protector 0)") auto
  have "\<exists>p' li. login_handler id demo_matches (demo_jwt 2) (\<lambda>_. []) sample_db demo_login (demo_body ''eve'') (demo_protector 0) s' =
      (p', (200, Inr li)) \<and> li_username li = cr_username \<lparr>cr_username = ''eve'', cr_password = ''secret''\<rparr> \<and> li_role li = role_user"
  proof (rule registered_user_can_login [OF sample_laws sample_jwt_laws [of "jwt_secret (\<lambda>_. [])" "demo_claims 2", folded demo_jwt_def]])
    show "register_handler (\<lambda>pw. Some (''#'' @ pw)) sample_db (demo_body ''eve'') (demo_account 0) = (s', (200, Registered))"
      using reg s' by simp
    show "queries_succeed (db_users sample_db) s'"
      by (simp add: sample_db_def sample_users_def list_table_queries)
    show "bind_credentials (demo_body ''eve'') = Some \<lparr>cr_username = ''eve'', cr_password = ''secret''\<rparr>"
      by (simp add: bind_demo)
  qed (use pa in \<open>auto simp: demo_matches_def s' default_config_def sample_views_def demo_account_def
         demo_user_def demo_token\<close>)
  then show ?thesis using reg s' by fastforce
qed

text \<open>A ban does not reach the login: an account with the banned status and the right password gets a
  token, and the middleware accepts it, because neither reads the status.\<close>

theorem banned_user_gets_token:
  assumes laws: "jwt_laws j" and bind: "bind_login body = Some r"
    and user: "get_by_username d (cr_username r) s = Inr u" "u_role u = role_user" "u_status u = 1"
      "matches (u_password u) (cr_password r)"
    and free: "allow lower (le_now le) (le_ip le) (cr_username r) p = (pa, None)"
      "int (lp_slots pa) < pc_bcrypt (lp_config pa)" "\<not> le_ctx_done le" "\<not> le_timed_out le"
    and sign: "generate_token j env (le_now le) (u_id u) (u_role u) \<noteq> None"
  shows "\<exists>p' li. login_handler lower matches j env d le body p s = (p', (200, Inr li)) \<and>
    (\<forall>now' q. now' < numeric_date (le_now le + day) \<longrightarrow>
       jwt_auth j env now' (''Bearer '' @ li_token li) q = Inr \<lparr>id_user = Some (u_id u), id_role = Some (u_role u)\<rparr>)"
proof -
  obtain t where t: "generate_token j env (le_now le) (u_id u) (u_role u) = Some t"
    using sign by blast
  have "check_credentials lower matches d le body p s = (pa\<lparr>lp_slots := lp_slots pa + 1\<rparr>, Inr u)"
    by (rule check_credentials_pass [where matches = matches, OF bind free(1) user(1) free(2-4) user(4)])
  then show ?thesis using t user(2) token_accepted [OF laws t] by (simp add: login_handler_def issue_token_def)
qed

lemma banned_user_gets_token_witness:
  "\<exists>p' li. login_handler id demo_matches (demo_jwt 1) (\<lambda>_. []) sample_db demo_login (demo_body ''ann'') (demo_protector 0)
       (demo_account 1) = (p', (200, Inr li)) \<and>
     jwt_auth (demo_jwt 1) (\<lambda>_. []) 5 (''Bearer '' @ li_token li) [] = Inr \<lparr>id_user = Some 1, id_role = Some 0\<rparr>"
proof -
  let ?u = "(demo_user 1 ''ann'')\<lparr>u_password := ''#secret'', u_status := 1\<rparr>"
  obtain pa where pa: "allow id 0 ''i'' ''ann'' (demo_protector 0) = (pa, None)" "lp_slots pa = 0"
    "lp_config pa = default_config 1"
    using demo_allow [of "''ann''" 0] by (cases "allow id 0 ''i'' ''ann'' (demo_protector 0)") auto
  have live: "5 < numeric_date (le_now demo_login + day)"
    by (simp add: numeric_date_def day_def minute_def)
  have "\<exists>p' li. login_handler id demo_matches (demo_jwt 1) (\<lambda>_. []) sample_db demo_login (demo_body ''ann'') (demo_protector 0)
       (demo_account 1) = (p', (200, Inr li)) \<and>
     (\<forall>now' q. now' < numeric_date (le_now demo_login + day) \<longrightarrow>
       jwt_auth (demo_jwt 1) (\<lambda>_. []) now' (''Bearer '' @ li_token li) q = Inr \<lparr>id_user = Some (u_id ?u), id_role = Some (u_role ?u)\<rparr>)"
    by (rule banned_user_gets_token [OF sample_jwt_laws [of "jwt_secret (\<lambda>_. [])" "demo_claims 1", folded demo_jwt_def]
          demo_login_bind, where pa = pa])
       (use pa in \<open>simp_all add: demo_lookup demo_user_def role_user_def demo_matches_def default_config_def demo_token\<close>)
  then show ?thesis using live by (fastforce simp: demo_user_def)
qed

text \<open>The single message for a bad login hides whether the account exists only while the comparison
  pool has room: when it is full, an existing account is answered 503 and a missing one 401, so an
  attacker who keeps the pool busy can tell them apart.\<close>

theorem full_pool_reveals_accounts:
  assumes bind: "bind_login body = Some r" "bind_login body' = Some r'"
    and user: "get_by_username d (cr_username r) s = Inr u" "get_by_username d (cr_username r') s = Inl RecordNotFound"
    and allow: "allow lower (le_now le) (le_ip le) (cr_username r) p = (pa, None)"
      "allow lower (le_now le) (le_ip le) (cr_username r') p = (pb, None)"
    and full: "pc_bcrypt (lp_config pa) \<le> int (lp_slots pa)" "\<not> le_ctx_done le"
  shows "snd (login_handler lower matches j env d le body p s) = (503, Inl LoginBusy) \<and>
    snd (login_handler lower matches j env d le body' p s) = (401, Inl BadCredentials)"
  using assms by (simp add: login_handler_def check_credentials_def compare_start_def context_error_def)

lemma full_pool_reveals_accounts_witness:
  "snd (login_handler id demo_matches (demo_jwt 1) (\<lambda>_. []) sample_db demo_login (demo_body ''ann'') (demo_protector 2)
       (demo_account 0)) = (503, Inl LoginBusy) \<and>
   snd (login_handler id demo_matches (demo_jwt 1) (\<lambda>_. []) sample_db demo_login (demo_body ''eve'') (demo_protector 2)
       (demo_account 0)) = (401, Inl BadCredentials)"
proof -
  have p: "\<exists>pa. allow id 0 ''i'' n (demo_protector 2) = (pa, None) \<and> lp_slots pa = 2 \<and> lp_config pa = default_config 1" for n
    using demo_allow [of n 2] by (cases "allow id 0 ''i'' n (demo_protector 2)") auto
  from p obtain pa pb where "allow id 0 ''i'' ''ann'' (demo_protector 2) = (pa, None)" "lp_slots pa = 2"
    "lp_config pa = default_config 1" "allow id 0 ''i'' ''eve'' (demo_protector 2) = (pb, None)" by metis
  then show ?thesis
    by (intro full_pool_reveals_accounts [OF demo_login_bind demo_login_bind, where pa = pa and pb = pb])
       (simp_all add: demo_lookup default_config_def)
qed

end
