(* ===== verification/WsEndpoint.thy ===== *)
theory WsEndpoint
  imports Pipeline Presence SampleDb Http
begin

section \<open>A WebSocket session (services/gateway/handlers/ws_handler.go, the write pump's heartbeat)\<close>

text \<open>
  The endpoint as the code orders it: the rooms are loaded, the connection is upgraded, the client is
  made and registered with the rooms, the online state is written; the deferred clean-up runs after
  the read pump has ended. The address of the new client is an argument, one that is not in use; the
  result of the upgrade, the two clock readings and the request's headers come with the request.
\<close>

record ws_request =
  wr_identity :: identity
  wr_upgrade :: bool
  wr_nanos :: int
  wr_connected :: int
  wr_millis :: int
  wr_ip :: string
  wr_agent :: string
  wr_version :: string

datatype ws_error = IdentityInvalid | RoomsNotLoaded

text \<open>\<open>WsReady\<close> has the connection id and whether the online state was written.\<close>

datatype ws_result = WsRejected "ws_error reply" | WsNotUpgraded | WsReady string bool

definition send_cap :: nat where
  "send_cap = 512"

definition conn_id :: "int \<Rightarrow> int \<Rightarrow> string" where
  "conn_id u nanos = format_int u @ ''-'' @ format_int nanos"

definition new_client :: "ws_request \<Rightarrow> int \<Rightarrow> client" where
  "new_client q u =
     \<lparr>c_user = u, c_conn = Some True, c_send = Some (chan_new send_cap), c_username = [],
      c_conn_id = conn_id u (wr_nanos q), c_remote_ip = wr_ip q, c_user_agent = wr_agent q,
      c_version = wr_version q, c_connected_at = wr_connected q, c_active = False, c_rooms = None,
      c_send_closed = False, c_last_read = 0, c_last_write = 0\<rparr>"

definition ws_open ::
    "'s db \<Rightarrow> 'r redis \<Rightarrow> string \<Rightarrow> ws_request \<Rightarrow> cid \<Rightarrow> 's \<Rightarrow> hub \<times> 'r \<Rightarrow> (hub \<times> 'r) \<times> ws_result" where
  "ws_open d rd node q c s st =
     (case id_user (wr_identity q) of
        None \<Rightarrow> (st, WsRejected (401, IdentityInvalid))
      | Some u \<Rightarrow>
          (case get_user_room_ids d u s of
             Inl _ \<Rightarrow> (st, WsRejected (500, RoomsNotLoaded))
           | Inr rooms \<Rightarrow>
               if \<not> wr_upgrade q then (st, WsNotUpgraded)
               else
                 (let k = conn_id u (wr_nanos q);
                      h = register (Some c) rooms (upd_client c (\<lambda>_. new_client q u) (fst st))
                  in case set_user_connection_online rd (wr_millis q) u node k (snd st) of
                       (rs, ok) \<Rightarrow> ((h, rs), WsReady k ok))))"

text \<open>The goroutine that looks the name up.\<close>

definition load_username :: "'s db \<Rightarrow> 's \<Rightarrow> int \<Rightarrow> cid \<Rightarrow> hub \<Rightarrow> hub" where
  "load_username d s u c h =
     (case get_by_id d u s of Inl _ \<Rightarrow> h | Inr x \<Rightarrow> upd_client c (set_username (u_username x)) h)"

text \<open>The heartbeat of the write pump: the ping, then the renewal of the online state.\<close>

definition write_tick ::
    "'r redis \<Rightarrow> int \<Rightarrow> string \<Rightarrow> client \<Rightarrow> bool \<Rightarrow> 'r \<Rightarrow> 'r \<times> ws_frame list \<times> bool" where
  "write_tick rd now node cl write_ok rs =
     (if write_ok
      then (fst (renew_user_connection_online rd now (c_user cl) node (c_conn_id cl) rs), [PingFrame], True)
      else (rs, [], False))"

text \<open>The deferred clean-up; the read pump has unregistered the client already.\<close>

definition ws_close ::
    "'r redis \<Rightarrow> int \<Rightarrow> int \<Rightarrow> string \<Rightarrow> string \<Rightarrow> cid \<Rightarrow> hub \<times> 'r \<Rightarrow> ((hub \<times> 'r) \<times> bool) option" where
  "ws_close rd now u node k c st =
     (case unregister (Some c) (fst st) of
        None \<Rightarrow> None
      | Some h \<Rightarrow>
          (case set_user_connection_offline rd now u node k (snd st) of
             (rs, ok) \<Rightarrow> Some ((close_conn c h, rs), ok)))"

text \<open>What the other goroutines do to the hub while a session waits.\<close>

inductive hub_steps :: "time_json \<Rightarrow> scheduler \<Rightarrow> hub \<Rightarrow> hub \<Rightarrow> bool" for tj sched where
  none: "hub_steps tj sched h h"
| more: "hub_steps tj sched h h' \<Longrightarrow> op_ok op h' \<Longrightarrow> run_op tj sched op h' = Some h'' \<Longrightarrow> hub_steps tj sched h h''"

lemma hub_steps_inv: "hub_steps tj sched h h' \<Longrightarrow> fair_schedule sched \<Longrightarrow> hub_inv h \<Longrightarrow> hub_inv h'"
proof (induction rule: hub_steps.induct)
  case (more h h' op h'')
  then show ?case using run_op_refines [of h' sched op tj] by auto
qed simp

text \<open>A client that was never registered or has left can be overwritten.\<close>

lemma fresh_slot:
  assumes inv: "hub_inv h" and free: "\<not> c_active (h_clients h c)" and cl: "fresh_client cl"
  shows "hub_inv (upd_client c (\<lambda>_. cl) h)" and "hub_abs (upd_client c (\<lambda>_. cl) h) = hub_abs h"
proof -
  have none: "rooms_of (h_clients h c) = []" using client_ok_rooms [OF hub_invD(4) [OF inv]] free by blast
  have dead: "\<not> c_active cl" "rooms_of cl = []" using cl by (auto simp: fresh_client_def rooms_of_def)
  show "hub_abs (upd_client c (\<lambda>_. cl) h) = hub_abs h"
    using free dead by (auto simp: hub_abs_def)
  have cur: "client_by_user h u \<noteq> Some c" for u using hub_invD(2) [OF inv, of u c] free by blast
  have "client_by_user h u = Some b \<longrightarrow> c_user (h_clients (upd_client c (\<lambda>_. cl) h) b) = u \<and>
      c_active (h_clients (upd_client c (\<lambda>_. cl) h) b)" for u b
    using hub_invD(2) [OF inv, of u b] cur by auto
  moreover have "b \<in> set (members h r) \<longleftrightarrow> r \<in> set (rooms_of (h_clients (upd_client c (\<lambda>_. cl) h) b))" for r b
    using hub_invD(3) [OF inv, of b r] none dead by auto
  moreover have "client_ok (h_clients (upd_client c (\<lambda>_. cl) h) b)" for b
    using hub_invD(4) [OF inv, of b] fresh_client_ok [OF cl] by auto
  ultimately show "hub_inv (upd_client c (\<lambda>_. cl) h)" using hub_invD(1) [OF inv] by (simp add: hub_inv_def)
qed

lemma new_client_fresh: "fresh_client (new_client q u)"
  by (simp add: fresh_client_def new_client_def chan_new_def chan_ok_def send_cap_def)

lemma unregister_leaves:
  assumes inv: "hub_inv h"
  obtains h' where "unregister (Some c) h = Some h'" "hub_inv (close_conn c h')" "\<not> c_active (h_clients (close_conn c h') c)"
proof -
  from unregister_refines [OF inv, of c] obtain h' where
    h': "unregister (Some c) h = Some h'" "hub_inv h'" "hub_abs h' = a_unregister (c_user (h_clients h c)) c (hub_abs h)"
    by auto
  have "hub_inv (close_conn c h')" "hub_abs (close_conn c h') = hub_abs h'" using close_conn_inv [OF h'(2)] by blast+
  moreover from this(2) have "\<not> c_active (h_clients (close_conn c h') c)"
    using h'(3) by (auto simp: hub_abs_def a_unregister_def split: if_splits)
  ultimately show ?thesis using that h'(1) by blast
qed

lemma inactive_absent:
  assumes inv: "hub_inv h" and dead: "\<not> c_active (h_clients h c)"
  shows "c \<notin> set (members h r)" and "client_by_user h u \<noteq> Some c"
  using client_ok_rooms [OF hub_invD(4) [OF inv]] hub_invD(3) [OF inv, of c r] hub_invD(2) [OF inv, of u c] dead by auto

definition the_rooms :: "'s db \<Rightarrow> int \<Rightarrow> 's \<Rightarrow> room_id list" where
  "the_rooms d u s = (case get_user_room_ids d u s of Inl _ \<Rightarrow> [] | Inr rooms \<Rightarrow> rooms)"

text \<open>What a successful opening has done.\<close>

lemma ws_open_ready:
  assumes laws: "db_laws d v" and inv: "hub_inv h" and free: "\<not> c_active (h_clients h c)"
    and u: "id_user (wr_identity q) = Some u"
    and run: "ws_open d rd node q c s (h, rs) = ((h1, rs1), WsReady k ok)"
  shows "hub_inv h1" and "k = conn_id u (wr_nanos q)"
    and "set_user_connection_online rd (wr_millis q) u node k rs = (rs1, ok)"
    and "hub_abs h1 = a_register u c (the_rooms d u s) (hub_abs h)"
    and "r \<in> set (the_rooms d u s) \<longleftrightarrow> is_member v s u r"
proof -
  obtain rooms where ids: "get_user_room_ids d u s = Inr rooms"
    using run u by (cases "get_user_room_ids d u s") (auto simp: ws_open_def)
  let ?h0 = "upd_client c (\<lambda>_. new_client q u) h"
  note slot = fresh_slot [OF inv free new_client_fresh [of q u]]
  have "wr_upgrade q" using run u ids by (auto simp: ws_open_def split: if_splits)
  then have h1: "h1 = register (Some c) rooms ?h0"
    and on: "set_user_connection_online rd (wr_millis q) u node (conn_id u (wr_nanos q)) rs = (rs1, ok)"
    and k: "k = conn_id u (wr_nanos q)"
    using run u ids by (auto simp: ws_open_def Let_def split: prod.splits)
  have fresh: "fresh_client (h_clients ?h0 c)" using new_client_fresh by simp
  show "hub_inv h1" using register_refines(1) [OF slot(1) fresh] by (simp add: h1)
  show "k = conn_id u (wr_nanos q)" by (rule k)
  show "set_user_connection_online rd (wr_millis q) u node k rs = (rs1, ok)" using on k by simp
  show "hub_abs h1 = a_register u c (the_rooms d u s) (hub_abs h)"
    using register_refines(2) [OF slot(1) fresh] slot(2) ids by (simp add: h1 the_rooms_def new_client_def)
  show "r \<in> set (the_rooms d u s) \<longleftrightarrow> is_member v s u r"
    using user_room_ids_Inr [OF laws ids] ids by (simp add: the_rooms_def)
qed

lemma offline_not_owner:
  assumes "redis_laws view rd" "set_user_connection_offline rd t u node k rs = (rs', True)"
  shows "get_string t (view rs') (online_key u) \<noteq> Some (online_owner node k)"
  using redis_lawsD(5) [OF assms(1), of t "online_key u" "delete_owned_script (online_key u) (online_owner node k)" rs rs'] assms(2)
  by (auto simp: set_user_connection_offline_def delete_owned_script_def get_string_def purge_upd split: option.splits)

lemma ws_close_clean:
  assumes laws: "redis_laws view rd" and inv: "hub_inv h"
  shows "\<exists>h' rs' ok. ws_close rd t u node k c (h, rs) = Some ((h', rs'), ok) \<and> hub_inv h' \<and>
     (\<forall>r. c \<notin> set (members h' r)) \<and> (\<forall>w. client_by_user h' w \<noteq> Some c) \<and>
     c_conn (h_clients h' c) = Some False \<and>
     (ok \<longrightarrow> get_string t (view rs') (online_key u) \<noteq> Some (online_owner node k))"
proof -
  obtain h1 where h1: "unregister (Some c) h = Some h1" "hub_inv (close_conn c h1)"
    "\<not> c_active (h_clients (close_conn c h1) c)" by (rule unregister_leaves [OF inv])
  obtain rs' ok where off: "set_user_connection_offline rd t u node k rs = (rs', ok)" by fastforce
  have "ws_close rd t u node k c (h, rs) = Some ((close_conn c h1, rs'), ok)"
    by (simp add: ws_close_def h1(1) off)
  moreover have "c_conn (h_clients (close_conn c h1) c) = Some False" by (simp add: close_conn_def)
  ultimately show ?thesis
    using inactive_absent [OF h1(2,3)] h1(2) offline_not_owner [OF laws, of t u node k rs rs'] off by auto
qed

subsection \<open>Property\<close>

text \<open>C28: A WebSocket session: when it is ready, the connection is the user's current one, is subscribed to
  exactly the rooms the user is a member of in the database, and no other connection's subscriptions
  have changed. Whatever the rest of the program does meanwhile, whatever the peer sends, the read pump
  ends without a panic, and after the deferred clean-up the connection is closed, in no room, nobody's
  current connection, and not the owner of the user's online state; the hub is well formed throughout.\<close>

theorem ws_session_clean:
  assumes laws: "db_laws d v" "redis_laws view rd" and sched: "fair_schedule sched" and inv: "hub_inv h"
    and free: "\<not> c_active (h_clients h c)" and u: "id_user (wr_identity q) = Some u"
    and run: "ws_open d rd node q c s (h, rs) = ((h1, rs1), WsReady k ok)"
    and meanwhile: "hub_steps tj sched h1 g"
  shows "client_by_user h1 u = Some c \<and> (\<forall>r. c \<in> set (members h1 r) \<longleftrightarrow> is_member v s u r) \<and>
    (\<forall>r b. b \<noteq> c \<longrightarrow> (b \<in> set (members h1 r) \<longleftrightarrow> b \<in> set (members h r))) \<and>
    (\<exists>g1 b1. read_pump pm c fes (g, b) = Some (g1, b1) \<and>
       (\<forall>g2 rs2. hub_steps tj sched g1 g2 \<longrightarrow>
          (\<exists>g3 rs3 off. ws_close rd t u node k c (g2, rs2) = Some ((g3, rs3), off) \<and> hub_inv g3 \<and>
             (\<forall>r. c \<notin> set (members g3 r)) \<and> (\<forall>w. client_by_user g3 w \<noteq> Some c) \<and>
             c_conn (h_clients g3 c) = Some False \<and>
             (off \<longrightarrow> get_string t (view rs3) (online_key u) \<noteq> Some (online_owner node k)))))"
proof -
  note o = ws_open_ready [OF laws(1) inv free u run]
  have absent: "c \<notin> set (members h r)" for r by (rule inactive_absent(1) [OF inv free])
  have cur: "client_by_user h1 u = Some c" using o(4) by (simp add: hub_abs_def a_register_def fun_eq_iff)
  have mem: "set (members h1 r) = (if r \<in> set (the_rooms d u s) then insert c (set (members h r)) else set (members h r))" for r
    using o(4) by (simp add: hub_abs_def a_register_def fun_eq_iff)
  have invg: "hub_inv g" by (rule hub_steps_inv [OF meanwhile sched o(1)])
  obtain g1 b1 where pump: "read_pump pm c fes (g, b) = Some (g1, b1)" "hub_inv g1"
    using read_pump_spec [OF invg, of pm c fes b] by blast
  have "\<forall>r. c \<in> set (members h1 r) \<longleftrightarrow> is_member v s u r" using mem absent o(5) by simp
  moreover have "\<forall>r b. b \<noteq> c \<longrightarrow> (b \<in> set (members h1 r) \<longleftrightarrow> b \<in> set (members h r))" using mem by simp
  moreover have "\<forall>g2 rs2. hub_steps tj sched g1 g2 \<longrightarrow>
          (\<exists>g3 rs3 off. ws_close rd t u node k c (g2, rs2) = Some ((g3, rs3), off) \<and> hub_inv g3 \<and>
             (\<forall>r. c \<notin> set (members g3 r)) \<and> (\<forall>w. client_by_user g3 w \<noteq> Some c) \<and>
             c_conn (h_clients g3 c) = Some False \<and>
             (off \<longrightarrow> get_string t (view rs3) (online_key u) \<noteq> Some (online_owner node k)))"
    using hub_steps_inv [OF _ sched pump(2)] ws_close_clean [OF laws(2)] by blast
  ultimately show ?thesis using cur pump(1) by blast
qed

definition demo_ws :: ws_request where
  "demo_ws = \<lparr>wr_identity = \<lparr>id_user = Some 2, id_role = Some 0\<rparr>, wr_upgrade = True, wr_nanos = 7, wr_connected = 8,
     wr_millis = 9, wr_ip = [], wr_agent = [], wr_version = []\<rparr>"

lemma ws_session_clean_witness:
  "\<exists>h1 rs1 g1 b1 g3 rs3 off.
     ws_open sample_db sample_redis ''a'' demo_ws 4 demo_db (demo_hub, \<lambda>_. None) = ((h1, rs1), WsReady ''2-7'' True) \<and>
     (\<forall>r. 4 \<in> set (members h1 r) \<longleftrightarrow> r = 7) \<and> read_pump sample_pm 4 [] (h1, \<lparr>b_kafka = [], b_redis = []\<rparr>) = Some (g1, b1) \<and>
     ws_close sample_redis 10 2 ''a'' ''2-7'' 4 (g1, rs1) = Some ((g3, rs3), off) \<and> (\<forall>r. 4 \<notin> set (members g3 r))"
proof -
  have ids: "get_user_room_ids sample_db 2 demo_db = Inr [7]"
    by (simp add: get_user_room_ids_def sample_db_def sample_members_def list_table_def query_all_def
        sort_by_def page_def demo_db_def)
  have k: "conn_id 2 7 = ''2-7''" by code_simp
  obtain h1 rs1 where open_run: "ws_open sample_db sample_redis ''a'' demo_ws 4 demo_db (demo_hub, \<lambda>_. None) =
      ((h1, rs1), WsReady ''2-7'' True)"
    by (simp add: ws_open_def demo_ws_def ids k set_user_connection_online_def sample_redis_def Let_def)
  have free: "\<not> c_active (h_clients demo_hub 4)" by (simp add: demo_client_def)
  have u: "id_user (wr_identity demo_ws) = Some 2" by (simp add: demo_ws_def)
  have mem: "is_member sample_views demo_db 2 r \<longleftrightarrow> r = 7" for r
    by (auto simp: is_member_def sample_views_def demo_db_def)
  note session = ws_session_clean [OF sample_laws sample_redis_laws concat_fair demo_inv free u open_run hub_steps.none,
      where pm = sample_pm and fes = "[]" and b = "\<lparr>b_kafka = [], b_redis = []\<rparr>" and t = 10 and tj = "\<lambda>_. None"]
  then have mem1: "\<forall>r. 4 \<in> set (members h1 r) \<longleftrightarrow> r = 7" by (simp add: mem)
  from session obtain g1 b1 where g1: "read_pump sample_pm 4 [] (h1, \<lparr>b_kafka = [], b_redis = []\<rparr>) = Some (g1, b1)"
    and closing: "\<And>g2 rs2. hub_steps (\<lambda>_. None) concat g1 g2 \<Longrightarrow>
      \<exists>g3 rs3 off. ws_close sample_redis 10 2 ''a'' ''2-7'' 4 (g2, rs2) = Some ((g3, rs3), off) \<and> (\<forall>r. 4 \<notin> set (members g3 r))"
    by fast
  show ?thesis using closing [OF hub_steps.none, of rs1] g1 open_run mem1 by blast
qed

end
