(* ===== verification/Metrics.thy ===== *)
theory Metrics
  imports Prelude
begin

section \<open>Runtime metrics (shared/observability/metrics/runtime.go, agent_runtime.go)\<close>

text \<open>
  The sliding windows, the counters and the snapshots the admin interface shows. Every function takes
  its lock or works on one atomic, so it is one step. Clock readings are arguments, in seconds after
  1970. Floating point values have an abstract type \<open>'f\<close>: quotients are made by a function
  \<open>fdiv\<close>, sorting uses the order of the type. Counters are int64 values that do not come near
  their bound.
\<close>

subsection \<open>The window of seconds\<close>

record second_window =
  sw_buckets :: "int list"
  sw_last_sec :: int
  sw_last_index :: nat

definition new_second_window :: "nat \<Rightarrow> second_window" where
  "new_second_window n = \<lparr>sw_buckets = replicate n 0, sw_last_sec = 0, sw_last_index = 0\<rparr>"

definition bucket_of :: "int \<Rightarrow> second_window \<Rightarrow> nat" where
  "bucket_of now w = nat (now mod int (length (sw_buckets w)))"

text \<open>The loop that clears \<open>steps\<close> buckets before \<open>idx\<close>.\<close>

definition clear_before :: "nat \<Rightarrow> nat \<Rightarrow> int list \<Rightarrow> int list" where
  "clear_before idx steps bs =
     fold (\<lambda>i bs. bs[(idx + length bs - i) mod length bs := 0]) [1..<steps + 1] bs"

definition sw_add :: "int \<Rightarrow> second_window \<Rightarrow> second_window" where
  "sw_add now w =
     (let idx = bucket_of now w; n = length (sw_buckets w)
      in if now = sw_last_sec w
         then w\<lparr>sw_buckets := (sw_buckets w)[idx := sw_buckets w ! idx + 1]\<rparr>
         else
           (let bs = (if sw_last_sec w < now
                      then clear_before idx (min (nat (now - sw_last_sec w)) n) (sw_buckets w)
                      else sw_buckets w)
            in \<lparr>sw_buckets = bs[idx := 1], sw_last_sec = now, sw_last_index = idx\<rparr>))"

definition sw_sum :: "int \<Rightarrow> int \<Rightarrow> second_window \<Rightarrow> int" where
  "sw_sum now lastSeconds w =
     (let n = length (sw_buckets w);
          k = (if lastSeconds \<le> 0 \<or> int n < lastSeconds then int n else lastSeconds)
      in sum_list (map (\<lambda>i. sw_buckets w ! bucket_of (now - k + 1 + int i) w) [0..<nat k]))"

subsection \<open>The window of latencies\<close>

record 'f latency_window =
  lw_values :: "'f list"
  lw_cursor :: nat
  lw_count :: nat

definition new_latency_window :: "'f \<Rightarrow> nat \<Rightarrow> 'f latency_window" where
  "new_latency_window zero n = \<lparr>lw_values = replicate n zero, lw_cursor = 0, lw_count = 0\<rparr>"

definition lw_add :: "'f \<Rightarrow> 'f latency_window \<Rightarrow> 'f latency_window" where
  "lw_add x w =
     \<lparr>lw_values = (lw_values w)[lw_cursor w := x],
      lw_cursor = (lw_cursor w + 1) mod length (lw_values w),
      lw_count = (if lw_count w < length (lw_values w) then lw_count w + 1 else lw_count w)\<rparr>"

text \<open>\<open>rank\<close> is \<open>math.Ceil(p*float64(count))\<close> for the percentile asked for.\<close>

definition percentile :: "'f::linorder \<Rightarrow> (nat \<Rightarrow> int) \<Rightarrow> 'f latency_window \<Rightarrow> 'f" where
  "percentile zero rank w =
     (if lw_count w = 0 then zero
      else
        (let values = sort (take (lw_count w) (lw_values w));
             index = max 0 (rank (lw_count w) - 1)
         in values ! (if int (length values) \<le> index then length values - 1 else nat index)))"

subsection \<open>Counters\<close>

record 'f runtime_metrics =
  mt_ws_current :: int
  mt_ws_established :: int
  mt_ws_closed :: int
  mt_ws_abnormal :: int
  mt_ws_duration_sum :: int
  mt_ws_duration_count :: int
  mt_ws_backlog :: int
  mt_ws_slow :: int
  mt_read :: second_window
  mt_write :: second_window
  mt_requests :: second_window
  mt_latency :: "'f latency_window"
  mt_4xx :: int
  mt_5xx :: int
  mt_total :: int
  mt_latency_sum :: int
  mt_latency_count :: int

definition record_ws_connected :: "'f runtime_metrics \<Rightarrow> 'f runtime_metrics" where
  "record_ws_connected m = m\<lparr>mt_ws_current := mt_ws_current m + 1, mt_ws_established := mt_ws_established m + 1\<rparr>"

definition record_ws_disconnected :: "int \<Rightarrow> bool \<Rightarrow> 'f runtime_metrics \<Rightarrow> 'f runtime_metrics" where
  "record_ws_disconnected ms abnormal m =
     (let cur = mt_ws_current m - 1
      in m\<lparr>mt_ws_current := (if cur < 0 then 0 else cur), mt_ws_closed := mt_ws_closed m + 1,
           mt_ws_abnormal := mt_ws_abnormal m + (if abnormal then 1 else 0),
           mt_ws_duration_sum := mt_ws_duration_sum m + ms, mt_ws_duration_count := mt_ws_duration_count m + 1\<rparr>)"

definition record_ws_read :: "int \<Rightarrow> 'f runtime_metrics \<Rightarrow> 'f runtime_metrics" where
  "record_ws_read now m = m\<lparr>mt_read := sw_add now (mt_read m)\<rparr>"

definition record_ws_write :: "int \<Rightarrow> 'f runtime_metrics \<Rightarrow> 'f runtime_metrics" where
  "record_ws_write now m = m\<lparr>mt_write := sw_add now (mt_write m)\<rparr>"

definition set_ws_backlog :: "int \<Rightarrow> 'f runtime_metrics \<Rightarrow> 'f runtime_metrics" where
  "set_ws_backlog n m = m\<lparr>mt_ws_backlog := n\<rparr>"

definition record_ws_slow :: "'f runtime_metrics \<Rightarrow> 'f runtime_metrics" where
  "record_ws_slow m = m\<lparr>mt_ws_slow := mt_ws_slow m + 1\<rparr>"

text \<open>\<open>micros\<close> is the duration in microseconds; \<open>int64(ms)\<close> truncates the milliseconds.\<close>

definition observe_api_request ::
    "(int \<Rightarrow> int \<Rightarrow> 'f) \<Rightarrow> int \<Rightarrow> int \<Rightarrow> int \<Rightarrow> 'f runtime_metrics \<Rightarrow> 'f runtime_metrics" where
  "observe_api_request fdiv now status micros m =
     m\<lparr>mt_requests := sw_add now (mt_requests m), mt_total := mt_total m + 1,
       mt_latency := lw_add (fdiv micros 1000) (mt_latency m),
       mt_latency_sum := mt_latency_sum m + micros div 1000, mt_latency_count := mt_latency_count m + 1,
       mt_5xx := mt_5xx m + (if 500 \<le> status then 1 else 0),
       mt_4xx := mt_4xx m + (if status < 500 \<and> 400 \<le> status then 1 else 0)\<rparr>"

subsection \<open>Snapshots\<close>

record 'f websocket_runtime =
  wsr_current :: int
  wsr_established :: int
  wsr_closed :: int
  wsr_abnormal :: int
  wsr_average_ms :: 'f
  wsr_read :: int
  wsr_write :: int
  wsr_backlog :: int
  wsr_slow :: int

record 'f go_runtime =
  gor_goroutines :: int
  gor_gomaxprocs :: int
  gor_heap_alloc :: int
  gor_heap_sys :: int
  gor_gc_count :: int
  gor_last_gc :: int
  gor_gc_pause :: int
  gor_uptime :: 'f

record 'f api_runtime =
  apr_qps_1m :: 'f
  apr_qps_5m :: 'f
  apr_average_ms :: 'f
  apr_p50 :: 'f
  apr_p95 :: 'f
  apr_p99 :: 'f
  apr_4xx :: int
  apr_5xx :: int
  apr_error_rate :: 'f

record 'f runtime_snapshot =
  rs_websocket :: "'f websocket_runtime"
  rs_golang :: "'f go_runtime"
  rs_api :: "'f api_runtime"

text \<open>What the Go runtime reports.\<close>

record 'f go_process =
  gp_goroutines :: int
  gp_gomaxprocs :: int
  gp_heap_alloc :: int
  gp_heap_sys :: int
  gp_num_gc :: int
  gp_last_gc :: int
  gp_pause_ns :: "int list"
  gp_uptime :: 'f

definition average :: "(int \<Rightarrow> int \<Rightarrow> 'f) \<Rightarrow> int \<Rightarrow> int \<Rightarrow> 'f" where
  "average fdiv k n = (if 0 < n then fdiv k n else fdiv 0 1)"

definition runtime_snapshot_now ::
    "(int \<Rightarrow> int \<Rightarrow> 'f::linorder) \<Rightarrow> (int \<Rightarrow> nat \<Rightarrow> int) \<Rightarrow> int \<Rightarrow> 'f go_process \<Rightarrow> 'f runtime_metrics \<Rightarrow> 'f runtime_snapshot" where
  "runtime_snapshot_now fdiv rank now p m =
     \<lparr>rs_websocket =
        \<lparr>wsr_current = mt_ws_current m, wsr_established = mt_ws_established m, wsr_closed = mt_ws_closed m,
         wsr_abnormal = mt_ws_abnormal m,
         wsr_average_ms = average fdiv (mt_ws_duration_sum m) (mt_ws_duration_count m),
         wsr_read = sw_sum now 60 (mt_read m), wsr_write = sw_sum now 60 (mt_write m),
         wsr_backlog = mt_ws_backlog m, wsr_slow = mt_ws_slow m\<rparr>,
      rs_golang =
        \<lparr>gor_goroutines = gp_goroutines p, gor_gomaxprocs = gp_gomaxprocs p, gor_heap_alloc = gp_heap_alloc p,
         gor_heap_sys = gp_heap_sys p, gor_gc_count = gp_num_gc p, gor_last_gc = gp_last_gc p div 1000000000,
         gor_gc_pause = gp_pause_ns p ! nat ((gp_num_gc p + 255) mod 256), gor_uptime = gp_uptime p\<rparr>,
      rs_api =
        \<lparr>apr_qps_1m = fdiv (sw_sum now 60 (mt_requests m)) 60, apr_qps_5m = fdiv (sw_sum now 300 (mt_requests m)) 300,
         apr_average_ms = average fdiv (mt_latency_sum m) (mt_latency_count m),
         apr_p50 = percentile (fdiv 0 1) (rank 50) (mt_latency m),
         apr_p95 = percentile (fdiv 0 1) (rank 95) (mt_latency m),
         apr_p99 = percentile (fdiv 0 1) (rank 99) (mt_latency m),
         apr_4xx = mt_4xx m, apr_5xx = mt_5xx m,
         apr_error_rate = average fdiv (mt_4xx m + mt_5xx m) (mt_total m)\<rparr>\<rparr>"

subsection \<open>Agent metrics\<close>

record 'f agent_failure =
  af_time :: int
  af_model :: string
  af_request_id :: string
  af_error_type :: string
  af_http_status :: int
  af_latency_ms :: 'f
  af_retries :: int

record 'f agent_metrics =
  am_inflight :: int
  am_total :: int
  am_success :: int
  am_failure :: int
  am_latency_sum :: int
  am_latency_count :: int
  am_tool_calls :: int
  am_tool_success :: int
  am_rag :: int
  am_time_tool :: int
  am_moderation :: int
  am_embedding :: int
  am_embedding_failures :: int
  am_input :: int
  am_output :: int
  am_latency :: "'f latency_window"
  am_failures :: "'f agent_failure list"

definition record_agent_started :: "'f agent_metrics \<Rightarrow> 'f agent_metrics" where
  "record_agent_started m = m\<lparr>am_inflight := am_inflight m + 1\<rparr>"

text \<open>The 50 latest failures: at the limit the list is shifted by one and its last place is overwritten.\<close>

definition append_agent_failure :: "'f agent_failure \<Rightarrow> 'f agent_failure list \<Rightarrow> 'f agent_failure list" where
  "append_agent_failure e fs =
     (if 50 \<le> length fs then (drop 1 fs @ [last fs])[length fs - 1 := e] else fs @ [e])"

definition record_agent_finished ::
    "(int \<Rightarrow> int \<Rightarrow> 'f) \<Rightarrow> string \<Rightarrow> string \<Rightarrow> int \<Rightarrow> int \<Rightarrow> string option \<Rightarrow> 'f agent_metrics \<Rightarrow> 'f agent_metrics" where
  "record_agent_finished fdiv model requestID now micros err m =
     (let m1 = m\<lparr>am_inflight := am_inflight m - 1, am_total := am_total m + 1,
                 am_latency := lw_add (fdiv micros 1000) (am_latency m),
                 am_latency_sum := am_latency_sum m + micros div 1000,
                 am_latency_count := am_latency_count m + 1\<rparr>
      in case err of
           None \<Rightarrow> m1\<lparr>am_success := am_success m1 + 1\<rparr>
         | Some label \<Rightarrow>
             m1\<lparr>am_failure := am_failure m1 + 1,
                am_failures := append_agent_failure
                  \<lparr>af_time = now, af_model = model, af_request_id = requestID, af_error_type = label,
                   af_http_status = 0, af_latency_ms = fdiv micros 1000, af_retries = 0\<rparr> (am_failures m1)\<rparr>)"

definition record_agent_tool_call :: "bool \<Rightarrow> 'f agent_metrics \<Rightarrow> 'f agent_metrics" where
  "record_agent_tool_call success m =
     m\<lparr>am_tool_calls := am_tool_calls m + 1, am_tool_success := am_tool_success m + (if success then 1 else 0)\<rparr>"

definition record_agent_rag_call :: "'f agent_metrics \<Rightarrow> 'f agent_metrics" where
  "record_agent_rag_call m = m\<lparr>am_rag := am_rag m + 1\<rparr>"

definition record_agent_time_call :: "'f agent_metrics \<Rightarrow> 'f agent_metrics" where
  "record_agent_time_call m = m\<lparr>am_time_tool := am_time_tool m + 1\<rparr>"

definition record_agent_moderation_call :: "'f agent_metrics \<Rightarrow> 'f agent_metrics" where
  "record_agent_moderation_call m = m\<lparr>am_moderation := am_moderation m + 1\<rparr>"

definition record_embedding_call :: "bool \<Rightarrow> 'f agent_metrics \<Rightarrow> 'f agent_metrics" where
  "record_embedding_call success m =
     m\<lparr>am_embedding := am_embedding m + 1,
       am_embedding_failures := am_embedding_failures m + (if success then 0 else 1)\<rparr>"

definition record_token_usage :: "int \<Rightarrow> int \<Rightarrow> 'f agent_metrics \<Rightarrow> 'f agent_metrics" where
  "record_token_usage input output m = m\<lparr>am_input := am_input m + input, am_output := am_output m + output\<rparr>"

record 'f agent_snapshot =
  as_calls :: int
  as_current :: int
  as_success_rate :: 'f
  as_failure_rate :: 'f
  as_average_ms :: 'f
  as_p95_ms :: 'f
  as_total_tokens :: int
  as_input_tokens :: int
  as_output_tokens :: int
  as_average_tokens :: 'f
  as_tool_calls :: int
  as_tool_success_rate :: 'f
  as_rag :: int
  as_time_tool :: int
  as_moderation :: int
  as_embedding :: int
  as_embedding_failures :: int
  as_failures :: "'f agent_failure list"

definition agent_snapshot_now ::
    "(int \<Rightarrow> int \<Rightarrow> 'f::linorder) \<Rightarrow> (int \<Rightarrow> nat \<Rightarrow> int) \<Rightarrow> 'f agent_metrics \<Rightarrow> 'f agent_snapshot" where
  "agent_snapshot_now fdiv rank m =
     \<lparr>as_calls = am_total m, as_current = am_inflight m,
      as_success_rate = average fdiv (am_success m) (am_total m),
      as_failure_rate = average fdiv (am_failure m) (am_total m),
      as_average_ms = average fdiv (am_latency_sum m) (am_latency_count m),
      as_p95_ms = percentile (fdiv 0 1) (rank 95) (am_latency m),
      as_total_tokens = am_input m + am_output m, as_input_tokens = am_input m, as_output_tokens = am_output m,
      as_average_tokens = average fdiv (am_input m + am_output m) (am_total m),
      as_tool_calls = am_tool_calls m, as_tool_success_rate = average fdiv (am_tool_success m) (am_tool_calls m),
      as_rag = am_rag m, as_time_tool = am_time_tool m, as_moderation = am_moderation m,
      as_embedding = am_embedding m, as_embedding_failures = am_embedding_failures m,
      as_failures = am_failures m\<rparr>"

subsection \<open>What the windows hold\<close>

lemma length_clear [simp]: "length (clear_before idx steps bs) = length bs"
proof -
  have "length (fold (\<lambda>i bs. bs[(idx + length bs - i) mod length bs := 0]) xs bs) = length bs" for xs
    by (induction xs arbitrary: bs) simp_all
  then show ?thesis by (simp add: clear_before_def)
qed

lemma clear_Suc:
  "clear_before idx (Suc k) bs =
     (clear_before idx k bs)[(idx + length bs - Suc k) mod length bs := 0]"
  using length_clear [of idx k bs] unfolding clear_before_def by simp

lemma clear_before_nth:
  "j < length bs \<Longrightarrow> clear_before idx steps bs ! j =
     (if \<exists>i \<in> {1..steps}. (idx + length bs - i) mod length bs = j then 0 else bs ! j)"
proof (induction steps)
  case 0
  then show ?case by (simp add: clear_before_def)
next
  case (Suc k)
  let ?m = "(idx + length bs - Suc k) mod length bs"
  have "?m < length bs" using Suc.prems by (intro mod_less_divisor) linarith
  moreover have "{1..Suc k} = insert (Suc k) {1..k}" by auto
  ultimately show ?case using Suc by (cases "?m = j") (simp_all add: clear_Suc)
qed

text \<open>Every bucket but the one of the last second is empty.\<close>

definition only_last :: "second_window \<Rightarrow> int \<Rightarrow> bool" where
  "only_last w k \<longleftrightarrow>
     sw_buckets w \<noteq> [] \<and> 0 \<le> sw_last_sec w \<and>
     (\<forall>j < length (sw_buckets w). sw_buckets w ! j = (if j = bucket_of (sw_last_sec w) w then k else 0))"

lemma bucket_less: "sw_buckets w \<noteq> [] \<Longrightarrow> bucket_of t w < length (sw_buckets w)"
  by (simp add: bucket_of_def nat_less_iff)

text \<open>The clearing loop reaches the bucket of the last second, whatever the distance.\<close>

lemma clear_reaches_last:
  assumes n: "0 < n" and d: "last_sec < now"
  shows "\<exists>i \<in> {1..min (nat (now - last_sec)) n}. (nat (now mod int n) + n - i) mod n = nat (last_sec mod int n)"
proof -
  let ?e = "(now - last_sec - 1) mod int n"
  define i where "i = nat (?e + 1)"
  have e: "0 \<le> ?e" "?e < int n" using n by simp_all
  have "?e \<le> now - last_sec - 1" using d by (intro zmod_le_nonneg_dividend) simp
  then have i: "1 \<le> i" "i \<le> n" "i \<le> nat (now - last_sec)" using e by (simp_all add: i_def nat_le_iff)
  have ii: "int i = ?e + 1" using e by (simp add: i_def)
  have "int ((nat (now mod int n) + n - i) mod n) = (now mod int n + int n - int i) mod int n"
    using i n by (simp add: zmod_int of_nat_diff)
  also have "\<dots> = (now - (now - last_sec - 1) - 1) mod int n"
    unfolding ii by (smt (verit) mod_add_self2 mod_diff_eq mod_mod_trivial)
  finally have "(nat (now mod int n) + n - i) mod n = nat (last_sec mod int n)" by simp
  with i show ?thesis by auto
qed

lemma sw_add_only_last:
  assumes w: "only_last w k" and now: "sw_last_sec w \<le> now"
  shows "only_last (sw_add now w) (if now = sw_last_sec w then k + 1 else 1)"
    and "sw_last_sec (sw_add now w) = now" and "length (sw_buckets (sw_add now w)) = length (sw_buckets w)"
proof -
  let ?n = "length (sw_buckets w)"
  have ne: "sw_buckets w \<noteq> []" and zero: "\<And>j. j < ?n \<Longrightarrow> sw_buckets w ! j = (if j = bucket_of (sw_last_sec w) w then k else 0)"
    using w by (simp_all add: only_last_def)
  note idx = bucket_less [OF ne, of now]
  show "sw_last_sec (sw_add now w) = now" by (simp add: sw_add_def Let_def)
  show len: "length (sw_buckets (sw_add now w)) = ?n" by (simp add: sw_add_def Let_def)
  have same: "bucket_of t (sw_add now w) = bucket_of t w" for t by (simp add: bucket_of_def len)
  show "only_last (sw_add now w) (if now = sw_last_sec w then k + 1 else 1)"
  proof (cases "now = sw_last_sec w")
    case True
    then show ?thesis
      using w zero idx by (auto simp: only_last_def sw_add_def Let_def bucket_of_def nth_list_update)
  next
    case False
    let ?bs = "clear_before (bucket_of now w) (min (nat (now - sw_last_sec w)) ?n) (sw_buckets w)"
    have b: "sw_buckets (sw_add now w) = ?bs[bucket_of now w := 1]" using False now by (simp add: sw_add_def Let_def)
    have "?bs ! j = 0" if "j < ?n" for j
      using that zero [OF that] clear_reaches_last [of ?n "sw_last_sec w" now] ne now False
      by (auto simp: clear_before_nth bucket_of_def)
    then have "\<forall>j < ?n. sw_buckets (sw_add now w) ! j = (if j = bucket_of now w then 1 else 0)"
      using idx by (simp add: b nth_list_update)
    moreover have "sw_last_sec (sw_add now w) = now" by (simp add: sw_add_def Let_def)
    moreover have "sw_buckets (sw_add now w) \<noteq> []" using len ne by (metis length_0_conv)
    ultimately show ?thesis using False now w len same by (simp add: only_last_def)
  qed
qed

lemma sw_fold:
  assumes w: "only_last w k" and ts: "sorted ts" "\<forall>t \<in> set ts. sw_last_sec w < t"
  shows "only_last (fold sw_add ts w) (if ts = [] then k else int (count_list ts (last ts)))"
    and "sw_last_sec (fold sw_add ts w) = (if ts = [] then sw_last_sec w else last ts)"
    and "length (sw_buckets (fold sw_add ts w)) = length (sw_buckets w)"
  using ts
proof (atomize (full), induction ts rule: rev_induct)
  case Nil
  then show ?case using w by simp
next
  case (snoc t ts)
  let ?w = "fold sw_add ts w"
  have IH: "only_last ?w (if ts = [] then k else int (count_list ts (last ts)))"
    "sw_last_sec ?w = (if ts = [] then sw_last_sec w else last ts)" "length (sw_buckets ?w) = length (sw_buckets w)"
    using snoc by (simp_all add: sorted_append)
  have le: "\<forall>u \<in> set ts. u \<le> t" using snoc.prems by (simp add: sorted_append)
  then have now: "sw_last_sec ?w \<le> t" using IH(2) snoc.prems by (auto simp: less_imp_le)
  have count: "count_list ts t = 0" if "t \<noteq> sw_last_sec ?w"
  proof -
    have "u \<le> last ts" if "u \<in> set ts" for u
      using that snoc.prems by (cases ts rule: rev_cases) (auto simp: sorted_append)
    then have "t \<notin> set ts" using that le IH(2) by (metis antisym last_in_set length_greater_0_conv length_pos_if_in_set)
    then show ?thesis by simp
  qed
  have "t \<noteq> sw_last_sec ?w" if "ts = []" using that snoc.prems by auto
  then show ?case
    using sw_add_only_last [OF IH(1) now] IH(2,3) count by (cases "t = sw_last_sec ?w") (auto simp: add.commute)
qed

lemma sw_sum_only_last:
  assumes w: "only_last w c" and k: "0 < k" "k \<le> int (length (sw_buckets w))"
  shows "sw_sum now k w = (if (now - sw_last_sec w) mod int (length (sw_buckets w)) < k then c else 0)"
proof -
  let ?n = "int (length (sw_buckets w))" and ?l = "sw_last_sec w"
  let ?e = "(now - ?l) mod ?n"
  have ne: "sw_buckets w \<noteq> []" and e: "0 \<le> ?e" using w k by (simp_all add: only_last_def)
  have hit: "bucket_of (now - k + 1 + int i) w = bucket_of ?l w \<longleftrightarrow> int i = k - 1 - ?e" if "i < nat k" for i
  proof -
    have "bucket_of (now - k + 1 + int i) w = bucket_of ?l w \<longleftrightarrow> (now - k + 1 + int i) mod ?n = ?l mod ?n"
      using ne by (simp add: bucket_of_def nat_eq_iff)
    also have "\<dots> \<longleftrightarrow> ?n dvd (now - ?l) - (k - 1 - int i)" by (simp add: mod_eq_dvd_iff algebra_simps)
    also have "\<dots> \<longleftrightarrow> ?e = (k - 1 - int i) mod ?n" by (simp add: mod_eq_dvd_iff)
    also have "(k - 1 - int i) mod ?n = k - 1 - int i" using that k by (intro mod_pos_pos_trivial) linarith+
    finally show ?thesis by auto
  qed
  have at: "sw_buckets w ! bucket_of t w = (if bucket_of t w = bucket_of ?l w then c else 0)" for t
    using w bucket_less [OF ne] by (simp add: only_last_def)
  have "sw_sum now k w = (\<Sum>i = 0..<nat k. if int i = k - 1 - ?e then c else 0)"
    using k hit by (simp add: sw_sum_def Let_def at sum_list_distinct_conv_sum_set)
  also have "\<dots> = (if ?e < k then c else 0)"
  proof (cases "?e < k")
    case True
    then have "int i = k - 1 - ?e \<longleftrightarrow> i = nat (k - 1 - ?e)" for i by linarith
    moreover have "nat (k - 1 - ?e) < nat k" using True e k by linarith
    ultimately show ?thesis using True by (simp add: sum.delta)
  next
    case False
    then have "int i \<noteq> k - 1 - ?e" for i by linarith
    then show ?thesis using False by simp
  qed
  finally show ?thesis .
qed

text \<open>The list of failures is the 50 latest ones.\<close>

lemma append_agent_failure_last:
  "length fs \<le> 50 \<Longrightarrow> append_agent_failure e fs = drop (length fs + 1 - 50) (fs @ [e])"
  by (cases fs rule: rev_cases) (auto simp: append_agent_failure_def list_update_append not_le)

text \<open>A percentile is one of the recorded values.\<close>

lemma percentile_recorded:
  assumes "0 < lw_count w" "lw_count w \<le> length (lw_values w)"
  shows "percentile zero rank w \<in> set (take (lw_count w) (lw_values w))"
proof -
  let ?v = "sort (take (lw_count w) (lw_values w))"
  let ?i = "max 0 (rank (lw_count w) - 1)"
  have len: "length ?v = lw_count w" using assms by simp
  have "percentile zero rank w = ?v ! (if int (lw_count w) \<le> ?i then lw_count w - 1 else nat ?i)"
    using assms len by (simp add: percentile_def Let_def)
  moreover have "(if int (lw_count w) \<le> ?i then lw_count w - 1 else nat ?i) < length ?v"
    using assms(1) len by auto
  ultimately have "percentile zero rank w \<in> set ?v" by (metis nth_mem)
  then show ?thesis by simp
qed

subsection \<open>Property\<close>

text \<open>A window of seconds remembers one second only: adding in a new second clears the buckets
  before it, the one of the second before included, so after any run of events with a clock that does
  not go back the sum over the last \<open>k\<close> seconds is the number of events in the very last second that had
  one, if that second lies within \<open>k\<close> seconds modulo the window's size, and zero otherwise. The
  requests and messages per minute are those of one second, and a stale second comes back when the
  clock has gone once around the window.\<close>

theorem second_window_keeps_one_second:
  assumes "0 < n" "sorted ts" "ts \<noteq> []" "\<forall>t \<in> set ts. 0 < t" "0 < k" "k \<le> int n"
  shows "sw_sum now k (fold sw_add ts (new_second_window n)) =
    (if (now - last ts) mod int n < k then int (count_list ts (last ts)) else 0)"
proof -
  have start: "only_last (new_second_window n) 0" using assms(1) by (simp add: only_last_def new_second_window_def)
  have "sw_last_sec (new_second_window n) = 0" "length (sw_buckets (new_second_window n)) = n"
    by (simp_all add: new_second_window_def)
  with sw_fold [OF start assms(2)] assms(3-6) sw_sum_only_last [of "fold sw_add ts (new_second_window n)" _ k now]
  show ?thesis by simp
qed

lemma second_window_keeps_one_second_witness:
  "sw_sum 102 60 (fold sw_add [100, 100, 101, 101, 101, 102] (new_second_window 300)) = 1 \<and>
   sw_sum 400 60 (fold sw_add [100, 100] (new_second_window 300)) = 2"
  using second_window_keeps_one_second [of 300 "[100, 100, 101, 101, 101, 102]" 60 102]
    second_window_keeps_one_second [of 300 "[100, 100]" 60 400] by simp

end
