(* ===== verification/AdminControl.thy ===== *)
theory AdminControl
  imports HubSystem Metrics
begin

section \<open>The admin control plane (services/admin/application/runtime.go, services/admin/control)\<close>

text \<open>
  \<open>RuntimeController\<close> is the interface through which the admin services act on the hub. The gateway's
  own process uses the local controller; a separate admin process uses a gRPC client whose server
  calls the local controller. gRPC and protobuf are not part of the repository: whether a call and its
  reply arrive is chosen by \<open>net\<close>, and \<open>carries\<close> tells which text protobuf accepts as a string.
\<close>

datatype control_error = HubMissing | Unauthenticated | Internal control_error | Transport

record ('h, 'f) controller =
  ct_list :: "'h \<Rightarrow> control_error + connection_snapshot list"
  ct_close :: "string \<Rightarrow> 'h \<Rightarrow> 'h \<times> control_error option"
  ct_kick :: "user_id \<Rightarrow> 'h \<Rightarrow> 'h \<times> control_error option"
  ct_disband :: "room_id \<Rightarrow> 'h \<Rightarrow> 'h \<times> control_error option"
  ct_remove :: "room_id \<Rightarrow> user_id \<Rightarrow> 'h \<Rightarrow> 'h \<times> control_error option"
  ct_stats :: "'h \<Rightarrow> control_error + hub_stats"
  ct_snapshots :: "'h \<Rightarrow> control_error + ('f runtime_snapshot \<times> 'f agent_snapshot)"

subsection \<open>The local controller (local.go)\<close>

definition on_hub :: "(hub \<Rightarrow> hub) \<Rightarrow> hub option \<Rightarrow> hub option \<times> control_error option" where
  "on_hub f h = (case h of None \<Rightarrow> (None, Some HubMissing) | Some g \<Rightarrow> (Some (f g), None))"

text \<open>\<open>snaps\<close> are the metrics of the process.\<close>

definition local_controller ::
    "'f runtime_snapshot \<times> 'f agent_snapshot \<Rightarrow> (hub option, 'f) controller" where
  "local_controller snaps =
     \<lparr>ct_list = (\<lambda>h. case h of None \<Rightarrow> Inr [] | Some g \<Rightarrow> Inr (connections g)),
      ct_close = (\<lambda>k. on_hub (close_connection k)),
      ct_kick = (\<lambda>u. on_hub (kick u)),
      ct_disband = (\<lambda>r. on_hub (disband_room r)),
      ct_remove = (\<lambda>r u. on_hub (leave_room u r)),
      ct_stats = (\<lambda>h. case h of None \<Rightarrow> Inl HubMissing | Some g \<Rightarrow> Inr (stats g)),
      ct_snapshots = (\<lambda>_. Inr snaps)\<rparr>"

subsection \<open>Protobuf messages and their conversions (convert.go)\<close>

record connection_proto =
  pc_user_id :: int
  pc_username :: string
  pc_connection_id :: string
  pc_remote_ip :: string
  pc_user_agent :: string
  pc_client_version :: string
  pc_connected_ms :: int
  pc_last_read_ms :: int
  pc_last_write_ms :: int
  pc_queue_len :: int
  pc_room_ids :: "int list"

definition connection_to_proto :: "connection_snapshot \<Rightarrow> connection_proto" where
  "connection_to_proto c =
     \<lparr>pc_user_id = cs_user_id c, pc_username = cs_username c, pc_connection_id = cs_connection_id c,
      pc_remote_ip = cs_remote_ip c, pc_user_agent = cs_user_agent c, pc_client_version = cs_client_version c,
      pc_connected_ms = unix_milli (cs_connected_at c), pc_last_read_ms = unix_milli (cs_last_read_at c),
      pc_last_write_ms = unix_milli (cs_last_write_at c), pc_queue_len = int32_of (int (cs_send_queue_len c)),
      pc_room_ids = cs_room_ids c\<rparr>"

definition connection_of_proto :: "connection_proto \<Rightarrow> connection_snapshot" where
  "connection_of_proto p =
     \<lparr>cs_user_id = pc_user_id p, cs_username = pc_username p, cs_connection_id = pc_connection_id p,
      cs_remote_ip = pc_remote_ip p, cs_user_agent = pc_user_agent p, cs_client_version = pc_client_version p,
      cs_connected_at = of_unix_milli (pc_connected_ms p), cs_last_read_at = of_unix_milli (pc_last_read_ms p),
      cs_last_write_at = of_unix_milli (pc_last_write_ms p), cs_send_queue_len = nat (pc_queue_len p),
      cs_room_ids = pc_room_ids p\<rparr>"

definition connections_to_proto :: "connection_snapshot list \<Rightarrow> connection_proto option list" where
  "connections_to_proto cs = map (\<lambda>c. Some (connection_to_proto c)) cs"

text \<open>A nil item is skipped.\<close>

definition connections_of_proto :: "connection_proto option list \<Rightarrow> connection_snapshot list" where
  "connections_of_proto ps = List.map_filter (map_option connection_of_proto) ps"

record 'f websocket_proto =
  pw_current_connections :: int
  pw_established_total :: int
  pw_closed_total :: int
  pw_abnormal_closed_total :: int
  pw_average_connection_duration_ms :: 'f
  pw_read_messages_per_minute :: int
  pw_write_messages_per_minute :: int
  pw_send_queue_backlog :: int
  pw_slow_clients :: int

record 'f go_proto =
  pg_goroutines :: int
  pg_gomaxprocs :: int
  pg_heap_alloc :: int
  pg_heap_sys :: int
  pg_gc_count :: int
  pg_last_gc_unix :: int
  pg_gc_pause_ns :: int
  pg_uptime_seconds :: 'f

record 'f api_proto =
  pa_qps_1m :: 'f
  pa_qps_5m :: 'f
  pa_average_latency_ms :: 'f
  pa_p50_latency_ms :: 'f
  pa_p95_latency_ms :: 'f
  pa_p99_latency_ms :: 'f
  pa_status_4xx :: int
  pa_status_5xx :: int
  pa_error_rate :: 'f

text \<open>The three parts are pointers; a getter on nil gives zero values.\<close>

record 'f runtime_proto =
  pr_websocket :: "'f websocket_proto option"
  pr_golang :: "'f go_proto option"
  pr_api :: "'f api_proto option"

definition websocket_to_proto :: "'f websocket_runtime \<Rightarrow> 'f websocket_proto" where
  "websocket_to_proto w =
     \<lparr>pw_current_connections = wsr_current w, pw_established_total = wsr_established w,
      pw_closed_total = wsr_closed w, pw_abnormal_closed_total = wsr_abnormal w,
      pw_average_connection_duration_ms = wsr_average_ms w, pw_read_messages_per_minute = wsr_read w,
      pw_write_messages_per_minute = wsr_write w, pw_send_queue_backlog = wsr_backlog w,
      pw_slow_clients = wsr_slow w\<rparr>"

definition go_to_proto :: "'f go_runtime \<Rightarrow> 'f go_proto" where
  "go_to_proto g =
     \<lparr>pg_goroutines = gor_goroutines g, pg_gomaxprocs = gor_gomaxprocs g, pg_heap_alloc = gor_heap_alloc g,
      pg_heap_sys = gor_heap_sys g, pg_gc_count = gor_gc_count g, pg_last_gc_unix = gor_last_gc g,
      pg_gc_pause_ns = gor_gc_pause g, pg_uptime_seconds = gor_uptime g\<rparr>"

definition api_to_proto :: "'f api_runtime \<Rightarrow> 'f api_proto" where
  "api_to_proto a =
     \<lparr>pa_qps_1m = apr_qps_1m a, pa_qps_5m = apr_qps_5m a, pa_average_latency_ms = apr_average_ms a,
      pa_p50_latency_ms = apr_p50 a, pa_p95_latency_ms = apr_p95 a, pa_p99_latency_ms = apr_p99 a,
      pa_status_4xx = apr_4xx a, pa_status_5xx = apr_5xx a, pa_error_rate = apr_error_rate a\<rparr>"

definition runtime_to_proto :: "'f runtime_snapshot \<Rightarrow> 'f runtime_proto" where
  "runtime_to_proto s =
     \<lparr>pr_websocket = Some (websocket_to_proto (rs_websocket s)), pr_golang = Some (go_to_proto (rs_golang s)),
      pr_api = Some (api_to_proto (rs_api s))\<rparr>"

definition websocket_of_proto :: "'f \<Rightarrow> 'f websocket_proto option \<Rightarrow> 'f websocket_runtime" where
  "websocket_of_proto zero p =
     (case p of
        None \<Rightarrow> \<lparr>wsr_current = 0, wsr_established = 0, wsr_closed = 0, wsr_abnormal = 0, wsr_average_ms = zero,
                 wsr_read = 0, wsr_write = 0, wsr_backlog = 0, wsr_slow = 0\<rparr>
      | Some w \<Rightarrow>
          \<lparr>wsr_current = pw_current_connections w, wsr_established = pw_established_total w,
           wsr_closed = pw_closed_total w, wsr_abnormal = pw_abnormal_closed_total w,
           wsr_average_ms = pw_average_connection_duration_ms w, wsr_read = pw_read_messages_per_minute w,
           wsr_write = pw_write_messages_per_minute w, wsr_backlog = pw_send_queue_backlog w,
           wsr_slow = pw_slow_clients w\<rparr>)"

definition go_of_proto :: "'f \<Rightarrow> 'f go_proto option \<Rightarrow> 'f go_runtime" where
  "go_of_proto zero p =
     (case p of
        None \<Rightarrow> \<lparr>gor_goroutines = 0, gor_gomaxprocs = 0, gor_heap_alloc = 0, gor_heap_sys = 0, gor_gc_count = 0,
                 gor_last_gc = 0, gor_gc_pause = 0, gor_uptime = zero\<rparr>
      | Some g \<Rightarrow>
          \<lparr>gor_goroutines = pg_goroutines g, gor_gomaxprocs = pg_gomaxprocs g, gor_heap_alloc = pg_heap_alloc g,
           gor_heap_sys = pg_heap_sys g, gor_gc_count = pg_gc_count g, gor_last_gc = pg_last_gc_unix g,
           gor_gc_pause = pg_gc_pause_ns g, gor_uptime = pg_uptime_seconds g\<rparr>)"

definition api_of_proto :: "'f \<Rightarrow> 'f api_proto option \<Rightarrow> 'f api_runtime" where
  "api_of_proto zero p =
     (case p of
        None \<Rightarrow> \<lparr>apr_qps_1m = zero, apr_qps_5m = zero, apr_average_ms = zero, apr_p50 = zero, apr_p95 = zero,
                 apr_p99 = zero, apr_4xx = 0, apr_5xx = 0, apr_error_rate = zero\<rparr>
      | Some a \<Rightarrow>
          \<lparr>apr_qps_1m = pa_qps_1m a, apr_qps_5m = pa_qps_5m a, apr_average_ms = pa_average_latency_ms a,
           apr_p50 = pa_p50_latency_ms a, apr_p95 = pa_p95_latency_ms a, apr_p99 = pa_p99_latency_ms a,
           apr_4xx = pa_status_4xx a, apr_5xx = pa_status_5xx a, apr_error_rate = pa_error_rate a\<rparr>)"

definition runtime_of_proto :: "'f \<Rightarrow> 'f runtime_proto option \<Rightarrow> 'f runtime_snapshot" where
  "runtime_of_proto zero p =
     \<lparr>rs_websocket = websocket_of_proto zero (Option.bind p pr_websocket),
      rs_golang = go_of_proto zero (Option.bind p pr_golang),
      rs_api = api_of_proto zero (Option.bind p pr_api)\<rparr>"

record 'f failure_proto =
  pf_time_ms :: int
  pf_model :: string
  pf_request_id :: string
  pf_error_type :: string
  pf_http_status :: int
  pf_latency_ms :: 'f
  pf_retries :: int

record 'f agent_proto =
  pg_calls_today :: int
  pg_current_requests :: int
  pg_success_rate :: 'f
  pg_failure_rate :: 'f
  pg_average_response_ms :: 'f
  pg_p95_response_ms :: 'f
  pg_total_tokens :: int
  pg_input_tokens :: int
  pg_output_tokens :: int
  pg_average_tokens_per_call :: 'f
  pg_tool_calls :: int
  pg_tool_success_rate :: 'f
  pg_rag_calls :: int
  pg_time_tool_calls :: int
  pg_moderation_calls :: int
  pg_embedding_calls :: int
  pg_embedding_failures :: int
  pg_recent_failures :: "'f failure_proto option list"

definition failure_to_proto :: "'f agent_failure \<Rightarrow> 'f failure_proto" where
  "failure_to_proto e =
     \<lparr>pf_time_ms = unix_milli (af_time e), pf_model = af_model e, pf_request_id = af_request_id e,
      pf_error_type = af_error_type e, pf_http_status = int32_of (af_http_status e),
      pf_latency_ms = af_latency_ms e, pf_retries = int32_of (af_retries e)\<rparr>"

definition failure_of_proto :: "'f failure_proto \<Rightarrow> 'f agent_failure" where
  "failure_of_proto p =
     \<lparr>af_time = of_unix_milli (pf_time_ms p), af_model = pf_model p, af_request_id = pf_request_id p,
      af_error_type = pf_error_type p, af_http_status = pf_http_status p, af_latency_ms = pf_latency_ms p,
      af_retries = pf_retries p\<rparr>"

definition agent_to_proto :: "'f agent_snapshot \<Rightarrow> 'f agent_proto" where
  "agent_to_proto s =
     \<lparr>pg_calls_today = as_calls s, pg_current_requests = as_current s, pg_success_rate = as_success_rate s,
      pg_failure_rate = as_failure_rate s, pg_average_response_ms = as_average_ms s,
      pg_p95_response_ms = as_p95_ms s, pg_total_tokens = as_total_tokens s, pg_input_tokens = as_input_tokens s,
      pg_output_tokens = as_output_tokens s, pg_average_tokens_per_call = as_average_tokens s,
      pg_tool_calls = as_tool_calls s, pg_tool_success_rate = as_tool_success_rate s, pg_rag_calls = as_rag s,
      pg_time_tool_calls = as_time_tool s, pg_moderation_calls = as_moderation s,
      pg_embedding_calls = as_embedding s, pg_embedding_failures = as_embedding_failures s,
      pg_recent_failures = map (\<lambda>e. Some (failure_to_proto e)) (as_failures s)\<rparr>"

definition agent_of_proto :: "'f \<Rightarrow> 'f agent_proto option \<Rightarrow> 'f agent_snapshot" where
  "agent_of_proto zero p =
     (case p of
        None \<Rightarrow>
          \<lparr>as_calls = 0, as_current = 0, as_success_rate = zero, as_failure_rate = zero, as_average_ms = zero,
           as_p95_ms = zero, as_total_tokens = 0, as_input_tokens = 0, as_output_tokens = 0,
           as_average_tokens = zero, as_tool_calls = 0, as_tool_success_rate = zero, as_rag = 0, as_time_tool = 0,
           as_moderation = 0, as_embedding = 0, as_embedding_failures = 0, as_failures = []\<rparr>
      | Some a \<Rightarrow>
          \<lparr>as_calls = pg_calls_today a, as_current = pg_current_requests a, as_success_rate = pg_success_rate a,
           as_failure_rate = pg_failure_rate a, as_average_ms = pg_average_response_ms a,
           as_p95_ms = pg_p95_response_ms a, as_total_tokens = pg_total_tokens a,
           as_input_tokens = pg_input_tokens a, as_output_tokens = pg_output_tokens a,
           as_average_tokens = pg_average_tokens_per_call a, as_tool_calls = pg_tool_calls a,
           as_tool_success_rate = pg_tool_success_rate a, as_rag = pg_rag_calls a,
           as_time_tool = pg_time_tool_calls a, as_moderation = pg_moderation_calls a,
           as_embedding = pg_embedding_calls a, as_embedding_failures = pg_embedding_failures a,
           as_failures = List.map_filter (map_option failure_of_proto) (pg_recent_failures a)\<rparr>)"

subsection \<open>The server (grpc_server.go)\<close>

text \<open>The interceptor, on the values of the token header; \<open>None\<close> is a request without metadata.\<close>

definition control_token_interceptor :: "string \<Rightarrow> string list option \<Rightarrow> control_error option" where
  "control_token_interceptor token md =
     (if token = [] then None
      else (case md of
              None \<Rightarrow> Some Unauthenticated
            | Some vs \<Rightarrow>
                (case vs of
                   [] \<Rightarrow> Some Unauthenticated
                 | v # _ \<Rightarrow> if v \<noteq> token then Some Unauthenticated else None)))"

text \<open>The handlers: the reply of the controller, its error wrapped as \<open>codes.Internal\<close>.\<close>

record ('h, 'f) control_server =
  sv_list :: "'h \<Rightarrow> 'h \<times> (control_error + connection_proto option list)"
  sv_close :: "string \<Rightarrow> 'h \<Rightarrow> 'h \<times> (control_error + unit)"
  sv_kick :: "int \<Rightarrow> 'h \<Rightarrow> 'h \<times> (control_error + unit)"
  sv_disband :: "int \<Rightarrow> 'h \<Rightarrow> 'h \<times> (control_error + unit)"
  sv_remove :: "int \<Rightarrow> int \<Rightarrow> 'h \<Rightarrow> 'h \<times> (control_error + unit)"
  sv_stats :: "'h \<Rightarrow> 'h \<times> (control_error + int \<times> int)"
  sv_snapshots :: "'h \<Rightarrow> 'h \<times> (control_error + 'f runtime_proto option \<times> 'f agent_proto option)"

definition done_or_internal :: "'h \<times> control_error option \<Rightarrow> 'h \<times> (control_error + unit)" where
  "done_or_internal r = (fst r, case snd r of None \<Rightarrow> Inr () | Some e \<Rightarrow> Inl (Internal e))"

definition new_server :: "('h, 'f) controller \<Rightarrow> ('h, 'f) control_server" where
  "new_server ct =
     \<lparr>sv_list = (\<lambda>h. (h, map_sum Internal connections_to_proto (ct_list ct h))),
      sv_close = (\<lambda>k h. done_or_internal (ct_close ct k h)),
      sv_kick = (\<lambda>u h. done_or_internal (ct_kick ct u h)),
      sv_disband = (\<lambda>r h. done_or_internal (ct_disband ct r h)),
      sv_remove = (\<lambda>r u h. done_or_internal (ct_remove ct r u h)),
      sv_stats = (\<lambda>h. (h, map_sum Internal (\<lambda>x. (int (st_clients x), int (st_rooms x))) (ct_stats ct h))),
      sv_snapshots = (\<lambda>h. (h, map_sum Internal (\<lambda>(r, a). (Some (runtime_to_proto r), Some (agent_to_proto a)))
                                (ct_snapshots ct h)))\<rparr>"

subsection \<open>The client (grpc_client.go)\<close>

text \<open>What the network does with a call.\<close>

datatype delivery = Delivered | RequestLost | ReplyLost

text \<open>\<open>AppendToOutgoingContext\<close>: no header for an empty token; gRPC always sends some metadata.\<close>

definition with_token :: "string \<Rightarrow> string list option" where
  "with_token token = Some (if token = [] then [] else [token])"

text \<open>
  One unary call: the request must be sendable and arrive, the interceptor lets it through or refuses
  it, and the reply must be sendable and arrive.
\<close>

definition unary ::
    "delivery \<Rightarrow> string \<Rightarrow> string \<Rightarrow> bool \<Rightarrow> ('r \<Rightarrow> bool) \<Rightarrow> ('h \<Rightarrow> 'h \<times> (control_error + 'r)) \<Rightarrow> 'h \<Rightarrow>
     'h \<times> (control_error + 'r)" where
  "unary net ctoken stoken request_ok reply_ok handler h =
     (if \<not> request_ok \<or> net = RequestLost then (h, Inl Transport)
      else (case control_token_interceptor stoken (with_token ctoken) of
              Some e \<Rightarrow> (h, Inl (if net = ReplyLost then Transport else e))
            | None \<Rightarrow>
                (case handler h of
                   (h', Inl e) \<Rightarrow> (h', Inl (if net = ReplyLost then Transport else e))
                 | (h', Inr r) \<Rightarrow> (h', if net = ReplyLost \<or> \<not> reply_ok r then Inl Transport else Inr r))))"

definition strings_of_connection :: "connection_proto \<Rightarrow> string list" where
  "strings_of_connection p =
     [pc_username p, pc_connection_id p, pc_remote_ip p, pc_user_agent p, pc_client_version p]"

definition strings_of_failure :: "'f failure_proto \<Rightarrow> string list" where
  "strings_of_failure p = [pf_model p, pf_request_id p, pf_error_type p]"

definition error_of :: "'h \<times> (control_error + unit) \<Rightarrow> 'h \<times> control_error option" where
  "error_of r = (fst r, case snd r of Inl e \<Rightarrow> Some e | Inr _ \<Rightarrow> None)"

definition grpc_client ::
    "(string \<Rightarrow> bool) \<Rightarrow> 'f \<Rightarrow> ('h \<Rightarrow> delivery) \<Rightarrow> string \<Rightarrow> string \<Rightarrow> ('h, 'f) control_server \<Rightarrow> ('h, 'f) controller" where
  "grpc_client carries zero net ctoken stoken sv =
     \<lparr>ct_list = (\<lambda>h. map_sum id connections_of_proto
         (snd (unary (net h) ctoken stoken True
            (\<lambda>ps. \<forall>p \<in> set ps. case p of None \<Rightarrow> True | Some x \<Rightarrow> list_all carries (strings_of_connection x)) (sv_list sv) h))),
      ct_close = (\<lambda>k h. error_of (unary (net h) ctoken stoken (carries k) (\<lambda>_. True) (sv_close sv k) h)),
      ct_kick = (\<lambda>u h. error_of (unary (net h) ctoken stoken True (\<lambda>_. True) (sv_kick sv u) h)),
      ct_disband = (\<lambda>r h. error_of (unary (net h) ctoken stoken True (\<lambda>_. True) (sv_disband sv r) h)),
      ct_remove = (\<lambda>r u h. error_of (unary (net h) ctoken stoken True (\<lambda>_. True) (sv_remove sv r u) h)),
      ct_stats = (\<lambda>h. map_sum id (\<lambda>(c, r). \<lparr>st_clients = nat c, st_rooms = nat r\<rparr>)
         (snd (unary (net h) ctoken stoken True (\<lambda>_. True) (sv_stats sv) h))),
      ct_snapshots = (\<lambda>h. map_sum id (\<lambda>(r, a). (runtime_of_proto zero r, agent_of_proto zero a))
         (snd (unary (net h) ctoken stoken True
            (\<lambda>(r, a). case a of None \<Rightarrow> True
               | Some x \<Rightarrow> \<forall>p \<in> set (pg_recent_failures x).
                   case p of None \<Rightarrow> True | Some y \<Rightarrow> list_all carries (strings_of_failure y)) (sv_snapshots sv) h)))\<rparr>"

definition remote_controller ::
    "(string \<Rightarrow> bool) \<Rightarrow> 'f \<Rightarrow> (hub option \<Rightarrow> delivery) \<Rightarrow> string \<Rightarrow> string \<Rightarrow>
     'f runtime_snapshot \<times> 'f agent_snapshot \<Rightarrow> (hub option, 'f) controller" where
  "remote_controller carries zero net ctoken stoken snaps =
     grpc_client carries zero net ctoken stoken (new_server (local_controller snaps))"

subsection \<open>The contract of the interface\<close>

text \<open>
  What the admin services may rely on: an operation that reports success has been done on the hub; one
  that reports an error has been done or not, and nothing else has happened.
\<close>

locale admin_runtime =
  fixes kick_user :: "user_id \<Rightarrow> hub option \<Rightarrow> hub option \<times> control_error option"
    and disband :: "room_id \<Rightarrow> hub option \<Rightarrow> hub option \<times> control_error option"
    and remove :: "room_id \<Rightarrow> user_id \<Rightarrow> hub option \<Rightarrow> hub option \<times> control_error option"
  assumes kick_done: "kick_user u s = (s', None) \<Longrightarrow> \<exists>h. s = Some h \<and> s' = Some (kick u h)"
    and kick_maybe: "kick_user u s = (s', e) \<Longrightarrow> s' = s \<or> s' = map_option (kick u) s"
    and disband_done: "disband r s = (s', None) \<Longrightarrow> \<exists>h. s = Some h \<and> s' = Some (disband_room r h)"
    and disband_maybe: "disband r s = (s', e) \<Longrightarrow> s' = s \<or> s' = map_option (disband_room r) s"
    and remove_done: "remove r u s = (s', None) \<Longrightarrow> \<exists>h. s = Some h \<and> s' = Some (leave_room u r h)"
    and remove_maybe: "remove r u s = (s', e) \<Longrightarrow> s' = s \<or> s' = map_option (leave_room u r) s"
begin

definition well_formed :: "hub option \<Rightarrow> bool" where
  "well_formed s \<longleftrightarrow> (\<forall>h. s = Some h \<longrightarrow> hub_inv h)"

lemma kick_well_formed: "well_formed s \<Longrightarrow> kick_user u s = (s', e) \<Longrightarrow> well_formed s'"
  using kick_maybe [of u s s' e] by (cases s) (auto simp: well_formed_def kick_inv)

lemma disband_well_formed: "well_formed s \<Longrightarrow> disband r s = (s', e) \<Longrightarrow> well_formed s'"
  using disband_maybe [of r s s' e] by (cases s) (auto simp: well_formed_def disband_room_refines)

lemma remove_well_formed: "well_formed s \<Longrightarrow> remove r u s = (s', e) \<Longrightarrow> well_formed s'"
  using remove_maybe [of r u s s' e] by (cases s) (auto simp: well_formed_def leave_room_refines)

text \<open>The connection a kicked user talked through is closed.\<close>

lemma kicked_closed:
  assumes "kick_user u s = (s', None)"
  shows "\<exists>h h'. s = Some h \<and> s' = Some h' \<and>
     (\<forall>c. client_by_user h u = Some c \<longrightarrow> c_conn (h_clients h c) \<noteq> None \<longrightarrow> c_conn (h_clients h' c) = Some False)"
  using kick_done [OF assms] by (auto simp: kick_def close_conn_def)

lemma disbanded_empty:
  assumes "well_formed s" "disband r s = (s', None)"
  shows "\<exists>h'. s' = Some h' \<and> members h' r = []"
proof -
  from disband_done [OF assms(2)] obtain h where h: "s = Some h" "s' = Some (disband_room r h)" by blast
  then have "hub_abs (disband_room r h) = a_disband r (hub_abs h)"
    using assms(1) disband_room_refines by (simp add: well_formed_def)
  then have "set (members (disband_room r h) r) = {}" by (simp add: hub_abs_def a_disband_def fun_eq_iff)
  then show ?thesis using h by simp
qed

end

interpretation local_runtime: admin_runtime
  "ct_kick (local_controller snaps)" "ct_disband (local_controller snaps)" "ct_remove (local_controller snaps)" for snaps
  by unfold_locales (auto simp: local_controller_def on_hub_def split: option.splits)

lemma unary_on_hub:
  assumes "error_of (unary d ctoken stoken ok reply_ok (\<lambda>h. done_or_internal (on_hub f h)) s) = (s', e)"
  shows "e = None \<Longrightarrow> \<exists>h. s = Some h \<and> s' = Some (f h)" and "s' = s \<or> s' = map_option f s"
  using assms
  by (auto simp: error_of_def unary_def done_or_internal_def on_hub_def split: option.splits if_splits)

interpretation remote_runtime: admin_runtime
  "ct_kick (remote_controller carries zero net ctoken stoken snaps)"
  "ct_disband (remote_controller carries zero net ctoken stoken snaps)"
  "ct_remove (remote_controller carries zero net ctoken stoken snaps)" for carries zero net ctoken stoken snaps
  by unfold_locales
     (simp_all add: remote_controller_def grpc_client_def new_server_def local_controller_def unary_on_hub)

subsection \<open>Conversions there and back\<close>

lemma map_filter_Some [simp]: "List.map_filter (\<lambda>x. Some (f x)) xs = map f xs"
  by (induction xs) simp_all

lemma map_filter_some_items: "List.map_filter (map_option f) (map (\<lambda>x. Some (g x)) xs) = map (\<lambda>x. f (g x)) xs"
  by (induction xs) simp_all

lemma runtime_roundtrip: "runtime_of_proto zero (Some (runtime_to_proto s)) = s"
  by (cases s) (simp add: runtime_of_proto_def runtime_to_proto_def websocket_of_proto_def websocket_to_proto_def
      go_of_proto_def go_to_proto_def api_of_proto_def api_to_proto_def)

definition in_millis :: "int \<Rightarrow> int" where
  "in_millis t = of_unix_milli (unix_milli t)"

definition connection_in_millis :: "connection_snapshot \<Rightarrow> connection_snapshot" where
  "connection_in_millis c =
     c\<lparr>cs_connected_at := in_millis (cs_connected_at c), cs_last_read_at := in_millis (cs_last_read_at c),
       cs_last_write_at := in_millis (cs_last_write_at c)\<rparr>"

lemma connection_roundtrip:
  assumes "cs_send_queue_len c < 2 ^ 31"
  shows "connection_of_proto (connection_to_proto c) = connection_in_millis c"
proof -
  have "int (cs_send_queue_len c) < 2 ^ 31" using assms by (metis of_nat_less_numeral_power_cancel_iff)
  then have "in_width 32 (int (cs_send_queue_len c))" by (simp add: in_width_def)
  then show ?thesis
    by (cases c) (simp add: connection_of_proto_def connection_to_proto_def connection_in_millis_def in_millis_def conv_simps)
qed

lemma failure_roundtrip:
  assumes "in_width 32 (af_http_status e)" "in_width 32 (af_retries e)"
  shows "failure_of_proto (failure_to_proto e) = e\<lparr>af_time := in_millis (af_time e)\<rparr>"
  using assms by (cases e) (simp add: failure_of_proto_def failure_to_proto_def in_millis_def conv_simps)

lemma agent_roundtrip:
  assumes "\<forall>e \<in> set (as_failures s). in_width 32 (af_http_status e) \<and> in_width 32 (af_retries e)"
  shows "agent_of_proto zero (Some (agent_to_proto s)) =
    s\<lparr>as_failures := map (\<lambda>e. e\<lparr>af_time := in_millis (af_time e)\<rparr>) (as_failures s)\<rparr>"
  using assms by (cases s) (simp add: agent_of_proto_def agent_to_proto_def map_filter_some_items failure_roundtrip)

subsection \<open>Property\<close>

definition failure_ok :: "'f agent_failure \<Rightarrow> bool" where
  "failure_ok e \<longleftrightarrow> list_all valid_utf8 (strings_of_failure (failure_to_proto e)) \<and>
     in_width 32 (af_http_status e) \<and> in_width 32 (af_retries e)"

lemmas remote_defs =
  remote_controller_def grpc_client_def new_server_def local_controller_def unary_def error_of_def
  done_or_internal_def on_hub_def

lemma token_refused: "stoken \<noteq> [] \<Longrightarrow> ctoken \<noteq> stoken \<Longrightarrow>
    control_token_interceptor stoken (with_token ctoken) = Some Unauthenticated"
  by (simp add: control_token_interceptor_def with_token_def)

lemma token_accepted_by: "stoken = [] \<or> ctoken = stoken \<Longrightarrow> control_token_interceptor stoken (with_token ctoken) = None"
  by (auto simp: control_token_interceptor_def with_token_def)

text \<open>A connection whose texts protobuf takes as strings.\<close>

definition utf8_ok :: "connection_snapshot \<Rightarrow> bool" where
  "utf8_ok c \<longleftrightarrow> list_all valid_utf8 (strings_of_connection (connection_to_proto c))"

lemma remote_list:
  assumes "\<forall>x. carries x \<longleftrightarrow> valid_utf8 x" "control_token_interceptor stoken (with_token ctoken) = None"
    "net h = Delivered" "ct_list (local_controller snaps) h = Inr cs" "\<forall>c \<in> set cs. cs_send_queue_len c < 2 ^ 31"
  shows "ct_list (remote_controller carries zero net ctoken stoken snaps) h =
    (if \<forall>c \<in> set cs. utf8_ok c then Inr (map connection_in_millis cs) else Inl Transport)"
proof -
  have "carries = valid_utf8" using assms(1) by auto
  moreover have "map (\<lambda>c. connection_of_proto (connection_to_proto c)) cs = map connection_in_millis cs"
    using assms(5) by (simp add: connection_roundtrip)
  moreover have "(case h of None \<Rightarrow> Inr [] | Some g \<Rightarrow> Inr (connections g)) = (Inr cs :: control_error + _)"
    using assms(4) by (simp add: local_controller_def)
  ultimately show ?thesis
    using assms(2,3) by (simp add: remote_defs connections_to_proto_def connections_of_proto_def map_filter_some_items utf8_ok_def)
qed

lemma remote_snapshots:
  assumes "\<forall>x. carries x \<longleftrightarrow> valid_utf8 x" "control_token_interceptor stoken (with_token ctoken) = None"
    "net h = Delivered" "\<forall>e \<in> set (as_failures a). failure_ok e"
  shows "ct_snapshots (remote_controller carries zero net ctoken stoken (r, a)) h =
    Inr (r, a\<lparr>as_failures := map (\<lambda>e. e\<lparr>af_time := in_millis (af_time e)\<rparr>) (as_failures a)\<rparr>)"
proof -
  have "list_all carries (strings_of_failure (failure_to_proto e))" if "e \<in> set (as_failures a)" for e
    using assms(1,4) that by (auto simp: failure_ok_def list_all_iff)
  then have "\<forall>p \<in> set (pg_recent_failures (agent_to_proto a)).
      case p of None \<Rightarrow> True | Some y \<Rightarrow> list_all carries (strings_of_failure y)"
    by (auto simp: agent_to_proto_def)
  moreover have "\<forall>e \<in> set (as_failures a). in_width 32 (af_http_status e) \<and> in_width 32 (af_retries e)"
    using assms(4) by (simp add: failure_ok_def)
  ultimately show ?thesis
    using assms(2,3) by (simp add: remote_defs runtime_roundtrip agent_roundtrip)
qed

text \<open>What the server makes of the local controller's answer.\<close>

definition wrapped :: "'h \<times> control_error option \<Rightarrow> 'h \<times> control_error option" where
  "wrapped r = (fst r, map_option Internal (snd r))"

text \<open>C29: The remote control plane is the local one, with a hub on the server and without one. When a call and
  its reply arrive and the tokens agree, every operation of the gRPC client does to the hub what the local
  controller does and reports the same success, or the local failure wrapped as an internal error; a
  connection id that is not valid UTF-8 cannot be sent and closes nothing. The statistics come back as they
  are. The connections come back with their times cut off to milliseconds (given queues shorter than
  \<open>2 ^ 31\<close>), unless a text of one of them, such as a User-Agent, is not valid UTF-8: then the whole list
  fails. The metrics come back as they are but for the times of the agent's failures, cut off to
  milliseconds, when the failures have valid texts and 32-bit numbers. When the server has a token and the
  client another one, or none, every operation is refused and the hub is as it was.\<close>

theorem remote_control_agrees:
  fixes snaps :: "'f runtime_snapshot \<times> 'f agent_snapshot" and zero :: 'f and stoken ctoken :: string
    and u :: user_id and r :: room_id and k :: string
  assumes carries: "\<forall>x. carries x \<longleftrightarrow> valid_utf8 x" and net: "net h = Delivered"
  defines "L \<equiv> local_controller snaps" and "R \<equiv> remote_controller carries zero net ctoken stoken snaps"
  shows "(stoken = [] \<or> ctoken = stoken \<longrightarrow>
      ct_kick R u h = wrapped (ct_kick L u h) \<and> ct_disband R r h = wrapped (ct_disband L r h) \<and>
      ct_remove R r u h = wrapped (ct_remove L r u h) \<and>
      ct_close R k h = (if valid_utf8 k then wrapped (ct_close L k h) else (h, Some Transport)) \<and>
      ct_stats R h = map_sum Internal id (ct_stats L h) \<and>
      (\<forall>cs. ct_list L h = Inr cs \<longrightarrow> (\<forall>c \<in> set cs. cs_send_queue_len c < 2 ^ 31) \<longrightarrow>
         ct_list R h = (if \<forall>c \<in> set cs. utf8_ok c then Inr (map connection_in_millis cs) else Inl Transport)) \<and>
      ((\<forall>e \<in> set (as_failures (snd snaps)). failure_ok e) \<longrightarrow>
         ct_snapshots R h = Inr (fst snaps, (snd snaps)\<lparr>as_failures :=
           map (\<lambda>e. e\<lparr>af_time := in_millis (af_time e)\<rparr>) (as_failures (snd snaps))\<rparr>))) \<and>
    (stoken \<noteq> [] \<and> ctoken \<noteq> stoken \<longrightarrow>
      ct_kick R u h = (h, Some Unauthenticated) \<and> ct_disband R r h = (h, Some Unauthenticated) \<and>
      ct_remove R r u h = (h, Some Unauthenticated) \<and>
      ct_close R k h = (h, Some (if valid_utf8 k then Unauthenticated else Transport)) \<and>
      ct_stats R h = Inl Unauthenticated \<and> ct_list R h = Inl Unauthenticated \<and>
      ct_snapshots R h = Inl Unauthenticated)"
proof (rule conjI; rule impI)
  assume ok: "stoken = [] \<or> ctoken = stoken"
  note t = token_accepted_by [OF ok]
  have "ct_snapshots R h = Inr (fst snaps, (snd snaps)\<lparr>as_failures :=
           map (\<lambda>e. e\<lparr>af_time := in_millis (af_time e)\<rparr>) (as_failures (snd snaps))\<rparr>)"
    if "\<forall>e \<in> set (as_failures (snd snaps)). failure_ok e"
    using remote_snapshots [where net = net and h = h and a = "snd snaps" and r = "fst snaps" and zero = zero, OF carries t net that]
    by (simp add: R_def)
  moreover have "ct_list R h = (if \<forall>c \<in> set cs. utf8_ok c then Inr (map connection_in_millis cs) else Inl Transport)"
    if "ct_list L h = Inr cs" "\<forall>c \<in> set cs. cs_send_queue_len c < 2 ^ 31" for cs
    unfolding R_def by (rule remote_list [where net = net and h = h, OF carries t net that [unfolded L_def]])
  moreover have "ct_close R k h = (if valid_utf8 k then wrapped (ct_close L k h) else (h, Some Transport))"
    using carries net t by (auto simp: R_def L_def remote_defs wrapped_def split: option.split)
  ultimately show "ct_kick R u h = wrapped (ct_kick L u h) \<and> ct_disband R r h = wrapped (ct_disband L r h) \<and>
      ct_remove R r u h = wrapped (ct_remove L r u h) \<and>
      ct_close R k h = (if valid_utf8 k then wrapped (ct_close L k h) else (h, Some Transport)) \<and>
      ct_stats R h = map_sum Internal id (ct_stats L h) \<and>
      (\<forall>cs. ct_list L h = Inr cs \<longrightarrow> (\<forall>c \<in> set cs. cs_send_queue_len c < 2 ^ 31) \<longrightarrow>
         ct_list R h = (if \<forall>c \<in> set cs. utf8_ok c then Inr (map connection_in_millis cs) else Inl Transport)) \<and>
      ((\<forall>e \<in> set (as_failures (snd snaps)). failure_ok e) \<longrightarrow>
         ct_snapshots R h = Inr (fst snaps, (snd snaps)\<lparr>as_failures :=
           map (\<lambda>e. e\<lparr>af_time := in_millis (af_time e)\<rparr>) (as_failures (snd snaps))\<rparr>))"
    using net t by (cases h) (simp_all add: R_def L_def remote_defs wrapped_def)
next
  assume "stoken \<noteq> [] \<and> ctoken \<noteq> stoken"
  then have t: "control_token_interceptor stoken (with_token ctoken) = Some Unauthenticated" using token_refused by blast
  show "ct_kick R u h = (h, Some Unauthenticated) \<and> ct_disband R r h = (h, Some Unauthenticated) \<and>
      ct_remove R r u h = (h, Some Unauthenticated) \<and>
      ct_close R k h = (h, Some (if valid_utf8 k then Unauthenticated else Transport)) \<and>
      ct_stats R h = Inl Unauthenticated \<and> ct_list R h = Inl Unauthenticated \<and>
      ct_snapshots R h = Inl Unauthenticated"
    using net t carries by (simp add: R_def remote_defs)
qed

lemma remote_control_agrees_witness:
  "\<forall>snaps :: int runtime_snapshot \<times> int agent_snapshot.
   ct_kick (remote_controller valid_utf8 0 (\<lambda>_. Delivered) ''k'' ''k'' snaps) 1 (Some demo_two) = (Some (kick 1 demo_two), None) \<and>
   ct_kick (remote_controller valid_utf8 0 (\<lambda>_. Delivered) ''k'' ''k'' snaps) 1 None = (None, Some (Internal HubMissing)) \<and>
   ct_kick (remote_controller valid_utf8 0 (\<lambda>_. Delivered) [] ''k'' snaps) 1 (Some demo_two) = (Some demo_two, Some Unauthenticated)"
proof
  fix snaps :: "int runtime_snapshot \<times> int agent_snapshot"
  note p = remote_control_agrees [where carries = valid_utf8 and net = "\<lambda>_. Delivered" and zero = 0
      and stoken = "''k''" and snaps = snaps and u = 1]
  show "ct_kick (remote_controller valid_utf8 0 (\<lambda>_. Delivered) ''k'' ''k'' snaps) 1 (Some demo_two) = (Some (kick 1 demo_two), None) \<and>
   ct_kick (remote_controller valid_utf8 0 (\<lambda>_. Delivered) ''k'' ''k'' snaps) 1 None = (None, Some (Internal HubMissing)) \<and>
   ct_kick (remote_controller valid_utf8 0 (\<lambda>_. Delivered) [] ''k'' snaps) 1 (Some demo_two) = (Some demo_two, Some Unauthenticated)"
    using p [where ctoken = "''k''" and h = "Some demo_two"] p [where ctoken = "''k''" and h = None]
      p [where ctoken = "[]" and h = "Some demo_two"]
    by (simp add: local_controller_def on_hub_def wrapped_def)
qed

end
