(* ===== verification/AdminStore.thy ===== *)
theory AdminStore
  imports RoomRepo Presence AdminControl Http
begin

section \<open>What the admin services share: tables, the audit log, moderation events\<close>

text \<open>
  The rows of the admin tables, the audit service (services/admin/application/audit.go) and the shapes
  of queries the admin services use: a page of a filtered table in descending order of the key, counts
  grouped by a key, gorm's \<open>Save\<close>. A floating point column is its 64 bits. Times are nanoseconds; a
  zero \<open>time.Time\<close> in a query is \<open>None\<close>. Unless a text says otherwise the tables obey \<open>table_laws\<close>.
\<close>

type_synonym float64 = "64 word"

record audit_log =
  al_id :: int
  al_admin_user_id :: int
  al_admin_username :: string
  al_action :: string
  al_target_type :: string
  al_target_id :: string
  al_before :: string
  al_after :: string
  al_request_id :: string
  al_remote_ip :: string
  al_user_agent :: string
  al_result :: string
  al_error :: string
  al_created :: int

record moderation_event =
  me_id :: int
  me_message :: int
  me_room :: int
  me_user :: int
  me_username :: string
  me_room_name :: string
  me_original :: string
  me_category :: string
  me_risk_level :: string
  me_risk_score :: float64
  me_model :: string
  me_result :: string
  me_reason :: string
  me_tool_params :: string
  me_tool_result :: string
  me_penalty :: string
  me_review :: string
  me_reviewed_by :: int
  me_reviewed_at :: "int option"
  me_created :: int

text \<open>The agent's configuration of a room; the default one has no key.\<close>

record agent_config =
  ag_id :: int
  ag_room :: int
  ag_system_prompt :: string
  ag_trigger_mode :: int
  ag_trigger_words :: string
  ag_max_history :: int
  ag_temperature :: float64
  ag_model :: string
  ag_rag_enabled :: bool
  ag_top_k :: int
  ag_similarity :: float64
  ag_rerank :: bool
  ag_max_chunk_tokens :: int
  ag_topic_min_msgs :: int
  ag_topic_model :: string

text \<open>The float64 nearest to 0.7.\<close>

definition seven_tenths :: float64 where
  "seven_tenths = 0x3FE6666666666666"

definition default_agent_config :: "int \<Rightarrow> agent_config" where
  "default_agent_config r =
     \<lparr>ag_id = 0, ag_room = r, ag_system_prompt = [], ag_trigger_mode = 1, ag_trigger_words = ''[]'',
      ag_max_history = 20, ag_temperature = seven_tenths, ag_model = ''deepseek-chat'', ag_rag_enabled = True,
      ag_top_k = 5, ag_similarity = seven_tenths, ag_rerank = True, ag_max_chunk_tokens = 4000,
      ag_topic_min_msgs = 30, ag_topic_model = ''deepseek-chat''\<rparr>"

record 's admin_store =
  sto_db :: "'s db"
  sto_configs :: "('s, agent_config) table"
  sto_audit :: "('s, audit_log) table"
  sto_events :: "('s, moderation_event) table"

subsection \<open>Queries\<close>

text \<open>\<open>Save\<close> of a row with a key: all columns of the row with this key, or a new row when there is none. (gorm
  takes an update that changed no row for one that found none, and then inserts with an update on a
  duplicate key, which writes the values that are there.)\<close>

definition gorm_save :: "('s, 'r) table \<Rightarrow> ('r \<Rightarrow> int) \<Rightarrow> 'r \<Rightarrow> 's \<Rightarrow> 's \<times> (db_error + unit)" where
  "gorm_save t key row s =
     (case t_update t (\<lambda>x. key x = key row) (\<lambda>_. row) s of
        (s', Inl e) \<Rightarrow> (s', Inl e)
      | (s', Inr n) \<Rightarrow> if n = 0 then map_prod id (map_sum id (\<lambda>_. ())) (t_create t row s') else (s', Inr ()))"

text \<open>\<open>Offset\<close> ignores a negative number, \<open>Limit\<close> too.\<close>

definition page_query :: "('r \<Rightarrow> int) \<Rightarrow> int \<Rightarrow> int \<Rightarrow> ('r \<Rightarrow> bool) \<Rightarrow> 'r query" where
  "page_query key pg n p =
     \<lparr>q_where = p, q_order = (\<lambda>a b. key b \<le> key a), q_offset = nat (int64_of ((pg - 1) * n)),
      q_limit = (if n < 0 then None else Some (nat n))\<rparr>"

definition since :: "int option \<Rightarrow> int \<Rightarrow> bool" where
  "since start t = (case start of None \<Rightarrow> True | Some x \<Rightarrow> x \<le> t)"

definition before :: "int option \<Rightarrow> int \<Rightarrow> bool" where
  "before end_time t = (case end_time of None \<Rightarrow> True | Some x \<Rightarrow> t < x)"

text \<open>A read of a Go map.\<close>

definition at_key :: "'b \<Rightarrow> (int, 'b) gomap \<Rightarrow> int \<Rightarrow> 'b" where
  "at_key z m k = (case gm_get m k of None \<Rightarrow> z | Some x \<Rightarrow> x)"

text \<open>\<open>SELECT key, COUNT(*) ... GROUP BY key\<close>, read into a Go map.\<close>

definition count_by :: "('r \<Rightarrow> int) \<Rightarrow> 'r list \<Rightarrow> (int, int) gomap" where
  "count_by key rows =
     fold (\<lambda>r m. gm_put (key r) (at_key 0 m (key r) + 1) m) rows []"

definition group_counts ::
    "('s, 'r) table \<Rightarrow> ('r \<Rightarrow> int) \<Rightarrow> ('r \<Rightarrow> bool) \<Rightarrow> int list \<Rightarrow> 's \<Rightarrow> db_error + (int, int) gomap" where
  "group_counts t key p ids s =
     (if ids = [] then Inr []
      else map_sum id (count_by key) (t_find t (query_all (\<lambda>r. key r \<in> set ids \<and> p r)) s))"

text \<open>A read that ignores the error.\<close>

definition or_zero :: "'a \<Rightarrow> ('e + 'a) \<Rightarrow> 'a" where
  "or_zero z r = (case r of Inl _ \<Rightarrow> z | Inr x \<Rightarrow> x)"

definition online_map :: "'r redis \<Rightarrow> int \<Rightarrow> int list \<Rightarrow> 'r \<Rightarrow> (int, bool) gomap" where
  "online_map rd now ids rs = fst (check_users_online rd now ids rs)"

text \<open>\<open>startOfDay\<close> (time_utils.go), for a location \<open>zone\<close> nanoseconds east of Greenwich.\<close>

definition start_of_day :: "int \<Rightarrow> int \<Rightarrow> int" where
  "start_of_day zone t = (t + zone) - (t + zone) mod (86400 * 1000000000) - zone"

subsection \<open>The audit log\<close>

datatype audit_data = NoData | TextData string | JsonData json

record audit_entry =
  ae_admin_user_id :: int
  ae_admin_username :: string
  ae_action :: string
  ae_target_type :: string
  ae_target_id :: string
  ae_before :: audit_data
  ae_after :: audit_data
  ae_request_id :: string
  ae_remote_ip :: string
  ae_user_agent :: string
  ae_result :: string
  ae_error :: string

fun marshal_audit_data :: "audit_data \<Rightarrow> string" where
  "marshal_audit_data NoData = []"
| "marshal_audit_data (TextData x) = x"
| "marshal_audit_data (JsonData j) = enc_json j"

definition audit_record :: "audit_entry \<Rightarrow> audit_log" where
  "audit_record e =
     \<lparr>al_id = 0, al_admin_user_id = ae_admin_user_id e, al_admin_username = ae_admin_username e,
      al_action = ae_action e, al_target_type = ae_target_type e, al_target_id = ae_target_id e,
      al_before = marshal_audit_data (ae_before e), al_after = marshal_audit_data (ae_after e),
      al_request_id = ae_request_id e, al_remote_ip = ae_remote_ip e, al_user_agent = ae_user_agent e,
      al_result = ae_result e, al_error = ae_error e, al_created = 0\<rparr>"

definition audit_write :: "'s admin_store \<Rightarrow> audit_entry \<Rightarrow> 's \<Rightarrow> 's \<times> (db_error + unit)" where
  "audit_write d e s = map_prod id (map_sum id (\<lambda>_. ())) (t_create (sto_audit d) (audit_record e) s)"

record audit_query =
  aq_page :: int
  aq_page_size :: int
  aq_keyword :: string
  aq_admin :: int
  aq_action :: string
  aq_target_type :: string
  aq_target_id :: string
  aq_result :: string
  aq_start :: "int option"
  aq_end :: "int option"

definition audit_matches :: "(string \<Rightarrow> string \<Rightarrow> bool) \<Rightarrow> audit_query \<Rightarrow> audit_log \<Rightarrow> bool" where
  "audit_matches like q r \<longleftrightarrow>
     (aq_keyword q \<noteq> [] \<longrightarrow>
        (let k = aq_keyword q @ ''%''
         in like (al_action r) k \<or> like (al_target_type r) k \<or> like (al_target_id r) k \<or> like (al_admin_username r) k)) \<and>
     (0 < aq_admin q \<longrightarrow> al_admin_user_id r = aq_admin q) \<and>
     (aq_action q \<noteq> [] \<longrightarrow> al_action r = aq_action q) \<and>
     (aq_target_type q \<noteq> [] \<longrightarrow> al_target_type r = aq_target_type q) \<and>
     (aq_target_id q \<noteq> [] \<longrightarrow> al_target_id r = aq_target_id q) \<and>
     (aq_result q \<noteq> [] \<longrightarrow> al_result r = aq_result q) \<and>
     since (aq_start q) (al_created r) \<and> before (aq_end q) (al_created r)"

text \<open>A page of a table with the number of all matching rows.\<close>

definition list_page ::
    "('s, 'r) table \<Rightarrow> ('r \<Rightarrow> int) \<Rightarrow> int \<Rightarrow> int \<Rightarrow> ('r \<Rightarrow> bool) \<Rightarrow> 's \<Rightarrow> db_error + 'r list \<times> int" where
  "list_page t key pg k p s =
     (case t_count t p s of
        Inl e \<Rightarrow> Inl e
      | Inr n \<Rightarrow> map_sum id (\<lambda>rows. (rows, int n)) (t_find t (page_query key pg k p) s))"

definition audit_list :: "'s admin_store \<Rightarrow> audit_query \<Rightarrow> 's \<Rightarrow> db_error + audit_log list \<times> int" where
  "audit_list d q s =
     list_page (sto_audit d) al_id (aq_page q) (aq_page_size q) (audit_matches (db_like (sto_db d)) q) s"

subsection \<open>Moderation events in a list (moderation_dashboard.go)\<close>

record moderation_item =
  mi_id :: int
  mi_message :: int
  mi_room :: int
  mi_user :: int
  mi_username :: string
  mi_room_name :: string
  mi_original :: string
  mi_category :: string
  mi_risk_level :: string
  mi_risk_score :: float64
  mi_model :: string
  mi_result :: string
  mi_reason :: string
  mi_tool_params :: string
  mi_tool_result :: string
  mi_penalty :: string
  mi_review :: string
  mi_created :: int

definition moderation_item_of :: "moderation_event \<Rightarrow> moderation_item" where
  "moderation_item_of e =
     \<lparr>mi_id = me_id e, mi_message = me_message e, mi_room = me_room e, mi_user = me_user e,
      mi_username = me_username e, mi_room_name = me_room_name e, mi_original = me_original e,
      mi_category = me_category e, mi_risk_level = me_risk_level e, mi_risk_score = me_risk_score e,
      mi_model = me_model e, mi_result = me_result e, mi_reason = me_reason e,
      mi_tool_params = me_tool_params e, mi_tool_result = me_tool_result e, mi_penalty = me_penalty e,
      mi_review = me_review e, mi_created = me_created e\<rparr>"

definition moderation_items :: "moderation_event list \<Rightarrow> moderation_item list" where
  "moderation_items es = map moderation_item_of es"

text \<open>The 20 latest events of a user or a room.\<close>

definition recent_events :: "'s admin_store \<Rightarrow> (moderation_event \<Rightarrow> bool) \<Rightarrow> 's \<Rightarrow> moderation_event list" where
  "recent_events d p s =
     or_zero [] (t_find (sto_events d)
       \<lparr>q_where = p, q_order = (\<lambda>a b. me_created b \<le> me_created a), q_offset = 0, q_limit = Some 20\<rparr> s)"

subsection \<open>Laws\<close>

definition audit_assigned :: "audit_log \<Rightarrow> audit_log \<Rightarrow> bool" where
  "audit_assigned r r' \<longleftrightarrow>
     r' = r\<lparr>al_id := al_id r', al_created := al_created r',
            al_result := (if al_result r = [] then ''success'' else al_result r)\<rparr>"

definition event_assigned :: "moderation_event \<Rightarrow> moderation_event \<Rightarrow> bool" where
  "event_assigned e e' \<longleftrightarrow> e' = e\<lparr>me_id := me_id e', me_created := me_created e'\<rparr>"

definition store_laws :: "'s admin_store \<Rightarrow> 's views \<Rightarrow> ('s \<Rightarrow> audit_log list) \<Rightarrow> bool" where
  "store_laws d v audits \<longleftrightarrow>
     db_laws (sto_db d) v \<and> table_laws audits audit_assigned (\<lambda>_ _. False) (sto_audit d) \<and>
     table_frame audits (db_users (sto_db d)) \<and> table_frame audits (db_rooms (sto_db d)) \<and>
     table_frame audits (db_members (sto_db d)) \<and> table_frame (v_users v) (sto_audit d) \<and>
     table_frame (v_rooms v) (sto_audit d) \<and> table_frame (v_members v) (sto_audit d)"

lemma store_lawsD:
  assumes "store_laws d v audits"
  shows "db_laws (sto_db d) v" and "table_laws audits audit_assigned (\<lambda>_ _. False) (sto_audit d)"
    and "table_frame audits (db_users (sto_db d))" and "table_frame audits (db_rooms (sto_db d))"
    and "table_frame audits (db_members (sto_db d))" and "table_frame (v_users v) (sto_audit d)"
    and "table_frame (v_rooms v) (sto_audit d)" and "table_frame (v_members v) (sto_audit d)"
  using assms by (simp_all add: store_laws_def)

lemma gorm_save_update:
  assumes laws: "table_laws rows assigned conflict t" and save: "gorm_save t key row s = (s', Inr ())"
    and there: "\<exists>x \<in> set (rows s). key x = key row"
  shows "t_update t (\<lambda>x. key x = key row) (\<lambda>_. row) s = (s', Inr (length (filter (\<lambda>x. key x = key row) (rows s))))"
    and "rows s' = map (\<lambda>x. if key x = key row then row else x) (rows s)"
proof -
  obtain s1 n where u: "t_update t (\<lambda>x. key x = key row) (\<lambda>_. row) s = (s1, Inr n)"
    using save by (auto simp: gorm_save_def split: prod.splits sum.splits)
  note l = table_lawsD(8) [OF laws u]
  have "filter (\<lambda>x. key x = key row) (rows s) \<noteq> []" using there by (auto simp: filter_empty_conv)
  then have "n \<noteq> 0" using l by simp
  then have "s1 = s'" using save u by (simp add: gorm_save_def)
  with u l show "t_update t (\<lambda>x. key x = key row) (\<lambda>_. row) s = (s', Inr (length (filter (\<lambda>x. key x = key row) (rows s))))"
    and "rows s' = map (\<lambda>x. if key x = key row then row else x) (rows s)" by simp_all
qed

text \<open>A successful audit adds one record; it changes nothing else.\<close>

lemma audit_write_Inr:
  assumes laws: "store_laws d v audits" and w: "audit_write d e s = (s', Inr ())"
  shows "\<exists>r. audit_assigned (audit_record e) r \<and> audits s' = audits s @ [r]" and "v_users v s' = v_users v s"
    and "v_rooms v s' = v_rooms v s" and "v_members v s' = v_members v s"
proof -
  obtain r where c: "t_create (sto_audit d) (audit_record e) s = (s', Inr r)"
    using w by (cases "t_create (sto_audit d) (audit_record e) s"; cases "snd (t_create (sto_audit d) (audit_record e) s)")
      (auto simp: audit_write_def)
  show "\<exists>r. audit_assigned (audit_record e) r \<and> audits s' = audits s @ [r]"
    using table_lawsD(4) [OF store_lawsD(2) [OF laws] c] by blast
  show "v_users v s' = v_users v s" by (rule table_frameD(1) [OF store_lawsD(6) [OF laws] c])
  show "v_rooms v s' = v_rooms v s" by (rule table_frameD(1) [OF store_lawsD(7) [OF laws] c])
  show "v_members v s' = v_members v s" by (rule table_frameD(1) [OF store_lawsD(8) [OF laws] c])
qed

lemma audit_write_Inl:
  assumes laws: "store_laws d v audits" and w: "audit_write d e s = (s', Inl x)"
  shows "s' = s"
  using w table_lawsD(3) [OF store_lawsD(2) [OF laws], of "audit_record e" s s' x]
  by (cases "t_create (sto_audit d) (audit_record e) s"; cases "snd (t_create (sto_audit d) (audit_record e) s)")
     (auto simp: audit_write_def)

text \<open>Counting by a key counts.\<close>

lemma at_key_put: "at_key z (gm_put k x m) k' = (if k' = k then x else at_key z m k')"
  by (simp add: at_key_def gm_get_put)

lemma at_key_count_by: "at_key 0 (count_by key rows) k = int (length (filter (\<lambda>r. key r = k) rows))"
proof -
  have "at_key 0 (fold (\<lambda>r m. gm_put (key r) (at_key 0 m (key r) + 1) m) rows m) k =
      at_key 0 m k + int (length (filter (\<lambda>r. key r = k) rows))" for m
    by (induction rows arbitrary: m) (simp_all add: at_key_put)
  then show ?thesis by (simp add: count_by_def) (simp add: at_key_def)
qed

end
