(* ===== verification/AdminSample.thy ===== *)
theory AdminSample
  imports AdminStore SampleDb
begin

section \<open>An admin store that satisfies the laws\<close>

text \<open>The sample database with two more lists beside it, for the examples.\<close>

type_synonym sample_admin = "sample_state \<times> audit_log list \<times> moderation_event list"

definition on_first :: "('s, 'r) table \<Rightarrow> ('s \<times> 'x, 'r) table" where
  "on_first t =
     \<lparr>t_find = (\<lambda>q s. t_find t q (fst s)),
      t_count = (\<lambda>p s. t_count t p (fst s)),
      t_create = (\<lambda>r s. ((fst (t_create t r (fst s)), snd s), snd (t_create t r (fst s)))),
      t_create_ignore = (\<lambda>r s. ((fst (t_create_ignore t r (fst s)), snd s), snd (t_create_ignore t r (fst s)))),
      t_update = (\<lambda>p f s. ((fst (t_update t p f (fst s)), snd s), snd (t_update t p f (fst s)))),
      t_delete = (\<lambda>p s. ((fst (t_delete t p (fst s)), snd s), snd (t_delete t p (fst s))))\<rparr>"

lemma pair_run: "((fst p, y), snd p) = ((a, b), x) \<longleftrightarrow> p = (a, x) \<and> y = b"
  by (cases p) auto

lemma on_first_laws:
  assumes "table_laws rows assigned conflict t"
  shows "table_laws (\<lambda>s. rows (fst s)) assigned conflict (on_first t)"
proof -
  have e: "p = (fst p, x)" if "snd p = x" for p :: "'a \<times> 'v" and x using that by (cases p) simp
  show ?thesis
    using table_lawsD(1,2) [OF assms] table_lawsD(3-10) [OF assms e] unfolding table_laws_def on_first_def
    by (auto simp: pair_run)
qed

lemma on_first_frame: "table_frame view t \<Longrightarrow> table_frame (\<lambda>s. view (fst s)) (on_first t)"
  by (simp add: table_frame_def on_first_def)

lemma on_first_frame_snd: "table_frame (\<lambda>s. view (snd s)) (on_first t)"
  by (simp add: table_frame_def on_first_def)

definition on_first_db :: "'s db \<Rightarrow> ('s \<times> 'x) db" where
  "on_first_db d =
     \<lparr>db_users = on_first (db_users d), db_rooms = on_first (db_rooms d), db_members = on_first (db_members d),
      db_commit = (\<lambda>s. db_commit d (fst s)), db_like = db_like d,
      db_rooms_of = (\<lambda>u s. db_rooms_of d u (fst s)), db_users_of = (\<lambda>r s. db_users_of d r (fst s))\<rparr>"

definition first_views :: "'s views \<Rightarrow> ('s \<times> 'x) views" where
  "first_views v = \<lparr>v_users = (\<lambda>s. v_users v (fst s)), v_rooms = (\<lambda>s. v_rooms v (fst s)), v_members = (\<lambda>s. v_members v (fst s))\<rparr>"

lemma on_first_db_laws:
  assumes "db_laws d v"
  shows "db_laws (on_first_db d) (first_views v)"
proof -
  have "\<forall>m \<in> set (v_members v a). rm_room m \<noteq> r_id r'" if "snd (t_create (db_rooms d) r a) = Inr r'" for r a r'
    using db_lawsD(10) [OF assms, of r a _ r'] that by (metis prod.collapse)
  then have "fresh_room_ids (on_first_db d :: ('a \<times> 'b) db) (first_views v)"
    by (simp add: fresh_room_ids_def on_first_db_def first_views_def on_first_def pair_run split_paired_all)
  moreover have "join_laws (on_first_db d :: ('a \<times> 'b) db) (first_views v)"
    using db_lawsD(11,12) [OF assms] by (simp add: join_laws_def on_first_db_def first_views_def split_paired_all)
  ultimately show ?thesis
    using db_lawsD(1-9) [OF assms]
    by (simp add: db_laws_def on_first_db_def first_views_def on_first_laws on_first_frame)
qed

definition sample_store :: "sample_admin admin_store" where
  "sample_store =
     \<lparr>sto_db = on_first_db sample_db,
      sto_configs = list_table (\<lambda>_. []) (\<lambda>_ s. s) (\<lambda>_ c. c) (\<lambda>_ _. True),
      sto_audit = list_table (\<lambda>s. fst (snd s)) (\<lambda>xs s. (fst s, xs, snd (snd s)))
        (\<lambda>xs r. r\<lparr>al_id := next_key al_id xs, al_result := (if al_result r = [] then ''success'' else al_result r)\<rparr>)
        (\<lambda>_ _. False),
      sto_events = list_table (\<lambda>s. snd (snd s)) (\<lambda>xs s. (fst s, fst (snd s), xs))
        (\<lambda>xs e. e\<lparr>me_id := next_key me_id xs\<rparr>) (\<lambda>_ _. False)\<rparr>"

definition sample_admin_views :: "sample_admin views" where
  "sample_admin_views = first_views sample_views"

definition sample_audits :: "sample_admin \<Rightarrow> audit_log list" where
  "sample_audits s = fst (snd s)"

lemma sample_store_laws: "store_laws sample_store sample_admin_views sample_audits"
proof -
  have tabs: "db_users (sto_db sample_store) = on_first sample_users" "db_rooms (sto_db sample_store) = on_first sample_rooms"
    "db_members (sto_db sample_store) = on_first sample_members"
    by (simp_all add: sample_store_def on_first_db_def sample_db_def)
  have views: "v_users sample_admin_views = (\<lambda>s. v_users sample_views (fst s))"
    "v_rooms sample_admin_views = (\<lambda>s. v_rooms sample_views (fst s))"
    "v_members sample_admin_views = (\<lambda>s. v_members sample_views (fst s))"
    by (simp_all add: sample_admin_views_def first_views_def)
  have db: "db_laws (sto_db sample_store) sample_admin_views"
    using on_first_db_laws [OF sample_laws] by (simp add: sample_store_def sample_admin_views_def)
  have audit: "table_laws sample_audits audit_assigned (\<lambda>_ _. False) (sto_audit sample_store)"
    unfolding sample_store_def sample_audits_def
    by simp (rule list_table_laws, simp_all add: audit_assigned_def)
  have frame: "table_frame sample_audits (on_first t)" for t :: "(sample_state, 'r) table"
    using on_first_frame_snd [of fst t] by (simp add: sample_audits_def [abs_def])
  have frame': "table_frame (\<lambda>s. f (fst s)) (sto_audit sample_store)" for f :: "sample_state \<Rightarrow> 'v"
    unfolding sample_store_def by simp (rule list_table_frame, simp)
  show ?thesis
    unfolding store_laws_def tabs views by (intro conjI db audit frame frame')
qed

definition demo_admin :: sample_admin where
  "demo_admin = (demo_db, [], [])"

end
