(* ===== verification/AdminUsers.thy ===== *)
theory AdminUsers
  imports AdminSample Rbac
begin

section \<open>User administration (services/admin/application/user_service.go, services/admin/api/admin_user.go)\<close>

text \<open>
  Listing, details and actions on users. The number of a user's messages comes from the message store,
  whose two calls are arguments. The state of an action is the database, the runtime behind the
  controller and Redis.
\<close>

datatype admin_error = DbFailed db_error | RuntimeFailed control_error | UnsupportedAction | MovedToAgentService

record message_counts =
  mc_by_sender :: "int \<Rightarrow> int"
  mc_by_senders :: "int list \<Rightarrow> (int, int) gomap"
  mc_by_room :: "int \<Rightarrow> int \<Rightarrow> int \<Rightarrow> int"
  mc_by_room_total :: "int \<Rightarrow> int"
  mc_by_rooms :: "int list \<Rightarrow> int \<Rightarrow> int \<Rightarrow> (int, int) gomap"
  mc_by_rooms_total :: "int list \<Rightarrow> (int, int) gomap"

subsection \<open>Lists and details\<close>

record user_list_query =
  ul_page :: int
  ul_page_size :: int
  ul_keyword :: string
  ul_role :: int
  ul_status :: int
  ul_start :: "int option"
  ul_end :: "int option"

record user_list_item =
  ui_id :: int
  ui_username :: string
  ui_role :: int
  ui_role_name :: string
  ui_created :: int
  ui_last_login :: "int option"
  ui_last_active :: "int option"
  ui_online :: bool
  ui_status :: int
  ui_rooms :: int
  ui_messages :: int
  ui_violations :: int

text \<open>A keyword that is a number is a user id, any other is the beginning of a name.\<close>

definition user_matches :: "(string \<Rightarrow> string \<Rightarrow> bool) \<Rightarrow> user_list_query \<Rightarrow> user \<Rightarrow> bool" where
  "user_matches like q u \<longleftrightarrow>
     (ul_keyword q \<noteq> [] \<longrightarrow>
        (case parse_ok (ul_keyword q) of
           Some i \<Rightarrow> u_id u = i
         | None \<Rightarrow> like (u_username u) (ul_keyword q @ ''%''))) \<and>
     (0 \<le> ul_role q \<longrightarrow> u_role u = ul_role q) \<and> (0 \<le> ul_status q \<longrightarrow> u_status u = ul_status q) \<and>
     since (ul_start q) (u_created u) \<and> before (ul_end q) (u_created u)"

definition count_user_rooms_by_ids :: "'s admin_store \<Rightarrow> int list \<Rightarrow> 's \<Rightarrow> db_error + (int, int) gomap" where
  "count_user_rooms_by_ids d ids s = group_counts (db_members (sto_db d)) rm_user (\<lambda>_. True) ids s"

definition count_user_violations_by_ids :: "'s admin_store \<Rightarrow> int list \<Rightarrow> 's \<Rightarrow> db_error + (int, int) gomap" where
  "count_user_violations_by_ids d ids s = group_counts (sto_events d) me_user (\<lambda>_. True) ids s"

definition list_users ::
    "'s admin_store \<Rightarrow> message_counts \<Rightarrow> 'r redis \<Rightarrow> int \<Rightarrow> user_list_query \<Rightarrow> 's \<times> 'r \<Rightarrow> db_error + user_list_item list \<times> int" where
  "list_users d mc rd now q st =
     (case list_page (db_users (sto_db d)) u_id (ul_page q) (ul_page_size q) (user_matches (db_like (sto_db d)) q) (fst st) of
        Inl e \<Rightarrow> Inl e
      | Inr (users, n) \<Rightarrow>
          (let ids = map u_id users;
               online = online_map rd now ids (snd st);
               rooms = or_zero [] (count_user_rooms_by_ids d ids (fst st));
               msgs = mc_by_senders mc ids;
               viol = or_zero [] (count_user_violations_by_ids d ids (fst st))
           in Inr (map (\<lambda>u.
                \<lparr>ui_id = u_id u, ui_username = u_username u, ui_role = u_role u, ui_role_name = role_name (u_role u),
                 ui_created = u_created u, ui_last_login = u_last_login u, ui_last_active = u_last_active u,
                 ui_online = at_key False online (u_id u), ui_status = u_status u,
                 ui_rooms = at_key 0 rooms (u_id u), ui_messages = at_key 0 msgs (u_id u),
                 ui_violations = at_key 0 viol (u_id u)\<rparr>) users, n)))"

record user_room_item =
  ur_room :: int
  ur_name :: string
  ur_role :: int

record user_detail =
  ud_item :: user_list_item
  ud_rooms :: "user_room_item list"
  ud_violations :: "moderation_item list"

definition count_user_rooms :: "'s admin_store \<Rightarrow> int \<Rightarrow> 's \<Rightarrow> db_error + int" where
  "count_user_rooms d u s = map_sum id int (t_count (db_members (sto_db d)) (\<lambda>m. rm_user m = u) s)"

definition count_user_violations :: "'s admin_store \<Rightarrow> int \<Rightarrow> 's \<Rightarrow> db_error + int" where
  "count_user_violations d u s = map_sum id int (t_count (sto_events d) (\<lambda>e. me_user e = u) s)"

definition user_rooms :: "'s admin_store \<Rightarrow> int \<Rightarrow> 's \<Rightarrow> db_error + user_room_item list" where
  "user_rooms d u s =
     map_sum id (map (\<lambda>(r, m). \<lparr>ur_room = rm_room m, ur_name = r_name r, ur_role = rm_role m\<rparr>))
       (db_rooms_of (sto_db d) u s)"

definition get_user_detail ::
    "'s admin_store \<Rightarrow> message_counts \<Rightarrow> 'r redis \<Rightarrow> int \<Rightarrow> int \<Rightarrow> 's \<times> 'r \<Rightarrow> db_error + user_detail" where
  "get_user_detail d mc rd now userID st =
     (case gorm_first (db_users (sto_db d)) u_id (\<lambda>u. u_id u = userID) (fst st) of
        Inl e \<Rightarrow> Inl e
      | Inr u \<Rightarrow> Inr
          \<lparr>ud_item =
             \<lparr>ui_id = u_id u, ui_username = u_username u, ui_role = u_role u, ui_role_name = role_name (u_role u),
              ui_created = u_created u, ui_last_login = u_last_login u, ui_last_active = u_last_active u,
              ui_online = fst (check_user_online rd now (u_id u) (snd st)), ui_status = u_status u,
              ui_rooms = or_zero 0 (count_user_rooms d (u_id u) (fst st)), ui_messages = mc_by_sender mc (u_id u),
              ui_violations = or_zero 0 (count_user_violations d (u_id u) (fst st))\<rparr>,
           ud_rooms = or_zero [] (user_rooms d (u_id u) (fst st)),
           ud_violations = moderation_items (recent_events d (\<lambda>e. me_user e = u_id u) (fst st))\<rparr>)"

subsection \<open>Actions\<close>

record admin_actor =
  ac_action :: string
  ac_admin :: int
  ac_name :: string
  ac_request_id :: string
  ac_remote_ip :: string
  ac_user_agent :: string

definition changed_user :: "string \<Rightarrow> user \<Rightarrow> user option" where
  "changed_user a u =
     (if a = ''ban'' then Some (u\<lparr>u_status := 1\<rparr>)
      else if a = ''unban'' then Some (u\<lparr>u_status := 0\<rparr>)
      else if a = ''role_super_admin'' then Some (u\<lparr>u_role := role_super_admin\<rparr>)
      else if a = ''role_moderator'' then Some (u\<lparr>u_role := role_moderator\<rparr>)
      else if a = ''role_operator'' then Some (u\<lparr>u_role := role_operator\<rparr>)
      else if a = ''role_user'' then Some (u\<lparr>u_role := role_user\<rparr>)
      else None)"

text \<open>\<open>json.Marshal\<close> writes a map with its keys in order.\<close>

definition user_audit_item :: "user \<Rightarrow> json" where
  "user_audit_item u =
     JObj [(''id'', jint (u_id u)), (''role'', jint (u_role u)), (''status'', jint (u_status u)),
           (''username'', JStr (u_username u))]"

definition user_audit_entry :: "user \<Rightarrow> user \<Rightarrow> admin_actor \<Rightarrow> audit_entry" where
  "user_audit_entry u u' a =
     \<lparr>ae_admin_user_id = ac_admin a, ae_admin_username = ac_name a, ae_action = ''user.'' @ ac_action a,
      ae_target_type = ''user'', ae_target_id = format_int (u_id u), ae_before = JsonData (user_audit_item u),
      ae_after = JsonData (user_audit_item u'), ae_request_id = ac_request_id a, ae_remote_ip = ac_remote_ip a,
      ae_user_agent = ac_user_agent a, ae_result = ''success'', ae_error = []\<rparr>"

text \<open>\<open>audited\<close> tells whether the service has an audit service.\<close>

definition write_user_audit :: "'s admin_store \<Rightarrow> bool \<Rightarrow> user \<Rightarrow> user \<Rightarrow> admin_actor \<Rightarrow> 's \<Rightarrow> 's \<times> admin_error option" where
  "write_user_audit d audited u u' a s =
     (if \<not> audited then (s, None)
      else (case audit_write d (user_audit_entry u u' a) s of
              (s', Inl e) \<Rightarrow> (s', Some (DbFailed e))
            | (s', Inr _) \<Rightarrow> (s', None)))"

definition user_apply_action ::
    "'s admin_store \<Rightarrow> bool \<Rightarrow> ('h, 'f) controller option \<Rightarrow> 'r redis \<Rightarrow> int \<Rightarrow> int \<Rightarrow> admin_actor \<Rightarrow>
     's \<times> 'h \<times> 'r \<Rightarrow> ('s \<times> 'h \<times> 'r) \<times> admin_error option" where
  "user_apply_action d audited rt rd now userID a st =
     (case st of (s, h, rs) \<Rightarrow>
        (case gorm_first (db_users (sto_db d)) u_id (\<lambda>u. u_id u = userID) s of
           Inl e \<Rightarrow> (st, Some (DbFailed e))
         | Inr u \<Rightarrow>
             (case changed_user (ac_action a) u of
                None \<Rightarrow> (st, Some UnsupportedAction)
              | Some u' \<Rightarrow>
                  (case gorm_save (db_users (sto_db d)) u_id u' s of
                     (s1, Inl e) \<Rightarrow> ((s1, h, rs), Some (DbFailed e))
                   | (s1, Inr _) \<Rightarrow>
                       (let finish = (\<lambda>h1 rs1. case write_user_audit d audited u u' a s1 of
                                                   (s2, r) \<Rightarrow> ((s2, h1, rs1), r))
                        in case (ac_action a = ''ban'', rt) of
                             (True, Some ct) \<Rightarrow>
                               (case ct_kick ct userID h of
                                  (h1, Some e) \<Rightarrow> ((s1, h1, rs), Some (RuntimeFailed e))
                                | (h1, None) \<Rightarrow> finish h1 (fst (set_user_offline rd now userID rs)))
                           | _ \<Rightarrow> finish h rs)))))"

subsection \<open>Handlers\<close>

text \<open>
  A request of the admin API: the query parameters that are present, the identity and the audit data.
  \<open>rfc3339\<close> is \<open>time.Parse\<close> with that layout, \<open>None\<close> on an error or the zero time.
\<close>

record admin_request =
  rq_query :: "string \<Rightarrow> string option"
  rq_identity :: identity
  rq_admin_name :: string
  rq_request_id :: string
  rq_ip :: string
  rq_agent :: string

definition get_query :: "admin_request \<Rightarrow> string \<Rightarrow> string" where
  "get_query q k = (case rq_query q k of None \<Rightarrow> [] | Some x \<Rightarrow> x)"

definition default_query :: "admin_request \<Rightarrow> string \<Rightarrow> string \<Rightarrow> string" where
  "default_query q k x0 = (case rq_query q k of None \<Rightarrow> x0 | Some x \<Rightarrow> x)"

definition list_page_number :: "admin_request \<Rightarrow> int" where
  "list_page_number q = max 1 (fst (parse_int (default_query q ''page'' ''1'')))"

definition list_page_size :: "admin_request \<Rightarrow> int" where
  "list_page_size q =
     (let n = fst (parse_int (default_query q ''page_size'' ''20'')) in if n < 1 \<or> 100 < n then 20 else n)"

definition int8_filter :: "admin_request \<Rightarrow> string \<Rightarrow> int \<Rightarrow> int" where
  "int8_filter q k fallback = (case parse_ok (get_query q k) of None \<Rightarrow> fallback | Some x \<Rightarrow> int8_of x)"

datatype 'a admin_body =
    ServiceMissing | BadId | BadAction | OwnAccount | Refused refusal | Failed | NotFound | Unsupported | Done
  | Listing "'a list" int int int | Detail 'a

definition admin_user_list ::
    "(string \<Rightarrow> int option) \<Rightarrow> 's admin_store option \<Rightarrow> message_counts \<Rightarrow> 'r redis \<Rightarrow> int \<Rightarrow> admin_request \<Rightarrow>
     's \<times> 'r \<Rightarrow> user_list_item admin_body reply" where
  "admin_user_list rfc3339 svc mc rd now q st =
     (case svc of
        None \<Rightarrow> (503, ServiceMissing)
      | Some d \<Rightarrow>
          (let pg = list_page_number q; n = list_page_size q
           in case list_users d mc rd now
                    \<lparr>ul_page = pg, ul_page_size = n, ul_keyword = get_query q ''keyword'',
                     ul_role = int8_filter q ''role'' (- 1), ul_status = int8_filter q ''status'' (- 1),
                     ul_start = rfc3339 (get_query q ''start''), ul_end = rfc3339 (get_query q ''end'')\<rparr> st of
                Inl _ \<Rightarrow> (500, Failed)
              | Inr (items, k) \<Rightarrow> (200, Listing items k pg n)))"

definition admin_user_detail ::
    "'s admin_store option \<Rightarrow> message_counts \<Rightarrow> 'r redis \<Rightarrow> int \<Rightarrow> string \<Rightarrow> 's \<times> 'r \<Rightarrow> user_detail admin_body reply" where
  "admin_user_detail svc mc rd now param st =
     (case parse_ok param of
        None \<Rightarrow> (400, BadId)
      | Some userID \<Rightarrow>
          (case svc of
             None \<Rightarrow> (503, ServiceMissing)
           | Some d \<Rightarrow> (case get_user_detail d mc rd now userID st of
                          Inl _ \<Rightarrow> (404, NotFound) | Inr x \<Rightarrow> (200, Detail x))))"

definition bind_action :: "string \<Rightarrow> string option" where
  "bind_action body =
     (case bind_json [''action''] (\<lambda>_ v _. json_str v) [] body of
        None \<Rightarrow> None
      | Some a \<Rightarrow> if a = [] then None else Some a)"

definition actor_of :: "admin_request \<Rightarrow> string \<Rightarrow> admin_actor" where
  "actor_of q a =
     \<lparr>ac_action = a, ac_admin = ctx_user (rq_identity q),
      ac_name = (if rq_admin_name q = [] then format_int (ctx_user (rq_identity q)) else rq_admin_name q),
      ac_request_id = rq_request_id q, ac_remote_ip = rq_ip q, ac_user_agent = rq_agent q\<rparr>"

definition admin_user_action ::
    "'s admin_store option \<Rightarrow> bool \<Rightarrow> ('h, 'f) controller option \<Rightarrow> 'r redis \<Rightarrow> int \<Rightarrow> string \<Rightarrow> string \<Rightarrow> admin_request \<Rightarrow>
     's \<times> 'h \<times> 'r \<Rightarrow> ('s \<times> 'h \<times> 'r) \<times> unit admin_body reply" where
  "admin_user_action svc audited rt rd now param body q st =
     (case parse_ok param of
        None \<Rightarrow> (st, (400, BadId))
      | Some userID \<Rightarrow>
          (case bind_action body of
             None \<Rightarrow> (st, (400, BadAction))
           | Some a \<Rightarrow>
               (case svc of
                  None \<Rightarrow> (st, (503, ServiceMissing))
                | Some d \<Rightarrow>
                    (case user_action_permission a of
                       None \<Rightarrow> (st, (400, Unsupported))
                     | Some p \<Rightarrow>
                         (case require_action_permission (rq_identity q) p of
                            Some (status, e) \<Rightarrow> (st, (status, Refused e))
                          | None \<Rightarrow>
                              (case user_apply_action d audited rt rd now userID (actor_of q a) st of
                                 (st', Some _) \<Rightarrow> (st', (500, Failed))
                               | (st', None) \<Rightarrow> (st', (200, Done))))))))"

subsection \<open>What an action does\<close>

text \<open>The audit record of a change of a user.\<close>

definition user_audited :: "admin_actor \<Rightarrow> user \<Rightarrow> user \<Rightarrow> audit_log \<Rightarrow> bool" where
  "user_audited a u u' r \<longleftrightarrow>
     al_admin_user_id r = ac_admin a \<and> al_admin_username r = ac_name a \<and> al_action r = ''user.'' @ ac_action a \<and>
     al_target_type r = ''user'' \<and> al_target_id r = format_int (u_id u) \<and>
     al_before r = enc_json (user_audit_item u) \<and> al_after r = enc_json (user_audit_item u') \<and>
     al_request_id r = ac_request_id a \<and> al_remote_ip r = ac_remote_ip a \<and> al_user_agent r = ac_user_agent a \<and>
     al_result r = ''success''"

lemma user_audited_row:
  "audit_assigned (audit_record (user_audit_entry u u' a)) r \<Longrightarrow> user_audited a u u' r"
  by (cases r) (simp add: audit_assigned_def audit_record_def user_audit_entry_def user_audited_def)

lemma changed_user_keeps: "changed_user a u = Some u' \<Longrightarrow> u_id u' = u_id u \<and> u_username u' = u_username u \<and> u_password u' = u_password u"
  by (auto simp: changed_user_def split: if_splits)

lemma write_user_audit_cases:
  assumes laws: "store_laws d v audits" and w: "write_user_audit d True u u' a s = (s', r)"
  shows "r = None \<Longrightarrow> \<exists>x. user_audited a u u' x \<and> audits s' = audits s @ [x]"
    and "r = Some e \<Longrightarrow> s' = s"
    and "v_users v s' = v_users v s" and "v_rooms v s' = v_rooms v s" and "v_members v s' = v_members v s"
proof -
  obtain s1 o1 where o1: "audit_write d (user_audit_entry u u' a) s = (s1, o1)" by fastforce
  have s1: "s' = s1" using w o1 by (cases o1) (auto simp: write_user_audit_def)
  show "r = None \<Longrightarrow> \<exists>x. user_audited a u u' x \<and> audits s' = audits s @ [x]"
    using w o1 audit_write_Inr(1) [OF laws, of "user_audit_entry u u' a" s s1] user_audited_row
    by (cases o1) (auto simp: write_user_audit_def)
  show "r = Some e \<Longrightarrow> s' = s"
    using w o1 audit_write_Inl [OF laws, of "user_audit_entry u u' a" s s1] by (cases o1) (auto simp: write_user_audit_def)
  show "v_users v s' = v_users v s" "v_rooms v s' = v_rooms v s" "v_members v s' = v_members v s"
    using o1 audit_write_Inr(2-4) [OF laws, of "user_audit_entry u u' a" s s1]
      audit_write_Inl [OF laws, of "user_audit_entry u u' a" s s1] by (cases o1; simp add: s1)+
qed

lemma save_user:
  assumes laws: "store_laws d v audits" and u: "u \<in> set (v_users v s)" "u_id u' = u_id u"
    and save: "gorm_save (db_users (sto_db d)) u_id u' s = (s1, Inr ())"
  shows "v_users v s1 = map (\<lambda>x. if u_id x = u_id u then u' else x) (v_users v s)"
    and "v_rooms v s1 = v_rooms v s" and "v_members v s1 = v_members v s" and "audits s1 = audits s"
proof -
  note db = store_lawsD(1) [OF laws]
  note sv = gorm_save_update [OF db_lawsD(1) [OF db] save]
  have there: "\<exists>x \<in> set (v_users v s). u_id x = u_id u'" using u by auto
  show "v_users v s1 = map (\<lambda>x. if u_id x = u_id u then u' else x) (v_users v s)" using sv(2) [OF there] u(2) by simp
  show "v_rooms v s1 = v_rooms v s" by (rule table_frameD(3) [OF db_lawsD(8) [OF db] sv(1) [OF there]])
  show "v_members v s1 = v_members v s" by (rule table_frameD(3) [OF db_lawsD(9) [OF db] sv(1) [OF there]])
  show "audits s1 = audits s" by (rule table_frameD(3) [OF store_lawsD(3) [OF laws] sv(1) [OF there]])
qed

text \<open>The runs of an action after the user was found and saved.\<close>

lemma user_action_cases:
  assumes run: "user_apply_action d True (Some ct) rd now i a (s, h, rs) = ((s', h', rs'), res)"
  obtains (refused) "s' = s" "h' = h" "rs' = rs" "res \<noteq> None" "\<forall>e. res \<noteq> Some (RuntimeFailed e)"
  | (unsaved) u u' e where "gorm_save (db_users (sto_db d)) u_id u' s = (s', Inl e)" "res = Some (DbFailed e)"
  | (unkicked) u u' e where "gorm_first (db_users (sto_db d)) u_id (\<lambda>u. u_id u = i) s = Inr u"
      "changed_user (ac_action a) u = Some u'" "gorm_save (db_users (sto_db d)) u_id u' s = (s', Inr ())"
      "ac_action a = ''ban''" "res = Some (RuntimeFailed e)"
  | (logged) u u' s1 where "gorm_first (db_users (sto_db d)) u_id (\<lambda>u. u_id u = i) s = Inr u"
      "changed_user (ac_action a) u = Some u'" "gorm_save (db_users (sto_db d)) u_id u' s = (s1, Inr ())"
      "write_user_audit d True u u' a s1 = (s', res)"
      "if ac_action a = ''ban'' then ct_kick ct i h = (h', None) else h' = h \<and> rs' = rs"
proof (cases "gorm_first (db_users (sto_db d)) u_id (\<lambda>u. u_id u = i) s")
  case (Inl e)
  then show ?thesis using run refused by (auto simp: user_apply_action_def)
next
  case first: (Inr u)
  show ?thesis
  proof (cases "changed_user (ac_action a) u")
    case None
    then show ?thesis using run first refused by (auto simp: user_apply_action_def)
  next
    case change: (Some u')
    obtain s1 o1 where save: "gorm_save (db_users (sto_db d)) u_id u' s = (s1, o1)" by fastforce
    show ?thesis
    proof (cases o1)
      case (Inl e)
      then show ?thesis using run first change save unsaved by (simp add: user_apply_action_def)
    next
      case (Inr x)
      then have save: "gorm_save (db_users (sto_db d)) u_id u' s = (s1, Inr ())" using save by simp
      obtain h1 e1 where k: "ct_kick ct i h = (h1, e1)" by fastforce
      show ?thesis
        using run first change save k unkicked [OF first change] logged [OF first change save]
        by (cases "ac_action a = ''ban''"; cases e1) (auto simp: user_apply_action_def Let_def split: prod.splits)
    qed
  qed
qed

subsection \<open>Property\<close>

text \<open>C31: An administrator's action on a user: when it reports success, the row of that user, and no
  other row, has exactly the change the action names, the audit log has exactly one new record, with the
  administrator and the user before and after, and a ban has closed the connection the user talks
  through, while any other action touches neither the hub nor Redis. An unknown action changes nothing.
  When the kick of a ban fails the user is banned all the same and no audit record says so.\<close>

theorem user_action_audited:
  assumes laws: "store_laws d v audits" and ct: "admin_runtime (ct_kick ct) (ct_disband ct) (ct_remove ct)"
    and run: "user_apply_action d True (Some ct) rd now i a (s, h, rs) = ((s', h', rs'), res)"
  shows "(res = None \<longrightarrow> (\<exists>u u' r. u \<in> set (v_users v s) \<and> u_id u = i \<and> changed_user (ac_action a) u = Some u' \<and>
      v_users v s' = map (\<lambda>x. if u_id x = i then u' else x) (v_users v s) \<and> v_rooms v s' = v_rooms v s \<and>
      v_members v s' = v_members v s \<and> user_audited a u u' r \<and> audits s' = audits s @ [r] \<and>
      (if ac_action a = ''ban''
       then \<exists>g g'. h = Some g \<and> h' = Some g' \<and> (\<forall>c. client_by_user g i = Some c \<longrightarrow>
         c_conn (h_clients g c) \<noteq> None \<longrightarrow> c_conn (h_clients g' c) = Some False)
       else h' = h \<and> rs' = rs))) \<and>
    (res = Some UnsupportedAction \<longrightarrow> s' = s \<and> h' = h \<and> rs' = rs) \<and>
    (\<forall>e. res = Some (RuntimeFailed e) \<longrightarrow> audits s' = audits s \<and>
      (\<exists>u. v_users v s' = map (\<lambda>x. if u_id x = i then u\<lparr>u_status := 1\<rparr> else x) (v_users v s)))"
  using run
proof (cases rule: user_action_cases)
  case (unkicked u u' e)
  have u: "u \<in> set (v_users v s)" "u_id u = i"
    using gorm_first_Inr [OF db_lawsD(1) [OF store_lawsD(1) [OF laws]] unkicked(1)] by auto
  note sv = save_user [OF laws u(1) _ unkicked(3)]
  have "u' = u\<lparr>u_status := 1\<rparr>" using unkicked(2,4) by (simp add: changed_user_def)
  then show ?thesis using sv u unkicked by auto
next
  case (logged u u' s1)
  have u: "u \<in> set (v_users v s)" "u_id u = i"
    using gorm_first_Inr [OF db_lawsD(1) [OF store_lawsD(1) [OF laws]] logged(1)] by auto
  note sv = save_user [OF laws u(1) conjunct1 [OF changed_user_keeps [OF logged(2)]] logged(3)]
  note au = write_user_audit_cases [OF laws logged(4)]
  have runtime: "if ac_action a = ''ban''
       then \<exists>g g'. h = Some g \<and> h' = Some g' \<and> (\<forall>c. client_by_user g i = Some c \<longrightarrow>
         c_conn (h_clients g c) \<noteq> None \<longrightarrow> c_conn (h_clients g' c) = Some False)
       else h' = h \<and> rs' = rs"
    using logged(5) admin_runtime.kicked_closed [OF ct, of i h h'] by (simp split: if_splits)
  have other: "res \<noteq> Some UnsupportedAction" "res \<noteq> Some (RuntimeFailed e)" for e
    using logged(4) by (auto simp: write_user_audit_def split: prod.splits sum.splits)
  show ?thesis using sv au u logged(2) runtime other by (cases res) auto
qed auto

definition demo_actor :: "string \<Rightarrow> admin_actor" where
  "demo_actor a = \<lparr>ac_action = a, ac_admin = 9, ac_name = ''root'', ac_request_id = [], ac_remote_ip = [], ac_user_agent = []\<rparr>"

lemma demo_store_tables:
  "t_find (db_users (sto_db sample_store)) q demo_admin = t_find sample_users q demo_db"
  "t_find (db_rooms (sto_db sample_store)) q' demo_admin = t_find sample_rooms q' demo_db"
  by (simp_all add: sample_store_def on_first_db_def on_first_def sample_db_def demo_admin_def)

lemma demo_ban_saved:
  "gorm_first (db_users (sto_db sample_store)) u_id (\<lambda>u. u_id u = 1) demo_admin = Inr (demo_user 1 ''ann'')"
  "gorm_save (db_users (sto_db sample_store)) u_id ((demo_user 1 ''ann'')\<lparr>u_status := 1\<rparr>) demo_admin =
     ((demo_db\<lparr>sd_users := [(demo_user 1 ''ann'')\<lparr>u_status := 1\<rparr>, demo_user 2 ''bob'']\<rparr>, [], []), Inr ())"
  by (simp_all add: gorm_first_def gorm_save_def demo_store_tables sample_users_def list_table_def query_all_def sort_by_def
      page_def demo_db_def demo_user_def)
    (simp add: sample_store_def on_first_db_def on_first_def sample_db_def sample_users_def list_table_def demo_admin_def
      demo_db_def demo_user_def)

lemma user_action_audited_witness:
  "\<forall>snaps :: int runtime_snapshot \<times> int agent_snapshot. \<exists>s' h' rs' r.
     user_apply_action sample_store True (Some (local_controller snaps)) sample_redis 0 1 (demo_actor ''ban'')
       (demo_admin, Some demo_two, \<lambda>_. None) = ((s', h', rs'), None) \<and>
     map u_status (v_users sample_admin_views s') = [1, 0] \<and> sample_audits s' = [r] \<and> al_action r = ''user.ban''"
proof
  fix snaps :: "int runtime_snapshot \<times> int agent_snapshot"
  let ?run = "user_apply_action sample_store True (Some (local_controller snaps)) sample_redis 0 1 (demo_actor ''ban'')
       (demo_admin, Some demo_two, \<lambda>_. None)"
  have "snd ?run = None"
    using demo_ban_saved
    by (simp add: user_apply_action_def changed_user_def demo_actor_def local_controller_def on_hub_def Let_def
        write_user_audit_def audit_write_def) (simp add: sample_store_def list_table_def Let_def)
  then obtain s' h' rs' where run: "?run = ((s', h', rs'), None)" by (cases ?run) auto
  have "v_users sample_admin_views demo_admin = [demo_user 1 ''ann'', demo_user 2 ''bob'']" "sample_audits demo_admin = []"
    by (simp_all add: sample_admin_views_def first_views_def sample_views_def demo_admin_def demo_db_def sample_audits_def)
  moreover note user_action_audited [OF sample_store_laws local_runtime.admin_runtime_axioms run]
  ultimately obtain u u' r where "u_id u = 1" "u \<in> {demo_user 1 ''ann'', demo_user 2 ''bob''}"
    "changed_user (ac_action (demo_actor ''ban'')) u = Some u'"
    "v_users sample_admin_views s' = map (\<lambda>x. if u_id x = 1 then u' else x) [demo_user 1 ''ann'', demo_user 2 ''bob'']"
    "user_audited (demo_actor ''ban'') u u' r" "sample_audits s' = [r]" by fastforce
  then show "\<exists>s' h' rs' r. ?run = ((s', h', rs'), None) \<and>
     map u_status (v_users sample_admin_views s') = [1, 0] \<and> sample_audits s' = [r] \<and> al_action r = ''user.ban''"
    using run by (auto simp: demo_actor_def changed_user_def demo_user_def user_audited_def)
qed

end
