(* ===== verification/AdminRooms.thy ===== *)
theory AdminRooms
  imports AdminUsers RoomService
begin

section \<open>Room administration (services/admin/application/room_service.go, services/admin/api/admin_room.go, admin_handler.go)\<close>

text \<open>
  Listing, details and actions on rooms, with the dashboard counts of the handler. As for users, the
  message counts are an argument and the state of an action is the database and the runtime behind the
  controller. A room action changes memberships or the room row, tells the hub, and writes an audit row.
\<close>

subsection \<open>Lists and details\<close>

record room_list_query =
  rl_page :: int
  rl_page_size :: int
  rl_keyword :: string
  rl_type :: int
  rl_agent :: "bool option"
  rl_status :: int
  rl_start :: "int option"
  rl_end :: "int option"

record room_list_item =
  ri_id :: int
  ri_name :: string
  ri_type :: int
  ri_owner :: int
  ri_members :: int
  ri_online :: int
  ri_today :: int
  ri_messages :: int
  ri_created :: int
  ri_last_active :: int
  ri_agent :: bool
  ri_moderation :: bool
  ri_status :: int
  ri_violations :: int

definition room_matches :: "(string \<Rightarrow> string \<Rightarrow> bool) \<Rightarrow> room_list_query \<Rightarrow> room \<Rightarrow> bool" where
  "room_matches like q r \<longleftrightarrow>
     (rl_keyword q \<noteq> [] \<longrightarrow>
        (case parse_ok (rl_keyword q) of
           Some i \<Rightarrow> r_id r = i
         | None \<Rightarrow> like (r_name r) (rl_keyword q @ ''%''))) \<and>
     (0 < rl_type q \<longrightarrow> r_type r = rl_type q) \<and>
     (case rl_agent q of None \<Rightarrow> True | Some b \<Rightarrow> r_agent_enabled r = b) \<and>
     (0 \<le> rl_status q \<longrightarrow> r_status r = rl_status q) \<and>
     since (rl_start q) (r_created r) \<and> before (rl_end q) (r_created r)"

definition count_members_by_ids :: "'s admin_store \<Rightarrow> int list \<Rightarrow> 's \<Rightarrow> db_error + (int, int) gomap" where
  "count_members_by_ids d ids s = group_counts (db_members (sto_db d)) rm_room (\<lambda>_. True) ids s"

definition count_room_violations_by_ids :: "'s admin_store \<Rightarrow> int list \<Rightarrow> int \<Rightarrow> 's \<Rightarrow> db_error + (int, int) gomap" where
  "count_room_violations_by_ids d ids start s =
     group_counts (sto_events d) me_room (\<lambda>e. start \<le> me_created e) ids s"

text \<open>The users of the memberships, each once; then one count per membership whose user is online.\<close>

definition online_member_counts ::
    "'s admin_store \<Rightarrow> 'r redis \<Rightarrow> int \<Rightarrow> int list \<Rightarrow> 's \<times> 'r \<Rightarrow> db_error + (int, int) gomap" where
  "online_member_counts d rd now ids st =
     (if ids = [] then Inr []
      else (case t_find (db_members (sto_db d)) (query_all (\<lambda>m. rm_room m \<in> set ids)) (fst st) of
              Inl e \<Rightarrow> Inl e
            | Inr ms \<Rightarrow>
                (let users = rev (fold List.insert (map rm_user ms) []);
                     online = online_map rd now users (snd st)
                 in Inr (count_by rm_room (filter (\<lambda>m. at_key False online (rm_user m)) ms)))))"

text \<open>\<open>start\<close> is the beginning of the day, \<open>now\<close> the time; Redis is asked at \<open>ms\<close>.\<close>

definition list_rooms ::
    "'s admin_store \<Rightarrow> message_counts \<Rightarrow> 'r redis \<Rightarrow> int \<Rightarrow> int \<Rightarrow> int \<Rightarrow> room_list_query \<Rightarrow> 's \<times> 'r \<Rightarrow>
     db_error + room_list_item list \<times> int" where
  "list_rooms d mc rd zone now ms q st =
     (case list_page (db_rooms (sto_db d)) r_id (rl_page q) (rl_page_size q) (room_matches (db_like (sto_db d)) q) (fst st) of
        Inl e \<Rightarrow> Inl e
      | Inr (rooms, n) \<Rightarrow>
          (let ids = map r_id rooms;
               start = start_of_day zone now;
               membership = or_zero [] (count_members_by_ids d ids (fst st));
               online = or_zero [] (online_member_counts d rd ms ids st);
               today = mc_by_rooms mc ids start now;
               msgs = mc_by_rooms_total mc ids;
               viol = or_zero [] (count_room_violations_by_ids d ids start (fst st))
           in Inr (map (\<lambda>r.
                \<lparr>ri_id = r_id r, ri_name = r_name r, ri_type = r_type r, ri_owner = r_creator r,
                 ri_members = at_key 0 membership (r_id r), ri_online = at_key 0 online (r_id r),
                 ri_today = at_key 0 today (r_id r), ri_messages = at_key 0 msgs (r_id r),
                 ri_created = r_created r, ri_last_active = r_last_active r, ri_agent = r_agent_enabled r,
                 ri_moderation = r_moderation_enabled r, ri_status = r_status r,
                 ri_violations = at_key 0 viol (r_id r)\<rparr>) rooms, n)))"

record room_member_item =
  rmi_user :: int
  rmi_username :: string
  rmi_role :: int
  rmi_online :: bool

definition room_members ::
    "'s admin_store \<Rightarrow> 'r redis \<Rightarrow> int \<Rightarrow> int \<Rightarrow> 's \<times> 'r \<Rightarrow> db_error + room_member_item list" where
  "room_members d rd now r st =
     (case t_find (db_members (sto_db d)) (query_all (\<lambda>m. rm_room m = r)) (fst st) of
        Inl e \<Rightarrow> Inl e
      | Inr ms \<Rightarrow>
          (let ids = rev (fold List.insert (map rm_user ms) [])
           in case t_find (db_users (sto_db d)) (query_all (\<lambda>u. u_id u \<in> set ids)) (fst st) of
                Inl e \<Rightarrow> Inl e
              | Inr users \<Rightarrow>
                  (let names = fold (\<lambda>u m. gm_put (u_id u) (u_username u) m) users [];
                       online = online_map rd now ids (snd st)
                   in Inr (map (\<lambda>m. \<lparr>rmi_user = rm_user m, rmi_username = at_key [] names (rm_user m),
                                    rmi_role = rm_role m, rmi_online = at_key False online (rm_user m)\<rparr>) ms))))"

definition count_room_members :: "'s admin_store \<Rightarrow> int \<Rightarrow> 's \<Rightarrow> db_error + int" where
  "count_room_members d r s = map_sum id int (t_count (db_members (sto_db d)) (\<lambda>m. rm_room m = r) s)"

definition count_online_members :: "'s admin_store \<Rightarrow> 'r redis \<Rightarrow> int \<Rightarrow> int \<Rightarrow> 's \<times> 'r \<Rightarrow> db_error + int" where
  "count_online_members d rd now r st = map_sum id (\<lambda>ms. int (length (filter rmi_online ms))) (room_members d rd now r st)"

definition count_room_violations :: "'s admin_store \<Rightarrow> int \<Rightarrow> int \<Rightarrow> 's \<Rightarrow> db_error + int" where
  "count_room_violations d r start s =
     map_sum id int (t_count (sto_events d) (\<lambda>e. me_room e = r \<and> start \<le> me_created e) s)"

record room_detail =
  rd_item :: room_list_item
  rd_members :: "room_member_item list"
  rd_agent_config :: agent_config
  rd_violations :: "moderation_item list"

definition get_room_detail ::
    "'s admin_store \<Rightarrow> message_counts \<Rightarrow> 'r redis \<Rightarrow> int \<Rightarrow> int \<Rightarrow> int \<Rightarrow> int \<Rightarrow> 's \<times> 'r \<Rightarrow> db_error + room_detail" where
  "get_room_detail d mc rd zone now ms roomID st =
     (case gorm_first (db_rooms (sto_db d)) r_id (\<lambda>r. r_id r = roomID) (fst st) of
        Inl e \<Rightarrow> Inl e
      | Inr r \<Rightarrow>
          (let start = start_of_day zone now in Inr
            \<lparr>rd_item =
               \<lparr>ri_id = r_id r, ri_name = r_name r, ri_type = r_type r, ri_owner = r_creator r,
                ri_members = or_zero 0 (count_room_members d (r_id r) (fst st)),
                ri_online = or_zero 0 (count_online_members d rd ms (r_id r) st),
                ri_today = mc_by_room mc (r_id r) start now, ri_messages = mc_by_room_total mc (r_id r),
                ri_created = r_created r, ri_last_active = r_last_active r, ri_agent = r_agent_enabled r,
                ri_moderation = r_moderation_enabled r, ri_status = r_status r,
                ri_violations = or_zero 0 (count_room_violations d (r_id r) start (fst st))\<rparr>,
             rd_members = or_zero [] (room_members d rd ms (r_id r) st),
             rd_agent_config =
               or_zero (default_agent_config (r_id r)) (gorm_first (sto_configs d) ag_id (\<lambda>c. ag_room c = r_id r) (fst st)),
             rd_violations = moderation_items (recent_events d (\<lambda>e. me_room e = r_id r) (fst st))\<rparr>))"

subsection \<open>Actions\<close>

definition room_audit_item :: "room \<Rightarrow> json" where
  "room_audit_item r =
     JObj [(''agent_enabled'', JBool (r_agent_enabled r)), (''id'', jint (r_id r)),
           (''moderation_enabled'', JBool (r_moderation_enabled r)), (''name'', JStr (r_name r)),
           (''status'', jint (r_status r))]"

definition room_audit_entry :: "room \<Rightarrow> room \<Rightarrow> admin_actor \<Rightarrow> audit_entry" where
  "room_audit_entry r r' a =
     \<lparr>ae_admin_user_id = ac_admin a, ae_admin_username = ac_name a, ae_action = ''room.'' @ ac_action a,
      ae_target_type = ''room'', ae_target_id = format_int (r_id r'), ae_before = JsonData (room_audit_item r),
      ae_after = JsonData (room_audit_item r'), ae_request_id = ac_request_id a, ae_remote_ip = ac_remote_ip a,
      ae_user_agent = ac_user_agent a, ae_result = ''success'', ae_error = []\<rparr>"

definition write_room_audit :: "'s admin_store \<Rightarrow> bool \<Rightarrow> room \<Rightarrow> room \<Rightarrow> admin_actor \<Rightarrow> 's \<Rightarrow> 's \<times> admin_error option" where
  "write_room_audit d audited r r' a s =
     (if \<not> audited then (s, None)
      else (case audit_write d (room_audit_entry r r' a) s of
              (s', Inl e) \<Rightarrow> (s', Some (DbFailed e))
            | (s', Inr _) \<Rightarrow> (s', None)))"

text \<open>A room of which only the key is known.\<close>

definition bare_room :: "int \<Rightarrow> room" where
  "bare_room i =
     \<lparr>r_id = i, r_type = 0, r_name = [], r_creator = 0, r_agent_enabled = False, r_moderation_enabled = False,
      r_status = 0, r_last_active = 0, r_bot_user = 0, r_created = 0\<rparr>"

definition update_member_role ::
    "'s admin_store \<Rightarrow> bool \<Rightarrow> int \<Rightarrow> int \<Rightarrow> int \<Rightarrow> admin_actor \<Rightarrow> 's \<Rightarrow> 's \<times> admin_error option" where
  "update_member_role d audited roomID userID role a s =
     (case t_update (db_members (sto_db d)) (\<lambda>m. rm_room m = roomID \<and> rm_user m = userID) (\<lambda>m. m\<lparr>rm_role := role\<rparr>) s of
        (s1, Inl e) \<Rightarrow> (s1, Some (DbFailed e))
      | (s1, Inr _) \<Rightarrow> write_room_audit d audited (bare_room roomID) (bare_room roomID) a s1)"

text \<open>The actions that are a change of the room's row.\<close>

definition changed_room :: "string \<Rightarrow> room \<Rightarrow> room" where
  "changed_room a r =
     (if a = ''freeze'' then r\<lparr>r_status := 1\<rparr>
      else if a = ''unfreeze'' then r\<lparr>r_status := 0\<rparr>
      else if a = ''moderation_enable'' then r\<lparr>r_moderation_enabled := True\<rparr>
      else if a = ''moderation_disable'' then r\<lparr>r_moderation_enabled := False\<rparr>
      else r)"

definition room_actions :: "string list" where
  "room_actions =
     [''freeze'', ''unfreeze'', ''disband'', ''agent_enable'', ''agent_disable'', ''moderation_enable'',
      ''moderation_disable'', ''remove_member'', ''set_admin'', ''transfer_owner'']"

text \<open>A call of the runtime, when there is one, after a statement that succeeded.\<close>

definition then_runtime ::
    "('h, 'f) controller option \<Rightarrow> (('h, 'f) controller \<Rightarrow> 'h \<Rightarrow> 'h \<times> control_error option) \<Rightarrow>
     ('s \<Rightarrow> 's \<times> admin_error option) \<Rightarrow> 's \<times> 'h \<Rightarrow> ('s \<times> 'h) \<times> admin_error option" where
  "then_runtime rt call finish st =
     (case rt of
        None \<Rightarrow> (case finish (fst st) of (s', r) \<Rightarrow> ((s', snd st), r))
      | Some ct \<Rightarrow>
          (case call ct (snd st) of
             (h', Some e) \<Rightarrow> ((fst st, h'), Some (RuntimeFailed e))
           | (h', None) \<Rightarrow> (case finish (fst st) of (s', r) \<Rightarrow> ((s', h'), r))))"

definition save_room ::
    "'s admin_store \<Rightarrow> bool \<Rightarrow> room \<Rightarrow> room \<Rightarrow> admin_actor \<Rightarrow> ('s \<Rightarrow> 's) \<Rightarrow> 's \<Rightarrow> 's \<times> admin_error option" where
  "save_room d audited r r' a between s =
     (case gorm_save (db_rooms (sto_db d)) r_id r' s of
        (s1, Inl e) \<Rightarrow> (s1, Some (DbFailed e))
      | (s1, Inr _) \<Rightarrow> write_room_audit d audited r r' a (between s1))"

definition room_apply_action ::
    "'s admin_store \<Rightarrow> bool \<Rightarrow> ('h, 'f) controller option \<Rightarrow> int \<Rightarrow> int \<Rightarrow> admin_actor \<Rightarrow>
     's \<times> 'h \<Rightarrow> ('s \<times> 'h) \<times> admin_error option" where
  "room_apply_action d audited rt roomID target a st =
     (case st of (s, h) \<Rightarrow>
        (case gorm_first (db_rooms (sto_db d)) r_id (\<lambda>r. r_id r = roomID) s of
           Inl e \<Rightarrow> (st, Some (DbFailed e))
         | Inr r \<Rightarrow>
             if ac_action a = ''disband'' then
               (case t_delete (db_rooms (sto_db d)) (\<lambda>x. r_id x = roomID) s of
                  (s1, Inl e) \<Rightarrow> ((s1, h), Some (DbFailed e))
                | (s1, Inr _) \<Rightarrow>
                    then_runtime rt (\<lambda>ct. ct_disband ct roomID) (write_room_audit d audited r r a) (s1, h))
             else if ac_action a \<in> {''agent_enable'', ''agent_disable''} then (st, Some MovedToAgentService)
             else if ac_action a = ''remove_member'' \<and> 0 < target then
               (case t_delete (db_members (sto_db d)) (\<lambda>m. rm_room m = roomID \<and> rm_user m = target) s of
                  (s1, Inl e) \<Rightarrow> ((s1, h), Some (DbFailed e))
                | (s1, Inr _) \<Rightarrow>
                    then_runtime rt (\<lambda>ct. ct_remove ct roomID target) (write_room_audit d audited r r a) (s1, h))
             else if ac_action a = ''set_admin'' \<and> 0 < target then
               (case update_member_role d audited roomID target 2 a s of (s1, e) \<Rightarrow> ((s1, h), e))
             else if ac_action a = ''transfer_owner'' \<and> 0 < target then
               (case save_room d audited r (r\<lparr>r_creator := target\<rparr>) a
                       (\<lambda>s1. fst (update_member_role d audited roomID target 3 a s1)) s of
                  (s1, e) \<Rightarrow> ((s1, h), e))
             else if ac_action a \<in> set room_actions then
               (case save_room d audited r (changed_room (ac_action a) r) a (\<lambda>s1. s1) s of (s1, e) \<Rightarrow> ((s1, h), e))
             else (st, Some UnsupportedAction)))"

subsection \<open>Handlers\<close>

definition admin_room_list ::
    "(string \<Rightarrow> int option) \<Rightarrow> 's admin_store option \<Rightarrow> message_counts \<Rightarrow> 'r redis \<Rightarrow> int \<Rightarrow> int \<Rightarrow> int \<Rightarrow> admin_request \<Rightarrow>
     's \<times> 'r \<Rightarrow> room_list_item admin_body reply" where
  "admin_room_list rfc3339 svc mc rd zone now ms q st =
     (case svc of
        None \<Rightarrow> (503, ServiceMissing)
      | Some d \<Rightarrow>
          (let pg = list_page_number q; n = list_page_size q; agent = get_query q ''agent_enabled''
           in case list_rooms d mc rd zone now ms
                    \<lparr>rl_page = pg, rl_page_size = n, rl_keyword = get_query q ''keyword'',
                     rl_type = int8_filter q ''type'' 0,
                     rl_agent = (if agent = [] then None else Some (agent = ''true'' \<or> agent = ''1'')),
                     rl_status = int8_filter q ''status'' (- 1),
                     rl_start = rfc3339 (get_query q ''start''), rl_end = rfc3339 (get_query q ''end'')\<rparr> st of
                Inl _ \<Rightarrow> (500, Failed)
              | Inr (items, k) \<Rightarrow> (200, Listing items k pg n)))"

definition admin_room_detail ::
    "'s admin_store option \<Rightarrow> message_counts \<Rightarrow> 'r redis \<Rightarrow> int \<Rightarrow> int \<Rightarrow> int \<Rightarrow> string \<Rightarrow> 's \<times> 'r \<Rightarrow> room_detail admin_body reply" where
  "admin_room_detail svc mc rd zone now ms param st =
     (case parse_ok param of
        None \<Rightarrow> (400, BadId)
      | Some roomID \<Rightarrow>
          (case svc of
             None \<Rightarrow> (503, ServiceMissing)
           | Some d \<Rightarrow> (case get_room_detail d mc rd zone now ms roomID st of
                          Inl _ \<Rightarrow> (404, NotFound) | Inr x \<Rightarrow> (200, Detail x))))"

record room_action_body =
  rb_action :: string
  rb_target :: int

definition bind_room_action :: "string \<Rightarrow> room_action_body option" where
  "bind_room_action body =
     (case bind_json [''action'', ''target_user_id'']
             (\<lambda>n v r. if n = ''action'' then map_option (\<lambda>x. r\<lparr>rb_action := x\<rparr>) (json_str v)
                      else map_option (\<lambda>x. r\<lparr>rb_target := x\<rparr>) (json_int 64 v))
             \<lparr>rb_action = [], rb_target = 0\<rparr> body of
        None \<Rightarrow> None
      | Some r \<Rightarrow> if rb_action r = [] then None else Some r)"

definition admin_room_action ::
    "'s admin_store option \<Rightarrow> bool \<Rightarrow> ('h, 'f) controller option \<Rightarrow> string \<Rightarrow> string \<Rightarrow> admin_request \<Rightarrow>
     's \<times> 'h \<Rightarrow> ('s \<times> 'h) \<times> unit admin_body reply" where
  "admin_room_action svc audited rt param body q st =
     (case parse_ok param of
        None \<Rightarrow> (st, (400, BadId))
      | Some roomID \<Rightarrow>
          (case bind_room_action body of
             None \<Rightarrow> (st, (400, BadAction))
           | Some b \<Rightarrow>
               (case svc of
                  None \<Rightarrow> (st, (503, ServiceMissing))
                | Some d \<Rightarrow>
                    (case room_action_permission (rb_action b) of
                       None \<Rightarrow> (st, (400, Unsupported))
                     | Some p \<Rightarrow>
                         (case require_action_permission (rq_identity q) p of
                            Some (status, e) \<Rightarrow> (st, (status, Refused e))
                          | None \<Rightarrow>
                              (case room_apply_action d audited rt roomID (rb_target b) (actor_of q (rb_action b)) st of
                                 (st', Some _) \<Rightarrow> (st', (500, Failed))
                               | (st', None) \<Rightarrow> (st', (200, Done))))))))"

text \<open>\<open>AdminDeleteRoom\<close> (admin_handler.go).\<close>

definition admin_delete_room ::
    "'s admin_store option \<Rightarrow> bool \<Rightarrow> ('h, 'f) controller option \<Rightarrow> string \<Rightarrow> admin_request \<Rightarrow>
     's \<times> 'h \<Rightarrow> ('s \<times> 'h) \<times> unit admin_body reply" where
  "admin_delete_room svc audited rt param q st =
     (case parse_ok param of
        None \<Rightarrow> (st, (400, BadId))
      | Some roomID \<Rightarrow>
          (case svc of
             None \<Rightarrow> (st, (503, ServiceMissing))
           | Some d \<Rightarrow>
               (case room_apply_action d audited rt roomID 0 (actor_of q ''disband'') st of
                  (st', Some _) \<Rightarrow> (st', (500, Failed))
                | (st', None) \<Rightarrow> (st', (200, Done)))))"

text \<open>\<open>AdminDeleteUser\<close> (admin_handler.go) has no route; the errors of what follows the deletion are ignored.\<close>

definition admin_delete_user ::
    "'s admin_store \<Rightarrow> bool \<Rightarrow> ('h, 'f) controller option \<Rightarrow> 'r redis \<Rightarrow> int \<Rightarrow> string \<Rightarrow> admin_request \<Rightarrow>
     's \<times> 'h \<times> 'r \<Rightarrow> ('s \<times> 'h \<times> 'r) \<times> unit admin_body reply" where
  "admin_delete_user d audited rt rd now param q st =
     (case st of (s, h, rs) \<Rightarrow>
        (case parse_ok param of
           None \<Rightarrow> (st, (400, BadId))
         | Some userID \<Rightarrow>
             if userID = ctx_user (rq_identity q) then (st, (400, OwnAccount))
             else (case soft_delete_user (sto_db d) userID s of
                     (s1, Inl _) \<Rightarrow> ((s1, h, rs), (500, Failed))
                   | (s1, Inr _) \<Rightarrow>
                       (let h1 = (case rt of None \<Rightarrow> h | Some ct \<Rightarrow> fst (ct_kick ct userID h));
                            rs1 = fst (set_user_offline rd now userID rs);
                            s2 = (if audited
                                  then fst (audit_write d
                                    \<lparr>ae_admin_user_id = ctx_user (rq_identity q), ae_admin_username = rq_admin_name q,
                                     ae_action = ''user.delete'', ae_target_type = ''user'', ae_target_id = format_int userID,
                                     ae_before = NoData, ae_after = NoData, ae_request_id = rq_request_id q,
                                     ae_remote_ip = rq_ip q, ae_user_agent = rq_agent q, ae_result = ''success'',
                                     ae_error = []\<rparr> s1)
                                  else s1)
                        in ((s2, h1, rs1), (200, Done))))))"

subsection \<open>What an action does\<close>

definition room_audited :: "admin_actor \<Rightarrow> room \<Rightarrow> room \<Rightarrow> audit_log \<Rightarrow> bool" where
  "room_audited a r r' x \<longleftrightarrow>
     al_admin_user_id x = ac_admin a \<and> al_admin_username x = ac_name a \<and> al_action x = ''room.'' @ ac_action a \<and>
     al_target_type x = ''room'' \<and> al_target_id x = format_int (r_id r') \<and>
     al_before x = enc_json (room_audit_item r) \<and> al_after x = enc_json (room_audit_item r') \<and> al_result x = ''success''"

lemma room_audited_row: "audit_assigned (audit_record (room_audit_entry r r' a)) x \<Longrightarrow> room_audited a r r' x"
  by (cases x) (simp add: audit_assigned_def audit_record_def room_audit_entry_def room_audited_def)

text \<open>The tables a state shows.\<close>

definition tables :: "'s views \<Rightarrow> 's \<Rightarrow> user list \<times> room list \<times> room_member list" where
  "tables v s = (v_users v s, v_rooms v s, v_members v s)"

lemma write_room_audit_cases:
  assumes laws: "store_laws d v audits" and w: "write_room_audit d True r r' a s = (s', e)"
  shows "e = None \<Longrightarrow> \<exists>x. room_audited a r r' x \<and> audits s' = audits s @ [x]" and "e = Some z \<Longrightarrow> s' = s"
    and "tables v s' = tables v s"
proof -
  obtain s1 o1 where o1: "audit_write d (room_audit_entry r r' a) s = (s1, o1)" by fastforce
  have s1: "s' = s1" using w o1 by (cases o1) (auto simp: write_room_audit_def)
  show "e = None \<Longrightarrow> \<exists>x. room_audited a r r' x \<and> audits s' = audits s @ [x]"
    using w o1 audit_write_Inr(1) [OF laws, of "room_audit_entry r r' a" s s1] room_audited_row
    by (cases o1) (auto simp: write_room_audit_def)
  show "e = Some z \<Longrightarrow> s' = s"
    using w o1 audit_write_Inl [OF laws, of "room_audit_entry r r' a" s s1] by (cases o1) (auto simp: write_room_audit_def)
  show "tables v s' = tables v s"
    using o1 audit_write_Inr(2-4) [OF laws, of "room_audit_entry r r' a" s s1]
      audit_write_Inl [OF laws, of "room_audit_entry r r' a" s s1] by (cases o1) (simp_all add: s1 tables_def)
qed

text \<open>The statements of the actions on the tables.\<close>

lemma rooms_deleted:
  assumes laws: "store_laws d v audits" and t: "t_delete (db_rooms (sto_db d)) p s = (s', Inr n)"
  shows "tables v s' = (v_users v s, filter (\<lambda>x. \<not> p x) (v_rooms v s), v_members v s)" and "audits s' = audits s"
proof -
  note db = store_lawsD(1) [OF laws]
  show "audits s' = audits s" by (rule table_frameD(4) [OF store_lawsD(4) [OF laws] t])
  show "tables v s' = (v_users v s, filter (\<lambda>x. \<not> p x) (v_rooms v s), v_members v s)"
    using table_lawsD(10) [OF db_lawsD(2) [OF db] t] table_frameD(4) [OF db_lawsD(5) [OF db] t]
      table_frameD(4) [OF db_lawsD(7) [OF db] t] by (simp add: tables_def)
qed

lemma members_deleted:
  assumes laws: "store_laws d v audits" and t: "t_delete (db_members (sto_db d)) p s = (s', Inr n)"
  shows "tables v s' = (v_users v s, v_rooms v s, filter (\<lambda>x. \<not> p x) (v_members v s))" and "audits s' = audits s"
proof -
  note db = store_lawsD(1) [OF laws]
  show "audits s' = audits s" by (rule table_frameD(4) [OF store_lawsD(5) [OF laws] t])
  show "tables v s' = (v_users v s, v_rooms v s, filter (\<lambda>x. \<not> p x) (v_members v s))"
    using table_lawsD(10) [OF db_lawsD(3) [OF db] t] table_frameD(4) [OF db_lawsD(4) [OF db] t]
      table_frameD(4) [OF db_lawsD(6) [OF db] t] by (simp add: tables_def)
qed

lemma role_updated:
  assumes laws: "store_laws d v audits" and run: "update_member_role d True i u role a s = (s', e)"
  shows "e = None \<Longrightarrow> tables v s' = (v_users v s, v_rooms v s,
      map (\<lambda>m. if rm_room m = i \<and> rm_user m = u then m\<lparr>rm_role := role\<rparr> else m) (v_members v s)) \<and>
      (\<exists>x. room_audited a (bare_room i) (bare_room i) x \<and> audits s' = audits s @ [x])"
    and "e = Some z \<Longrightarrow> audits s' = audits s \<and> v_rooms v s' = v_rooms v s \<and> v_users v s' = v_users v s \<and>
      (v_members v s' = v_members v s \<or>
       v_members v s' = map (\<lambda>m. if rm_room m = i \<and> rm_user m = u then m\<lparr>rm_role := role\<rparr> else m) (v_members v s))"
proof -
  note db = store_lawsD(1) [OF laws]
  let ?p = "\<lambda>m. rm_room m = i \<and> rm_user m = u" and ?f = "\<lambda>m. m\<lparr>rm_role := role\<rparr>"
  obtain s1 o1 where t: "t_update (db_members (sto_db d)) ?p ?f s = (s1, o1)" by fastforce
  have tabs: "v_rooms v s1 = v_rooms v s" "v_users v s1 = v_users v s" "audits s1 = audits s"
    using table_frameD(3) [OF db_lawsD(4) [OF db] t] table_frameD(3) [OF db_lawsD(6) [OF db] t]
      table_frameD(3) [OF store_lawsD(5) [OF laws] t] by simp_all
  have mem: "v_members v s1 = (case o1 of Inl _ \<Rightarrow> v_members v s | Inr _ \<Rightarrow> map (\<lambda>m. if ?p m then ?f m else m) (v_members v s))"
    using table_lawsD(7,8) [OF db_lawsD(3) [OF db], of ?p ?f s s1] t by (cases o1) auto
  have au: "write_room_audit d True (bare_room i) (bare_room i) a s1 = (s', e)" if "o1 = Inr n" for n
    using run t that by (simp add: update_member_role_def)
  show "e = None \<Longrightarrow> tables v s' = (v_users v s, v_rooms v s,
      map (\<lambda>m. if ?p m then ?f m else m) (v_members v s)) \<and>
      (\<exists>x. room_audited a (bare_room i) (bare_room i) x \<and> audits s' = audits s @ [x])"
    using run t tabs mem write_room_audit_cases(1,3) [OF laws au] by (cases o1) (auto simp: update_member_role_def tables_def)
  show "e = Some z \<Longrightarrow> audits s' = audits s \<and> v_rooms v s' = v_rooms v s \<and> v_users v s' = v_users v s \<and>
      (v_members v s' = v_members v s \<or> v_members v s' = map (\<lambda>m. if ?p m then ?f m else m) (v_members v s))"
    using run t tabs mem write_room_audit_cases(2) [OF laws au] by (cases o1) (auto simp: update_member_role_def)
qed

lemma save_room_None:
  assumes laws: "store_laws d v audits" and r: "r \<in> set (v_rooms v s)" "r_id r' = r_id r"
    and run: "save_room d True r r' a between s = (s', None)"
  obtains s1 x where "tables v s1 = (v_users v s, map (\<lambda>q. if r_id q = r_id r then r' else q) (v_rooms v s), v_members v s)"
    "audits s1 = audits s" "tables v s' = tables v (between s1)" "room_audited a r r' x"
    "audits s' = audits (between s1) @ [x]"
proof -
  note db = store_lawsD(1) [OF laws]
  obtain s1 where sv: "gorm_save (db_rooms (sto_db d)) r_id r' s = (s1, Inr ())"
    and au: "write_room_audit d True r r' a (between s1) = (s', None)"
    using run by (auto simp: save_room_def split: prod.splits sum.splits)
  have there: "\<exists>x \<in> set (v_rooms v s). r_id x = r_id r'" using r by auto
  note u = gorm_save_update [OF db_lawsD(2) [OF db] sv there]
  have "tables v s1 = (v_users v s, map (\<lambda>q. if r_id q = r_id r then r' else q) (v_rooms v s), v_members v s)"
    "audits s1 = audits s"
    using u(2) r(2) table_frameD(3) [OF db_lawsD(5) [OF db] u(1)] table_frameD(3) [OF db_lawsD(7) [OF db] u(1)]
      table_frameD(3) [OF store_lawsD(4) [OF laws] u(1)] by (simp_all add: tables_def)
  then show ?thesis using that write_room_audit_cases(1,3) [OF laws au] by blast
qed

text \<open>What an action is meant to do to the tables and to the hub.\<close>

definition with_role :: "int \<Rightarrow> int \<Rightarrow> int \<Rightarrow> room_member list \<Rightarrow> room_member list" where
  "with_role i u role ms = map (\<lambda>m. if rm_room m = i \<and> rm_user m = u then m\<lparr>rm_role := role\<rparr> else m) ms"

definition with_room :: "room \<Rightarrow> room list \<Rightarrow> room list" where
  "with_room r' rs = map (\<lambda>q. if r_id q = r_id r' then r' else q) rs"

definition room_action_spec ::
    "string \<Rightarrow> int \<Rightarrow> int \<Rightarrow> room \<Rightarrow> user list \<times> room list \<times> room_member list \<Rightarrow>
     user list \<times> room list \<times> room_member list \<Rightarrow> bool" where
  "room_action_spec a i t r T T' \<longleftrightarrow>
     (case T of (us, rs, ms) \<Rightarrow>
        if a = ''disband'' then T' = (us, filter (\<lambda>x. r_id x \<noteq> i) rs, ms)
        else if a = ''remove_member'' \<and> 0 < t then T' = (us, rs, filter (\<lambda>m. \<not> (rm_room m = i \<and> rm_user m = t)) ms)
        else if a = ''set_admin'' \<and> 0 < t then T' = (us, rs, with_role i t 2 ms)
        else if a = ''transfer_owner'' \<and> 0 < t
        then T' \<in> {(us, with_room (r\<lparr>r_creator := t\<rparr>) rs, ms), (us, with_room (r\<lparr>r_creator := t\<rparr>) rs, with_role i t 3 ms)}
        else T' = (us, with_room (changed_room a r) rs, ms))"

text \<open>The records an action leaves: one, and before it one for the promotion that belongs to a transfer, when that
  has succeeded.\<close>

definition room_audit_spec :: "admin_actor \<Rightarrow> int \<Rightarrow> int \<Rightarrow> room \<Rightarrow> room_member list \<Rightarrow> room_member list \<Rightarrow> audit_log list \<Rightarrow> bool" where
  "room_audit_spec a i t r ms ms' new \<longleftrightarrow>
     (if ac_action a = ''set_admin'' \<and> 0 < t then \<exists>x. new = [x] \<and> room_audited a (bare_room i) (bare_room i) x
      else if ac_action a = ''transfer_owner'' \<and> 0 < t then
        \<exists>x. room_audited a r (r\<lparr>r_creator := t\<rparr>) x \<and>
          (new = [x] \<or> (\<exists>y. new = [y, x] \<and> room_audited a (bare_room i) (bare_room i) y \<and> ms' = with_role i t 3 ms))
      else \<exists>x. new = [x] \<and> room_audited a r (changed_room (ac_action a) r) x)"

definition room_hub_spec :: "string \<Rightarrow> int \<Rightarrow> int \<Rightarrow> hub option \<Rightarrow> hub option \<Rightarrow> bool" where
  "room_hub_spec a i t h h' \<longleftrightarrow>
     (if a = ''disband'' then \<exists>g. h = Some g \<and> h' = Some (disband_room i g)
      else if a = ''remove_member'' \<and> 0 < t then \<exists>g. h = Some g \<and> h' = Some (leave_room t i g)
      else h' = h)"

lemma then_runtime_None:
  "then_runtime (Some ct) call finish (s1, h) = ((s', h'), None) \<Longrightarrow> call ct h = (h', None) \<and> finish s1 = (s', None)"
  by (auto simp: then_runtime_def split: prod.splits option.splits)

lemma changed_room_id: "r_id (changed_room a r) = r_id r"
  by (simp add: changed_room_def)

text \<open>The successful runs, one for each shape of an action.\<close>

lemma room_action_cases:
  assumes run: "room_apply_action d True (Some ct) i t a (s, h) = ((s', h'), None)"
    and first: "gorm_first (db_rooms (sto_db d)) r_id (\<lambda>r. r_id r = i) s = Inr r"
  obtains (disbanded) s1 n where "ac_action a = ''disband''"
      "t_delete (db_rooms (sto_db d)) (\<lambda>x. r_id x = i) s = (s1, Inr n)"
      "ct_disband ct i h = (h', None)" "write_room_audit d True r r a s1 = (s', None)"
  | (removed) s1 n where "ac_action a = ''remove_member''" "0 < t"
      "t_delete (db_members (sto_db d)) (\<lambda>m. rm_room m = i \<and> rm_user m = t) s = (s1, Inr n)"
      "ct_remove ct i t h = (h', None)" "write_room_audit d True r r a s1 = (s', None)"
  | (promoted) "ac_action a = ''set_admin''" "0 < t" "h' = h" "update_member_role d True i t 2 a s = (s', None)"
  | (transferred) "ac_action a = ''transfer_owner''" "0 < t" "h' = h"
      "save_room d True r (r\<lparr>r_creator := t\<rparr>) a (\<lambda>s1. fst (update_member_role d True i t 3 a s1)) s = (s', None)"
  | (saved) "ac_action a \<noteq> ''disband''"
      "\<not> (ac_action a \<in> {''remove_member'', ''set_admin'', ''transfer_owner''} \<and> 0 < t)" "h' = h"
      "save_room d True r (changed_room (ac_action a) r) a (\<lambda>s1. s1) s = (s', None)"
proof -
  note go = run [unfolded room_apply_action_def prod.case first sum.case]
  consider (disband) "ac_action a = ''disband''" | (moved) "ac_action a \<in> {''agent_enable'', ''agent_disable''}"
    | (remove) "ac_action a = ''remove_member''" "0 < t" | (admin) "ac_action a = ''set_admin''" "0 < t"
    | (transfer) "ac_action a = ''transfer_owner''" "0 < t"
    | (row) "ac_action a \<noteq> ''disband''" "\<not> (ac_action a \<in> {''remove_member'', ''set_admin'', ''transfer_owner''} \<and> 0 < t)"
        "ac_action a \<notin> {''agent_enable'', ''agent_disable''}" by blast
  then show ?thesis
  proof cases
    case disband
    with go show ?thesis by (auto split: prod.splits sum.splits dest!: then_runtime_None intro: disbanded)
  next
    case remove
    with go show ?thesis by (auto split: prod.splits sum.splits dest!: then_runtime_None intro: removed)
  next
    case admin
    with go show ?thesis by (auto split: prod.splits intro: promoted)
  next
    case transfer
    with go show ?thesis by (auto split: prod.splits intro: transferred)
  next
    case row
    with go have "h' = h \<and> save_room d True r (changed_room (ac_action a) r) a (\<lambda>s1. s1) s = (s', None)"
      by (auto split: prod.splits if_splits)
    with row saved show ?thesis by blast
  qed (use go in auto)
qed

lemma transfer_spec:
  assumes laws: "store_laws d v audits" and r: "r \<in> set (v_rooms v s)" "r_id r = i"
    and a: "ac_action a = ''transfer_owner''" "0 < t" "h' = h"
    and save: "save_room d True r (r\<lparr>r_creator := t\<rparr>) a (\<lambda>s1. fst (update_member_role d True i t 3 a s1)) s = (s', None)"
  shows "\<exists>new. room_action_spec (ac_action a) i t r (tables v s) (tables v s') \<and> room_hub_spec (ac_action a) i t h h' \<and>
    audits s' = audits s @ new \<and> room_audit_spec a i t r (v_members v s) (v_members v s') new"
proof -
  have id: "r_id (r\<lparr>r_creator := t\<rparr>) = r_id r" by simp
  obtain s1 x where s1: "tables v s1 = (v_users v s, with_room (r\<lparr>r_creator := t\<rparr>) (v_rooms v s), v_members v s)"
    "audits s1 = audits s" and s': "tables v s' = tables v (fst (update_member_role d True i t 3 a s1))"
    "room_audited a r (r\<lparr>r_creator := t\<rparr>) x" "audits s' = audits (fst (update_member_role d True i t 3 a s1)) @ [x]"
    using save_room_None [OF laws r(1) id save] by (auto simp: with_room_def)
  obtain s2 e where u: "update_member_role d True i t 3 a s1 = (s2, e)" by fastforce
  show ?thesis
  proof (cases e)
    case None
    with role_updated(1) [OF laws u] obtain y where y: "room_audited a (bare_room i) (bare_room i) y"
      "audits s2 = audits s1 @ [y]" "tables v s2 = (v_users v s1, v_rooms v s1, with_role i t 3 (v_members v s1))"
      by (auto simp: with_role_def)
    then show ?thesis
      using a s1 s' u r(2)
      by (intro exI [of _ "[y, x]"]) (simp add: room_action_spec_def room_hub_spec_def room_audit_spec_def tables_def)
  next
    case (Some z)
    from role_updated(2) [OF laws u Some] have "tables v s2 \<in> {tables v s1, (v_users v s1, v_rooms v s1, with_role i t 3 (v_members v s1))}"
      "audits s2 = audits s1" by (auto simp: tables_def with_role_def)
    then show ?thesis
      using a s1 s' u r(2)
      by (intro exI [of _ "[x]"]) (auto simp: room_action_spec_def room_hub_spec_def room_audit_spec_def changed_room_def tables_def)
  qed
qed

subsection \<open>Properties\<close>

text \<open>C32: An administrator's action on a room: when it reports success, the three tables have exactly the
  change the action names (the room's row for freezing, moderation and a new owner, the memberships for
  removing and promoting, the room itself for disbanding), the hub has followed a disbanding or a
  removal and is otherwise as it was. The audit log has grown by exactly one record, with the administrator,
  the action, and the room before and after it (only its id for a promotion); a transfer has one more record
  before it when the promotion of the new owner has succeeded, whose failure is not reported. The target of
  a transfer need not be a member, and an action that needs a target and has none only leaves its record.\<close>

theorem room_action_effect:
  assumes laws: "store_laws d v audits" and ct: "admin_runtime (ct_kick ct) (ct_disband ct) (ct_remove ct)"
    and run: "room_apply_action d True (Some ct) i t a (s, h) = ((s', h'), None)"
  shows "\<exists>r new. r \<in> set (v_rooms v s) \<and> r_id r = i \<and>
    room_action_spec (ac_action a) i t r (tables v s) (tables v s') \<and> room_hub_spec (ac_action a) i t h h' \<and>
    audits s' = audits s @ new \<and> room_audit_spec a i t r (v_members v s) (v_members v s') new"
proof -
  obtain r where first: "gorm_first (db_rooms (sto_db d)) r_id (\<lambda>r. r_id r = i) s = Inr r"
    using run by (cases "gorm_first (db_rooms (sto_db d)) r_id (\<lambda>r. r_id r = i) s") (auto simp: room_apply_action_def)
  have r: "r \<in> set (v_rooms v s)" "r_id r = i"
    using gorm_first_Inr [OF db_lawsD(2) [OF store_lawsD(1) [OF laws]] first] by auto
  have "\<exists>new. room_action_spec (ac_action a) i t r (tables v s) (tables v s') \<and> room_hub_spec (ac_action a) i t h h' \<and>
    audits s' = audits s @ new \<and> room_audit_spec a i t r (v_members v s) (v_members v s') new"
    using run first
  proof (cases rule: room_action_cases)
    case (disbanded s1 n)
    obtain x where "room_audited a r r x" "audits s' = audits s1 @ [x]" using write_room_audit_cases(1) [OF laws disbanded(4)] by blast
    then show ?thesis
      using disbanded(1) rooms_deleted [OF laws disbanded(2)] write_room_audit_cases(3) [OF laws disbanded(4)]
        admin_runtime.disband_done [OF ct disbanded(3)] r(2)
      by (intro exI [of _ "[x]"]) (simp add: room_action_spec_def room_hub_spec_def room_audit_spec_def changed_room_def tables_def)
  next
    case (removed s1 n)
    obtain x where "room_audited a r r x" "audits s' = audits s1 @ [x]" using write_room_audit_cases(1) [OF laws removed(5)] by blast
    then show ?thesis
      using removed(1,2) members_deleted [OF laws removed(3)] write_room_audit_cases(3) [OF laws removed(5)]
        admin_runtime.remove_done [OF ct removed(4)] r(2)
      by (intro exI [of _ "[x]"]) (simp add: room_action_spec_def room_hub_spec_def room_audit_spec_def changed_room_def tables_def)
  next
    case promoted
    from role_updated(1) [OF laws promoted(4) refl] obtain x where "room_audited a (bare_room i) (bare_room i) x"
      "audits s' = audits s @ [x]" "tables v s' = (v_users v s, v_rooms v s, with_role i t 2 (v_members v s))"
      by (auto simp: with_role_def)
    then show ?thesis
      using promoted(1-3)
      by (intro exI [of _ "[x]"]) (simp add: room_action_spec_def room_hub_spec_def room_audit_spec_def tables_def)
  next
    case transferred
    show ?thesis using transfer_spec [OF laws r transferred] .
  next
    case saved
    from save_room_None [OF laws r(1) changed_room_id saved(4)] obtain s1 x where
      "tables v s1 = (v_users v s, map (\<lambda>q. if r_id q = r_id r then changed_room (ac_action a) r else q) (v_rooms v s), v_members v s)"
      "audits s1 = audits s" "tables v s' = tables v s1" "room_audited a r (changed_room (ac_action a) r) x"
      "audits s' = audits s1 @ [x]" .
    then show ?thesis
      using saved(1-3) r(2) changed_room_id [of "ac_action a" r]
      by (intro exI [of _ "[x]"])
         (auto simp: room_action_spec_def room_hub_spec_def room_audit_spec_def changed_room_def tables_def with_room_def)
  qed
  then show ?thesis using r by blast
qed

lemma demo_rooms_first:
  assumes "sd_rooms s = [demo_room]"
  shows "gorm_first (db_rooms (sto_db sample_store)) r_id (\<lambda>r. r_id r = 7) (s, x) = Inr demo_room"
  using assms
  by (simp add: gorm_first_def sample_store_def on_first_db_def on_first_def sample_db_def sample_rooms_def sample_rooms0_def
      list_table_def query_all_def sort_by_def page_def demo_room_def)

lemma demo_rooms_save:
  assumes "sd_rooms s = [demo_room]" "r_id r = 7"
  shows "gorm_save (db_rooms (sto_db sample_store)) r_id r (s, x) = ((s\<lparr>sd_rooms := [r]\<rparr>, x), Inr ())"
  using assms
  by (simp add: gorm_save_def sample_store_def on_first_db_def on_first_def sample_db_def sample_rooms_def sample_rooms0_def
      list_table_def demo_room_def)

lemma demo_audit_ok: "\<exists>s'. audit_write sample_store e s = (s', Inr ())"
  by (simp add: audit_write_def sample_store_def list_table_def Let_def)

lemma room_action_effect_witness:
  "\<forall>snaps :: int runtime_snapshot \<times> int agent_snapshot. \<exists>s' h'.
     room_apply_action sample_store True (Some (local_controller snaps)) 7 0 (demo_actor ''freeze'') (demo_admin, Some demo_two) =
       ((s', h'), None) \<and>
     map r_status (v_rooms sample_admin_views s') = [1] \<and> h' = Some demo_two"
proof
  fix snaps :: "int runtime_snapshot \<times> int agent_snapshot"
  let ?run = "room_apply_action sample_store True (Some (local_controller snaps)) 7 0 (demo_actor ''freeze'') (demo_admin, Some demo_two)"
  have a: "ac_action (demo_actor ''freeze'') = ''freeze''" by (simp add: demo_actor_def)
  have rooms: "sd_rooms demo_db = [demo_room]" by (simp add: demo_db_def)
  obtain s' where w: "audit_write sample_store (room_audit_entry demo_room (changed_room ''freeze'' demo_room) (demo_actor ''freeze''))
      (demo_db\<lparr>sd_rooms := [changed_room ''freeze'' demo_room]\<rparr>, [], []) = (s', Inr ())"
    using demo_audit_ok by blast
  have "r_id (changed_room ''freeze'' demo_room) = 7" by (simp add: changed_room_id demo_room_def)
  then have run: "?run = ((s', Some demo_two), None)"
    using w demo_rooms_first [OF rooms] demo_rooms_save [OF rooms, of "changed_room ''freeze'' demo_room"]
    by (simp add: room_apply_action_def save_room_def write_room_audit_def a room_actions_def demo_admin_def)
  have one: "v_rooms sample_admin_views demo_admin = [demo_room]"
    by (simp add: sample_admin_views_def first_views_def sample_views_def demo_admin_def demo_db_def)
  from room_action_effect [OF sample_store_laws local_runtime.admin_runtime_axioms run]
  obtain r where r: "r \<in> set (v_rooms sample_admin_views demo_admin)"
    "room_action_spec (ac_action (demo_actor ''freeze'')) 7 0 r (tables sample_admin_views demo_admin) (tables sample_admin_views s')"
    by blast
  from r(1) have "r = demo_room" by (simp add: one)
  with r(2) have "v_rooms sample_admin_views s' = with_room (changed_room ''freeze'' demo_room) [demo_room]"
    by (simp add: room_action_spec_def tables_def a one)
  then have "map r_status (v_rooms sample_admin_views s') = [1]"
    by (simp add: with_room_def changed_room_def demo_room_def)
  then show "\<exists>s' h'. ?run = ((s', h'), None) \<and> map r_status (v_rooms sample_admin_views s') = [1] \<and> h' = Some demo_two"
    by (intro exI [of _ s'] exI [of _ "Some demo_two"]) (simp add: run)
qed

lemma with_role_other:
  assumes "t \<noteq> b" "rm_user m = b"
  shows "m \<in> set (with_role i t role ms) \<longleftrightarrow> m \<in> set ms"
  using assms by (auto simp: with_role_def image_iff split: if_splits intro: bexI [of _ m])

text \<open>A transfer leaves the former owner the owner's right to disband: the administrator's transfer
  makes the target the creator and gives it the role 3, but nobody takes the role 3 from the member an
  earlier transfer gave it to, and the room service lets anybody with that role disband the room.\<close>

theorem former_owner_can_disband:
  assumes laws: "store_laws d v audits" and ct: "admin_runtime (ct_kick ct) (ct_disband ct) (ct_remove ct)"
    and run: "room_apply_action d True (Some ct) i t a (s, h) = ((s', h'), None)"
    and a: "ac_action a = ''transfer_owner''" "0 < t" "t \<noteq> b"
    and former: "is_member v s b i" "\<forall>m \<in> set (v_members v s). rm_room m = i \<and> rm_user m = b \<longrightarrow> rm_role m = 3"
    and up: "queries_succeed (db_rooms (sto_db d)) s'" "queries_succeed (db_members (sto_db d)) s'"
  shows "(\<exists>r \<in> set (v_rooms v s'). r_id r = i \<and> r_creator r = t) \<and>
    svc_disband_room (sto_db d) rt i b (s', k) =
      (case soft_delete_room (sto_db d) i s' of
         (s2, Inl e) \<Rightarrow> ((s2, k), Inl (RoomDb e))
       | (s2, Inr _) \<Rightarrow> ((s2, case rt of None \<Rightarrow> k | Some n \<Rightarrow> n_disband n i k), Inr ()))"
proof -
  note db = store_lawsD(1) [OF laws]
  obtain r where first: "gorm_first (db_rooms (sto_db d)) r_id (\<lambda>r. r_id r = i) s = Inr r"
    using run by (cases "gorm_first (db_rooms (sto_db d)) r_id (\<lambda>r. r_id r = i) s") (auto simp: room_apply_action_def)
  have r: "r \<in> set (v_rooms v s)" "r_id r = i" using gorm_first_Inr [OF db_lawsD(2) [OF db] first] by auto
  have save: "save_room d True r (r\<lparr>r_creator := t\<rparr>) a (\<lambda>s1. fst (update_member_role d True i t 3 a s1)) s = (s', None)"
    using run first by (cases rule: room_action_cases) (use a in auto)
  from transfer_spec [OF laws r a(1,2) refl save] a(1,2) have
    "v_rooms v s' = with_room (r\<lparr>r_creator := t\<rparr>) (v_rooms v s)" and members: "v_members v s' \<in> {v_members v s, with_role i t 3 (v_members v s)}"
    by (auto simp: room_action_spec_def tables_def)
  then have "r\<lparr>r_creator := t\<rparr> \<in> set (v_rooms v s')" using r by (auto simp: with_room_def)
  then have there: "\<exists>q \<in> set (v_rooms v s'). r_id q = i \<and> r_creator q = t" using r(2) by (intro bexI) simp_all
  note keep = with_role_other [OF a(3), of _ i 3 "v_members v s"]
  have mem: "\<exists>m \<in> set (v_members v s'). rm_room m = i \<and> rm_user m = b"
    using members former(1) keep by (auto simp: is_member_def)
  have three: "rm_role m = 3" if "m \<in> set (v_members v s')" "rm_room m = i \<and> rm_user m = b" for m
    using that members former(2) keep by auto
  obtain q where q: "get_room_by_id (sto_db d) i s' = Inr q"
    using gorm_first_there [OF db_lawsD(2) [OF db] up(1), of "\<lambda>x. r_id x = i" r_id] there by (auto simp: get_room_by_id_def)
  obtain m where m: "gorm_first (db_members (sto_db d)) rm_id (\<lambda>m. rm_room m = i \<and> rm_user m = b) s' = Inr m"
    using gorm_first_there [OF db_lawsD(3) [OF db] up(2) mem] by blast
  have "get_member_role (sto_db d) i b s' = Inr (3, True)"
    using m three gorm_first_Inr [OF db_lawsD(3) [OF db] m] by (simp add: get_member_role_def)
  with q there show ?thesis by (simp add: svc_disband_room_def split: prod.split sum.split option.split)
qed

text \<open>Room 7 after a transfer to user 2, then one to user 1.\<close>

definition transferred_db :: sample_state where
  "transferred_db = demo_db\<lparr>sd_rooms := [demo_room], sd_members :=
     [\<lparr>rm_id = 1, rm_room = 7, rm_user = 1, rm_role = 2, rm_joined = 5\<rparr>,
      \<lparr>rm_id = 2, rm_room = 7, rm_user = 2, rm_role = 3, rm_joined = 6\<rparr>]\<rparr>"

lemma sample_store_up:
  "queries_succeed (db_rooms (sto_db sample_store)) s" "queries_succeed (db_members (sto_db sample_store)) s"
  using list_table_queries [of sd_rooms] list_table_queries [of sd_members]
  by (simp_all add: queries_succeed_def sample_store_def on_first_db_def on_first_def sample_db_def sample_rooms_def
      sample_rooms0_def sample_members_def)

lemma former_owner_can_disband_witness:
  "\<forall>snaps :: int runtime_snapshot \<times> int agent_snapshot. \<exists>s' h' s2.
     room_apply_action sample_store True (Some (local_controller snaps)) 7 1 (demo_actor ''transfer_owner'')
       ((transferred_db, [], []), Some demo_two) = ((s', h'), None) \<and>
     svc_disband_room (sto_db sample_store) None 7 2 (s', h') = ((s2, h'), Inr ())"
proof
  fix snaps :: "int runtime_snapshot \<times> int agent_snapshot"
  let ?a = "demo_actor ''transfer_owner''" and ?r = "demo_room\<lparr>r_creator := 1\<rparr>"
  let ?run = "room_apply_action sample_store True (Some (local_controller snaps)) 7 1 ?a ((transferred_db, [], []), Some demo_two)"
  have a: "ac_action ?a = ''transfer_owner''" by (simp add: demo_actor_def)
  have rooms: "sd_rooms transferred_db = [demo_room]" by (simp add: transferred_db_def)
  obtain s' where w: "audit_write sample_store (room_audit_entry demo_room ?r ?a)
      (fst (update_member_role sample_store True 7 1 3 ?a (transferred_db\<lparr>sd_rooms := [?r]\<rparr>, [], []))) = (s', Inr ())"
    using demo_audit_ok by blast
  then have run: "?run = ((s', Some demo_two), None)"
    using demo_rooms_first [OF rooms] demo_rooms_save [OF rooms, of ?r]
    by (simp add: room_apply_action_def save_room_def write_room_audit_def a demo_room_def)
  have views: "v_members sample_admin_views (db, x) = sd_members db" for db x
    by (simp add: sample_admin_views_def first_views_def sample_views_def)
  have "svc_disband_room (sto_db sample_store) None 7 2 (s', Some demo_two) =
      (case soft_delete_room (sto_db sample_store) 7 s' of
         (s2, Inl e) \<Rightarrow> ((s2, Some demo_two), Inl (RoomDb e)) | (s2, Inr _) \<Rightarrow> ((s2, Some demo_two), Inr ()))"
    using former_owner_can_disband [OF sample_store_laws local_runtime.admin_runtime_axioms run a _ _ _ _ sample_store_up,
        where b = 2 and rt = None and k = "Some demo_two"]
    by (simp add: is_member_def views transferred_db_def)
  moreover have "\<exists>s2. soft_delete_room (sto_db sample_store) 7 s' = (s2, Inr ())"
    by (simp add: soft_delete_room_def sample_store_def on_first_db_def on_first_def sample_db_def sample_rooms_def
        sample_rooms0_def list_table_def)
  ultimately show "\<exists>s' h' s2. ?run = ((s', h'), None) \<and>
     svc_disband_room (sto_db sample_store) None 7 2 (s', h') = ((s2, h'), Inr ())" using run by fastforce
qed

end
