(* ===== verification/RoomApi.thy ===== *)
theory RoomApi
  imports RoomProps Http
begin

section \<open>The HTTP interface of the room service (services/rooms/api/module.go)\<close>

text \<open>
  One definition per route. A handler writes JSON documents into the response; the status is that of the
  first one. Every handler writes exactly one document, except \<open>removeMember\<close> when both ids are bad.
  What a route does to memberships and the live layer is what the room service does for the request it
  decodes to, which carries the properties of the service over to the routes.
\<close>

subsection \<open>Replies\<close>

record found_room =
  fr_id :: int
  fr_name :: string
  fr_creator :: int
  fr_created :: int
  fr_last_active :: int

record member_item =
  mi_user :: int
  mi_username :: string
  mi_avatar :: string
  mi_role :: int
  mi_is_creator :: bool

datatype room_body =
    EmptyRoomName
  | BadId
  | ServiceRefused room_error
  | RoomServiceFailed
  | RoomCreated int string
  | RoomsFound "found_room list" nat int int
  | MyRooms "joined_room list"
  | JoinedRoom int
  | RoomMembers int "member_item list"
  | MemberRemoved
  | RoomDisbanded

type_synonym room_http = "room_body list reply"

subsection \<open>Helpers\<close>

definition path_id :: "string \<Rightarrow> int option" where
  "path_id s = (case parse_ok s of None \<Rightarrow> None | Some v \<Rightarrow> if v \<le> 0 then None else Some v)"

definition api_query_int :: "string \<Rightarrow> int \<Rightarrow> int" where
  "api_query_int s fallback = (case parse_ok s of None \<Rightarrow> fallback | Some v \<Rightarrow> v)"

definition write_error :: "room_error \<Rightarrow> room_http" where
  "write_error e =
     (case e of
        ErrInvalidRoomName \<Rightarrow> (400, [ServiceRefused e])
      | ErrRoomNotFound \<Rightarrow> (404, [ServiceRefused e])
      | ErrTargetNotMember \<Rightarrow> (404, [ServiceRefused e])
      | ErrNotRoomMember \<Rightarrow> (403, [ServiceRefused e])
      | ErrPermissionDenied \<Rightarrow> (403, [ServiceRefused e])
      | ErrCannotRemoveOwner \<Rightarrow> (403, [ServiceRefused e])
      | RoomDb _ \<Rightarrow> (500, [RoomServiceFailed]))"

text \<open>The body of \<open>createRoom\<close>: one required string.\<close>

definition bind_room_name :: "string \<Rightarrow> string option" where
  "bind_room_name body =
     (case bind_json [''name''] (\<lambda>_ v _. json_str v) [] body of
        None \<Rightarrow> None
      | Some n \<Rightarrow> if n = [] then None else Some n)"

subsection \<open>Routes\<close>

definition create_room_route ::
    "'s db \<Rightarrow> 'h notifier option \<Rightarrow> int \<Rightarrow> identity \<Rightarrow> string \<Rightarrow> 's \<times> 'h \<Rightarrow> ('s \<times> 'h) \<times> room_http" where
  "create_room_route d rt now c body st =
     (case bind_room_name body of
        None \<Rightarrow> (st, (400, [EmptyRoomName]))
      | Some name \<Rightarrow>
          (case svc_create_room d rt now name (ctx_user c) st of
             (st', Inl e) \<Rightarrow> (st', write_error e)
           | (st', Inr room) \<Rightarrow> (st', (200, [RoomCreated (r_id room) (r_name room)]))))"

definition search_rooms_route :: "'s db \<Rightarrow> string \<Rightarrow> string \<Rightarrow> string \<Rightarrow> 's \<Rightarrow> room_http" where
  "search_rooms_route d query offsetStr limitStr s =
     (let offset = api_query_int offsetStr 0; limit = api_query_int limitStr 20
      in case svc_search_rooms d query offset limit s of
           Inl e \<Rightarrow> write_error e
         | Inr (rooms, n) \<Rightarrow>
             (200, [RoomsFound
                      (map (\<lambda>r. \<lparr>fr_id = r_id r, fr_name = r_name r, fr_creator = r_creator r,
                                 fr_created = r_created r, fr_last_active = r_last_active r\<rparr>) rooms)
                      n (max offset 0) (min (max limit 1) 100)]))"

definition joined_rooms_route :: "'s db \<Rightarrow> identity \<Rightarrow> 's \<Rightarrow> room_http" where
  "joined_rooms_route d c s =
     (case svc_joined_rooms d (ctx_user c) s of
        Inl e \<Rightarrow> write_error e
      | Inr rooms \<Rightarrow> (200, [MyRooms rooms]))"

definition join_room_route ::
    "'s db \<Rightarrow> 'h notifier option \<Rightarrow> identity \<Rightarrow> string \<Rightarrow> 's \<times> 'h \<Rightarrow> ('s \<times> 'h) \<times> room_http" where
  "join_room_route d rt c idStr st =
     (case path_id idStr of
        None \<Rightarrow> (st, (400, [BadId]))
      | Some roomID \<Rightarrow>
          (case svc_join_room d rt roomID (ctx_user c) st of
             (st', Inl e) \<Rightarrow> (st', write_error e)
           | (st', Inr _) \<Rightarrow> (st', (200, [JoinedRoom roomID]))))"

definition room_members_route :: "'s db \<Rightarrow> identity \<Rightarrow> string \<Rightarrow> 's \<Rightarrow> room_http" where
  "room_members_route d c idStr s =
     (case path_id idStr of
        None \<Rightarrow> (400, [BadId])
      | Some roomID \<Rightarrow>
          (case svc_room_members d roomID (ctx_user c) s of
             Inl e \<Rightarrow> write_error e
           | Inr (ms, creatorID) \<Rightarrow>
               (200, [RoomMembers roomID
                        (map (\<lambda>m. \<lparr>mi_user = mr_id m, mi_username = mr_username m, mi_avatar = mr_avatar m,
                                   mi_role = mr_role m, mi_is_creator = (mr_id m = creatorID)\<rparr>) ms)])))"

text \<open>Both path parameters are read before the first refusal returns, and each bad one writes a document.\<close>

definition remove_member_route ::
    "'s db \<Rightarrow> 'h notifier option \<Rightarrow> identity \<Rightarrow> string \<Rightarrow> string \<Rightarrow> 's \<times> 'h \<Rightarrow> ('s \<times> 'h) \<times> room_http" where
  "remove_member_route d rt c idStr userStr st =
     (case (path_id idStr, path_id userStr) of
        (Some roomID, Some userID) \<Rightarrow>
          (case svc_remove_member d rt roomID (ctx_user c) userID (ctx_role c) st of
             (st', Inl e) \<Rightarrow> (st', write_error e)
           | (st', Inr _) \<Rightarrow> (st', (200, [MemberRemoved])))
      | (None, None) \<Rightarrow> (st, (400, [BadId, BadId]))
      | _ \<Rightarrow> (st, (400, [BadId])))"

definition disband_room_route ::
    "'s db \<Rightarrow> 'h notifier option \<Rightarrow> identity \<Rightarrow> string \<Rightarrow> 's \<times> 'h \<Rightarrow> ('s \<times> 'h) \<times> room_http" where
  "disband_room_route d rt c idStr st =
     (case path_id idStr of
        None \<Rightarrow> (st, (400, [BadId]))
      | Some roomID \<Rightarrow>
          (case svc_disband_room d rt roomID (ctx_user c) st of
             (st', Inl e) \<Rightarrow> (st', write_error e)
           | (st', Inr _) \<Rightarrow> (st', (200, [RoomDisbanded]))))"

subsection \<open>The routes that change something\<close>

datatype room_call =
    CreateCall string
  | JoinCall string
  | RemoveCall string string
  | DisbandCall string

definition room_route ::
    "'s db \<Rightarrow> 'h notifier option \<Rightarrow> int \<Rightarrow> identity \<Rightarrow> room_call \<Rightarrow> 's \<times> 'h \<Rightarrow> ('s \<times> 'h) \<times> room_http" where
  "room_route d rt now c call st =
     (case call of
        CreateCall body \<Rightarrow> create_room_route d rt now c body st
      | JoinCall i \<Rightarrow> join_room_route d rt c i st
      | RemoveCall i u \<Rightarrow> remove_member_route d rt c i u st
      | DisbandCall i \<Rightarrow> disband_room_route d rt c i st)"

text \<open>The request a call stands for: the acting user is always the one of the token.\<close>

definition requested :: "identity \<Rightarrow> room_call \<Rightarrow> room_request option" where
  "requested c call =
     (case call of
        CreateCall body \<Rightarrow> map_option (\<lambda>n. CreateRoom n (ctx_user c)) (bind_room_name body)
      | JoinCall i \<Rightarrow> map_option (\<lambda>r. JoinRoomReq r (ctx_user c)) (path_id i)
      | RemoveCall i u \<Rightarrow>
          (case (path_id i, path_id u) of
             (Some r, Some t) \<Rightarrow> Some (RemoveMember r (ctx_user c) t (ctx_role c))
           | _ \<Rightarrow> None)
      | DisbandCall i \<Rightarrow> map_option (\<lambda>r. DisbandRoomReq r (ctx_user c)) (path_id i))"

lemma write_error_status: "fst (write_error e) \<in> {400, 403, 404, 500}" "length (snd (write_error e)) = 1"
  by (cases e; simp add: write_error_def)+

lemma write_error_not_ok [simp]: "fst (write_error e) \<noteq> 200"
  by (cases e) (simp_all add: write_error_def)

lemma unserved:
  assumes "requested c call = None"
  shows "fst (room_route d rt now c call st) = st" and "fst (snd (room_route d rt now c call st)) = 400"
  using assms
  by (auto simp: requested_def room_route_def create_room_route_def join_room_route_def remove_member_route_def
      disband_room_route_def split: room_call.splits option.splits)

lemma served:
  assumes "requested c call = Some req"
  shows "fst (room_route d rt now c call st) = fst (svc_run d rt now req st)"
    and "fst (snd (room_route d rt now c call st)) = 200 \<longleftrightarrow> \<not> isl (snd (svc_run d rt now req st))"
    and "\<exists>b. snd (snd (room_route d rt now c call st)) = [b]"
  using assms write_error_status(2)
  by (auto simp: requested_def room_route_def create_room_route_def join_room_route_def remove_member_route_def
      disband_room_route_def svc_run_def length_Suc_conv split: room_call.splits option.splits prod.splits sum.splits)

subsection \<open>What a route can change\<close>

text \<open>One request of the service: nobody is put into a room by somebody else, and whoever loses a
  membership of a room that stays left it or was removed by someone entitled to.\<close>

definition entitled :: "'s views \<Rightarrow> 's \<Rightarrow> identity \<Rightarrow> int \<Rightarrow> bool" where
  "entitled v s c r \<longleftrightarrow>
     ctx_role c = 1 \<or> (\<exists>room \<in> set (v_rooms v s). r_id room = r \<and> r_creator room = ctx_user c) \<or>
     (\<exists>k \<ge> 2. member_role v s (ctx_user c) r k)"

definition change_allowed :: "'s views \<Rightarrow> 's \<Rightarrow> identity \<Rightarrow> 's \<Rightarrow> bool" where
  "change_allowed v s c s' \<longleftrightarrow>
     (\<forall>u r. (u, r) \<in> live_memberships v s' - live_memberships v s \<longrightarrow> u = ctx_user c) \<and>
     (\<forall>u r. (u, r) \<in> live_memberships v s - live_memberships v s' \<longrightarrow> u = ctx_user c \<or> entitled v s c r)"

lemma change_allowed_refl: "live_memberships v s' = live_memberships v s \<Longrightarrow> change_allowed v s c s'"
  by (simp add: change_allowed_def)

lemma change_allowed_insert:
  "live_memberships v s' = insert (ctx_user c, r) (live_memberships v s) \<Longrightarrow> change_allowed v s c s'"
  by (auto simp: change_allowed_def)

lemma request_change:
  assumes laws: "db_laws d v" and req: "requested c call = Some req"
    and run: "svc_run d rt now req (s, h) = ((s', h'), res)"
  shows "change_allowed v s c s'" and "isl res \<Longrightarrow> live_memberships v s' = live_memberships v s \<and> h' = h"
proof -
  have "change_allowed v s c s' \<and> (isl res \<longrightarrow> live_memberships v s' = live_memberships v s \<and> h' = h)"
  proof (cases req)
    case (CreateRoom name u)
    with req have u: "u = ctx_user c" by (auto simp: requested_def split: room_call.splits option.splits)
    from run CreateRoom obtain x where "svc_create_room d rt now name u (s, h) = ((s', h'), x)" "isl res = isl x"
      by (auto simp: svc_run_def isl_map_sum split: prod.splits)
    from laws this(1) show ?thesis
      by (cases rule: create_effect) (use u \<open>isl res = isl x\<close> change_allowed_insert in \<open>auto intro: change_allowed_refl\<close>)
  next
    case (JoinRoomReq r u)
    with req have u: "u = ctx_user c" by (auto simp: requested_def split: room_call.splits option.splits)
    from run JoinRoomReq have "svc_join_room d rt r u (s, h) = ((s', h'), res)" by (simp add: svc_run_def)
    from laws this show ?thesis
      by (cases rule: join_effect) (use u change_allowed_insert in \<open>auto intro: change_allowed_refl\<close>)
  next
    case (RemoveMember r op tgt role)
    with req have u: "op = ctx_user c" "role = ctx_role c"
      by (auto simp: requested_def split: room_call.splits option.splits)
    from run RemoveMember have "svc_remove_member d rt r op tgt role (s, h) = ((s', h'), res)" by (simp add: svc_run_def)
    from laws this show ?thesis
    proof (cases rule: remove_effect)
      case refused
      with same_live [OF refused(3,2)] show ?thesis by (simp add: change_allowed_refl)
    next
      case (removed room)
      then have "tgt = ctx_user c \<or> entitled v s c r" using u by (auto simp: entitled_def)
      then show ?thesis using removed(1) remove_live [OF removed(7,8)] by (auto simp: change_allowed_def)
    qed
  next
    case (DisbandRoomReq r op)
    with req have u: "op = ctx_user c" by (auto simp: requested_def split: room_call.splits option.splits)
    from run DisbandRoomReq have "svc_disband_room d rt r op (s, h) = ((s', h'), res)" by (simp add: svc_run_def)
    from laws this show ?thesis
    proof (cases rule: disband_effect)
      case refused
      then show ?thesis by (simp add: change_allowed_refl)
    next
      case (disbanded room)
      have "entitled v s c r" using disbanded(2,3,5) u by (auto simp: entitled_def)
      moreover have "live_memberships v s' = {(u, q) \<in> live_memberships v s. q \<noteq> r}"
        using disbanded(6,7) by (auto simp: live_memberships_def is_member_def)
      ultimately show ?thesis using disbanded(1) by (auto simp: change_allowed_def)
    qed
  qed
  then show "change_allowed v s c s'" "isl res \<Longrightarrow> live_memberships v s' = live_memberships v s \<and> h' = h" by auto
qed

text \<open>C33: The room routes are safe to expose. Whatever the request, the hub stays in step with the
  memberships; a reply other than 200 means that no membership and no subscription has changed; a user
  is only ever put into a room by a request of its own, and a membership of somebody else ends only
  through a global administrator, the creator, or a member with a role of at least 2.\<close>

theorem room_routes_safe:
  assumes laws: "db_laws d v" and sync: "hub_in_sync (live_memberships v s) h"
    and run: "room_route d (Some hub_notifier) now c call (s, h) = ((s', h'), status, bodies)"
  shows "hub_in_sync (live_memberships v s') h' \<and> change_allowed v s c s' \<and>
         (status \<noteq> 200 \<longrightarrow> live_memberships v s' = live_memberships v s \<and> h' = h)"
proof (cases "requested c call")
  case None
  note u = unserved [OF None, of d "Some hub_notifier" now "(s, h)"]
  from u run have "s' = s" "h' = h" by auto
  with sync show ?thesis by (simp add: change_allowed_refl)
next
  case (Some req)
  note sv = served [OF Some, of d "Some hub_notifier" now "(s, h)"]
  obtain st2 res where r: "svc_run d (Some hub_notifier) now req (s, h) = (st2, res)" by fastforce
  with sv run have r': "svc_run d (Some hub_notifier) now req (s, h) = ((s', h'), res)" "status = 200 \<longleftrightarrow> \<not> isl res" by auto
  have "hub_in_sync (live_memberships v s') h'"
    using hub_runtime.run_sync [OF laws TrueI, of s h now req s' h' res] sync r'(1)
    by (simp add: hub_in_sync_iff hub_notifier_def)
  with request_change [OF laws Some r'(1)] r'(2) show ?thesis by blast
qed

lemma demo_route_run:
  "room_route sample_db (Some hub_notifier) 9 \<lparr>id_user = Some 3, id_role = Some 0\<rparr> (JoinCall ''7'') (demo_db, demo_hub) =
     ((demo_db\<lparr>sd_members := sd_members demo_db @ [\<lparr>rm_id = 3, rm_room = 7, rm_user = 3, rm_role = 1, rm_joined = 0\<rparr>]\<rparr>,
       join_room 3 7 demo_hub), (200, [JoinedRoom 7]))"
proof -
  have "path_id ''7'' = Some 7" by code_simp
  then show ?thesis
    using demo_join_run by (simp add: room_route_def join_room_route_def svc_run_def ctx_user_def)
qed

lemma room_routes_safe_witness:
  "change_allowed sample_views demo_db \<lparr>id_user = Some 3, id_role = Some 0\<rparr>
     (demo_db\<lparr>sd_members := sd_members demo_db @ [\<lparr>rm_id = 3, rm_room = 7, rm_user = 3, rm_role = 1, rm_joined = 0\<rparr>]\<rparr>)"
  using room_routes_safe [OF sample_laws demo_sync demo_route_run] by blast

text \<open>The number a search reply calls its limit is the one the search used, unless the request asked for
  less than one: then the service takes 20 and the reply says 1.\<close>

lemma search_reply_limit:
  "min (max n 1) 100 = snd (clamp_page off n) \<longleftrightarrow> 1 \<le> n"
  by (auto simp: clamp_page_def Let_def)

text \<open>Two bad ids make \<open>removeMember\<close> write two documents into one response.\<close>

lemma two_bad_ids_two_documents:
  "path_id i = None \<Longrightarrow> path_id u = None \<Longrightarrow>
     room_route d rt now c (RemoveCall i u) st = (st, (400, [BadId, BadId]))"
  by (simp add: room_route_def remove_member_route_def)

end
