(* ===== verification/Files.thy ===== *)
theory Files
  imports RoomRepo AdminStore AdminSample
begin

section \<open>Files of messages (services/messages/application/file_service.go, api/file_handler.go)\<close>

text \<open>
  Registration of uploads and authorisation of downloads: the row (models/file_record.go), the interface
  of the object storage (services/messages/storage/storage.go), the service and its handlers. MinIO and
  OSS are not part of the repository: a provider is a record of functions over its own state \<open>'o\<close>, in
  which an error is \<open>None\<close> (the code only tests for one). The key of an object is \<open>date/user/name\<close>; the
  theorems are about who can register a key and who gets a link to it.
\<close>

subsection \<open>The row and the provider\<close>

record file_record =
  fi_id :: int
  fi_key :: string
  fi_name :: string
  fi_sha :: string
  fi_size :: int
  fi_uploader :: int
  fi_room :: int
  fi_backend :: string
  fi_status :: string
  fi_message :: int
  fi_created :: int
  fi_updated :: int

record object_stat =
  os_key :: string
  os_size :: int
  os_modified :: int
  os_etag :: string
  os_exists :: bool

record 'o storage =
  st_upload_url :: "string \<Rightarrow> int \<Rightarrow> 'o \<Rightarrow> string option"
  st_download_url :: "string \<Rightarrow> 'o \<Rightarrow> string option"
  st_delete :: "string \<Rightarrow> 'o \<Rightarrow> 'o \<times> bool"
  st_stat :: "string \<Rightarrow> 'o \<Rightarrow> object_stat option"
  st_list :: "string \<Rightarrow> int \<Rightarrow> 'o \<Rightarrow> object_stat list option"
  st_backend :: string

text \<open>What the schema makes of a new row: the key, the time stamps, the defaults of empty columns.\<close>

definition or_default :: "string \<Rightarrow> string \<Rightarrow> string" where
  "or_default dflt s = (if s = [] then dflt else s)"

definition file_assigned :: "file_record \<Rightarrow> file_record \<Rightarrow> bool" where
  "file_assigned f f' \<longleftrightarrow>
     f' = f\<lparr>fi_id := fi_id f', fi_created := fi_created f', fi_updated := fi_updated f',
           fi_backend := or_default ''minio'' (fi_backend f), fi_status := or_default ''uploaded'' (fi_status f)\<rparr>"

definition file_conflict :: "file_record list \<Rightarrow> file_record \<Rightarrow> bool" where
  "file_conflict fs f \<longleftrightarrow> (\<exists>x \<in> set fs. fi_id x = fi_id f \<or> fi_key x = fi_key f)"

subsection \<open>Object keys\<close>

definition normalize_object_key :: "string \<Rightarrow> string option" where
  "normalize_object_key raw =
     (let cleaned = trim_prefix (path_clean (trim_space raw)) ''/''
      in if cleaned = [] \<or> cleaned = ''.'' \<or> has_prefix cleaned ''../'' then None else Some cleaned)"

definition object_key_belongs_to_user :: "string \<Rightarrow> int \<Rightarrow> bool" where
  "object_key_belongs_to_user key userID \<longleftrightarrow>
     (let parts = split_n 3 (CHR ''/'') key in length parts = 3 \<and> parts ! 1 = format_int userID)"

subsection \<open>The service\<close>

datatype file_error = ErrFileNotFound | ErrFileForbidden | ErrInvalidFileKey | FileDb db_error

record upload =
  up_key :: string
  up_name :: string
  up_sha :: string
  up_size :: int
  up_room :: int

text \<open>The test of the membership a room file needs; \<open>None\<close> lets the request pass.\<close>

definition room_access :: "'s db \<Rightarrow> int \<Rightarrow> int \<Rightarrow> 's \<Rightarrow> file_error option" where
  "room_access d roomID userID s =
     (case check_is_member d roomID userID s of
        Inl e \<Rightarrow> Some (FileDb e)
      | Inr ok \<Rightarrow> if \<not> ok then Some ErrFileForbidden else None)"

definition complete_upload ::
    "'s db \<Rightarrow> ('s, file_record) table \<Rightarrow> 'o storage \<Rightarrow> int \<Rightarrow> int \<Rightarrow> upload \<Rightarrow> 's \<Rightarrow>
     's \<times> (file_error + file_record)" where
  "complete_upload d t sto now userID req s =
     (case normalize_object_key (up_key req) of
        None \<Rightarrow> (s, Inl ErrInvalidFileKey)
      | Some objectKey \<Rightarrow>
          if \<not> object_key_belongs_to_user objectKey userID then (s, Inl ErrInvalidFileKey)
          else (case (if 0 < up_room req then room_access d (up_room req) userID s else None) of
                  Some e \<Rightarrow> (s, Inl e)
                | None \<Rightarrow>
                    (case gorm_first t fi_id (\<lambda>f. fi_key f = objectKey) s of
                       Inr existing \<Rightarrow>
                         if fi_uploader existing \<noteq> userID then (s, Inl ErrFileForbidden)
                         else
                           (let existing = existing\<lparr>fi_name := path_base (trim_space (up_name req)),
                                  fi_sha := trim_space (up_sha req), fi_size := up_size req,
                                  fi_room := up_room req, fi_status := ''uploaded'', fi_updated := now,
                                  fi_backend := st_backend sto\<rparr>
                            in case gorm_save t fi_id existing s of
                                 (s', Inl e) \<Rightarrow> (s', Inl (FileDb e))
                               | (s', Inr _) \<Rightarrow> (s', Inr existing))
                     | Inl e \<Rightarrow>
                         if e \<noteq> RecordNotFound then (s, Inl (FileDb e))
                         else
                           (let row = \<lparr>fi_id = 0, fi_key = objectKey, fi_name = path_base (trim_space (up_name req)),
                                       fi_sha = trim_space (up_sha req), fi_size = up_size req, fi_uploader = userID,
                                       fi_room = up_room req, fi_backend = st_backend sto, fi_status = ''uploaded'',
                                       fi_message = 0, fi_created = 0, fi_updated = 0\<rparr>
                            in case t_create t row s of
                                 (s', Inl e) \<Rightarrow> (s', Inl (FileDb e))
                               | (s', Inr row') \<Rightarrow> (s', Inr row')))))"

definition authorized_download_url ::
    "'s db \<Rightarrow> 'o storage \<Rightarrow> int \<Rightarrow> file_record \<Rightarrow> 's \<Rightarrow> 'o \<Rightarrow> file_error + string" where
  "authorized_download_url d sto userID f s os =
     (if fi_status f \<noteq> ''uploaded'' then Inl ErrFileNotFound
      else (case (if 0 < fi_room f then room_access d (fi_room f) userID s
                  else if fi_uploader f \<noteq> userID then Some ErrFileForbidden else None) of
              Some e \<Rightarrow> Inl e
            | None \<Rightarrow>
                (case st_download_url sto (fi_key f) os of
                   None \<Rightarrow> Inl ErrFileNotFound
                 | Some url \<Rightarrow> Inr url)))"

definition download_url_by_id ::
    "'s db \<Rightarrow> ('s, file_record) table \<Rightarrow> 'o storage \<Rightarrow> int \<Rightarrow> int \<Rightarrow> 's \<Rightarrow> 'o \<Rightarrow> file_error + string" where
  "download_url_by_id d t sto userID fileID s os =
     (case gorm_first t fi_id (\<lambda>f. fi_id f = fileID) s of
        Inl e \<Rightarrow> Inl (if e = RecordNotFound then ErrFileNotFound else FileDb e)
      | Inr f \<Rightarrow> authorized_download_url d sto userID f s os)"

definition download_url_by_object_key ::
    "'s db \<Rightarrow> ('s, file_record) table \<Rightarrow> 'o storage \<Rightarrow> int \<Rightarrow> string \<Rightarrow> 's \<Rightarrow> 'o \<Rightarrow> file_error + string" where
  "download_url_by_object_key d t sto userID objectKey s os =
     (case normalize_object_key objectKey of
        None \<Rightarrow> Inl ErrInvalidFileKey
      | Some cleanKey \<Rightarrow>
          (case gorm_first t fi_id (\<lambda>f. fi_key f = cleanKey) s of
             Inl e \<Rightarrow> Inl (if e = RecordNotFound then ErrFileNotFound else FileDb e)
           | Inr f \<Rightarrow> authorized_download_url d sto userID f s os))"

subsection \<open>The handlers\<close>

text \<open>\<open>Format("2006-01-02")\<close> of a UTC time: the civil date of the day, years from March.\<close>

definition civil_date :: "int \<Rightarrow> int \<times> int \<times> int" where
  "civil_date days =
     (let z = days + 719468; era = z div 146097; doe = z mod 146097;
          yoe = (doe - doe div 1460 + doe div 36524 - doe div 146096) div 365;
          doy = doe - (365 * yoe + yoe div 4 - yoe div 100);
          mp = (5 * doy + 2) div 153;
          dd = doy - (153 * mp + 2) div 5 + 1;
          mm = (if mp < 10 then mp + 3 else mp - 9)
      in (yoe + era * 400 + (if mm \<le> 2 then 1 else 0), mm, dd))"

definition zero_padded :: "nat \<Rightarrow> int \<Rightarrow> string" where
  "zero_padded w x =
     (let ds = nat_digits (nat \<bar>x\<bar>)
      in (if x < 0 then ''-'' else []) @ replicate (w - length ds) (CHR ''0'') @ ds)"

definition date_string :: "int \<Rightarrow> string" where
  "date_string t =
     (case civil_date (t div 86400000000000) of
        (y, m, dd) \<Rightarrow> zero_padded 4 y @ ''-'' @ zero_padded 2 m @ ''-'' @ zero_padded 2 dd)"

text \<open>\<open>url.PathUnescape\<close>.\<close>

fun path_unescape :: "string \<Rightarrow> string option" where
  "path_unescape [] = Some []"
| "path_unescape (c # cs) =
     (if c = CHR ''%'' then
        (case cs of
           a # b # rest \<Rightarrow>
             (case (hex_value a, hex_value b) of
                (Some x, Some y) \<Rightarrow> map_option (\<lambda>r. char_of (16 * x + y) # r) (path_unescape rest)
              | _ \<Rightarrow> None)
         | _ \<Rightarrow> None)
      else map_option (\<lambda>r. c # r) (path_unescape cs))"

datatype file_body =
    BadFileRequest
  | UploadLinkFailed
  | UploadLink string string int
  | FileSaved int string string
  | BadFileId
  | FileRefused file_error
  | FileSaveFailed
  | DownloadLinkFailed
  | DownloadLink string

definition write_file_error :: "file_error \<Rightarrow> file_body \<Rightarrow> file_body reply" where
  "write_file_error e fallback =
     (case e of
        ErrInvalidFileKey \<Rightarrow> (400, FileRefused e)
      | ErrFileForbidden \<Rightarrow> (403, FileRefused e)
      | ErrFileNotFound \<Rightarrow> (404, FileRefused e)
      | FileDb _ \<Rightarrow> (500, fallback))"

record presign_request =
  pr_name :: string
  pr_type :: string
  pr_size :: int

definition set_presign :: "string \<Rightarrow> json \<Rightarrow> presign_request \<Rightarrow> presign_request option" where
  "set_presign n v r =
     (if n = ''filename'' then map_option (\<lambda>x. r\<lparr>pr_name := x\<rparr>) (json_str v)
      else if n = ''file_type'' then map_option (\<lambda>x. r\<lparr>pr_type := x\<rparr>) (json_str v)
      else map_option (\<lambda>x. r\<lparr>pr_size := x\<rparr>) (json_int 64 v))"

definition bind_presign :: "string \<Rightarrow> presign_request option" where
  "bind_presign body =
     (case bind_json [''filename'', ''file_type'', ''file_size''] set_presign \<lparr>pr_name = [], pr_type = [], pr_size = 0\<rparr> body of
        None \<Rightarrow> None
      | Some r \<Rightarrow> if pr_name r = [] then None else Some r)"

definition safe_name :: "string \<Rightarrow> string" where
  "safe_name name =
     (let safe = path_base (trim_space name)
      in if safe = [] \<or> safe = ''.'' \<or> safe = ''/'' then ''file'' else safe)"

definition new_object_key :: "int \<Rightarrow> int \<Rightarrow> string \<Rightarrow> string" where
  "new_object_key now userID name =
     date_string now @ ''/'' @ format_int userID @ ''/'' @ format_int (unix_milli now) @ ''_'' @ safe_name name"

text \<open>A link for uploading is valid for 15 minutes.\<close>

definition pre_sign_upload :: "'o storage \<Rightarrow> int \<Rightarrow> identity \<Rightarrow> string \<Rightarrow> 'o \<Rightarrow> file_body reply" where
  "pre_sign_upload sto now c body os =
     (case bind_presign body of
        None \<Rightarrow> (400, BadFileRequest)
      | Some req \<Rightarrow>
          (let objectKey = new_object_key now (ctx_user c) (pr_name req)
           in case st_upload_url sto objectKey 900 os of
                None \<Rightarrow> (500, UploadLinkFailed)
              | Some url \<Rightarrow> (200, UploadLink url objectKey 900)))"

definition set_upload :: "string \<Rightarrow> json \<Rightarrow> upload \<Rightarrow> upload option" where
  "set_upload n v r =
     (if n = ''object_key'' then map_option (\<lambda>x. r\<lparr>up_key := x\<rparr>) (json_str v)
      else if n = ''original_name'' then map_option (\<lambda>x. r\<lparr>up_name := x\<rparr>) (json_str v)
      else if n = ''sha256'' then map_option (\<lambda>x. r\<lparr>up_sha := x\<rparr>) (json_str v)
      else if n = ''file_size'' then map_option (\<lambda>x. r\<lparr>up_size := x\<rparr>) (json_int 64 v)
      else map_option (\<lambda>x. r\<lparr>up_room := x\<rparr>) (json_int 64 v))"

definition bind_upload :: "string \<Rightarrow> upload option" where
  "bind_upload body =
     (case bind_json [''object_key'', ''original_name'', ''sha256'', ''file_size'', ''room_id''] set_upload
             \<lparr>up_key = [], up_name = [], up_sha = [], up_size = 0, up_room = 0\<rparr> body of
        None \<Rightarrow> None
      | Some r \<Rightarrow> if up_key r = [] \<or> up_name r = [] then None else Some r)"

definition complete_upload_handler ::
    "'s db \<Rightarrow> ('s, file_record) table \<Rightarrow> 'o storage \<Rightarrow> int \<Rightarrow> identity \<Rightarrow> string \<Rightarrow> 's \<Rightarrow> 's \<times> file_body reply" where
  "complete_upload_handler d t sto now c body s =
     (case bind_upload body of
        None \<Rightarrow> (s, (400, BadFileRequest))
      | Some req \<Rightarrow>
          (case complete_upload d t sto now (ctx_user c) req s of
             (s', Inl e) \<Rightarrow> (s', write_file_error e FileSaveFailed)
           | (s', Inr f) \<Rightarrow>
               (s', (200, FileSaved (fi_id f) (fi_key f) (''/api/v1/files/'' @ format_int (fi_id f) @ ''/download'')))))"

definition download_file_by_id ::
    "'s db \<Rightarrow> ('s, file_record) table \<Rightarrow> 'o storage \<Rightarrow> identity \<Rightarrow> string \<Rightarrow> 's \<Rightarrow> 'o \<Rightarrow> file_body reply" where
  "download_file_by_id d t sto c idStr s os =
     (case parse_ok idStr of
        None \<Rightarrow> (400, BadFileId)
      | Some fileID \<Rightarrow>
          if fileID \<le> 0 then (400, BadFileId)
          else (case download_url_by_id d t sto (ctx_user c) fileID s os of
                  Inl e \<Rightarrow> write_file_error e DownloadLinkFailed
                | Inr url \<Rightarrow> (200, DownloadLink url)))"

definition download_file_by_object_key ::
    "'s db \<Rightarrow> ('s, file_record) table \<Rightarrow> 'o storage \<Rightarrow> identity \<Rightarrow> string \<Rightarrow> 's \<Rightarrow> 'o \<Rightarrow> file_body reply" where
  "download_file_by_object_key d t sto c filepath s os =
     (let encoded = trim_prefix filepath ''/'';
          raw = (case path_unescape encoded of None \<Rightarrow> encoded | Some r \<Rightarrow> r)
      in case download_url_by_object_key d t sto (ctx_user c) raw s os of
           Inl e \<Rightarrow> write_file_error e DownloadLinkFailed
         | Inr url \<Rightarrow> (200, DownloadLink url))"

lemma civil_date_examples:
  "civil_date 0 = (1970, 1, 1)" "civil_date 11016 = (2000, 2, 29)" "civil_date 20088 = (2024, 12, 31)"
  "civil_date (-1) = (1969, 12, 31)"
  by code_simp+

end
