(* ===== verification/FileProps.thy ===== *)
theory FileProps
  imports Files
begin

section \<open>Properties of the file service\<close>

text \<open>
  Who registers keys and who gets links: the rows of \<open>file_records\<close> stay well formed, a link is given to
  the members of the file's room or to its uploader, and a key the server has made is accepted back.
\<close>

subsection \<open>Well-formed rows\<close>

text \<open>Every component of a registered key is a proper name, the second one the id of the uploader.\<close>

definition file_ok :: "file_record \<Rightarrow> bool" where
  "file_ok f \<longleftrightarrow>
     (\<forall>w \<in> set (split_on (CHR ''/'') (fi_key f)). w \<noteq> [] \<and> w \<noteq> ''.'' \<and> w \<noteq> ''..'') \<and>
     object_key_belongs_to_user (fi_key f) (fi_uploader f) \<and> fi_message f = 0"

definition files_ok :: "file_record list \<Rightarrow> bool" where
  "files_ok fs \<longleftrightarrow> distinct (map fi_id fs) \<and> distinct (map fi_key fs) \<and> (\<forall>f \<in> set fs. file_ok f)"

lemma split_on_head_prefix:
  "split_on d s = w # v # ws \<Longrightarrow> has_prefix s (w @ [d])"
proof -
  assume "split_on d s = w # v # ws"
  then have "s = w @ d # join_with d (v # ws)" using join_split [of d s] by (simp add: join_with_Cons)
  then show ?thesis by (simp add: has_prefix_def)
qed

lemma trim_prefix_slash [simp]:
  "trim_prefix (CHR ''/'' # s) ''/'' = s" "c \<noteq> CHR ''/'' \<Longrightarrow> trim_prefix (c # s) ''/'' = c # s"
  by (simp_all add: trim_prefix_def has_prefix_def)

lemma normalized_components:
  assumes n: "normalize_object_key raw = Some key" and long: "2 \<le> length (split_on (CHR ''/'') key)"
    and w: "w \<in> set (split_on (CHR ''/'') key)"
  shows "w \<noteq> [] \<and> w \<noteq> ''.'' \<and> w \<noteq> ''..''"
proof -
  let ?p = "trim_space raw"
  let ?r = "hd ?p = CHR ''/''"
  let ?cs = "clean_comps ?r (path_comps ?p)"
  have key: "key = trim_prefix (path_clean ?p) ''/''" "key \<noteq> []" "key \<noteq> ''.''" "\<not> has_prefix key ''../''"
    using n by (auto simp: normalize_object_key_def Let_def split: if_splits)
  have proper: "\<And>c. c \<in> set ?cs \<Longrightarrow> c \<noteq> [] \<and> c \<noteq> ''.'' \<and> CHR ''/'' \<notin> set c"
    by (rule clean_comps_proper)
  have p: "?p \<noteq> []" using key(1,3) by (auto simp: path_clean_def trim_prefix_def has_prefix_def)
  have body: "key = join_with (CHR ''/'') ?cs"
  proof (cases ?r)
    case True
    with p key(1) show ?thesis by (simp add: path_clean_def Let_def)
  next
    case False
    have "join_with (CHR ''/'') ?cs \<noteq> []" using False p key(1,3) by (auto simp: path_clean_def trim_prefix_def has_prefix_def Let_def)
    then obtain c cs where c: "?cs = c # cs" by (cases ?cs) auto
    then obtain x xs where "c = x # xs" "x \<noteq> CHR ''/''" using proper [of c] by (cases c) auto
    then obtain y where "join_with (CHR ''/'') ?cs = x # y" using c by (cases cs) auto
    with False p key(1) \<open>x \<noteq> CHR ''/''\<close> show ?thesis by (simp add: path_clean_def Let_def)
  qed
  have ne: "?cs \<noteq> []" using body key(2) by auto
  have split: "split_on (CHR ''/'') key = ?cs"
    unfolding body by (rule split_join) (use ne proper in auto)
  obtain k names where shape: "?cs = replicate k ''..'' @ names" "''..'' \<notin> set names"
    using clean_comps_shape by blast
  have "k = 0"
  proof (cases k)
    case (Suc j)
    with shape(1) long split obtain v ws where "split_on (CHR ''/'') key = ''..'' # v # ws"
      by (cases "replicate j ''..'' @ names") auto
    then have "has_prefix key ''../''" using split_on_head_prefix by fastforce
    with key(4) show ?thesis by simp
  qed
  with shape w split proper show ?thesis by auto
qed

lemma belongs_parts: "object_key_belongs_to_user key u \<Longrightarrow> 2 \<le> length (split_on (CHR ''/'') key)"
  by (auto simp: object_key_belongs_to_user_def split_n_def Let_def split: if_splits)

lemma gorm_save_failed:
  assumes laws: "table_laws rows assigned conflict t" and save: "gorm_save t key row s = (s', Inl e)"
    and there: "\<exists>x \<in> set (rows s). key x = key row"
  shows "s' = s"
proof -
  obtain s1 x where u: "t_update t (\<lambda>x. key x = key row) (\<lambda>_. row) s = (s1, x)" by fastforce
  show ?thesis
  proof (cases x)
    case (Inl e')
    with u save table_lawsD(7) [OF laws] show ?thesis by (auto simp: gorm_save_def)
  next
    case (Inr n)
    have "filter (\<lambda>x. key x = key row) (rows s) \<noteq> []" using there by (auto simp: filter_empty_conv)
    with table_lawsD(8) [OF laws u [unfolded Inr]] have "n \<noteq> 0" by simp
    with u Inr save show ?thesis by (simp add: gorm_save_def)
  qed
qed

definition uploaded_row :: "'o storage \<Rightarrow> string \<Rightarrow> int \<Rightarrow> upload \<Rightarrow> file_record \<Rightarrow> bool" where
  "uploaded_row sto key u req f \<longleftrightarrow>
     fi_key f = key \<and> fi_uploader f = u \<and> fi_room f = up_room req \<and> fi_status f = ''uploaded'' \<and>
     fi_size f = up_size req \<and> fi_name f = path_base (trim_space (up_name req))"

lemma complete_upload_effect:
  assumes laws: "table_laws rows file_assigned file_conflict t"
    and run: "complete_upload d t sto now u req s = (s', res)"
  obtains (refused) e where "res = Inl e" "s' = s"
    | (updated) key old new where "res = Inr new" "normalize_object_key (up_key req) = Some key"
        "object_key_belongs_to_user key u" "0 < up_room req \<Longrightarrow> check_is_member d (up_room req) u s = Inr True"
        "old \<in> set (rows s)" "fi_uploader old = u" "fi_id new = fi_id old" "fi_key old = key"
        "fi_message new = fi_message old" "uploaded_row sto key u req new"
        "rows s' = map (\<lambda>x. if fi_id x = fi_id new then new else x) (rows s)"
    | (created) key new where "res = Inr new" "normalize_object_key (up_key req) = Some key"
        "object_key_belongs_to_user key u" "0 < up_room req \<Longrightarrow> check_is_member d (up_room req) u s = Inr True"
        "\<not> file_conflict (rows s) new" "fi_message new = 0" "uploaded_row sto key u req new" "rows s' = rows s @ [new]"
proof (cases "normalize_object_key (up_key req)")
  case None
  with run show ?thesis by (intro refused) (auto simp: complete_upload_def)
next
  case key: (Some key)
  show ?thesis
  proof (cases "object_key_belongs_to_user key u")
    case False
    with key run show ?thesis by (intro refused) (auto simp: complete_upload_def)
  next
    case own: True
    show ?thesis
    proof (cases "if 0 < up_room req then room_access d (up_room req) u s else None")
      case (Some e)
      with key own run show ?thesis by (intro refused) (auto simp: complete_upload_def)
    next
      case acc: None
      then have member: "0 < up_room req \<Longrightarrow> check_is_member d (up_room req) u s = Inr True"
        by (auto simp: room_access_def split: sum.splits if_splits)
      let ?found = "gorm_first t fi_id (\<lambda>f. fi_key f = key) s"
      show ?thesis
      proof (cases ?found)
        case (Inr old)
        note old = gorm_first_Inr [OF laws Inr]
        let ?new = "old\<lparr>fi_name := path_base (trim_space (up_name req)), fi_sha := trim_space (up_sha req),
            fi_size := up_size req, fi_room := up_room req, fi_status := ''uploaded'', fi_updated := now,
            fi_backend := st_backend sto\<rparr>"
        obtain s1 x where save: "gorm_save t fi_id ?new s = (s1, x)" by fastforce
        have there: "\<exists>x \<in> set (rows s). fi_id x = fi_id ?new" using old by auto
        show ?thesis
        proof (cases "fi_uploader old = u")
          case False
          with key own acc Inr run show ?thesis by (intro refused) (auto simp: complete_upload_def)
        next
          case mine: True
          show ?thesis
          proof (cases x)
            case (Inl e)
            with gorm_save_failed [OF laws save [unfolded Inl] there] key own acc Inr mine save run
            show ?thesis by (intro refused) (auto simp: complete_upload_def Let_def)
          next
            case ok: (Inr y)
            with key own acc Inr mine save run have res: "s' = s1" "res = Inr ?new"
              by (auto simp: complete_upload_def Let_def)
            with gorm_save_update(2) [OF laws _ there] save ok
            have "rows s' = map (\<lambda>x. if fi_id x = fi_id ?new then ?new else x) (rows s)" by simp
            with res key own member old mine show ?thesis
              by (intro updated [of ?new key old]) (auto simp: uploaded_row_def)
          qed
        qed
      next
        case (Inl e)
        let ?row = "\<lparr>fi_id = 0, fi_key = key, fi_name = path_base (trim_space (up_name req)),
            fi_sha = trim_space (up_sha req), fi_size = up_size req, fi_uploader = u, fi_room = up_room req,
            fi_backend = st_backend sto, fi_status = ''uploaded'', fi_message = 0, fi_created = 0, fi_updated = 0\<rparr>"
        obtain s1 x where c: "t_create t ?row s = (s1, x)" by fastforce
        show ?thesis
        proof (cases "e = RecordNotFound \<and> \<not> isl x")
          case False
          with table_lawsD(3) [OF laws, of ?row s s1] key own acc Inl c run have "\<exists>e. res = Inl e \<and> s' = s"
            by (auto simp: complete_upload_def Let_def isl_def split: sum.splits if_splits)
          then show ?thesis using refused by blast
        next
          case True
          then obtain new where x: "x = Inr new" by (cases x) auto
          with key own acc Inl c run True have res: "s' = s1" "res = Inr new"
            by (auto simp: complete_upload_def Let_def)
          note l = table_lawsD(4) [OF laws c [unfolded x]]
          have "uploaded_row sto key u req new \<and> fi_message new = 0"
            using l by (cases new) (simp add: file_assigned_def uploaded_row_def or_default_def)
          with l res key own member show ?thesis by (intro created [of new key]) auto
        qed
      qed
    qed
  qed
qed

text \<open>C35: Registering an upload keeps the table well formed: ids and keys stay unique, every key has only
  proper components and lies in the folder of the user who registered it. The rows of other users are
  untouched; a successful registration belongs to the caller, who is a member of the room it names.\<close>

theorem upload_keeps_files_ok:
  assumes files: "table_laws rows file_assigned file_conflict t" and db: "db_laws d v"
    and ok: "files_ok (rows s)" and run: "complete_upload d t sto now u req s = (s', res)"
  shows "files_ok (rows s') \<and>
         filter (\<lambda>f. fi_uploader f \<noteq> u) (rows s') = filter (\<lambda>f. fi_uploader f \<noteq> u) (rows s) \<and>
         (\<forall>f. res = Inr f \<longrightarrow> f \<in> set (rows s') \<and> fi_uploader f = u \<and> fi_status f = ''uploaded'' \<and>
            fi_room f = up_room req \<and> (0 < up_room req \<longrightarrow> is_member v s u (up_room req)))"
  using files run
proof (cases rule: complete_upload_effect)
  case refused
  with ok show ?thesis by simp
next
  case (updated key old new)
  have new: "fi_key new = fi_key old" "fi_uploader new = u" using updated by (simp_all add: uploaded_row_def)
  have keyok: "\<forall>w \<in> set (split_on (CHR ''/'') key). w \<noteq> [] \<and> w \<noteq> ''.'' \<and> w \<noteq> ''..''"
    using normalized_components [OF updated(2) belongs_parts [OF updated(3)]] by blast
  have same: "x = old" if "x \<in> set (rows s)" "fi_id x = fi_id old" for x
    using ok that updated(5) by (auto simp: files_ok_def distinct_map inj_on_def)
  have ids: "map fi_id (rows s') = map fi_id (rows s)" "map fi_key (rows s') = map fi_key (rows s)"
    using same updated(7,11) new by auto
  have "file_ok new" using keyok updated ok new by (auto simp: file_ok_def files_ok_def uploaded_row_def)
  then have "\<forall>f \<in> set (rows s'). file_ok f" using ok updated(11) by (auto simp: files_ok_def)
  then have "files_ok (rows s')" using ok unfolding files_ok_def ids by blast
  moreover have "filter (\<lambda>f. fi_uploader f \<noteq> u) (rows s') = filter (\<lambda>f. fi_uploader f \<noteq> u) (rows s)"
  proof -
    have "filter (\<lambda>f. fi_uploader f \<noteq> u) (map (\<lambda>x. if fi_id x = fi_id new then new else x) xs) =
        filter (\<lambda>f. fi_uploader f \<noteq> u) xs" if "set xs \<subseteq> set (rows s)" for xs
      using that same new(2) updated(6,7) by (induction xs) auto
    then show ?thesis using updated(11) by simp
  qed
  moreover have "new \<in> set (rows s')" using updated(5,7,11) by force
  ultimately show ?thesis
    using updated(1,4,10) check_is_member_Inr [OF db, of "up_room req" u s True] by (auto simp: uploaded_row_def)
next
  case (created key new)
  have keyok: "\<forall>w \<in> set (split_on (CHR ''/'') key). w \<noteq> [] \<and> w \<noteq> ''.'' \<and> w \<noteq> ''..''"
    using normalized_components [OF created(2) belongs_parts [OF created(3)]] by blast
  then have "file_ok new" using created by (auto simp: file_ok_def uploaded_row_def)
  with created ok have "files_ok (rows s')" by (auto simp: files_ok_def file_conflict_def)
  then show ?thesis
    using created check_is_member_Inr [OF db, of "up_room req" u s True] by (auto simp: uploaded_row_def)
qed

subsection \<open>A sample table of files\<close>

type_synonym sample_files = "sample_state \<times> file_record list"

definition sample_file_table :: "('x \<times> file_record list, file_record) table" where
  "sample_file_table =
     list_table snd (\<lambda>fs s. (fst s, fs))
       (\<lambda>fs f. f\<lparr>fi_id := next_key fi_id fs, fi_backend := or_default ''minio'' (fi_backend f),
                fi_status := or_default ''uploaded'' (fi_status f)\<rparr>) file_conflict"

lemma sample_file_laws: "table_laws snd file_assigned file_conflict sample_file_table"
  unfolding sample_file_table_def by (rule list_table_laws) (simp_all add: file_assigned_def)

lemma sample_file_queries: "queries_succeed sample_file_table s"
  unfolding sample_file_table_def by (rule list_table_queries)

lemma sample_files_db_laws: "db_laws (on_first_db sample_db :: sample_files db) (first_views sample_views)"
  by (rule on_first_db_laws) (rule sample_laws)

text \<open>A provider with the objects \<open>'o\<close> is a list of keys; a link is the key with a scheme before it.\<close>

definition sample_storage :: "string list storage" where
  "sample_storage =
     \<lparr>st_upload_url = (\<lambda>k _ _. Some (''put:'' @ k)),
      st_download_url = (\<lambda>k os. if k \<in> set os then Some (''get:'' @ k) else None),
      st_delete = (\<lambda>k os. (filter (\<lambda>x. x \<noteq> k) os, True)),
      st_stat = (\<lambda>k os. Some \<lparr>os_key = k, os_size = 1, os_modified = 0, os_etag = [], os_exists = k \<in> set os\<rparr>),
      st_list = (\<lambda>p n os. Some (map (\<lambda>k. \<lparr>os_key = k, os_size = 1, os_modified = 0, os_etag = [], os_exists = True\<rparr>)
                                  (take (nat n) (filter (\<lambda>k. has_prefix k p) os)))),
      st_backend = ''minio''\<rparr>"

definition demo_upload :: upload where
  "demo_upload = \<lparr>up_key = ''2024-05-01/2/17_a.txt'', up_name = ''a.txt'', up_sha = [], up_size = 4, up_room = 7\<rparr>"

definition demo_file :: file_record where
  "demo_file = \<lparr>fi_id = 1, fi_key = ''2024-05-01/2/17_a.txt'', fi_name = ''a.txt'', fi_sha = [], fi_size = 4,
     fi_uploader = 2, fi_room = 7, fi_backend = ''minio'', fi_status = ''uploaded'', fi_message = 0,
     fi_created = 0, fi_updated = 0\<rparr>"

lemma demo_normalized:
  "normalize_object_key ''2024-05-01/2/17_a.txt'' = Some ''2024-05-01/2/17_a.txt''"
  by code_simp

lemma demo_belongs: "object_key_belongs_to_user ''2024-05-01/2/17_a.txt'' 2"
  by code_simp

lemma demo_file_name: "path_base (trim_space ''a.txt'') = ''a.txt''"
  by code_simp

lemma trim_space_Nil [simp]: "trim_space [] = []"
  by (simp add: trim_space_def trim_left_def trim_right_def)

lemmas demo_key = demo_normalized demo_belongs demo_file_name

lemma demo_member: "check_is_member (on_first_db sample_db) 7 2 (demo_db, fs) = Inr True"
  by (simp add: check_is_member_def on_first_db_def on_first_def sample_db_def sample_members_def list_table_def demo_db_def)

lemma demo_upload_fields [simp]:
  "up_key demo_upload = ''2024-05-01/2/17_a.txt''" "up_name demo_upload = ''a.txt''" "up_sha demo_upload = []"
  "up_size demo_upload = 4" "up_room demo_upload = 7"
  by (simp_all add: demo_upload_def)

lemma demo_upload_run:
  "complete_upload (on_first_db sample_db) sample_file_table sample_storage 9 2 demo_upload (demo_db, []) =
     ((demo_db, [demo_file]), Inr demo_file)"
  by (simp add: complete_upload_def demo_key demo_member room_access_def gorm_first_def
      sample_file_table_def list_table_def query_all_def sort_by_def page_def next_key_def file_conflict_def
      or_default_def sample_storage_def demo_file_def Let_def)

lemma upload_keeps_files_ok_witness: "files_ok [demo_file]"
  using upload_keeps_files_ok [OF sample_file_laws sample_files_db_laws _ demo_upload_run]
  by (simp add: files_ok_def)

subsection \<open>Downloads\<close>

lemma authorized_download_Inr:
  assumes "db_laws d v" and "authorized_download_url d sto u f s os = Inr url"
  shows "st_download_url sto (fi_key f) os = Some url \<and> fi_status f = ''uploaded'' \<and>
         (if 0 < fi_room f then is_member v s u (fi_room f) else fi_uploader f = u)"
  using assms(2) check_is_member_Inr [OF assms(1), of "fi_room f" u s True]
  by (auto simp: authorized_download_url_def room_access_def split: if_splits option.splits sum.splits)

lemma write_file_error_not_ok [simp]: "(200, b) = write_file_error e x \<longleftrightarrow> False"
  by (cases e) (simp_all add: write_file_error_def)

lemma download_handler_ok:
  "(200, DownloadLink url) = download_file_by_id d t sto c i s os \<Longrightarrow>
     \<exists>n. download_url_by_id d t sto (ctx_user c) n s os = Inr url"
  "(200, DownloadLink url) = download_file_by_object_key d t sto c p s os \<Longrightarrow>
     \<exists>k. download_url_by_object_key d t sto (ctx_user c) k s os = Inr url"
  by (auto simp: download_file_by_id_def download_file_by_object_key_def Let_def
      split: option.splits sum.splits if_splits)

lemma download_url_found:
  "download_url_by_id d t sto u n s os = Inr url \<Longrightarrow>
     \<exists>q f. gorm_first t fi_id q s = Inr f \<and> authorized_download_url d sto u f s os = Inr url"
  "download_url_by_object_key d t sto u k s os = Inr url \<Longrightarrow>
     \<exists>q f. gorm_first t fi_id q s = Inr f \<and> authorized_download_url d sto u f s os = Inr url"
  by (auto simp: download_url_by_id_def download_url_by_object_key_def split: option.splits sum.splits)

text \<open>C34: A link to an object is handed out only for a registered upload, and only to a member of the
  room the file was sent to, or, for a file without a room, to its uploader; the object lies in the
  uploader's own folder, so a link never leads to an object another user has put there.\<close>

theorem download_authorised:
  assumes files: "table_laws rows file_assigned file_conflict t" and db: "db_laws d v"
    and ok: "files_ok (rows s)"
    and run: "(200, DownloadLink url) \<in> {download_file_by_id d t sto c i s os, download_file_by_object_key d t sto c p s os}"
  shows "\<exists>f \<in> set (rows s). st_download_url sto (fi_key f) os = Some url \<and> fi_status f = ''uploaded'' \<and>
      (if 0 < fi_room f then is_member v s (ctx_user c) (fi_room f) else fi_uploader f = ctx_user c) \<and>
      object_key_belongs_to_user (fi_key f) (fi_uploader f)"
proof -
  obtain q f where f: "gorm_first t fi_id q s = Inr f" "authorized_download_url d sto (ctx_user c) f s os = Inr url"
  proof -
    from run consider "(200, DownloadLink url) = download_file_by_id d t sto c i s os"
      | "(200, DownloadLink url) = download_file_by_object_key d t sto c p s os" by blast
    then show ?thesis
    proof cases
      case 1
      from download_handler_ok(1) [OF 1] obtain n where "download_url_by_id d t sto (ctx_user c) n s os = Inr url" ..
      from download_url_found(1) [OF this] show ?thesis by (elim exE conjE) (rule that)
    next
      case 2
      from download_handler_ok(2) [OF 2] obtain n where "download_url_by_object_key d t sto (ctx_user c) n s os = Inr url" ..
      from download_url_found(2) [OF this] show ?thesis by (elim exE conjE) (rule that)
    qed
  qed
  have "f \<in> set (rows s)" using gorm_first_Inr [OF files f(1)] by blast
  moreover have "object_key_belongs_to_user (fi_key f) (fi_uploader f)"
    using ok calculation by (auto simp: files_ok_def file_ok_def)
  ultimately show ?thesis using authorized_download_Inr [OF db f(2)] by blast
qed

lemma demo_files_ok: "files_ok [demo_file]"
  by (simp add: files_ok_def file_ok_def demo_file_def demo_key)

lemma demo_download_run:
  "download_file_by_id (on_first_db sample_db) sample_file_table sample_storage \<lparr>id_user = Some 1, id_role = Some 0\<rparr>
     ''1'' (demo_db, [demo_file]) [''2024-05-01/2/17_a.txt''] = (200, DownloadLink ''get:2024-05-01/2/17_a.txt'')"
proof -
  have "parse_ok ''1'' = Some 1" by code_simp
  moreover have "check_is_member (on_first_db sample_db) 7 1 (demo_db, [demo_file]) = Inr True"
    by (simp add: check_is_member_def on_first_db_def on_first_def sample_db_def sample_members_def list_table_def demo_db_def)
  ultimately show ?thesis
    by (simp add: download_file_by_id_def download_url_by_id_def gorm_first_def sample_file_table_def list_table_def
        query_all_def sort_by_def page_def demo_file_def authorized_download_url_def room_access_def ctx_user_def
        sample_storage_def)
qed

lemma download_authorised_witness:
  "is_member (first_views sample_views) (demo_db, [demo_file]) 1 7"
  using download_authorised [where v = "first_views sample_views" and d = "on_first_db sample_db" and s = "(demo_db, [demo_file])"
      and c = "\<lparr>id_user = Some 1, id_role = Some 0\<rparr>" and i = "''1''" and sto = sample_storage
      and os = "[''2024-05-01/2/17_a.txt'']" and url = "''get:2024-05-01/2/17_a.txt''",
      OF sample_file_laws sample_files_db_laws] demo_files_ok demo_download_run
  by (simp add: demo_file_def ctx_user_def)

subsection \<open>A key the server made is accepted back\<close>

text \<open>The characters of the server's own part of a key; none of them is a byte of a space or a slash.\<close>

definition key_char :: "char \<Rightarrow> bool" where
  "key_char c \<longleftrightarrow> is_digit c \<or> c = CHR ''-'' \<or> c = CHR ''_''"

lemma spaces_no_key_char: "p \<in> set go_spaces \<Longrightarrow> p \<noteq> [] \<and> (\<forall>c \<in> set p. \<not> key_char c)"
proof -
  have "list_all (\<lambda>p. p \<noteq> [] \<and> list_all (\<lambda>c. \<not> key_char c) p) go_spaces" by code_simp
  then show "p \<in> set go_spaces \<Longrightarrow> p \<noteq> [] \<and> (\<forall>c \<in> set p. \<not> key_char c)" by (auto simp: list_all_iff)
qed

lemma key_char_not_slash: "key_char c \<Longrightarrow> c \<noteq> CHR ''/''"
  by (auto simp: key_char_def is_digit_def)

lemma key_char_not_dot: "key_char c \<Longrightarrow> c \<noteq> CHR ''.''"
  by (auto simp: key_char_def is_digit_def)

lemma find_none: "(\<And>p. p \<in> set ps \<Longrightarrow> \<not> P p) \<Longrightarrow> find P ps = None"
  by (auto simp: find_None_iff)

lemma trim_left_key_char: "key_char c \<Longrightarrow> trim_left (c # s) = c # s"
proof -
  assume c: "key_char c"
  have "find (\<lambda>p. has_prefix (c # s) p) go_spaces = None"
  proof (rule find_none)
    fix p assume "p \<in> set go_spaces"
    with spaces_no_key_char [of p] c show "\<not> has_prefix (c # s) p"
      by (cases p) (auto simp: has_prefix_def)
  qed
  then show ?thesis by (simp add: trim_left_def)
qed

lemma strip_space_length: "length (strip_space sp k s) \<le> length s"
proof (induction sp k s rule: strip_space.induct)
  case (2 sp k s)
  show ?case
  proof (cases "find (\<lambda>p. has_prefix s p) sp")
    case (Some p)
    from 2 [OF Some] show ?thesis by (simp add: Some)
  qed simp
qed simp

lemma trim_right_after:
  assumes w: "trim_right w = w" "w \<noteq> []" and c: "key_char c"
  shows "trim_right (x @ c # w) = x @ c # w"
proof -
  let ?sp = "map rev go_spaces"
  have sp: "p \<noteq> [] \<and> (\<forall>c \<in> set p. \<not> key_char c)" if "p \<in> set ?sp" for p
    using that spaces_no_key_char by auto
  have none: "\<not> has_prefix (rev w) p" if p: "p \<in> set ?sp" for p
  proof
    assume "has_prefix (rev w) p"
    then have "find (\<lambda>p. has_prefix (rev w) p) ?sp \<noteq> None" using p by (auto simp: find_None_iff)
    then obtain q where q: "find (\<lambda>p. has_prefix (rev w) p) ?sp = Some q" by blast
    then have "q \<in> set ?sp" by (auto simp: find_Some_iff set_conv_nth)
    then have "q \<noteq> []" using sp by blast
    obtain k where k: "length w = Suc k" using w(2) by (cases w) auto
    have "strip_space ?sp (length w) (rev w) = rev w" using w(1) by (simp add: trim_right_def rev_swap)
    then have "strip_space ?sp k (drop (length q) (rev w)) = rev w" using q k by simp
    then have "length w \<le> length w - length q"
      using strip_space_length [of ?sp k "drop (length q) (rev w)"] by simp
    with \<open>q \<noteq> []\<close> k show False by (cases q) auto
  qed
  have "find (\<lambda>p. has_prefix (rev (x @ c # w)) p) ?sp = None"
  proof (rule find_none)
    fix p assume p: "p \<in> set ?sp"
    show "\<not> has_prefix (rev (x @ c # w)) p"
    proof
      assume h: "has_prefix (rev (x @ c # w)) p"
      show False
      proof (cases "length p \<le> length w")
        case True
        with h have "has_prefix (rev w) p" by (simp add: has_prefix_def)
        with none p show False by blast
      next
        case False
        then obtain k where k: "length p = length w + Suc k" by (metis add_Suc_right less_iff_Suc_add not_le)
        with h have "p = rev w @ c # take k (rev x)" by (simp add: has_prefix_def)
        with sp [OF p] c show False by auto
      qed
    qed
  qed
  then show ?thesis by (cases "length (x @ c # w)") (simp_all add: trim_right_def)
qed

lemma nat_digits_key_char: "c \<in> set (nat_digits n) \<Longrightarrow> key_char c"
  using nat_digits_all_digits [of n] by (auto simp: key_char_def)

lemma format_int_key_char: "c \<in> set (format_int x) \<Longrightarrow> key_char c" "format_int x \<noteq> []"
  using nat_digits_key_char by (auto simp: format_int_def key_char_def split: if_splits)

lemma zero_padded_key_char: "c \<in> set (zero_padded w x) \<Longrightarrow> key_char c"
  using nat_digits_key_char by (auto simp: zero_padded_def Let_def key_char_def is_digit_def split: if_splits)

lemma date_string_key_char: "c \<in> set (date_string x) \<Longrightarrow> key_char c" "date_string x \<noteq> []"
  using zero_padded_key_char by (auto simp: date_string_def key_char_def split: prod.splits)

lemma key_chars_proper:
  "w \<noteq> [] \<Longrightarrow> (\<And>c. c \<in> set w \<Longrightarrow> key_char c) \<Longrightarrow> CHR ''/'' \<notin> set w \<and> w \<noteq> ''.'' \<and> w \<noteq> ''..''"
  using key_char_not_slash key_char_not_dot by force

lemma safe_name_proper: "safe_name n \<noteq> []" "CHR ''/'' \<notin> set (safe_name n)"
proof -
  have "path_base s = ''.'' \<or> path_base s = ''/'' \<or> CHR ''/'' \<notin> set (path_base s)" for s
    using split_on_no_sep [OF last_in_set [OF split_on_nonempty]]
    by (auto simp: path_base_def Let_def)
  from this [of "trim_space n"] show "safe_name n \<noteq> []" "CHR ''/'' \<notin> set (safe_name n)"
    by (auto simp: safe_name_def Let_def)
qed

lemma clean_comps_no_dots: "''..'' \<notin> set cs \<Longrightarrow> clean_comps r cs = cs"
proof -
  have "''..'' \<notin> set cs \<Longrightarrow> fold (clean_step r) cs st = rev cs @ st" for st
    by (induction cs arbitrary: st) (auto simp: clean_step_def)
  from this [of "[]"] show "''..'' \<notin> set cs \<Longrightarrow> clean_comps r cs = cs" by (simp add: clean_comps_def)
qed

lemma has_prefix_split: "has_prefix s p \<Longrightarrow> s = p @ drop (length p) s"
  unfolding has_prefix_def by (metis append_take_drop_id)

lemma normalize_three:
  assumes proper: "\<forall>w \<in> {a, b, c}. w \<noteq> [] \<and> CHR ''/'' \<notin> set w \<and> w \<noteq> ''.'' \<and> w \<noteq> ''..''"
    and trimmed: "trim_space (a @ ''/'' @ b @ ''/'' @ c) = a @ ''/'' @ b @ ''/'' @ c"
  shows "normalize_object_key (a @ ''/'' @ b @ ''/'' @ c) = Some (a @ ''/'' @ b @ ''/'' @ c)"
    and "object_key_belongs_to_user (a @ ''/'' @ b @ ''/'' @ c) u \<longleftrightarrow> b = format_int u"
proof -
  let ?k = "a @ ''/'' @ b @ ''/'' @ c"
  have k: "?k = join_with (CHR ''/'') [a, b, c]" by simp
  have split: "split_on (CHR ''/'') ?k = [a, b, c]"
    unfolding k by (rule split_join) (use proper in auto)
  have "path_comps ?k = [a, b, c]" using proper unfolding path_comps_def split by auto
  then have comps: "clean_comps r (path_comps ?k) = [a, b, c]" for r
    using proper clean_comps_no_dots [of "[a, b, c]" r] by auto
  obtain x xs where a: "a = x # xs" "x \<noteq> CHR ''/''" using proper by (cases a) auto
  have clean: "path_clean ?k = ?k" using comps a by (simp add: path_clean_def Let_def)
  have "\<not> has_prefix ?k ''../''"
  proof
    assume "has_prefix ?k ''../''"
    then have r: "?k = ''..'' @ CHR ''/'' # drop 3 ?k"
      using has_prefix_split [of ?k "''../''"] by (simp only: append_Cons append_Nil) simp
    have "split_on (CHR ''/'') (''..'' @ CHR ''/'' # drop 3 ?k) = ''..'' # split_on (CHR ''/'') (drop 3 ?k)"
      by (rule split_on_append_sep) simp
    then have "split_on (CHR ''/'') ?k = ''..'' # split_on (CHR ''/'') (drop 3 ?k)" by (simp only: r [symmetric])
    with split proper show False by auto
  qed
  then show "normalize_object_key ?k = Some ?k"
    using trimmed clean a by (auto simp: normalize_object_key_def Let_def)
  show "object_key_belongs_to_user ?k u \<longleftrightarrow> b = format_int u"
    using split by (simp add: object_key_belongs_to_user_def split_n_def Let_def)
qed

lemma new_key_accepted:
  assumes "trim_right (safe_name n) = safe_name n"
  shows "normalize_object_key (new_object_key t u n) = Some (new_object_key t u n)"
    and "object_key_belongs_to_user (new_object_key t u n) u"
proof -
  let ?a = "date_string t" and ?b = "format_int u" and ?c = "format_int (unix_milli t) @ ''_'' @ safe_name n"
  have k: "new_object_key t u n = ?a @ ''/'' @ ?b @ ''/'' @ ?c" by (simp add: new_object_key_def)
  have proper: "\<forall>w \<in> {?a, ?b, ?c}. w \<noteq> [] \<and> CHR ''/'' \<notin> set w \<and> w \<noteq> ''.'' \<and> w \<noteq> ''..''"
  proof -
    have "CHR ''/'' \<notin> set ?c \<and> ?c \<noteq> ''.'' \<and> ?c \<noteq> ''..''"
      using safe_name_proper [of n] format_int_key_char(1) [of _ "unix_milli t"] key_char_not_slash
        format_int_key_char(2) [of "unix_milli t"]
      by (cases "format_int (unix_milli t)") (auto simp: key_char_def append_eq_Cons_conv)
    then show ?thesis
      using key_chars_proper [of ?a] key_chars_proper [of ?b] date_string_key_char format_int_key_char by auto
  qed
  obtain x xs where x: "?a = x # xs" using date_string_key_char(2) by (cases ?a) auto
  then have "key_char x" using date_string_key_char(1) [of x t] by simp
  then have "trim_left (new_object_key t u n) = new_object_key t u n" unfolding k x by (simp add: trim_left_key_char)
  moreover have "trim_right (new_object_key t u n) = new_object_key t u n"
    using trim_right_after [OF assms safe_name_proper(1), of "CHR ''_''" "?a @ ''/'' @ ?b @ ''/'' @ format_int (unix_milli t)"]
    unfolding k by (simp add: key_char_def)
  ultimately have "trim_space (new_object_key t u n) = new_object_key t u n" by (simp add: trim_space_def)
  then show "normalize_object_key (new_object_key t u n) = Some (new_object_key t u n)"
    "object_key_belongs_to_user (new_object_key t u n) u"
    using normalize_three [OF proper] unfolding k by auto
qed

text \<open>The record that a lookup by the id of \<open>f\<close> can only find.\<close>

definition only_record :: "file_record \<Rightarrow> file_record list \<Rightarrow> bool" where
  "only_record f fs \<longleftrightarrow> f \<in> set fs \<and> (\<forall>g \<in> set fs. fi_id g = fi_id f \<longrightarrow> g = f)"

lemma download_only_record:
  assumes files: "table_laws rows file_assigned file_conflict t" and up: "queries_succeed t s"
    and f: "only_record f (rows s)"
  shows "download_url_by_id d t sto u (fi_id f) s os = authorized_download_url d sto u f s os"
proof -
  have "\<exists>x \<in> set (rows s). fi_id x = fi_id f" using f by (auto simp: only_record_def)
  from gorm_first_there [OF files up this] obtain g where g: "gorm_first t fi_id (\<lambda>x. fi_id x = fi_id f) s = Inr g" by blast
  have "g = f" using gorm_first_Inr [OF files g] f by (auto simp: only_record_def)
  with g show ?thesis by (simp add: download_url_by_id_def)
qed

lemma complete_new_upload:
  assumes files: "table_laws rows file_assigned file_conflict t"
    and name: "trim_right (safe_name n) = safe_name n"
    and fresh: "\<forall>f \<in> set (rows s). fi_key f \<noteq> new_object_key t0 u n"
    and run: "complete_upload d t sto now u
        \<lparr>up_key = new_object_key t0 u n, up_name = nm, up_sha = sha, up_size = sz, up_room = room\<rparr> s = (s', res)"
  obtains (refused) e where "res = Inl e" "s' = s" "0 < room" "room_access d room u s = Some e"
    | (failed) x where "res = Inl (FileDb x)" "s' = s" "0 < room \<Longrightarrow> check_is_member d room u s = Inr True"
    | (created) f where "res = Inr f" "0 < room \<Longrightarrow> check_is_member d room u s = Inr True" "rows s' = rows s @ [f]"
        "only_record f (rows s')" "fi_uploader f = u" "fi_room f = room" "fi_status f = ''uploaded''"
        "fi_key f = new_object_key t0 u n"
proof -
  note key = new_key_accepted [OF name, of t0 u]
  obtain e' where none: "gorm_first t fi_id (\<lambda>f. fi_key f = new_object_key t0 u n) s = Inl e'"
    using gorm_first_none [OF files fresh] by blast
  show ?thesis
  proof (cases res)
    case (Inl e)
    have s': "s' = s" using files run by (cases rule: complete_upload_effect) (use Inl in auto)
    show ?thesis
    proof (cases "if 0 < room then room_access d room u s else None")
      case (Some e1)
      then have e1: "0 < room" "room_access d room u s = Some e1" by (auto split: if_splits)
      with run key Inl have "e = e1" by (simp add: complete_upload_def)
      with e1 Inl s' show ?thesis by (intro refused [of e]) simp_all
    next
      case None
      then have "0 < room \<Longrightarrow> check_is_member d room u s = Inr True"
        by (auto simp: room_access_def split: sum.splits if_splits)
      moreover have "\<exists>x. e = FileDb x"
        using run Inl key none None by (auto simp: complete_upload_def Let_def split: if_splits prod.splits sum.splits)
      ultimately show ?thesis using Inl s' failed by blast
    qed
  next
    case (Inr f)
    from files run show ?thesis
    proof (cases rule: complete_upload_effect)
      case (created k new)
      with key Inr have "rows s' = rows s @ [f]" "\<not> file_conflict (rows s) f" "fi_uploader f = u" "fi_room f = room"
        "fi_status f = ''uploaded''" "fi_key f = new_object_key t0 u n"
        by (simp_all add: uploaded_row_def)
      moreover from this have "only_record f (rows s')" by (auto simp: only_record_def file_conflict_def)
      ultimately show ?thesis using Inr created(4) by (intro that(3)) auto
    qed (use Inr key fresh in auto)
  qed
qed

text \<open>C36: The upload protocol closes. The object key the server makes for a file name is accepted when the
  same user completes the upload, neither as an invalid key nor as somebody else's: completing it for a
  room, a user who is not a member of the room is refused and nothing is stored; otherwise the completion
  fails only with an error of the database, and then nothing is stored. A new record has exactly that key
  and room. In every later state where the record is unchanged, the download by its id leads the uploader
  to exactly that object when the file belongs to no room; a file of a room leads him there as long as he
  is a member and is refused to him after he left (a failed test of the membership is reported). The name
  must not end in a space once its directories are cut off, no record has the key yet, and the lookups of
  the download are answered.\<close>

theorem presigned_upload_completes:
  assumes files: "table_laws rows file_assigned file_conflict t"
    and name: "trim_right (safe_name n) = safe_name n"
    and fresh: "\<forall>f \<in> set (rows s). fi_key f \<noteq> new_object_key t0 u n"
    and run: "complete_upload d t sto now u
        \<lparr>up_key = new_object_key t0 u n, up_name = nm, up_sha = sha, up_size = sz, up_room = room\<rparr> s = (s', res)"
  shows "(0 < room \<and> check_is_member d room u s = Inr False \<longrightarrow> res = Inl ErrFileForbidden) \<and>
    (case res of
      Inl e \<Rightarrow> s' = s \<and> (e = ErrFileForbidden \<and> 0 < room \<and> check_is_member d room u s = Inr False \<or> (\<exists>x. e = FileDb x))
    | Inr f \<Rightarrow> fi_key f = new_object_key t0 u n \<and> fi_room f = room \<and> only_record f (rows s') \<and>
        (\<forall>sl os. queries_succeed t sl \<and> only_record f (rows sl) \<longrightarrow>
           download_url_by_id d t sto u (fi_id f) sl os =
             (case (if 0 < room then check_is_member d room u sl else Inr True) of
                Inl e \<Rightarrow> Inl (FileDb e)
              | Inr False \<Rightarrow> Inl ErrFileForbidden
              | Inr True \<Rightarrow> (case st_download_url sto (new_object_key t0 u n) os of
                               None \<Rightarrow> Inl ErrFileNotFound | Some url \<Rightarrow> Inr url))))"
  using files name fresh run
proof (cases rule: complete_new_upload)
  case (refused e)
  then show ?thesis by (auto simp: room_access_def split: sum.splits if_splits)
next
  case (failed x)
  then show ?thesis by auto
next
  case (created f)
  have "download_url_by_id d t sto u (fi_id f) sl os =
      (case (if 0 < room then check_is_member d room u sl else Inr True) of
         Inl e \<Rightarrow> Inl (FileDb e)
       | Inr False \<Rightarrow> Inl ErrFileForbidden
       | Inr True \<Rightarrow> (case st_download_url sto (new_object_key t0 u n) os of
                        None \<Rightarrow> Inl ErrFileNotFound | Some url \<Rightarrow> Inr url))"
    if "queries_succeed t sl" "only_record f (rows sl)" for sl os
    using created
    by (simp add: download_only_record [OF files that] authorized_download_url_def room_access_def split: sum.splits bool.splits)
  with created show ?thesis by auto
qed

text \<open>A file named "a /" shows what the condition is for: the key of the link ends in a space, which
  \<open>CompleteUpload\<close> cuts off, so the record and the stored object have different keys.\<close>

lemma date_string_epoch: "date_string 0 = ''1970-01-01''"
proof -
  have "civil_date 0 = (1970, 1, 1)" by code_simp
  moreover have "nat_digits 1 = ''1''" by code_simp
  moreover have "digit_char 1 = CHR ''1''" "digit_char 9 = CHR ''9''" "digit_char 7 = CHR ''7''" "digit_char 0 = CHR ''0''"
    by code_simp+
  then have "nat_digits 1970 = ''1970''"
    using \<open>nat_digits 1 = ''1''\<close> by (simp add: nat_digits.simps [of "numeral _"])
  ultimately show ?thesis by (simp add: date_string_def zero_padded_def numeral_nat)
qed

lemma epoch_key: "new_object_key 0 2 n = ''1970-01-01/2/0_'' @ safe_name n"
proof -
  have "format_int 2 = ''2''" "format_int 0 = ''0''" by code_simp+
  then show ?thesis by (simp add: new_object_key_def date_string_epoch unix_milli_def)
qed

lemma trailing_space_changes_key:
  "normalize_object_key (new_object_key 0 2 ''a /'') = Some ''1970-01-01/2/0_a'' \<and>
   new_object_key 0 2 ''a /'' = ''1970-01-01/2/0_a ''"
proof -
  have "safe_name ''a /'' = ''a ''" by code_simp
  then have "new_object_key 0 2 ''a /'' = ''1970-01-01/2/0_a ''" by (simp add: epoch_key)
  moreover have "normalize_object_key ''1970-01-01/2/0_a '' = Some ''1970-01-01/2/0_a''" by code_simp
  ultimately show ?thesis by simp
qed

text \<open>\<open>normalizeObjectKey\<close> lets the parent directory itself pass.\<close>

lemma parent_directory_accepted: "normalize_object_key ''..'' = Some ''..''"
  by code_simp

lemma demo_new_key: "new_object_key 0 2 ''a.txt'' = ''1970-01-01/2/0_a.txt''"
proof -
  have "safe_name ''a.txt'' = ''a.txt''" by code_simp
  then show ?thesis by (simp add: epoch_key)
qed

lemma demo_safe_name: "trim_right (safe_name ''a.txt'') = safe_name ''a.txt''"
proof -
  have "safe_name ''a.txt'' = ''a.txt''" by code_simp
  moreover have "trim_right ''a.txt'' = ''a.txt''" by code_simp
  ultimately show ?thesis by simp
qed

lemma demo_new_key_accepted:
  "normalize_object_key ''1970-01-01/2/0_a.txt'' = Some ''1970-01-01/2/0_a.txt''"
  "object_key_belongs_to_user ''1970-01-01/2/0_a.txt'' 2"
  using new_key_accepted [OF demo_safe_name, of 0 2] by (simp_all add: demo_new_key)

text \<open>User 2 uploads to room 7, of which they are a member.\<close>

definition demo_own_file :: file_record where
  "demo_own_file = demo_file\<lparr>fi_key := ''1970-01-01/2/0_a.txt''\<rparr>"

lemma demo_complete_run:
  "complete_upload (on_first_db sample_db) sample_file_table sample_storage 9 2
     \<lparr>up_key = new_object_key 0 2 ''a.txt'', up_name = ''a.txt'', up_sha = [], up_size = 4, up_room = 7\<rparr> (demo_db, []) =
   ((demo_db, [demo_own_file]), Inr demo_own_file)"
  by (simp add: complete_upload_def demo_new_key demo_new_key_accepted demo_member room_access_def gorm_first_def demo_file_name
      sample_file_table_def list_table_def query_all_def sort_by_def page_def next_key_def file_conflict_def
      or_default_def sample_storage_def demo_own_file_def demo_file_def Let_def)

lemma presigned_upload_completes_witness:
  "download_url_by_id (on_first_db sample_db) sample_file_table sample_storage 2 1 (demo_db, [demo_own_file])
     [''1970-01-01/2/0_a.txt''] = Inr ''get:1970-01-01/2/0_a.txt''"
proof -
  have "only_record demo_own_file [demo_own_file]" by (simp add: only_record_def)
  moreover have "fi_id demo_own_file = 1" by (simp add: demo_own_file_def demo_file_def)
  moreover have "st_download_url sample_storage ''1970-01-01/2/0_a.txt'' [''1970-01-01/2/0_a.txt''] =
      Some ''get:1970-01-01/2/0_a.txt''"
    by (simp add: sample_storage_def)
  ultimately show ?thesis
    using presigned_upload_completes [OF sample_file_laws demo_safe_name _ demo_complete_run]
      sample_file_queries [of "(demo_db, [demo_own_file])"] demo_member [of "[demo_own_file]"]
    by (auto simp: demo_new_key)
qed

end
