(* ===== verification/AdminFiles.thy ===== *)
theory AdminFiles
  imports AdminUsers FileProps
begin

section \<open>File administration (services/admin/application/file_service.go, services/admin/api/admin_file.go)\<close>

text \<open>
  Lists, details, deletion, the scan for rows without objects and objects without rows, and the clean-up
  that deletes the latter. The state is the database and the object storage (absent when the provider is
  nil). \<open>lower\<close> is \<open>strings.ToLower\<close>, \<open>sql_lower\<close> the function of MySQL.
\<close>

subsection \<open>The service\<close>

record file_list_query =
  fq_page :: int
  fq_page_size :: int
  fq_keyword :: string
  fq_uploader :: int
  fq_room :: int
  fq_type :: string
  fq_status :: string
  fq_start :: "int option"
  fq_end :: "int option"

record file_list_item =
  fl_file :: file_record
  fl_username :: string
  fl_room_name :: string
  fl_exists :: bool
  fl_has_message :: bool

record audit_action =
  aa_admin :: int
  aa_name :: string
  aa_request_id :: string
  aa_remote_ip :: string
  aa_user_agent :: string

text \<open>
  What the service holds. \<open>fa_recreate\<close> is \<open>Create(&record)\<close> of a list item, whose columns are those of
  the row and the four that only the list shows; the database decides what it makes of it.
\<close>

record ('s, 'o) file_admin =
  fa_store :: "'s admin_store"
  fa_files :: "('s, file_record) table"
  fa_storage :: "'o storage option"
  fa_audit :: bool
  fa_recreate :: "file_list_item \<Rightarrow> 's \<Rightarrow> 's"

definition file_matches ::
    "(string \<Rightarrow> string \<Rightarrow> bool) \<Rightarrow> (string \<Rightarrow> string) \<Rightarrow> (string \<Rightarrow> string) \<Rightarrow> file_list_query \<Rightarrow> file_record \<Rightarrow> bool" where
  "file_matches like sql_lower lower q f \<longleftrightarrow>
     (fq_keyword q \<noteq> [] \<longrightarrow> like (fi_name f) (fq_keyword q @ ''%'') \<or> like (fi_key f) (fq_keyword q @ ''%'')) \<and>
     (0 < fq_uploader q \<longrightarrow> fi_uploader f = fq_uploader q) \<and>
     (0 < fq_room q \<longrightarrow> fi_room f = fq_room q) \<and>
     (fq_type q \<noteq> [] \<longrightarrow> like (sql_lower (fi_name f)) (''%.'' @ lower (fq_type q))) \<and>
     (fq_status q \<noteq> [] \<longrightarrow> fi_status f = fq_status q) \<and>
     since (fq_start q) (fi_created f) \<and> before (fq_end q) (fi_created f)"

definition object_exists :: "'o storage option \<Rightarrow> string \<Rightarrow> 'o \<Rightarrow> bool" where
  "object_exists sto key os =
     (case sto of
        None \<Rightarrow> False
      | Some p \<Rightarrow> (case st_stat p key os of None \<Rightarrow> False | Some stat \<Rightarrow> os_exists stat))"

text \<open>Names by id, read into a Go map; an error leaves the map empty.\<close>

definition names_by_id :: "('s, 'r) table \<Rightarrow> ('r \<Rightarrow> int) \<Rightarrow> ('r \<Rightarrow> string) \<Rightarrow> int list \<Rightarrow> 's \<Rightarrow> (int, string) gomap" where
  "names_by_id t key name ids s =
     (if ids = [] then []
      else (case t_find t (query_all (\<lambda>r. key r \<in> set ids)) s of
              Inl _ \<Rightarrow> []
            | Inr rs \<Rightarrow> fold (\<lambda>r m. gm_put (key r) (name r) m) rs []))"

definition usernames :: "'s admin_store \<Rightarrow> int list \<Rightarrow> 's \<Rightarrow> (int, string) gomap" where
  "usernames d ids s = names_by_id (db_users (sto_db d)) u_id u_username ids s"

definition room_names :: "'s admin_store \<Rightarrow> int list \<Rightarrow> 's \<Rightarrow> (int, string) gomap" where
  "room_names d ids s = names_by_id (db_rooms (sto_db d)) r_id r_name ids s"

definition username :: "'s admin_store \<Rightarrow> int \<Rightarrow> 's \<Rightarrow> string" where
  "username d i s =
     (case gorm_first (db_users (sto_db d)) u_id (\<lambda>u. u_id u = i) s of Inl _ \<Rightarrow> [] | Inr u \<Rightarrow> u_username u)"

definition room_name :: "'s admin_store \<Rightarrow> int \<Rightarrow> 's \<Rightarrow> string" where
  "room_name d i s =
     (case gorm_first (db_rooms (sto_db d)) r_id (\<lambda>r. r_id r = i) s of Inl _ \<Rightarrow> [] | Inr r \<Rightarrow> r_name r)"

definition list_files ::
    "('s, 'o) file_admin \<Rightarrow> (string \<Rightarrow> string) \<Rightarrow> (string \<Rightarrow> string) \<Rightarrow> file_list_query \<Rightarrow> 's \<times> 'o \<Rightarrow>
     db_error + file_list_item list \<times> int" where
  "list_files fa sql_lower lower q st =
     (case list_page (fa_files fa) fi_id (fq_page q) (fq_page_size q)
             (file_matches (db_like (sto_db (fa_store fa))) sql_lower lower q) (fst st) of
        Inl e \<Rightarrow> Inl e
      | Inr (records, n) \<Rightarrow>
          (let names = usernames (fa_store fa) (map fi_uploader records) (fst st);
               rooms = room_names (fa_store fa) (map fi_room (filter (\<lambda>f. 0 < fi_room f) records)) (fst st)
           in Inr (map (\<lambda>f. \<lparr>fl_file = f, fl_username = at_key [] names (fi_uploader f),
                             fl_room_name = at_key [] rooms (fi_room f),
                             fl_exists = object_exists (fa_storage fa) (fi_key f) (snd st),
                             fl_has_message = (0 < fi_message f)\<rparr>) records, n)))"

text \<open>One record with its names and the state of its object, as the details and the scan show it.\<close>

definition file_item :: "('s, 'o) file_admin \<Rightarrow> file_record \<Rightarrow> 's \<times> 'o \<Rightarrow> file_list_item" where
  "file_item fa f st =
     \<lparr>fl_file = f, fl_username = username (fa_store fa) (fi_uploader f) (fst st),
      fl_room_name = room_name (fa_store fa) (fi_room f) (fst st),
      fl_exists = object_exists (fa_storage fa) (fi_key f) (snd st), fl_has_message = (0 < fi_message f)\<rparr>"

definition get_file :: "('s, 'o) file_admin \<Rightarrow> int \<Rightarrow> 's \<times> 'o \<Rightarrow> db_error + file_list_item" where
  "get_file fa i st =
     (case gorm_first (fa_files fa) fi_id (\<lambda>f. fi_id f = i) (fst st) of
        Inl e \<Rightarrow> Inl e
      | Inr f \<Rightarrow> Inr (file_item fa f st))"

definition file_audit_entry :: "audit_action \<Rightarrow> string \<Rightarrow> int \<Rightarrow> audit_entry" where
  "file_audit_entry a what target =
     \<lparr>ae_admin_user_id = aa_admin a, ae_admin_username = aa_name a, ae_action = what, ae_target_type = ''file'',
      ae_target_id = format_int target, ae_before = NoData, ae_after = NoData, ae_request_id = aa_request_id a,
      ae_remote_ip = aa_remote_ip a, ae_user_agent = aa_user_agent a, ae_result = ''success'', ae_error = []\<rparr>"

text \<open>The audit is written when there is an audit service; its error is dropped.\<close>

definition file_audit :: "('s, 'o) file_admin \<Rightarrow> audit_action \<Rightarrow> string \<Rightarrow> int \<Rightarrow> 's \<Rightarrow> 's" where
  "file_audit fa a what target s =
     (if fa_audit fa then fst (audit_write (fa_store fa) (file_audit_entry a what target) s) else s)"

datatype file_admin_error = FileStoreError db_error | ObjectDeleteFailed | ListObjectsFailed

definition delete_file ::
    "('s, 'o) file_admin \<Rightarrow> int \<Rightarrow> audit_action \<Rightarrow> 's \<times> 'o \<Rightarrow> ('s \<times> 'o) \<times> file_admin_error option" where
  "delete_file fa i a st =
     (case get_file fa i st of
        Inl e \<Rightarrow> (st, Some (FileStoreError e))
      | Inr item \<Rightarrow>
          (case t_delete (fa_files fa) (\<lambda>f. fi_id f = i) (fst st) of
             (s1, Inl e) \<Rightarrow> ((s1, snd st), Some (FileStoreError e))
           | (s1, Inr _) \<Rightarrow>
               (case fa_storage fa of
                  None \<Rightarrow> ((file_audit fa a ''file.delete'' i s1, snd st), None)
                | Some p \<Rightarrow>
                    (case st_delete p (fi_key (fl_file item)) (snd st) of
                       (os, False) \<Rightarrow> ((fa_recreate fa item s1, os), Some ObjectDeleteFailed)
                     | (os, True) \<Rightarrow> ((file_audit fa a ''file.delete'' i s1, os), None)))))"

record file_scan_result =
  fs_total_records :: int
  fs_total_objects :: int
  fs_missing :: "file_list_item list"
  fs_orphans :: "object_stat list"
  fs_stale :: "file_list_item list"

definition day :: int where
  "day = 86400000000000"

definition scanned_records :: "('s, 'o) file_admin \<Rightarrow> 's \<Rightarrow> db_error + file_record list" where
  "scanned_records fa s =
     t_find (fa_files fa)
       \<lparr>q_where = (\<lambda>_. True), q_order = (\<lambda>a b. fi_id b \<le> fi_id a), q_offset = 0, q_limit = Some 5000\<rparr> s"

definition scan_anomalies :: "('s, 'o) file_admin \<Rightarrow> int \<Rightarrow> 's \<times> 'o \<Rightarrow> file_admin_error + file_scan_result" where
  "scan_anomalies fa now st =
     (case scanned_records fa (fst st) of
        Inl e \<Rightarrow> Inl (FileStoreError e)
      | Inr records \<Rightarrow>
          (let items = map (\<lambda>f. file_item fa f st) records;
               result = \<lparr>fs_total_records = int (length records), fs_total_objects = 0,
                         fs_missing = filter (\<lambda>x. \<not> fl_exists x) items, fs_orphans = [],
                         fs_stale = filter (\<lambda>x. fi_message (fl_file x) = 0 \<and> fi_created (fl_file x) < now - day) items\<rparr>
           in case fa_storage fa of
                None \<Rightarrow> Inr result
              | Some p \<Rightarrow>
                  (case st_list p [] 1000 (snd st) of
                     None \<Rightarrow> Inl ListObjectsFailed
                   | Some objects \<Rightarrow>
                       Inr (result\<lparr>fs_total_objects := int (length objects),
                                   fs_orphans := filter (\<lambda>ob. os_key ob \<notin> set (map fi_key records)) objects\<rparr>))))"

text \<open>The loop over the orphans: an object that cannot be deleted is skipped and not counted.\<close>

definition delete_orphan :: "'o storage option \<Rightarrow> object_stat \<Rightarrow> 'o \<times> int \<Rightarrow> 'o \<times> int" where
  "delete_orphan sto ob acc =
     (case sto of
        None \<Rightarrow> (fst acc, snd acc + 1)
      | Some p \<Rightarrow>
          (case st_delete p (os_key ob) (fst acc) of
             (os, True) \<Rightarrow> (os, snd acc + 1)
           | (os, False) \<Rightarrow> (os, snd acc)))"

definition cleanup_orphans ::
    "('s, 'o) file_admin \<Rightarrow> int \<Rightarrow> audit_action \<Rightarrow> 's \<times> 'o \<Rightarrow> ('s \<times> 'o) \<times> (file_admin_error + int)" where
  "cleanup_orphans fa now a st =
     (case scan_anomalies fa now st of
        Inl e \<Rightarrow> (st, Inl e)
      | Inr scan \<Rightarrow>
          (case fold (delete_orphan (fa_storage fa)) (fs_orphans scan) (snd st, 0) of
             (os, cleaned) \<Rightarrow>
               ((if 0 < cleaned then file_audit fa a ''file.cleanup_orphans'' cleaned (fst st) else fst st, os),
                Inr cleaned)))"

text \<open>\<open>SafeObjectKey\<close>: the source replaces two backslashes in a row, not one.\<close>

fun replace_double_backslash :: "string \<Rightarrow> string" where
  "replace_double_backslash (a # b # cs) =
     (if a = CHR 0x5C \<and> b = CHR 0x5C then CHR ''/'' # replace_double_backslash cs
      else a # replace_double_backslash (b # cs))"
| "replace_double_backslash cs = cs"

definition safe_object_key :: "string \<Rightarrow> string" where
  "safe_object_key key =
     (let k = trim_prefix (path_clean (replace_double_backslash key)) ''/''
      in if k = ''.'' \<or> k = [] then ''file'' else k)"

subsection \<open>The handlers\<close>

datatype file_admin_body =
    FilesMissing | BadFile | FileMissing | FileFailed | StorageMissing | ObjectMissing
  | FileListing "file_list_item list" int int int
  | FileDetail file_list_item
  | FileLink string
  | FileDeleted
  | FileScan file_scan_result
  | FilesCleaned int

definition admin_audit_action :: "admin_request \<Rightarrow> audit_action" where
  "admin_audit_action q =
     \<lparr>aa_admin = ctx_user (rq_identity q),
      aa_name = (if rq_admin_name q = [] then format_int (ctx_user (rq_identity q)) else rq_admin_name q),
      aa_request_id = rq_request_id q, aa_remote_ip = rq_ip q, aa_user_agent = rq_agent q\<rparr>"

definition admin_file_list ::
    "(string \<Rightarrow> int option) \<Rightarrow> ('s, 'o) file_admin option \<Rightarrow> (string \<Rightarrow> string) \<Rightarrow> (string \<Rightarrow> string) \<Rightarrow> admin_request \<Rightarrow>
     's \<times> 'o \<Rightarrow> file_admin_body reply" where
  "admin_file_list rfc3339 svc sql_lower lower q st =
     (case svc of
        None \<Rightarrow> (503, FilesMissing)
      | Some fa \<Rightarrow>
          (let pg = list_page_number q; n = list_page_size q
           in case list_files fa sql_lower lower
                    \<lparr>fq_page = pg, fq_page_size = n, fq_keyword = get_query q ''keyword'',
                     fq_uploader = fst (parse_int (default_query q ''uploader_id'' ''0'')),
                     fq_room = fst (parse_int (default_query q ''room_id'' ''0'')),
                     fq_type = get_query q ''file_type'', fq_status = get_query q ''status'',
                     fq_start = rfc3339 (get_query q ''start''), fq_end = rfc3339 (get_query q ''end'')\<rparr> st of
                Inl _ \<Rightarrow> (500, FileFailed)
              | Inr (items, k) \<Rightarrow> (200, FileListing items k pg n)))"

definition admin_file_detail :: "('s, 'o) file_admin option \<Rightarrow> string \<Rightarrow> 's \<times> 'o \<Rightarrow> file_admin_body reply" where
  "admin_file_detail svc param st =
     (case parse_ok param of
        None \<Rightarrow> (400, BadFile)
      | Some i \<Rightarrow>
          (case svc of
             None \<Rightarrow> (503, FilesMissing)
           | Some fa \<Rightarrow> (case get_file fa i st of Inl _ \<Rightarrow> (404, FileMissing) | Inr item \<Rightarrow> (200, FileDetail item))))"

text \<open>The download uses the storage of the handlers' package, not the one of the service.\<close>

definition admin_file_download ::
    "('s, 'o) file_admin option \<Rightarrow> 'o storage option \<Rightarrow> string \<Rightarrow> 's \<times> 'o \<Rightarrow> file_admin_body reply" where
  "admin_file_download svc sto param st =
     (case parse_ok param of
        None \<Rightarrow> (400, BadFile)
      | Some i \<Rightarrow>
          (case svc of
             None \<Rightarrow> (503, FilesMissing)
           | Some fa \<Rightarrow>
               (case get_file fa i st of
                  Inl _ \<Rightarrow> (404, FileMissing)
                | Inr item \<Rightarrow>
                    (case sto of
                       None \<Rightarrow> (500, StorageMissing)
                     | Some p \<Rightarrow>
                         (case st_download_url p (fi_key (fl_file item)) (snd st) of
                            None \<Rightarrow> (404, ObjectMissing)
                          | Some url \<Rightarrow> (200, FileLink url))))))"

definition admin_file_delete ::
    "('s, 'o) file_admin option \<Rightarrow> string \<Rightarrow> admin_request \<Rightarrow> 's \<times> 'o \<Rightarrow> ('s \<times> 'o) \<times> file_admin_body reply" where
  "admin_file_delete svc param q st =
     (case parse_ok param of
        None \<Rightarrow> (st, (400, BadFile))
      | Some i \<Rightarrow>
          (case svc of
             None \<Rightarrow> (st, (503, FilesMissing))
           | Some fa \<Rightarrow>
               (case delete_file fa i (admin_audit_action q) st of
                  (st', Some _) \<Rightarrow> (st', (500, FileFailed))
                | (st', None) \<Rightarrow> (st', (200, FileDeleted)))))"

definition admin_file_scan :: "('s, 'o) file_admin option \<Rightarrow> int \<Rightarrow> 's \<times> 'o \<Rightarrow> file_admin_body reply" where
  "admin_file_scan svc now st =
     (case svc of
        None \<Rightarrow> (503, FilesMissing)
      | Some fa \<Rightarrow> (case scan_anomalies fa now st of Inl _ \<Rightarrow> (500, FileFailed) | Inr r \<Rightarrow> (200, FileScan r)))"

definition admin_file_cleanup ::
    "('s, 'o) file_admin option \<Rightarrow> int \<Rightarrow> admin_request \<Rightarrow> 's \<times> 'o \<Rightarrow> ('s \<times> 'o) \<times> file_admin_body reply" where
  "admin_file_cleanup svc now q st =
     (case svc of
        None \<Rightarrow> (st, (503, FilesMissing))
      | Some fa \<Rightarrow>
          (case cleanup_orphans fa now (admin_audit_action q) st of
             (st', Inl _) \<Rightarrow> (st', (500, FileFailed))
           | (st', Inr n) \<Rightarrow> (st', (200, FilesCleaned n))))"

subsection \<open>The object storage\<close>

text \<open>What the calls of a provider promise, over the set of the keys it holds; a deletion that reports a failure
  is taken not to have happened.\<close>

definition storage_laws :: "('o \<Rightarrow> string set) \<Rightarrow> 'o storage \<Rightarrow> bool" where
  "storage_laws objs p \<longleftrightarrow>
     (\<forall>k os os'. st_delete p k os = (os', True) \<longrightarrow> objs os' = objs os - {k}) \<and>
     (\<forall>k os os'. st_delete p k os = (os', False) \<longrightarrow> objs os' = objs os) \<and>
     (\<forall>pre n os xs. st_list p pre n os = Some xs \<longrightarrow> os_key ` set xs \<subseteq> objs os)"

lemma storage_lawsD:
  assumes "storage_laws objs p"
  shows "st_delete p k os = (os', True) \<Longrightarrow> objs os' = objs os - {k}"
    and "st_delete p k os = (os', False) \<Longrightarrow> objs os' = objs os"
    and "st_list p pre n os = Some xs \<Longrightarrow> os_key ` set xs \<subseteq> objs os"
  using assms by (simp_all add: storage_laws_def)

lemma delete_orphan_objs:
  assumes "storage_laws objs p"
  shows "objs (fst (delete_orphan (Some p) ob acc)) \<in> {objs (fst acc), objs (fst acc) - {os_key ob}}"
  using storage_lawsD(1,2) [OF assms, of "os_key ob" "fst acc"]
  by (auto simp: delete_orphan_def split: prod.splits bool.splits)

lemma delete_orphans_objs:
  assumes "storage_laws objs p"
  shows "objs (fst (fold (delete_orphan (Some p)) obs acc)) \<subseteq> objs (fst acc) \<and>
         objs (fst acc) - os_key ` set obs \<subseteq> objs (fst (fold (delete_orphan (Some p)) obs acc))"
proof (induction obs arbitrary: acc)
  case (Cons ob obs)
  from Cons.IH [of "delete_orphan (Some p) ob acc"] delete_orphan_objs [OF assms, of ob acc]
  show ?case by auto
qed simp

text \<open>When every deletion succeeds, every listed orphan is gone.\<close>

lemma delete_orphans_gone:
  assumes "storage_laws objs p" and "\<And>k os. snd (st_delete p k os)" and "ob \<in> set obs"
  shows "os_key ob \<notin> objs (fst (fold (delete_orphan (Some p)) obs acc))"
  using assms(3)
proof (induction obs arbitrary: acc)
  case (Cons x obs)
  show ?case
  proof (cases "ob \<in> set obs")
    case True
    with Cons.IH [of "delete_orphan (Some p) x acc"] show ?thesis by simp
  next
    case False
    with Cons.prems have x: "x = ob" by simp
    have "objs (fst (delete_orphan (Some p) ob acc)) = objs (fst acc) - {os_key ob}"
      using storage_lawsD(1) [OF assms(1), of "os_key ob" "fst acc"] assms(2) [of "os_key ob" "fst acc"]
      by (auto simp: delete_orphan_def split: prod.splits bool.splits)
    with delete_orphans_objs [OF assms(1), of obs "delete_orphan (Some p) ob acc"] x show ?thesis by auto
  qed
qed simp

subsection \<open>What the clean-up deletes\<close>

lemma take_rank:
  assumes "sorted_wrt (\<lambda>a b. key b \<le> (key a :: int)) xs" "distinct (map key xs)" "x \<in> set xs"
  shows "x \<in> set (take n xs) \<longleftrightarrow> length (filter (\<lambda>y. key x < key y) xs) < n"
  using assms
proof (induction xs arbitrary: n)
  case (Cons y ys)
  have less: "\<forall>z \<in> set ys. key z < key y" using Cons.prems(1,2) by (metis (mono_tags, lifting) distinct.simps(2) image_eqI less_le list.set_map list.simps(9) sorted_wrt.simps(2))
  show ?case
  proof (cases "x = y")
    case True
    have "filter (\<lambda>z. key y < key z) ys = []" using less by (auto simp: filter_empty_conv)
    with True show ?thesis by (cases n) simp_all
  next
    case False
    with Cons.prems(3) have x: "x \<in> set ys" by simp
    with Cons.IH [of "n - 1"] Cons.prems less False show ?thesis by (cases n) auto
  qed
qed simp

text \<open>The number of rows that are newer than a row.\<close>

definition newer :: "file_record list \<Rightarrow> file_record \<Rightarrow> nat" where
  "newer fs f = length (filter (\<lambda>g. fi_id f < fi_id g) fs)"

lemma scanned_rank:
  assumes files: "table_laws rows file_assigned file_conflict (fa_files fa)" and ids: "distinct (map fi_id (rows s))"
    and sc: "scanned_records fa s = Inr rs" and f: "f \<in> set (rows s)"
  shows "f \<in> set rs \<longleftrightarrow> newer (rows s) f < 5000" and "set rs \<subseteq> set (rows s)"
proof -
  obtain xs where xs: "mset xs = mset (rows s)" "sorted_wrt (\<lambda>a b. fi_id b \<le> fi_id a) xs" "rs = take 5000 xs"
    using table_lawsD(1) [OF files sc [unfolded scanned_records_def]] by (auto simp: answers_def page_def)
  have "mset (map fi_id xs) = mset (map fi_id (rows s))" using xs(1) by simp
  then have "distinct (map fi_id xs)" using ids mset_eq_imp_distinct_iff by blast
  moreover have "length (filter (\<lambda>g. fi_id f < fi_id g) xs) = newer (rows s) f"
    unfolding newer_def by (metis xs(1) mset_filter size_mset)
  moreover have "f \<in> set xs" using f mset_eq_setD [OF xs(1)] by simp
  ultimately show "f \<in> set rs \<longleftrightarrow> newer (rows s) f < 5000"
    using take_rank [OF xs(2), of f 5000] xs(3) by simp
  show "set rs \<subseteq> set (rows s)" using xs(3) mset_eq_setD [OF xs(1)] set_take_subset [of 5000 xs] by simp
qed

lemma cleanup_cases:
  assumes sto: "fa_storage fa = Some p" and run: "cleanup_orphans fa now a (s, os) = ((s', os'), res)"
  obtains (refused) e where "res = Inl e" "s' = s" "os' = os"
    | (cleaned) rs obs n where "res = Inr n" "scanned_records fa s = Inr rs" "st_list p [] 1000 os = Some obs"
        "os' = fst (fold (delete_orphan (Some p)) (filter (\<lambda>ob. os_key ob \<notin> fi_key ` set rs) obs) (os, 0))"
proof (cases "scanned_records fa s")
  case (Inl e)
  with run show ?thesis by (intro refused [of "FileStoreError e"]) (auto simp: cleanup_orphans_def scan_anomalies_def)
next
  case rs: (Inr rs)
  show ?thesis
  proof (cases "st_list p [] 1000 os")
    case None
    with rs run sto show ?thesis
      by (intro refused [of ListObjectsFailed]) (auto simp: cleanup_orphans_def scan_anomalies_def Let_def)
  next
    case (Some obs)
    let ?r = "fold (delete_orphan (Some p)) (filter (\<lambda>ob. os_key ob \<notin> fi_key ` set rs) obs) (os, 0)"
    have "res = Inr (snd ?r)" "os' = fst ?r"
      using rs Some run sto by (auto simp: cleanup_orphans_def scan_anomalies_def Let_def split: prod.splits)
    with rs Some show ?thesis by (intro cleaned)
  qed
qed

text \<open>The clean-up of orphaned objects only ever removes objects, and it never removes the object of a
  file whose row is among the 5000 newest ones, whatever the provider lists and whichever deletions fail.\<close>

theorem cleanup_keeps_recent_files:
  assumes files: "table_laws rows file_assigned file_conflict (fa_files fa)" and ok: "files_ok (rows s)"
    and sto: "fa_storage fa = Some p" and laws: "storage_laws objs p"
    and run: "cleanup_orphans fa now a (s, os) = ((s', os'), res)"
  shows "objs os' \<subseteq> objs os \<and>
         (\<forall>f \<in> set (rows s). newer (rows s) f < 5000 \<and> fi_key f \<in> objs os \<longrightarrow> fi_key f \<in> objs os')"
  using sto run
proof (cases rule: cleanup_cases)
  case refused
  then show ?thesis by simp
next
  case (cleaned rs obs n)
  let ?orphans = "filter (\<lambda>ob. os_key ob \<notin> fi_key ` set rs) obs"
  note del = delete_orphans_objs [OF laws, of ?orphans "(os, 0)"]
  have ids: "distinct (map fi_id (rows s))" using ok by (simp add: files_ok_def)
  have "fi_key f \<notin> os_key ` set ?orphans" if "f \<in> set (rows s)" "newer (rows s) f < 5000" for f
  proof -
    have "fi_key f \<in> fi_key ` set rs" using scanned_rank(1) [OF files ids cleaned(2) that(1)] that(2) by blast
    then show ?thesis by auto
  qed
  then have "fi_key f \<in> objs os - os_key ` set ?orphans"
    if "f \<in> set (rows s)" "newer (rows s) f < 5000" "fi_key f \<in> objs os" for f
    using that by blast
  with del cleaned(4) show ?thesis by (simp only: fst_conv) blast
qed

text \<open>The scan knows the 5000 newest rows only, and the age of an object plays no part: when deletions
  succeed, every listed object whose row is older than these is deleted, its row staying behind.\<close>

lemma cleanup_deletes_older_files:
  assumes files: "table_laws rows file_assigned file_conflict (fa_files fa)" and ok: "files_ok (rows s)"
    and sto: "fa_storage fa = Some p" and laws: "storage_laws objs p" and del: "\<And>k os. snd (st_delete p k os)"
    and run: "cleanup_orphans fa now a (s, os) = ((s', os'), Inr n)"
    and listed: "st_list p [] 1000 os = Some obs"
    and f: "f \<in> set (rows s)" "5000 \<le> newer (rows s) f" "fi_key f \<in> os_key ` set obs"
  shows "fi_key f \<notin> objs os'"
  using sto run
proof (cases rule: cleanup_cases)
  case refused
  then show ?thesis by simp
next
  case (cleaned rs obs' n')
  have obs: "obs' = obs" using cleaned(3) listed by simp
  have ids: "distinct (map fi_id (rows s))" and keys: "inj_on fi_key (set (rows s))"
    using ok by (auto simp: files_ok_def distinct_map)
  have "f \<notin> set rs" using scanned_rank(1) [OF files ids cleaned(2) f(1)] f(2) by simp
  moreover have "set rs \<subseteq> set (rows s)" by (rule scanned_rank(2) [OF files ids cleaned(2) f(1)])
  ultimately have "fi_key f \<notin> fi_key ` set rs" using keys f(1) by (auto dest: inj_onD)
  with f(3) obtain ob where "ob \<in> set (filter (\<lambda>ob. os_key ob \<notin> fi_key ` set rs) obs)" "os_key ob = fi_key f" by auto
  from delete_orphans_gone [OF laws del this(1), of "(os, 0)"] this(2) cleaned(4) obs show ?thesis by simp
qed

text \<open>An object without a row is deleted at once, however young it is: an upload that has not been
  completed yet loses its object.\<close>

lemma cleanup_deletes_fresh_object:
  assumes sto: "fa_storage fa = Some p" and laws: "storage_laws objs p" and del: "\<And>k os. snd (st_delete p k os)"
    and files: "table_laws rows file_assigned file_conflict (fa_files fa)"
    and run: "cleanup_orphans fa now a (s, os) = ((s', os'), Inr n)"
    and listed: "st_list p [] 1000 os = Some obs" "ob \<in> set obs"
    and unregistered: "\<forall>f \<in> set (rows s). fi_key f \<noteq> os_key ob"
  shows "os_key ob \<notin> objs os'"
  using sto run
proof (cases rule: cleanup_cases)
  case refused
  then show ?thesis by simp
next
  case (cleaned rs obs' n')
  have "set rs \<subseteq> set (rows s)"
    using table_lawsD(1) [OF files cleaned(2) [unfolded scanned_records_def]]
    by (auto simp: answers_def page_def dest!: mset_eq_setD in_set_takeD)
  then have "ob \<in> set (filter (\<lambda>ob. os_key ob \<notin> fi_key ` set rs) obs)" using listed(2) unregistered by auto
  from delete_orphans_gone [OF laws del this, of "(os, 0)"] cleaned(3,4) listed(1) show ?thesis by simp
qed

subsection \<open>Deletion of a file\<close>

definition file_deleted :: "audit_action \<Rightarrow> int \<Rightarrow> audit_log \<Rightarrow> bool" where
  "file_deleted a i r \<longleftrightarrow>
     al_admin_user_id r = aa_admin a \<and> al_action r = ''file.delete'' \<and> al_target_type r = ''file'' \<and>
     al_target_id r = format_int i \<and> al_result r = ''success''"

lemma file_audit_row:
  "audit_assigned (audit_record (file_audit_entry a ''file.delete'' i)) r \<Longrightarrow> file_deleted a i r"
  by (cases r) (simp add: audit_assigned_def audit_record_def file_audit_entry_def file_deleted_def)

text \<open>C39: Deleting a file. On success the row is gone, every other row stays, exactly the object of that
  row is gone from the storage, and at most an audit row of this deletion was added. When the storage
  refuses, the object stays while the row has been deleted: what the database then makes of re-creating
  the list item decides whether a row comes back. A failure before that leaves everything as it was.\<close>

theorem delete_file_effect:
  assumes files: "table_laws rows file_assigned file_conflict (fa_files fa)"
    and store: "store_laws (fa_store fa) v audits"
    and frame: "table_frame audits (fa_files fa)" "table_frame rows (sto_audit (fa_store fa))"
    and sto: "fa_storage fa = Some p" and laws: "storage_laws objs p"
    and run: "delete_file fa i a (s, os) = ((s', os'), res)"
  shows "case res of
      None \<Rightarrow> (\<exists>f \<in> set (rows s). fi_id f = i \<and> objs os' = objs os - {fi_key f}) \<and>
        rows s' = filter (\<lambda>f. fi_id f \<noteq> i) (rows s) \<and>
        (audits s' = audits s \<or> (\<exists>r. file_deleted a i r \<and> audits s' = audits s @ [r]))
    | Some ObjectDeleteFailed \<Rightarrow> objs os' = objs os \<and>
        (\<exists>f s1. f \<in> set (rows s) \<and> fi_id f = i \<and> rows s1 = filter (\<lambda>f. fi_id f \<noteq> i) (rows s) \<and>
           s' = fa_recreate fa (file_item fa f (s, os)) s1)
    | Some _ \<Rightarrow> s' = s \<and> os' = os"
proof (cases "get_file fa i (s, os)")
  case (Inl e)
  with run show ?thesis by (auto simp: delete_file_def)
next
  case (Inr item)
  then obtain f where f: "gorm_first (fa_files fa) fi_id (\<lambda>f. fi_id f = i) s = Inr f" "item = file_item fa f (s, os)"
    by (auto simp: get_file_def split: sum.splits)
  note row = gorm_first_Inr [OF files f(1)]
  obtain s1 x where d: "t_delete (fa_files fa) (\<lambda>f. fi_id f = i) s = (s1, x)" by fastforce
  show ?thesis
  proof (cases x)
    case (Inl e)
    with run d \<open>get_file fa i (s, os) = Inr item\<close> table_lawsD(9) [OF files, of _ s s1 e]
    show ?thesis by (auto simp: delete_file_def)
  next
    case del: (Inr n)
    have rows1: "rows s1 = filter (\<lambda>f. fi_id f \<noteq> i) (rows s)" using table_lawsD(10) [OF files d [unfolded del]] by simp
    have audits1: "audits s1 = audits s" by (rule table_frameD(4) [OF frame(1) d])
    obtain os1 ok where o: "st_delete p (fi_key f) os = (os1, ok)" by fastforce
    have key: "fi_key (fl_file item) = fi_key f" by (simp add: f(2) file_item_def)
    show ?thesis
    proof (cases ok)
      case False
      with run d del o key sto \<open>get_file fa i (s, os) = Inr item\<close>
      have "res = Some ObjectDeleteFailed" "os' = os1" "s' = fa_recreate fa item s1" by (auto simp: delete_file_def)
      with storage_lawsD(2) [OF laws] o False row rows1 f(2) show ?thesis by auto
    next
      case True
      with run d del o key sto \<open>get_file fa i (s, os) = Inr item\<close>
      have res: "res = None" "os' = os1" "s' = file_audit fa a ''file.delete'' i s1" by (auto simp: delete_file_def)
      obtain s2 y where w: "audit_write (fa_store fa) (file_audit_entry a ''file.delete'' i) s1 = (s2, y)" by fastforce
      have s': "s' = (if fa_audit fa then s2 else s1)" using res(3) w by (simp add: file_audit_def)
      have "rows s' = rows s1"
        using table_frameD(1) [OF frame(2)] w s' by (auto simp: audit_write_def map_prod_def split: prod.splits if_splits)
      moreover have "audits s' = audits s1 \<or> (\<exists>r. file_deleted a i r \<and> audits s' = audits s1 @ [r])"
      proof (cases y)
        case (Inl e)
        with audit_write_Inl [OF store w [unfolded Inl]] s' show ?thesis by simp
      next
        case (Inr u)
        with audit_write_Inr(1) [OF store, of "file_audit_entry a ''file.delete'' i" s1 s2] w s' file_audit_row
        show ?thesis by fastforce
      qed
      ultimately show ?thesis using res storage_lawsD(1) [OF laws] o True row rows1 audits1 by auto
    qed
  qed
qed

subsection \<open>Examples\<close>

type_synonym sample_file_admin = "sample_admin \<times> file_record list"

definition sample_file_store :: "sample_file_admin admin_store" where
  "sample_file_store =
     \<lparr>sto_db = on_first_db (sto_db sample_store), sto_configs = on_first (sto_configs sample_store),
      sto_audit = on_first (sto_audit sample_store), sto_events = on_first (sto_events sample_store)\<rparr>"

lemma sample_file_store_laws:
  "store_laws sample_file_store (first_views sample_admin_views) (\<lambda>s. sample_audits (fst s))"
proof -
  note l = store_lawsD [OF sample_store_laws]
  have tabs: "db_users (sto_db sample_file_store) = on_first (db_users (sto_db sample_store))"
    "db_rooms (sto_db sample_file_store) = on_first (db_rooms (sto_db sample_store))"
    "db_members (sto_db sample_file_store) = on_first (db_members (sto_db sample_store))"
    "sto_audit sample_file_store = on_first (sto_audit sample_store)"
    by (simp_all add: sample_file_store_def on_first_db_def)
  have views: "v_users (first_views sample_admin_views :: sample_file_admin views) = (\<lambda>s. v_users sample_admin_views (fst s))"
    "v_rooms (first_views sample_admin_views :: sample_file_admin views) = (\<lambda>s. v_rooms sample_admin_views (fst s))"
    "v_members (first_views sample_admin_views :: sample_file_admin views) = (\<lambda>s. v_members sample_admin_views (fst s))"
    by (simp_all add: first_views_def)
  have "db_laws (sto_db sample_file_store) (first_views sample_admin_views)"
    using on_first_db_laws [OF l(1)] by (simp add: sample_file_store_def)
  then show ?thesis
    unfolding store_laws_def tabs views by (intro conjI on_first_laws on_first_frame l(2-8))
qed

definition sample_file_admin :: "(sample_file_admin, string list) file_admin" where
  "sample_file_admin =
     \<lparr>fa_store = sample_file_store, fa_files = sample_file_table, fa_storage = Some sample_storage, fa_audit = False,
      fa_recreate = (\<lambda>_ s. s)\<rparr>"

lemma sample_storage_laws: "storage_laws set sample_storage"
  by (auto simp: storage_laws_def sample_storage_def dest: in_set_takeD)

definition demo_action :: audit_action where
  "demo_action = \<lparr>aa_admin = 1, aa_name = ''root'', aa_request_id = [], aa_remote_ip = [], aa_user_agent = []\<rparr>"

lemma demo_cleanup_run:
  "cleanup_orphans sample_file_admin 0 demo_action ((demo_admin, [demo_file]), [fi_key demo_file, ''x'']) =
     (((demo_admin, [demo_file]), [fi_key demo_file]), Inr 1)"
proof -
  have "has_prefix s []" for s by (simp add: has_prefix_def)
  then show ?thesis
    by (simp add: cleanup_orphans_def scan_anomalies_def scanned_records_def sample_file_admin_def sample_file_table_def
        list_table_def sort_by_def page_def sample_storage_def delete_orphan_def file_audit_def demo_file_def Let_def)
qed

lemma cleanup_keeps_recent_files_witness:
  "case cleanup_orphans sample_file_admin 0 demo_action ((demo_admin, [demo_file]), [fi_key demo_file, ''x'']) of
     ((s, objects), res) \<Rightarrow> fi_key demo_file \<in> set objects \<and> ''x'' \<notin> set objects"
proof -
  have "fa_files sample_file_admin = sample_file_table" "fa_storage sample_file_admin = Some sample_storage"
    by (simp_all add: sample_file_admin_def)
  with sample_file_laws have "table_laws snd file_assigned file_conflict (fa_files sample_file_admin)"
    "fa_storage sample_file_admin = Some sample_storage" by simp_all
  from cleanup_keeps_recent_files [OF this(1) _ this(2) sample_storage_laws demo_cleanup_run]
  have "fi_key demo_file \<in> set [fi_key demo_file]" by (simp add: demo_files_ok newer_def)
  then show ?thesis unfolding demo_cleanup_run by (simp add: demo_file_def)
qed

lemma demo_delete_run:
  "delete_file sample_file_admin 1 demo_action ((demo_admin, [demo_file]), [fi_key demo_file, ''x'']) =
     (((demo_admin, []), [''x'']), None)"
  by (simp add: delete_file_def get_file_def gorm_first_def sample_file_admin_def sample_file_table_def list_table_def
      query_all_def sort_by_def page_def sample_storage_def file_audit_def file_item_def demo_file_def)

lemma delete_file_effect_witness:
  "\<exists>f \<in> set [demo_file]. set [''x''] = set [fi_key demo_file, ''x''] - {fi_key f}"
proof -
  have f: "fa_files sample_file_admin = sample_file_table" "fa_storage sample_file_admin = Some sample_storage"
    "fa_store sample_file_admin = sample_file_store"
    by (simp_all add: sample_file_admin_def)
  have "table_frame (\<lambda>s. sample_audits (fst s)) sample_file_table" "table_frame snd (sto_audit sample_file_store)"
    unfolding sample_file_table_def sample_file_store_def
    by (rule list_table_frame, simp) (simp add: on_first_frame_snd [of id, simplified] table_frame_def on_first_def)
  with sample_file_laws sample_file_store_laws f
  show ?thesis
    using delete_file_effect [of snd sample_file_admin "first_views sample_admin_views" "\<lambda>s. sample_audits (fst s)"
        sample_storage set 1 demo_action "(demo_admin, [demo_file])" "[fi_key demo_file, ''x'']" "(demo_admin, [])" "[''x'']" None]
      sample_storage_laws demo_delete_run by auto
qed

end
