(* ===== verification/AgentConfig.thy ===== *)
theory AgentConfig
  imports AdminFiles RoomCache
begin

section \<open>The global agent configuration (services/admin/application/agent_config_service.go)\<close>

text \<open>
  The single configuration row, its history of JSON snapshots, the update and the rollback, and the
  handlers of services/admin/api/admin_agent_config.go. The JSON forms of a time and of a float64 are
  parameters (\<open>config_codec\<close>); a number that has none (NaN, an infinity) makes \<open>json.Marshal\<close> fail, whose
  error the code drops. What a decimal(3,2) column keeps of a float64 and a datetime(3) column of a time is a
  parameter too (\<open>config_columns\<close>): a write stores the row as its columns keep it and the code goes on
  with the struct it has in memory.
\<close>

subsection \<open>Rows (models/global_agent_config.go)\<close>

record global_config =
  gc_id :: int
  gc_enabled :: bool
  gc_model :: string
  gc_embedding :: string
  gc_temperature :: float64
  gc_max_tokens :: int
  gc_top_k :: int
  gc_similarity :: float64
  gc_chunk_size :: int
  gc_chunk_overlap :: int
  gc_moderation :: bool
  gc_mod_model :: string
  gc_mod_threshold :: float64
  gc_tools :: bool
  gc_auto_kick :: bool
  gc_auto_ban :: bool
  gc_system_prompt :: string
  gc_mod_prompt :: string
  gc_rag_prompt :: string
  gc_tool_prompt :: string
  gc_updated :: int
  gc_created :: int

record config_history =
  ch_id :: int
  ch_config :: int
  ch_version :: int
  ch_before :: string
  ch_after :: string
  ch_admin :: int
  ch_admin_name :: string
  ch_created :: int

text \<open>The float64 values 0.7 (\<open>seven_tenths\<close>) and 0.75, and the comparison with zero.\<close>

definition three_quarters :: float64 where
  "three_quarters = 0x3FE8000000000000"

definition float_pos :: "float64 \<Rightarrow> bool" where
  "float_pos x \<longleftrightarrow> 0 < x \<and> x \<le> 0x7FF0000000000000"

definition default_global_config :: global_config where
  "default_global_config =
     \<lparr>gc_id = 1, gc_enabled = True, gc_model = ''deepseek-chat'', gc_embedding = ''text-embedding-v3'',
      gc_temperature = seven_tenths, gc_max_tokens = 4096, gc_top_k = 5, gc_similarity = seven_tenths,
      gc_chunk_size = 800, gc_chunk_overlap = 120, gc_moderation = True, gc_mod_model = ''deepseek-chat'',
      gc_mod_threshold = three_quarters, gc_tools = True, gc_auto_kick = False, gc_auto_ban = False,
      gc_system_prompt = [], gc_mod_prompt = [], gc_rag_prompt = [], gc_tool_prompt = [],
      gc_updated = zero_time, gc_created = zero_time\<rparr>"

subsection \<open>JSON\<close>

record config_codec =
  cc_time :: time_json
  cc_parse :: time_parse
  cc_float :: "float64 \<Rightarrow> string option"
  cc_float_parse :: "string \<Rightarrow> float64 option"

definition config_members :: "string \<Rightarrow> string \<Rightarrow> string \<Rightarrow> string \<Rightarrow> string \<Rightarrow> global_config \<Rightarrow> (string \<times> json) list" where
  "config_members t1 t2 t3 upd cre c =
     [(''id'', jint (gc_id c)),
      (''global_enabled'', JBool (gc_enabled c)),
      (''default_model'', JStr (gc_model c)),
      (''embedding_model'', JStr (gc_embedding c)),
      (''temperature'', JNum t1),
      (''max_tokens'', jint (gc_max_tokens c)),
      (''rag_top_k'', jint (gc_top_k c)),
      (''rag_similarity_threshold'', JNum t2),
      (''chunk_size'', jint (gc_chunk_size c)),
      (''chunk_overlap'', jint (gc_chunk_overlap c)),
      (''moderation_enabled'', JBool (gc_moderation c)),
      (''moderation_model'', JStr (gc_mod_model c)),
      (''moderation_threshold'', JNum t3),
      (''tool_calling_enabled'', JBool (gc_tools c)),
      (''auto_kick_enabled'', JBool (gc_auto_kick c)),
      (''auto_ban_enabled'', JBool (gc_auto_ban c)),
      (''system_prompt'', JStr (gc_system_prompt c)),
      (''moderation_prompt'', JStr (gc_mod_prompt c)),
      (''rag_prompt'', JStr (gc_rag_prompt c)),
      (''tool_calling_prompt'', JStr (gc_tool_prompt c)),
      (''updated_at'', JStr upd),
      (''created_at'', JStr cre)]"

definition marshal_config :: "config_codec \<Rightarrow> global_config \<Rightarrow> string option" where
  "marshal_config cc c =
     (case (cc_float cc (gc_temperature c), cc_float cc (gc_similarity c), cc_float cc (gc_mod_threshold c),
            cc_time cc (gc_updated c), cc_time cc (gc_created c)) of
        (Some t1, Some t2, Some t3, Some upd, Some cre) \<Rightarrow> Some (enc_json (JObj (config_members t1 t2 t3 upd cre c)))
      | _ \<Rightarrow> None)"

text \<open>The text of a snapshot; a failed \<open>Marshal\<close> leaves it empty.\<close>

definition config_text :: "config_codec \<Rightarrow> global_config \<Rightarrow> string" where
  "config_text cc c = (case marshal_config cc c of None \<Rightarrow> [] | Some x \<Rightarrow> x)"

definition json_bool :: "json \<Rightarrow> bool option" where
  "json_bool v = (case v of JBool b \<Rightarrow> Some b | _ \<Rightarrow> None)"

definition json_float :: "config_codec \<Rightarrow> json \<Rightarrow> float64 option" where
  "json_float cc v = (case v of JNum n \<Rightarrow> cc_float_parse cc n | _ \<Rightarrow> None)"

definition json_time :: "config_codec \<Rightarrow> json \<Rightarrow> int option" where
  "json_time cc v = (case v of JStr x \<Rightarrow> cc_parse cc x | _ \<Rightarrow> None)"

definition config_fields :: "string list" where
  "config_fields =
     [''id'', ''global_enabled'', ''default_model'', ''embedding_model'', ''temperature'',
      ''max_tokens'', ''rag_top_k'', ''rag_similarity_threshold'', ''chunk_size'', ''chunk_overlap'',
      ''moderation_enabled'', ''moderation_model'', ''moderation_threshold'', ''tool_calling_enabled'',
      ''auto_kick_enabled'', ''auto_ban_enabled'', ''system_prompt'', ''moderation_prompt'',
      ''rag_prompt'', ''tool_calling_prompt'', ''updated_at'', ''created_at'']"

definition set_config :: "config_codec \<Rightarrow> string \<Rightarrow> json \<Rightarrow> global_config \<Rightarrow> global_config option" where
  "set_config cc n v c =
     (if n = ''id'' then map_option (\<lambda>x. c\<lparr>gc_id := x\<rparr>) (json_int 64 v)
      else if n = ''global_enabled'' then map_option (\<lambda>x. c\<lparr>gc_enabled := x\<rparr>) (json_bool v)
      else if n = ''default_model'' then map_option (\<lambda>x. c\<lparr>gc_model := x\<rparr>) (json_str v)
      else if n = ''embedding_model'' then map_option (\<lambda>x. c\<lparr>gc_embedding := x\<rparr>) (json_str v)
      else if n = ''temperature'' then map_option (\<lambda>x. c\<lparr>gc_temperature := x\<rparr>) (json_float cc v)
      else if n = ''max_tokens'' then map_option (\<lambda>x. c\<lparr>gc_max_tokens := x\<rparr>) (json_int 64 v)
      else if n = ''rag_top_k'' then map_option (\<lambda>x. c\<lparr>gc_top_k := x\<rparr>) (json_int 64 v)
      else if n = ''rag_similarity_threshold'' then map_option (\<lambda>x. c\<lparr>gc_similarity := x\<rparr>) (json_float cc v)
      else if n = ''chunk_size'' then map_option (\<lambda>x. c\<lparr>gc_chunk_size := x\<rparr>) (json_int 64 v)
      else if n = ''chunk_overlap'' then map_option (\<lambda>x. c\<lparr>gc_chunk_overlap := x\<rparr>) (json_int 64 v)
      else if n = ''moderation_enabled'' then map_option (\<lambda>x. c\<lparr>gc_moderation := x\<rparr>) (json_bool v)
      else if n = ''moderation_model'' then map_option (\<lambda>x. c\<lparr>gc_mod_model := x\<rparr>) (json_str v)
      else if n = ''moderation_threshold'' then map_option (\<lambda>x. c\<lparr>gc_mod_threshold := x\<rparr>) (json_float cc v)
      else if n = ''tool_calling_enabled'' then map_option (\<lambda>x. c\<lparr>gc_tools := x\<rparr>) (json_bool v)
      else if n = ''auto_kick_enabled'' then map_option (\<lambda>x. c\<lparr>gc_auto_kick := x\<rparr>) (json_bool v)
      else if n = ''auto_ban_enabled'' then map_option (\<lambda>x. c\<lparr>gc_auto_ban := x\<rparr>) (json_bool v)
      else if n = ''system_prompt'' then map_option (\<lambda>x. c\<lparr>gc_system_prompt := x\<rparr>) (json_str v)
      else if n = ''moderation_prompt'' then map_option (\<lambda>x. c\<lparr>gc_mod_prompt := x\<rparr>) (json_str v)
      else if n = ''rag_prompt'' then map_option (\<lambda>x. c\<lparr>gc_rag_prompt := x\<rparr>) (json_str v)
      else if n = ''tool_calling_prompt'' then map_option (\<lambda>x. c\<lparr>gc_tool_prompt := x\<rparr>) (json_str v)
      else if n = ''updated_at'' then map_option (\<lambda>x. c\<lparr>gc_updated := x\<rparr>) (json_time cc v)
      else map_option (\<lambda>x. c\<lparr>gc_created := x\<rparr>) (json_time cc v))"

text \<open>\<open>Unmarshal\<close> into a struct that is in use: absent fields keep their values.\<close>

definition unmarshal_config :: "config_codec \<Rightarrow> string \<Rightarrow> global_config \<Rightarrow> global_config option" where
  "unmarshal_config cc x c = decode_struct config_fields (set_config cc) c x"

subsection \<open>The input of an update\<close>

text \<open>A pointer is an option, nil for an absent or null field.\<close>

record config_input =
  gi_enabled :: "bool option"
  gi_model :: string
  gi_embedding :: string
  gi_temperature :: float64
  gi_max_tokens :: int
  gi_top_k :: int
  gi_similarity :: float64
  gi_chunk_size :: int
  gi_chunk_overlap :: int
  gi_moderation :: "bool option"
  gi_mod_model :: string
  gi_mod_threshold :: float64
  gi_tools :: "bool option"
  gi_auto_kick :: "bool option"
  gi_auto_ban :: "bool option"
  gi_system_prompt :: string
  gi_mod_prompt :: string
  gi_rag_prompt :: string
  gi_tool_prompt :: string

definition set_input :: "config_codec \<Rightarrow> string \<Rightarrow> json \<Rightarrow> config_input \<Rightarrow> config_input option" where
  "set_input cc n v r =
     (if n = ''global_enabled'' then map_option (\<lambda>x. r\<lparr>gi_enabled := Some x\<rparr>) (json_bool v)
      else if n = ''default_model'' then map_option (\<lambda>x. r\<lparr>gi_model := x\<rparr>) (json_str v)
      else if n = ''embedding_model'' then map_option (\<lambda>x. r\<lparr>gi_embedding := x\<rparr>) (json_str v)
      else if n = ''temperature'' then map_option (\<lambda>x. r\<lparr>gi_temperature := x\<rparr>) (json_float cc v)
      else if n = ''max_tokens'' then map_option (\<lambda>x. r\<lparr>gi_max_tokens := x\<rparr>) (json_int 64 v)
      else if n = ''rag_top_k'' then map_option (\<lambda>x. r\<lparr>gi_top_k := x\<rparr>) (json_int 64 v)
      else if n = ''rag_similarity_threshold'' then map_option (\<lambda>x. r\<lparr>gi_similarity := x\<rparr>) (json_float cc v)
      else if n = ''chunk_size'' then map_option (\<lambda>x. r\<lparr>gi_chunk_size := x\<rparr>) (json_int 64 v)
      else if n = ''chunk_overlap'' then map_option (\<lambda>x. r\<lparr>gi_chunk_overlap := x\<rparr>) (json_int 64 v)
      else if n = ''moderation_enabled'' then map_option (\<lambda>x. r\<lparr>gi_moderation := Some x\<rparr>) (json_bool v)
      else if n = ''moderation_model'' then map_option (\<lambda>x. r\<lparr>gi_mod_model := x\<rparr>) (json_str v)
      else if n = ''moderation_threshold'' then map_option (\<lambda>x. r\<lparr>gi_mod_threshold := x\<rparr>) (json_float cc v)
      else if n = ''tool_calling_enabled'' then map_option (\<lambda>x. r\<lparr>gi_tools := Some x\<rparr>) (json_bool v)
      else if n = ''auto_kick_enabled'' then map_option (\<lambda>x. r\<lparr>gi_auto_kick := Some x\<rparr>) (json_bool v)
      else if n = ''auto_ban_enabled'' then map_option (\<lambda>x. r\<lparr>gi_auto_ban := Some x\<rparr>) (json_bool v)
      else if n = ''system_prompt'' then map_option (\<lambda>x. r\<lparr>gi_system_prompt := x\<rparr>) (json_str v)
      else if n = ''moderation_prompt'' then map_option (\<lambda>x. r\<lparr>gi_mod_prompt := x\<rparr>) (json_str v)
      else if n = ''rag_prompt'' then map_option (\<lambda>x. r\<lparr>gi_rag_prompt := x\<rparr>) (json_str v)
      else map_option (\<lambda>x. r\<lparr>gi_tool_prompt := x\<rparr>) (json_str v))"

definition bind_config_input :: "config_codec \<Rightarrow> string \<Rightarrow> config_input option" where
  "bind_config_input cc body =
     bind_json
       [''global_enabled'', ''default_model'', ''embedding_model'', ''temperature'', ''max_tokens'',
        ''rag_top_k'', ''rag_similarity_threshold'', ''chunk_size'', ''chunk_overlap'',
        ''moderation_enabled'', ''moderation_model'', ''moderation_threshold'',
        ''tool_calling_enabled'', ''auto_kick_enabled'', ''auto_ban_enabled'', ''system_prompt'',
        ''moderation_prompt'', ''rag_prompt'', ''tool_calling_prompt'']
       (set_input cc)
       \<lparr>gi_enabled = None, gi_model = [], gi_embedding = [], gi_temperature = 0, gi_max_tokens = 0,
        gi_top_k = 0, gi_similarity = 0, gi_chunk_size = 0, gi_chunk_overlap = 0, gi_moderation = None,
        gi_mod_model = [], gi_mod_threshold = 0, gi_tools = None, gi_auto_kick = None, gi_auto_ban = None,
        gi_system_prompt = [], gi_mod_prompt = [], gi_rag_prompt = [], gi_tool_prompt = []\<rparr> body"

text \<open>Absent, empty, zero and negative inputs leave the field alone.\<close>

definition merge_config :: "config_input \<Rightarrow> global_config \<Rightarrow> global_config" where
  "merge_config i c =
     c\<lparr>gc_enabled := (case gi_enabled i of None \<Rightarrow> gc_enabled c | Some b \<Rightarrow> b),
       gc_model := (if gi_model i = [] then gc_model c else gi_model i),
       gc_embedding := (if gi_embedding i = [] then gc_embedding c else gi_embedding i),
       gc_temperature := (if float_pos (gi_temperature i) then gi_temperature i else gc_temperature c),
       gc_max_tokens := (if 0 < gi_max_tokens i then gi_max_tokens i else gc_max_tokens c),
       gc_top_k := (if 0 < gi_top_k i then gi_top_k i else gc_top_k c),
       gc_similarity := (if float_pos (gi_similarity i) then gi_similarity i else gc_similarity c),
       gc_chunk_size := (if 0 < gi_chunk_size i then gi_chunk_size i else gc_chunk_size c),
       gc_chunk_overlap := (if 0 < gi_chunk_overlap i then gi_chunk_overlap i else gc_chunk_overlap c),
       gc_moderation := (case gi_moderation i of None \<Rightarrow> gc_moderation c | Some b \<Rightarrow> b),
       gc_mod_model := (if gi_mod_model i = [] then gc_mod_model c else gi_mod_model i),
       gc_mod_threshold := (if float_pos (gi_mod_threshold i) then gi_mod_threshold i else gc_mod_threshold c),
       gc_tools := (case gi_tools i of None \<Rightarrow> gc_tools c | Some b \<Rightarrow> b),
       gc_auto_kick := (case gi_auto_kick i of None \<Rightarrow> gc_auto_kick c | Some b \<Rightarrow> b),
       gc_auto_ban := (case gi_auto_ban i of None \<Rightarrow> gc_auto_ban c | Some b \<Rightarrow> b),
       gc_system_prompt := (if gi_system_prompt i = [] then gc_system_prompt c else gi_system_prompt i),
       gc_mod_prompt := (if gi_mod_prompt i = [] then gc_mod_prompt c else gi_mod_prompt i),
       gc_rag_prompt := (if gi_rag_prompt i = [] then gc_rag_prompt c else gi_rag_prompt i),
       gc_tool_prompt := (if gi_tool_prompt i = [] then gc_tool_prompt c else gi_tool_prompt i)\<rparr>"

subsection \<open>The service\<close>

record 's agent_admin =
  ag_store :: "'s admin_store"
  ag_global :: "('s, global_config) table"
  ag_history :: "('s, config_history) table"
  ag_decimal :: "float64 \<Rightarrow> float64"
  ag_datetime :: "int \<Rightarrow> int"
  ag_audit :: bool

datatype config_error = ConfigStore db_error | NoHistory | NoSnapshot | BadSnapshot

text \<open>The row that is stored of a struct: the decimal(3,2) and the datetime(3) columns convert.\<close>

definition config_columns :: "'s agent_admin \<Rightarrow> global_config \<Rightarrow> global_config" where
  "config_columns ag c =
     c\<lparr>gc_temperature := ag_decimal ag (gc_temperature c), gc_similarity := ag_decimal ag (gc_similarity c),
       gc_mod_threshold := ag_decimal ag (gc_mod_threshold c), gc_updated := ag_datetime ag (gc_updated c),
       gc_created := ag_datetime ag (gc_created c)\<rparr>"

text \<open>\<open>Create\<close> fills the zero times of the struct with the present time.\<close>

definition get_or_create :: "'s agent_admin \<Rightarrow> int \<Rightarrow> 's \<Rightarrow> 's \<times> (db_error + global_config)" where
  "get_or_create ag now s =
     (case gorm_first (ag_global ag) gc_id (\<lambda>c. gc_id c = 1) s of
        Inr c \<Rightarrow> (s, Inr c)
      | Inl e \<Rightarrow>
          if e \<noteq> RecordNotFound then (s, Inl e)
          else (let c = default_global_config\<lparr>gc_updated := now, gc_created := now\<rparr>
                in case t_create (ag_global ag) (config_columns ag c) s of
                     (s', Inl e) \<Rightarrow> (s', Inl e)
                   | (s', Inr _) \<Rightarrow> (s', Inr c)))"

text \<open>\<open>Save\<close> writes all columns and puts the time of the update into the row and the struct.\<close>

definition save_config :: "'s agent_admin \<Rightarrow> int \<Rightarrow> global_config \<Rightarrow> 's \<Rightarrow> 's \<times> (db_error + global_config)" where
  "save_config ag now c s =
     (let c' = c\<lparr>gc_updated := now\<rparr>
      in case gorm_save (ag_global ag) gc_id (config_columns ag c') s of
           (s', Inl e) \<Rightarrow> (s', Inl e)
         | (s', Inr _) \<Rightarrow> (s', Inr c'))"

text \<open>\<open>SELECT COALESCE(MAX(version), 0)\<close>.\<close>

definition max_version :: "'s agent_admin \<Rightarrow> int \<Rightarrow> 's \<Rightarrow> db_error + int" where
  "max_version ag configID s =
     map_sum id (\<lambda>hs. case map ch_version hs of [] \<Rightarrow> 0 | v # vs \<Rightarrow> fold max vs v)
       (t_find (ag_history ag) (query_all (\<lambda>h. ch_config h = configID)) s)"

definition append_history ::
    "'s agent_admin \<Rightarrow> int \<Rightarrow> int \<Rightarrow> string \<Rightarrow> string \<Rightarrow> audit_action \<Rightarrow> 's \<Rightarrow> 's \<times> (db_error + unit)" where
  "append_history ag now configID bef aft a s =
     (case max_version ag configID s of
        Inl e \<Rightarrow> (s, Inl e)
      | Inr v \<Rightarrow>
          map_prod id (map_sum id (\<lambda>_. ()))
            (t_create (ag_history ag)
               \<lparr>ch_id = 0, ch_config = configID, ch_version = int64_of (v + 1), ch_before = bef, ch_after = aft,
                ch_admin = aa_admin a, ch_admin_name = aa_name a, ch_created = now\<rparr> s))"

text \<open>The transaction of an update and of a rollback.\<close>

definition store_config ::
    "'s agent_admin \<Rightarrow> config_codec \<Rightarrow> int \<Rightarrow> string \<Rightarrow> global_config \<Rightarrow> audit_action \<Rightarrow> 's \<Rightarrow>
     's \<times> (db_error + global_config)" where
  "store_config ag cc now bef c a =
     transaction (db_commit (sto_db (ag_store ag)))
       (\<lambda>s. case save_config ag now c s of
              (s1, Inl e) \<Rightarrow> (s1, Inl e)
            | (s1, Inr c') \<Rightarrow>
                (case append_history ag now (gc_id c') bef (config_text cc c') a s1 of
                   (s2, Inl e) \<Rightarrow> (s2, Inl e)
                 | (s2, Inr _) \<Rightarrow> (s2, Inr c')))"

definition config_audit ::
    "'s agent_admin \<Rightarrow> audit_action \<Rightarrow> string \<Rightarrow> string \<Rightarrow> audit_data \<Rightarrow> audit_data \<Rightarrow> 's \<Rightarrow> 's" where
  "config_audit ag a what target bef aft s =
     (if ag_audit ag
      then fst (audit_write (ag_store ag)
             \<lparr>ae_admin_user_id = aa_admin a, ae_admin_username = aa_name a, ae_action = what,
              ae_target_type = ''global_agent_config'', ae_target_id = target, ae_before = bef, ae_after = aft,
              ae_request_id = aa_request_id a, ae_remote_ip = aa_remote_ip a, ae_user_agent = aa_user_agent a,
              ae_result = ''success'', ae_error = []\<rparr> s)
      else s)"

definition update_config ::
    "'s agent_admin \<Rightarrow> config_codec \<Rightarrow> int \<Rightarrow> config_input \<Rightarrow> audit_action \<Rightarrow> 's \<Rightarrow> 's \<times> (config_error + global_config)" where
  "update_config ag cc now input a s =
     (case get_or_create ag now s of
        (s0, Inl e) \<Rightarrow> (s0, Inl (ConfigStore e))
      | (s0, Inr c) \<Rightarrow>
          (case store_config ag cc now (config_text cc c) (merge_config input c) a s0 of
             (s1, Inl e) \<Rightarrow> (s1, Inl (ConfigStore e))
           | (s1, Inr c') \<Rightarrow>
               (config_audit ag a ''agent.config.update'' (format_int (gc_id c')) (TextData (config_text cc c))
                  (TextData (config_text cc c')) s1, Inr c')))"

definition config_history_page :: "'s agent_admin \<Rightarrow> int \<Rightarrow> int \<Rightarrow> 's \<Rightarrow> db_error + config_history list \<times> int" where
  "config_history_page ag pg n s = list_page (ag_history ag) ch_id pg n (\<lambda>h. ch_config h = 1) s"

definition latest_history :: "'s agent_admin \<Rightarrow> 's \<Rightarrow> db_error + config_history" where
  "latest_history ag s = gorm_first (ag_history ag) (\<lambda>h. - ch_id h) (\<lambda>h. ch_config h = 1) s"

definition rollback_config ::
    "'s agent_admin \<Rightarrow> config_codec \<Rightarrow> int \<Rightarrow> audit_action \<Rightarrow> 's \<Rightarrow> 's \<times> (config_error + global_config)" where
  "rollback_config ag cc now a s =
     (case latest_history ag s of
        Inl e \<Rightarrow> (s, Inl (if e = RecordNotFound then NoHistory else ConfigStore e))
      | Inr latest \<Rightarrow>
          if ch_before latest = [] then (s, Inl NoSnapshot)
          else (case get_or_create ag now s of
                  (s0, Inl e) \<Rightarrow> (s0, Inl (ConfigStore e))
                | (s0, Inr c) \<Rightarrow>
                    (case unmarshal_config cc (ch_before latest) c of
                       None \<Rightarrow> (s0, Inl BadSnapshot)
                     | Some c1 \<Rightarrow>
                         (case store_config ag cc now (config_text cc c) (c1\<lparr>gc_id := 1\<rparr>) a s0 of
                            (s1, Inl e) \<Rightarrow> (s1, Inl (ConfigStore e))
                          | (s1, Inr c') \<Rightarrow>
                              (config_audit ag a ''agent.config.rollback'' ''1'' NoData NoData s1, Inr c')))))"

subsection \<open>The handlers (services/admin/api/admin_agent_config.go)\<close>

datatype config_body =
    ConfigMissing | ConfigFailed | BadConfig | RollbackFailed config_error | ConfigDetail global_config
  | ConfigHistory "config_history list" int int int

definition admin_agent_config_get :: "'s agent_admin option \<Rightarrow> int \<Rightarrow> 's \<Rightarrow> 's \<times> config_body reply" where
  "admin_agent_config_get svc now s =
     (case svc of
        None \<Rightarrow> (s, (503, ConfigMissing))
      | Some ag \<Rightarrow>
          (case get_or_create ag now s of
             (s', Inl _) \<Rightarrow> (s', (500, ConfigFailed))
           | (s', Inr c) \<Rightarrow> (s', (200, ConfigDetail c))))"

definition admin_agent_config_update ::
    "'s agent_admin option \<Rightarrow> config_codec \<Rightarrow> int \<Rightarrow> admin_request \<Rightarrow> string \<Rightarrow> 's \<Rightarrow> 's \<times> config_body reply" where
  "admin_agent_config_update svc cc now q body s =
     (case svc of
        None \<Rightarrow> (s, (503, ConfigMissing))
      | Some ag \<Rightarrow>
          (case bind_config_input cc body of
             None \<Rightarrow> (s, (400, BadConfig))
           | Some input \<Rightarrow>
               (case update_config ag cc now input (admin_audit_action q) s of
                  (s', Inl _) \<Rightarrow> (s', (500, ConfigFailed))
                | (s', Inr c) \<Rightarrow> (s', (200, ConfigDetail c)))))"

definition admin_agent_config_rollback ::
    "'s agent_admin option \<Rightarrow> config_codec \<Rightarrow> int \<Rightarrow> admin_request \<Rightarrow> 's \<Rightarrow> 's \<times> config_body reply" where
  "admin_agent_config_rollback svc cc now q s =
     (case svc of
        None \<Rightarrow> (s, (503, ConfigMissing))
      | Some ag \<Rightarrow>
          (case rollback_config ag cc now (admin_audit_action q) s of
             (s', Inl e) \<Rightarrow> (s', (500, RollbackFailed e))
           | (s', Inr c) \<Rightarrow> (s', (200, ConfigDetail c))))"

definition admin_agent_config_history :: "'s agent_admin option \<Rightarrow> admin_request \<Rightarrow> 's \<Rightarrow> config_body reply" where
  "admin_agent_config_history svc q s =
     (case svc of
        None \<Rightarrow> (503, ConfigMissing)
      | Some ag \<Rightarrow>
          (let pg = list_page_number q; n = list_page_size q
           in case config_history_page ag pg n s of
                Inl _ \<Rightarrow> (500, ConfigFailed)
              | Inr (items, k) \<Rightarrow> (200, ConfigHistory items k pg n)))"

subsection \<open>A snapshot can be read back\<close>

text \<open>What \<open>encoding/json\<close> documents of times and floats: the text it writes is a JSON string or number
  that reads back as the same value.\<close>

definition codec_laws :: "config_codec \<Rightarrow> bool" where
  "codec_laws cc \<longleftrightarrow>
     (\<forall>t x. cc_time cc t = Some x \<longrightarrow> valid_utf8 x \<and> cc_parse cc x = Some t) \<and>
     (\<forall>f n. cc_float cc f = Some n \<longrightarrow> scan_number n = Some (n, []) \<and> cc_float_parse cc n = Some f)"

text \<open>A configuration the struct can hold: integers of 64 bits, strings of UTF-8.\<close>

definition config_ok :: "global_config \<Rightarrow> bool" where
  "config_ok c \<longleftrightarrow>
     list_all is_int64 [gc_id c, gc_max_tokens c, gc_top_k c, gc_chunk_size c, gc_chunk_overlap c] \<and>
     list_all valid_utf8 [gc_model c, gc_embedding c, gc_mod_model c, gc_system_prompt c, gc_mod_prompt c,
                          gc_rag_prompt c, gc_tool_prompt c]"

lemma config_roundtrip:
  assumes cc: "codec_laws cc" and ok: "config_ok c" and m: "marshal_config cc c = Some x"
  shows "unmarshal_config cc x c0 = Some c"
proof -
  from m obtain t1 t2 t3 upd cre where t: "cc_float cc (gc_temperature c) = Some t1" "cc_float cc (gc_similarity c) = Some t2"
      "cc_float cc (gc_mod_threshold c) = Some t3" "cc_time cc (gc_updated c) = Some upd"
      "cc_time cc (gc_created c) = Some cre" "x = enc_json (JObj (config_members t1 t2 t3 upd cre c))"
    by (auto simp: marshal_config_def split: option.splits)
  note parts = cc [unfolded codec_laws_def, THEN conjunct1, rule_format, OF t(4)]
    cc [unfolded codec_laws_def, THEN conjunct1, rule_format, OF t(5)]
    cc [unfolded codec_laws_def, THEN conjunct2, rule_format, OF t(1)]
    cc [unfolded codec_laws_def, THEN conjunct2, rule_format, OF t(2)]
    cc [unfolded codec_laws_def, THEN conjunct2, rule_format, OF t(3)]
  note ok' = ok [unfolded config_ok_def, simplified]
  show ?thesis
    unfolding unmarshal_config_def t(6)
  proof (rule decode_struct_object)
    show "fold (decode_member config_fields (set_config cc)) (config_members t1 t2 t3 upd cre c) (c0, True) = (c, True)"
      by (cases c0; cases c)
        (use parts ok' in \<open>simp add: config_members_def decode_member_def match_field_def config_fields_def set_config_def
           json_str_def json_bool_def json_float_def json_time_def\<close>)
  qed (use parts ok' in \<open>simp_all add: max_depth_def config_members_def\<close>)
qed

subsection \<open>Rollback\<close>

definition history_assigned :: "config_history \<Rightarrow> config_history \<Rightarrow> bool" where
  "history_assigned h h' \<longleftrightarrow>
     h' = h\<lparr>ch_id := ch_id h', ch_version := (if ch_version h = 0 then 1 else ch_version h),
           ch_created := ch_created h'\<rparr>"

definition config_conflict :: "global_config list \<Rightarrow> global_config \<Rightarrow> bool" where
  "config_conflict cs c \<longleftrightarrow> (\<exists>x \<in> set cs. gc_id x = gc_id c)"

text \<open>
  The laws of the tables; the keys of the history grow (\<open>AUTO_INCREMENT\<close>). A value that a column has kept
  is kept as it is when it is written again.
\<close>

definition agent_laws :: "'s agent_admin \<Rightarrow> ('s \<Rightarrow> global_config list) \<Rightarrow> ('s \<Rightarrow> config_history list) \<Rightarrow> bool" where
  "agent_laws ag configs hists \<longleftrightarrow>
     table_laws configs (=) config_conflict (ag_global ag) \<and>
     table_laws hists history_assigned (\<lambda>_ _. False) (ag_history ag) \<and>
     table_frame hists (ag_global ag) \<and> table_frame configs (ag_history ag) \<and>
     table_frame configs (sto_audit (ag_store ag)) \<and> table_frame hists (sto_audit (ag_store ag)) \<and>
     (\<forall>h s s' h'. t_create (ag_history ag) h s = (s', Inr h') \<longrightarrow> (\<forall>x \<in> set (hists s). ch_id x < ch_id h')) \<and>
     (\<forall>x. ag_decimal ag (ag_decimal ag x) = ag_decimal ag x) \<and> (\<forall>x. ag_datetime ag (ag_datetime ag x) = ag_datetime ag x)"

lemma agent_lawsD:
  assumes "agent_laws ag configs hists"
  shows "table_laws configs (=) config_conflict (ag_global ag)"
    and "table_laws hists history_assigned (\<lambda>_ _. False) (ag_history ag)"
    and "table_frame hists (ag_global ag)" and "table_frame configs (ag_history ag)"
    and "table_frame configs (sto_audit (ag_store ag))" and "table_frame hists (sto_audit (ag_store ag))"
    and "t_create (ag_history ag) h s = (s', Inr h') \<Longrightarrow> x \<in> set (hists s) \<Longrightarrow> ch_id x < ch_id h'"
    and "config_columns ag (config_columns ag c) = config_columns ag c"
proof -
  note laws = assms [unfolded agent_laws_def]
  show "table_laws configs (=) config_conflict (ag_global ag)" using laws by blast
  show "table_laws hists history_assigned (\<lambda>_ _. False) (ag_history ag)" using laws by blast
  show "table_frame hists (ag_global ag)" "table_frame configs (ag_history ag)" using laws by blast+
  show "table_frame configs (sto_audit (ag_store ag))" "table_frame hists (sto_audit (ag_store ag))" using laws by blast+
  show "t_create (ag_history ag) h s = (s', Inr h') \<Longrightarrow> x \<in> set (hists s) \<Longrightarrow> ch_id x < ch_id h'" using laws by blast
  show "config_columns ag (config_columns ag c) = config_columns ag c" using laws by (simp add: config_columns_def)
qed

text \<open>The row of the configuration and the snapshot a rollback would go back to.\<close>

definition current_config :: "'s agent_admin \<Rightarrow> ('s \<Rightarrow> global_config list) \<Rightarrow> 's \<Rightarrow> global_config \<Rightarrow> bool" where
  "current_config ag configs s c \<longleftrightarrow> configs s = [c] \<and> gc_id c = 1 \<and> config_columns ag c = c"

definition last_snapshot :: "('s \<Rightarrow> config_history list) \<Rightarrow> 's \<Rightarrow> string \<Rightarrow> bool" where
  "last_snapshot hists s x \<longleftrightarrow>
     (\<exists>h \<in> set (hists s). ch_config h = 1 \<and> ch_before h = x \<and> (\<forall>y \<in> set (hists s). y = h \<or> ch_id y < ch_id h))"

lemma get_or_create_current:
  assumes laws: "agent_laws ag configs hists" and cur: "current_config ag configs s c"
    and g: "get_or_create ag now s = (s0, Inr c')"
  shows "s0 = s \<and> c' = c"
proof (cases "gorm_first (ag_global ag) gc_id (\<lambda>c. gc_id c = 1) s")
  case (Inr d)
  with gorm_first_Inr [OF agent_lawsD(1) [OF laws] Inr] cur g show ?thesis
    by (auto simp: get_or_create_def current_config_def)
next
  case (Inl e)
  let ?c = "config_columns ag (default_global_config\<lparr>gc_updated := now, gc_created := now\<rparr>)"
  from Inl g obtain d where "t_create (ag_global ag) ?c s = (s0, Inr d)"
    by (auto simp: get_or_create_def Let_def split: if_splits prod.splits sum.splits)
  from table_lawsD(4) [OF agent_lawsD(1) [OF laws] this] cur have "gc_id ?c \<noteq> 1"
    by (auto simp: config_conflict_def current_config_def)
  then show ?thesis by (simp add: config_columns_def default_global_config_def)
qed

lemma config_audit_frame:
  assumes laws: "agent_laws ag configs hists"
  shows "configs (config_audit ag a w t b f s) = configs s" and "hists (config_audit ag a w t b f s) = hists s"
  using agent_lawsD(5,6) [OF laws]
  by (simp_all add: config_audit_def audit_write_def table_frame_def)

lemma store_config_current:
  assumes laws: "agent_laws ag configs hists" and cur: "current_config ag configs s d" and c: "gc_id c = 1"
    and st: "store_config ag cc now bef c a s = (s', Inr c')"
  shows "c' = c\<lparr>gc_updated := now\<rparr>" and "current_config ag configs s' (config_columns ag c')"
    and "last_snapshot hists s' bef"
proof -
  let ?c = "c\<lparr>gc_updated := now\<rparr>"
  have id: "gc_id (config_columns ag ?c) = 1" using c by (simp add: config_columns_def)
  have f: "(case save_config ag now c s of
              (s1, Inl e) \<Rightarrow> (s1, Inl e)
            | (s1, Inr c') \<Rightarrow>
                (case append_history ag now (gc_id c') bef (config_text cc c') a s1 of
                   (s2, Inl e) \<Rightarrow> (s2, Inl e)
                 | (s2, Inr _) \<Rightarrow> (s2, Inr c'))) = (s', Inr c')"
    by (rule transaction_cases(2) [OF st [unfolded store_config_def]])
  obtain s1 x where sv: "gorm_save (ag_global ag) gc_id (config_columns ag ?c) s = (s1, x)" by fastforce
  with f have "x = Inr ()" by (auto simp: save_config_def Let_def split: sum.splits)
  with f sv have c': "c' = ?c" "append_history ag now 1 bef (config_text cc ?c) a s1 = (s', Inr ())"
    using c by (auto simp: save_config_def Let_def split: sum.splits prod.splits)
  then show "c' = c\<lparr>gc_updated := now\<rparr>" by simp
  have there: "\<exists>x \<in> set (configs s). gc_id x = gc_id (config_columns ag ?c)"
    using cur id by (simp add: current_config_def)
  note save = gorm_save_update [OF agent_lawsD(1) [OF laws] sv [unfolded \<open>x = Inr ()\<close>] there]
  have "configs s1 = [config_columns ag ?c]" using save(2) cur id by (simp add: current_config_def)
  moreover obtain v h where h: "t_create (ag_history ag)
      \<lparr>ch_id = 0, ch_config = 1, ch_version = v, ch_before = bef, ch_after = config_text cc ?c,
       ch_admin = aa_admin a, ch_admin_name = aa_name a, ch_created = now\<rparr> s1 = (s', Inr h)"
    using c'(2) by (auto simp: append_history_def map_prod_def split: sum.splits prod.splits)
      (metis (no_types, lifting) Inl_Inr_False map_sum.simps(1) sum.exhaust)
  moreover have "configs s' = configs s1" by (rule table_frameD(1) [OF agent_lawsD(4) [OF laws] h])
  ultimately show "current_config ag configs s' (config_columns ag c')"
    using c' id agent_lawsD(8) [OF laws] by (simp add: current_config_def)
  note hl = table_lawsD(4) [OF agent_lawsD(2) [OF laws] h]
  have "ch_config h = 1" "ch_before h = bef" using hl by (cases h; simp add: history_assigned_def)+
  then show "last_snapshot hists s' bef"
    using hl agent_lawsD(7) [OF laws h] unfolding last_snapshot_def by (intro bexI [of _ h]) auto
qed

lemma update_config_current:
  assumes laws: "agent_laws ag configs hists" and cur: "current_config ag configs s c"
    and up: "update_config ag cc now input a s = (s', Inr c')"
  shows "c' = (merge_config input c)\<lparr>gc_updated := now\<rparr>" and "current_config ag configs s' (config_columns ag c')"
    and "last_snapshot hists s' (config_text cc c)"
proof -
  have m: "gc_id (merge_config input c) = 1" using cur by (simp add: merge_config_def current_config_def)
  obtain s0 d where g: "get_or_create ag now s = (s0, Inr d)"
    using up by (auto simp: update_config_def split: prod.splits sum.splits)
  from get_or_create_current [OF laws cur g] have "s0 = s" "d = c" by auto
  with g up obtain s1 where s1: "store_config ag cc now (config_text cc c) (merge_config input c) a s = (s1, Inr c')"
      "configs s' = configs s1" "hists s' = hists s1"
    using config_audit_frame [OF laws] by (auto simp: update_config_def split: prod.splits sum.splits)
  from store_config_current [OF laws cur m s1(1)] s1(2,3)
  show "c' = (merge_config input c)\<lparr>gc_updated := now\<rparr>" "current_config ag configs s' (config_columns ag c')"
    "last_snapshot hists s' (config_text cc c)"
    by (simp_all add: current_config_def last_snapshot_def)
qed

lemma latest_history_snapshot:
  assumes laws: "agent_laws ag configs hists" and last: "last_snapshot hists s x" and l: "latest_history ag s = Inr h"
  shows "ch_before h = x"
proof -
  obtain k where k: "k \<in> set (hists s)" "ch_config k = 1" "ch_before k = x"
      "\<forall>y \<in> set (hists s). y = k \<or> ch_id y < ch_id k"
    using last by (auto simp: last_snapshot_def)
  have "h \<in> set (hists s) \<and> ch_config h = 1 \<and> (\<forall>y \<in> set (hists s). ch_config y = 1 \<longrightarrow> - ch_id h \<le> - ch_id y)"
    by (rule gorm_first_Inr [OF agent_lawsD(2) [OF laws] l [unfolded latest_history_def]])
  with k have "h = k" by fastforce
  with k(3) show ?thesis by simp
qed

lemma rollback_config_current:
  assumes laws: "agent_laws ag configs hists" and codec: "codec_laws cc" and cur: "current_config ag configs s c"
    and last: "last_snapshot hists s (config_text cc b)" and b: "config_ok b" "gc_id b = 1"
    and rb: "rollback_config ag cc now a s = (s', Inr c')"
  shows "c' = b\<lparr>gc_updated := now\<rparr>" and "current_config ag configs s' (config_columns ag c')"
    and "last_snapshot hists s' (config_text cc c)"
proof -
  obtain h where h: "latest_history ag s = Inr h" "ch_before h \<noteq> []"
    using rb by (auto simp: rollback_config_def split: sum.splits if_splits)
  have bef: "ch_before h = config_text cc b" by (rule latest_history_snapshot [OF laws last h(1)])
  then obtain x where x: "marshal_config cc b = Some x" "ch_before h = x"
    using h(2) by (auto simp: config_text_def split: option.splits)
  have un: "unmarshal_config cc (ch_before h) d = Some b" for d
    using config_roundtrip [OF codec b(1) x(1)] x(2) by simp
  obtain s0 d where g: "get_or_create ag now s = (s0, Inr d)"
    using rb h by (auto simp: rollback_config_def split: prod.splits sum.splits)
  from get_or_create_current [OF laws cur g] have "s0 = s" "d = c" by auto
  with g rb h un have "\<exists>s1. store_config ag cc now (config_text cc c) (b\<lparr>gc_id := 1\<rparr>) a s = (s1, Inr c') \<and>
      configs s' = configs s1 \<and> hists s' = hists s1"
    using config_audit_frame [OF laws] by (auto simp: rollback_config_def split: prod.splits sum.splits)
  then obtain s1 where s1: "store_config ag cc now (config_text cc c) (b\<lparr>gc_id := 1\<rparr>) a s = (s1, Inr c')"
      "configs s' = configs s1" "hists s' = hists s1" by blast
  have "b\<lparr>gc_id := 1\<rparr> = b" using b(2) by (cases b) simp
  with b(2) store_config_current [OF laws cur _ s1(1)] s1(2,3)
  show "c' = b\<lparr>gc_updated := now\<rparr>" "current_config ag configs s' (config_columns ag c')"
    "last_snapshot hists s' (config_text cc c)"
    by (simp_all add: current_config_def last_snapshot_def)
qed

lemma config_columns_updated:
  "config_columns ag c = c \<Longrightarrow> config_columns ag (c\<lparr>gc_updated := t\<rparr>) = c\<lparr>gc_updated := ag_datetime ag t\<rparr>"
  by (cases c) (simp add: config_columns_def)

lemma config_ok_columns [simp]: "config_ok (config_columns ag c) = config_ok c"
  by (simp add: config_ok_def config_columns_def)

text \<open>C37: A rollback after an update goes back, through the JSON snapshot in the history, to exactly the
  configuration whose row was there before the update: the reply shows it and the row holds it again, only
  the time of the change is new. A second rollback does not go one version further back: the first one has
  become the latest change, so the update is in force again. What comes back is what the columns kept of
  it: the reply to the update showed the numbers as they were given, the second rollback shows them as the
  decimal(3,2) columns hold them and the times as the datetime(3) columns do. This is when the update and
  both rollbacks report success, nobody else changes the configuration in between, and its strings are
  UTF-8 and its integers 64 bits wide.\<close>

theorem rollback_undoes_update:
  assumes laws: "agent_laws ag configs hists" and codec: "codec_laws cc"
    and cur: "current_config ag configs s c" and ok: "config_ok c" "config_ok (merge_config input c)"
    and up: "update_config ag cc t1 input a1 s = (s1, Inr c1)"
    and rb: "rollback_config ag cc t2 a2 s1 = (s2, Inr c2)"
    and rb': "rollback_config ag cc t3 a3 s2 = (s3, Inr c3)"
  shows "c1 = (merge_config input c)\<lparr>gc_updated := t1\<rparr> \<and> configs s1 = [config_columns ag c1] \<and>
         c2 = c\<lparr>gc_updated := t2\<rparr> \<and> configs s2 = [c\<lparr>gc_updated := ag_datetime ag t2\<rparr>] \<and>
         c3 = (config_columns ag c1)\<lparr>gc_updated := t3\<rparr> \<and>
         configs s3 = [(config_columns ag c1)\<lparr>gc_updated := ag_datetime ag t3\<rparr>]"
proof -
  note u = update_config_current [OF laws cur up]
  have id: "gc_id c = 1" and col: "config_columns ag c = c" using cur by (simp_all add: current_config_def)
  note r = rollback_config_current [OF laws codec u(2,3) ok(1) id rb]
  have c1: "config_ok (config_columns ag c1)" "gc_id (config_columns ag c1) = 1"
    using ok(2) u(1) id by (simp_all add: config_ok_def merge_config_def config_columns_def)
  note r' = rollback_config_current [OF laws codec r(2,3) c1 rb']
  show ?thesis
    using u(1,2) r(1,2) r'(1,2) config_columns_updated [OF col] config_columns_updated [OF agent_lawsD(8) [OF laws]]
    by (simp add: current_config_def)
qed

subsection \<open>Examples\<close>

type_synonym sample_agent = "global_config list \<times> config_history list"

definition empty_table :: "('s, 'r) table" where
  "empty_table = list_table (\<lambda>_. []) (\<lambda>_ s. s) (\<lambda>_ r. r) (\<lambda>_ _. True)"

text \<open>Times are rounded to milliseconds; of a number the last bit is dropped.\<close>

definition sample_agent :: "sample_agent agent_admin" where
  "sample_agent =
     \<lparr>ag_store =
        \<lparr>sto_db = \<lparr>db_users = empty_table, db_rooms = empty_table, db_members = empty_table, db_commit = (\<lambda>_. None),
                   db_like = (\<lambda>_ _. True), db_rooms_of = (\<lambda>_ _. Inr []), db_users_of = (\<lambda>_ _. Inr [])\<rparr>,
         sto_configs = empty_table, sto_audit = empty_table, sto_events = empty_table\<rparr>,
      ag_global = list_table fst (\<lambda>xs s. (xs, snd s)) (\<lambda>_ c. c) config_conflict,
      ag_history = list_table snd (\<lambda>xs s. (fst s, xs))
        (\<lambda>xs h. h\<lparr>ch_id := next_key ch_id xs, ch_version := (if ch_version h = 0 then 1 else ch_version h)\<rparr>)
        (\<lambda>_ _. False),
      ag_decimal = and 0xFFFFFFFFFFFFFFFE, ag_datetime = (\<lambda>x. (x + 500000) div 1000000 * 1000000),
      ag_audit = False\<rparr>"

lemma fold_max_start: "(a :: int) \<le> fold max xs a"
proof (induction xs arbitrary: a)
  case (Cons x xs)
  from Cons [of "max x a"] show ?case by simp
qed simp

lemma fold_max_upper: "x \<in> set xs \<Longrightarrow> (x :: int) \<le> fold max xs a"
proof (induction xs arbitrary: a)
  case (Cons y ys)
  from Cons fold_max_start [of "max y a" ys] show ?case by auto
qed simp

lemma next_key_greater: "x \<in> set xs \<Longrightarrow> key x < next_key key xs"
  using fold_max_upper [of "key x" "map key xs" 0] by (auto simp: next_key_def)

lemma sample_agent_laws: "agent_laws sample_agent fst snd"
proof -
  have "table_laws fst (=) config_conflict (ag_global sample_agent)"
    unfolding sample_agent_def by simp (rule list_table_laws, simp_all)
  moreover have "table_laws snd history_assigned (\<lambda>_ _. False) (ag_history sample_agent)"
    unfolding sample_agent_def by simp (rule list_table_laws, simp_all add: history_assigned_def)
  moreover have "table_frame snd (ag_global sample_agent)" "table_frame fst (ag_history sample_agent)"
    "table_frame fst (sto_audit (ag_store sample_agent))" "table_frame snd (sto_audit (ag_store sample_agent))"
    unfolding sample_agent_def empty_table_def by (simp_all, (rule list_table_frame, simp)+)
  moreover have "\<forall>h s s' h'. t_create (ag_history sample_agent) h s = (s', Inr h') \<longrightarrow> (\<forall>x \<in> set (snd s). ch_id x < ch_id h')"
    by (auto simp: sample_agent_def list_table_def Let_def next_key_greater)
  moreover have "\<forall>x. ag_decimal sample_agent (ag_decimal sample_agent x) = ag_decimal sample_agent x"
    by (simp add: sample_agent_def flip: and.assoc)
  moreover have "\<forall>x. ag_datetime sample_agent (ag_datetime sample_agent x) = ag_datetime sample_agent x"
    by (simp add: sample_agent_def)
  ultimately show ?thesis by (simp add: agent_laws_def)
qed

text \<open>Numbers stand for times and floats.\<close>

definition sample_codec :: config_codec where
  "sample_codec =
     \<lparr>cc_time = (\<lambda>t. if is_int64 t then Some (format_int t) else None), cc_parse = parse_ok,
      cc_float = (\<lambda>x. Some (format_int (sint x))), cc_float_parse = (\<lambda>n. map_option word_of_int (parse_ok n))\<rparr>"

lemma sint_int64: "is_int64 (sint (x :: float64))"
  using sint_greater_eq [of x] sint_less [of x] by (simp add: in_width_def)

lemma sample_codec_laws: "codec_laws sample_codec"
  by (simp add: codec_laws_def sample_codec_def parse_ok_format sint_int64)

definition demo_config :: global_config where
  "demo_config = default_global_config\<lparr>gc_updated := 0, gc_created := 0\<rparr>"

definition demo_input :: config_input where
  "demo_input =
     \<lparr>gi_enabled = Some False, gi_model = ''m'', gi_embedding = [], gi_temperature = 0, gi_max_tokens = 0, gi_top_k = 9,
      gi_similarity = 0, gi_chunk_size = 0, gi_chunk_overlap = 0, gi_moderation = None, gi_mod_model = [],
      gi_mod_threshold = 0, gi_tools = None, gi_auto_kick = None, gi_auto_ban = None, gi_system_prompt = [],
      gi_mod_prompt = [], gi_rag_prompt = [], gi_tool_prompt = []\<rparr>"

lemma demo_configs_ok: "config_ok demo_config" "config_ok (merge_config demo_input demo_config)"
  by (simp_all add: config_ok_def merge_config_def demo_config_def demo_input_def default_global_config_def in_width_def
      valid_utf8_ascii)

lemma marshal_not_empty: "marshal_config cc c = Some x \<Longrightarrow> x \<noteq> []"
  by (auto simp: marshal_config_def split: option.splits)

lemma sample_marshal: "is_int64 (gc_updated c) \<Longrightarrow> is_int64 (gc_created c) \<Longrightarrow> \<exists>x. marshal_config sample_codec c = Some x"
  by (simp add: marshal_config_def sample_codec_def)

lemma sample_store_config:
  assumes "gc_id c = 1" "gc_id d = 1"
  shows "\<exists>h. store_config sample_agent sample_codec t bef c a ([d], hs) =
      (([config_columns sample_agent (c\<lparr>gc_updated := t\<rparr>)], hs @ [h]), Inr (c\<lparr>gc_updated := t\<rparr>))
    \<and> ch_config h = 1 \<and> ch_before h = bef \<and> ch_id h = next_key ch_id hs"
proof -
  have "gc_id (config_columns sample_agent (c\<lparr>gc_updated := t\<rparr>)) = 1" using assms by (simp add: config_columns_def)
  with assms show ?thesis
    by (auto simp: store_config_def transaction_def save_config_def gorm_save_def append_history_def max_version_def)
      (auto simp: sample_agent_def list_table_def sort_by_def page_def query_all_def Let_def)
qed

lemma sample_get: "gc_id d = 1 \<Longrightarrow> get_or_create sample_agent t ([d], hs) = (([d], hs), Inr d)"
  by (simp add: get_or_create_def gorm_first_def sample_agent_def list_table_def sort_by_def page_def query_all_def Let_def)

lemma sample_update:
  assumes "gc_id d = 1"
  shows "\<exists>h. update_config sample_agent sample_codec t i a ([d], hs) =
      (([config_columns sample_agent ((merge_config i d)\<lparr>gc_updated := t\<rparr>)], hs @ [h]),
       Inr ((merge_config i d)\<lparr>gc_updated := t\<rparr>))"
proof -
  have m: "gc_id (merge_config i d) = 1" using assms by (simp add: merge_config_def)
  from sample_store_config [OF m assms, of t "config_text sample_codec d" a hs] assms
  show ?thesis by (auto simp: update_config_def sample_get config_audit_def) (simp_all add: sample_agent_def)
qed

lemma sample_rollback:
  assumes d: "gc_id d = 1" and b: "gc_id b = 1" "config_ok b" "is_int64 (gc_updated b)" "is_int64 (gc_created b)"
    and h: "ch_config h = 1" "ch_before h = config_text sample_codec b" "\<forall>y \<in> set hs. ch_id y < ch_id h"
  shows "\<exists>k. rollback_config sample_agent sample_codec t a ([d], hs @ [h]) =
      (([config_columns sample_agent (b\<lparr>gc_updated := t\<rparr>)], hs @ [h] @ [k]), Inr (b\<lparr>gc_updated := t\<rparr>)) \<and>
      ch_config k = 1 \<and> ch_before k = config_text sample_codec d \<and> (\<forall>y \<in> set (hs @ [h]). ch_id y < ch_id k)"
proof -
  have q: "queries_succeed (ag_history sample_agent) s" for s
    unfolding sample_agent_def by simp (rule list_table_queries)
  have last: "last_snapshot snd ([d], hs @ [h]) (config_text sample_codec b)"
    using h unfolding last_snapshot_def by (intro bexI [of _ h]) auto
  have "\<exists>x \<in> set (snd ([d], hs @ [h])). ch_config x = 1" using h(1) by simp
  from gorm_first_there [OF agent_lawsD(2) [OF sample_agent_laws] q this]
  obtain l where l: "latest_history sample_agent ([d], hs @ [h]) = Inr l" by (auto simp: latest_history_def)
  have bef: "ch_before l = config_text sample_codec b"
    by (rule latest_history_snapshot [OF sample_agent_laws last l])
  obtain x where x: "marshal_config sample_codec b = Some x" using sample_marshal [OF b(3,4)] by blast
  have un: "unmarshal_config sample_codec (ch_before l) d = Some b"
    using config_roundtrip [OF sample_codec_laws b(2) x] bef x by (simp add: config_text_def)
  have ne: "ch_before l \<noteq> []" using bef x marshal_not_empty [OF x] by (simp add: config_text_def)
  have "b\<lparr>gc_id := 1\<rparr> = b" using b(1) by (cases b) simp
  with sample_store_config [OF b(1) d, of t "config_text sample_codec d" a "hs @ [h]"] l ne un d
  show ?thesis
    by (auto simp: rollback_config_def sample_get config_audit_def next_key_greater) (simp_all add: sample_agent_def)
qed

text \<open>The configuration of the examples is a stored one, and so is what is stored of its update.\<close>

lemma demo_stored:
  "config_columns sample_agent demo_config = demo_config"
  "config_columns sample_agent ((merge_config demo_input demo_config)\<lparr>gc_updated := 1\<rparr>) = merge_config demo_input demo_config"
  by (simp_all add: config_columns_def sample_agent_def merge_config_def demo_config_def demo_input_def
      default_global_config_def seven_tenths_def three_quarters_def float_pos_def)

lemma rollback_undoes_update_witness:
  "\<exists>s1 s2 s3. update_config sample_agent sample_codec 1 demo_input demo_action ([demo_config], []) =
       (s1, Inr ((merge_config demo_input demo_config)\<lparr>gc_updated := 1\<rparr>)) \<and>
     rollback_config sample_agent sample_codec 2 demo_action s1 = (s2, Inr (demo_config\<lparr>gc_updated := 2\<rparr>)) \<and>
     rollback_config sample_agent sample_codec 3 demo_action s2 =
       (s3, Inr ((merge_config demo_input demo_config)\<lparr>gc_updated := 3\<rparr>))"
proof -
  let ?d = demo_config and ?m = "merge_config demo_input demo_config"
  have id: "gc_id ?d = 1" "gc_id ?m = 1" by (simp_all add: demo_config_def default_global_config_def merge_config_def)
  have times: "is_int64 (gc_updated ?d)" "is_int64 (gc_created ?d)" "is_int64 (gc_updated ?m)" "is_int64 (gc_created ?m)"
    by (simp_all add: demo_config_def merge_config_def in_width_def)
  have cur: "current_config sample_agent fst ([?d], [] :: config_history list) ?d"
    by (simp add: current_config_def id demo_stored)
  obtain h where up: "update_config sample_agent sample_codec 1 demo_input demo_action ([?d], []) =
      (([?m], [h]), Inr (?m\<lparr>gc_updated := 1\<rparr>))"
    using sample_update [OF id(1), of 1 demo_input demo_action "[]"] by (auto simp: demo_stored)
  have "last_snapshot snd ([?m], [h]) (config_text sample_codec ?d)"
    by (rule update_config_current(3) [OF sample_agent_laws cur up])
  then have h: "ch_config h = 1" "ch_before h = config_text sample_codec ?d" by (simp_all add: last_snapshot_def)
  let ?d2 = "config_columns sample_agent (?d\<lparr>gc_updated := 2\<rparr>)"
  obtain k where rb: "rollback_config sample_agent sample_codec 2 demo_action ([?m], [h]) =
      (([?d2], [h, k]), Inr (?d\<lparr>gc_updated := 2\<rparr>))"
    and k: "ch_config k = 1" "ch_before k = config_text sample_codec ?m" "ch_id h < ch_id k"
    using sample_rollback [OF id(2) id(1) demo_configs_ok(1) times(1,2) h, of "[]" 2 demo_action] by auto
  have d2: "gc_id ?d2 = 1" using id by (simp add: config_columns_def)
  obtain s3 where rb': "rollback_config sample_agent sample_codec 3 demo_action ([?d2], [h, k]) =
      (s3, Inr (?m\<lparr>gc_updated := 3\<rparr>))"
    using sample_rollback [OF d2 id(2) demo_configs_ok(2) times(3,4) k(1,2), of "[h]" 3 demo_action] k(3) by auto
  from rollback_undoes_update [OF sample_agent_laws sample_codec_laws cur demo_configs_ok up rb rb'] up rb rb'
  show ?thesis by blast
qed

end
