(* ===== verification/Moderation.thy ===== *)
theory Moderation
  imports AgentConfig
begin

section \<open>Moderation (services/admin/application/moderation_dashboard.go, services/admin/api/admin_moderation.go)\<close>

text \<open>
  The counts of the day, lists, details and the review actions on moderation events. A count over the
  rows of a day stands for one aggregate query. Quotients of counts are made by \<open>fdiv\<close>; the order in
  which the database puts categories with equal counts is \<open>arrange\<close>.
\<close>

subsection \<open>Counts\<close>

record 'f moderation_overview =
  mo_reviewed :: int
  mo_violations :: int
  mo_rate :: 'f
  mo_pending :: int
  mo_generated :: int

definition events_since :: "'s admin_store \<Rightarrow> int \<Rightarrow> 's \<Rightarrow> db_error + moderation_event list" where
  "events_since d start s = t_find (sto_events d) (query_all (\<lambda>e. start \<le> me_created e)) s"

definition count_of :: "('a \<Rightarrow> bool) \<Rightarrow> 'a list \<Rightarrow> int" where
  "count_of p xs = int (length (filter p xs))"

definition is_violation :: "moderation_event \<Rightarrow> bool" where
  "is_violation e \<longleftrightarrow> me_result e \<noteq> ''safe''"

definition violation_rate :: "(int \<Rightarrow> int \<Rightarrow> 'f) \<Rightarrow> 'f \<Rightarrow> moderation_event list \<Rightarrow> 'f" where
  "violation_rate fdiv fzero es =
     (if 0 < count_of (\<lambda>_. True) es then fdiv (count_of is_violation es) (count_of (\<lambda>_. True) es) else fzero)"

text \<open>Two clock readings: the day is computed from the first, the second is shown.\<close>

definition overview ::
    "'s admin_store \<Rightarrow> (int \<Rightarrow> int \<Rightarrow> 'f) \<Rightarrow> 'f \<Rightarrow> int \<Rightarrow> int \<Rightarrow> int \<Rightarrow> 's \<Rightarrow> db_error + 'f moderation_overview" where
  "overview d fdiv fzero zone now1 now2 s =
     map_sum id (\<lambda>es. \<lparr>mo_reviewed = count_of (\<lambda>_. True) es, mo_violations = count_of is_violation es,
                      mo_rate = violation_rate fdiv fzero es,
                      mo_pending = count_of (\<lambda>e. me_review e = ''pending'') es, mo_generated = now2\<rparr>)
       (events_since d (start_of_day zone now1) s)"

type_synonym category_count = "string \<times> int"

record 'f moderation_dashboard =
  md_reviewed :: int
  md_violations :: int
  md_rate :: 'f
  md_kicks :: int
  md_bans :: int
  md_manual :: int
  md_revoked :: int
  md_tool_failures :: int
  md_categories :: "category_count list"
  md_recent :: "moderation_item list"
  md_generated :: int

text \<open>The pattern of a failed tool result: the two characters of "failure" in UTF-8 between wildcards.\<close>

definition failure_pattern :: string where
  "failure_pattern = [CHR ''%'', CHR 0xE5, CHR 0xA4, CHR 0xB1, CHR 0xE8, CHR 0xB4, CHR 0xA5, CHR ''%'']"

definition category_counts :: "moderation_event list \<Rightarrow> category_count list" where
  "category_counts es =
     map (\<lambda>c. (c, count_of (\<lambda>e. me_category e = c) es)) (remdups (map me_category es))"

text \<open>The three queries read the table one after the other; \<open>s1\<close>, \<open>s2\<close>, \<open>s3\<close> are its states then.\<close>

definition dashboard ::
    "'s admin_store \<Rightarrow> (int \<Rightarrow> int \<Rightarrow> 'f) \<Rightarrow> 'f \<Rightarrow> (category_count list \<Rightarrow> category_count list) \<Rightarrow> int \<Rightarrow> int \<Rightarrow> int \<Rightarrow>
     's \<Rightarrow> 's \<Rightarrow> 's \<Rightarrow> db_error + 'f moderation_dashboard" where
  "dashboard d fdiv fzero arrange zone now1 now2 s1 s2 s3 =
     (let start = start_of_day zone now1
      in case events_since d start s1 of
           Inl e \<Rightarrow> Inl e
         | Inr es \<Rightarrow>
             (case events_since d start s2 of
                Inl e \<Rightarrow> Inl e
              | Inr es2 \<Rightarrow>
                  (case t_find (sto_events d)
                          \<lparr>q_where = is_violation, q_order = (\<lambda>a b. me_created b \<le> me_created a), q_offset = 0,
                           q_limit = Some 20\<rparr> s3 of
                     Inl e \<Rightarrow> Inl e
                   | Inr recent \<Rightarrow>
                       Inr \<lparr>md_reviewed = count_of (\<lambda>_. True) es, md_violations = count_of is_violation es,
                            md_rate = violation_rate fdiv fzero es,
                            md_kicks = count_of (\<lambda>e. me_penalty e = ''kicked'') es,
                            md_bans = count_of (\<lambda>e. me_penalty e = ''banned'') es,
                            md_manual = count_of (\<lambda>e. me_review e \<noteq> ''pending'') es,
                            md_revoked = count_of (\<lambda>e. me_review e = ''revoked'') es,
                            md_tool_failures = count_of (\<lambda>e. db_like (sto_db d) (me_tool_result e) failure_pattern) es,
                            md_categories = arrange (category_counts es2),
                            md_recent = moderation_items recent, md_generated = now2\<rparr>)))"

subsection \<open>Lists and details\<close>

record moderation_list_query =
  mq_page :: int
  mq_page_size :: int
  mq_username :: string
  mq_user :: int
  mq_room :: int
  mq_category :: string
  mq_risk_level :: string
  mq_penalty :: string
  mq_start :: "int option"
  mq_end :: "int option"

definition event_matches :: "(string \<Rightarrow> string \<Rightarrow> bool) \<Rightarrow> moderation_list_query \<Rightarrow> moderation_event \<Rightarrow> bool" where
  "event_matches like q e \<longleftrightarrow>
     (0 < mq_user q \<longrightarrow> me_user e = mq_user q) \<and> (0 < mq_room q \<longrightarrow> me_room e = mq_room q) \<and>
     (mq_username q \<noteq> [] \<longrightarrow> like (me_username e) (mq_username q @ ''%'')) \<and>
     (mq_category q \<noteq> [] \<longrightarrow> me_category e = mq_category q) \<and>
     (mq_risk_level q \<noteq> [] \<longrightarrow> me_risk_level e = mq_risk_level q) \<and>
     (mq_penalty q \<noteq> [] \<longrightarrow> me_penalty e = mq_penalty q) \<and>
     since (mq_start q) (me_created e) \<and> before (mq_end q) (me_created e)"

text \<open>The latest first; \<open>list_page\<close> orders by the creation time here.\<close>

definition list_events :: "'s admin_store \<Rightarrow> moderation_list_query \<Rightarrow> 's \<Rightarrow> db_error + moderation_item list \<times> int" where
  "list_events d q s =
     map_sum id (\<lambda>(es, n). (moderation_items es, n))
       (list_page (sto_events d) me_created (mq_page q) (mq_page_size q) (event_matches (db_like (sto_db d)) q) s)"

definition get_event :: "'s admin_store \<Rightarrow> int \<Rightarrow> 's \<Rightarrow> db_error + moderation_item" where
  "get_event d i s = map_sum id moderation_item_of (gorm_first (sto_events d) me_id (\<lambda>e. me_id e = i) s)"

subsection \<open>Review actions\<close>

definition reviewed_event :: "string \<Rightarrow> moderation_event \<Rightarrow> moderation_event option" where
  "reviewed_event a e =
     (if a = ''warn'' then Some (e\<lparr>me_penalty := ''warned'', me_review := ''reviewed''\<rparr>)
      else if a = ''mute'' then Some (e\<lparr>me_penalty := ''muted'', me_review := ''reviewed''\<rparr>)
      else if a = ''kick'' then Some (e\<lparr>me_penalty := ''kicked'', me_review := ''reviewed''\<rparr>)
      else if a = ''ban'' then Some (e\<lparr>me_penalty := ''banned'', me_review := ''reviewed''\<rparr>)
      else if a = ''revoke'' then Some (e\<lparr>me_penalty := ''none'', me_review := ''revoked''\<rparr>)
      else if a = ''false_positive'' then Some (e\<lparr>me_penalty := ''none'', me_review := ''false_positive''\<rparr>)
      else if a = ''confirmed'' then Some (e\<lparr>me_review := ''confirmed''\<rparr>)
      else None)"

text \<open>The JSON of an item; a score or a time without a JSON form makes the audit data empty.\<close>

definition item_audit_data :: "config_codec \<Rightarrow> moderation_item \<Rightarrow> audit_data" where
  "item_audit_data cc x =
     (case (cc_float cc (mi_risk_score x), cc_time cc (mi_created x)) of
        (Some score, Some created) \<Rightarrow>
          JsonData (JObj
            [(''id'', jint (mi_id x)), (''message_id'', jint (mi_message x)), (''room_id'', jint (mi_room x)),
             (''user_id'', jint (mi_user x)), (''username'', JStr (mi_username x)), (''room_name'', JStr (mi_room_name x)),
             (''original_msg'', JStr (mi_original x)), (''category'', JStr (mi_category x)),
             (''risk_level'', JStr (mi_risk_level x)), (''risk_score'', JNum score), (''model_name'', JStr (mi_model x)),
             (''model_result'', JStr (mi_result x)), (''model_reason'', JStr (mi_reason x)),
             (''tool_params'', JStr (mi_tool_params x)), (''tool_result'', JStr (mi_tool_result x)),
             (''penalty_status'', JStr (mi_penalty x)), (''review_status'', JStr (mi_review x)),
             (''created_at'', JStr created)])
      | _ \<Rightarrow> TextData [])"

definition event_audit_entry :: "config_codec \<Rightarrow> int \<Rightarrow> moderation_item \<Rightarrow> moderation_item \<Rightarrow> admin_actor \<Rightarrow> audit_entry" where
  "event_audit_entry cc i bef aft a =
     \<lparr>ae_admin_user_id = ac_admin a, ae_admin_username = ac_name a, ae_action = ''moderation.'' @ ac_action a,
      ae_target_type = ''moderation_event'', ae_target_id = format_int i,
      ae_before = item_audit_data cc bef, ae_after = item_audit_data cc aft, ae_request_id = ac_request_id a,
      ae_remote_ip = ac_remote_ip a, ae_user_agent = ac_user_agent a, ae_result = ''success'', ae_error = []\<rparr>"

datatype moderation_error = ModerationDb db_error | UnsupportedReview

definition moderation_apply_action ::
    "'s admin_store \<Rightarrow> bool \<Rightarrow> config_codec \<Rightarrow> int \<Rightarrow> int \<Rightarrow> admin_actor \<Rightarrow> 's \<Rightarrow> 's \<times> moderation_error option" where
  "moderation_apply_action d audited cc now i a s =
     (case gorm_first (sto_events d) me_id (\<lambda>e. me_id e = i) s of
        Inl e \<Rightarrow> (s, Some (ModerationDb e))
      | Inr ev \<Rightarrow>
          (case reviewed_event (ac_action a) ev of
             None \<Rightarrow> (s, Some UnsupportedReview)
           | Some ev1 \<Rightarrow>
               (let ev2 = ev1\<lparr>me_reviewed_by := ac_admin a, me_reviewed_at := Some now\<rparr>
                in case gorm_save (sto_events d) me_id ev2 s of
                     (s1, Inl e) \<Rightarrow> (s1, Some (ModerationDb e))
                   | (s1, Inr _) \<Rightarrow>
                       (if audited
                        then fst (audit_write d (event_audit_entry cc i (moderation_item_of ev) (moderation_item_of ev2) a) s1)
                        else s1, None))))"

subsection \<open>The handlers\<close>

datatype 'f moderation_body =
    ModerationMissing | BadEvent | NoReviewAction | EventMissing | ModerationFailed
  | Dashboard "'f moderation_dashboard"
  | EventListing "moderation_item list" int int int
  | EventDetail moderation_item
  | ReviewDone

definition admin_moderation_dashboard ::
    "'s admin_store option \<Rightarrow> (int \<Rightarrow> int \<Rightarrow> 'f) \<Rightarrow> 'f \<Rightarrow> (category_count list \<Rightarrow> category_count list) \<Rightarrow> int \<Rightarrow> int \<Rightarrow> int \<Rightarrow>
     's \<Rightarrow> 's \<Rightarrow> 's \<Rightarrow> 'f moderation_body reply" where
  "admin_moderation_dashboard svc fdiv fzero arrange zone now1 now2 s1 s2 s3 =
     (case svc of
        None \<Rightarrow> (503, ModerationMissing)
      | Some d \<Rightarrow>
          (case dashboard d fdiv fzero arrange zone now1 now2 s1 s2 s3 of
             Inl _ \<Rightarrow> (500, ModerationFailed)
           | Inr x \<Rightarrow> (200, Dashboard x)))"

definition admin_moderation_list ::
    "(string \<Rightarrow> int option) \<Rightarrow> 's admin_store option \<Rightarrow> admin_request \<Rightarrow> 's \<Rightarrow> 'f moderation_body reply" where
  "admin_moderation_list rfc3339 svc q s =
     (case svc of
        None \<Rightarrow> (503, ModerationMissing)
      | Some d \<Rightarrow>
          (let pg = list_page_number q; n = list_page_size q
           in case list_events d
                    \<lparr>mq_page = pg, mq_page_size = n, mq_username = get_query q ''username'',
                     mq_user = fst (parse_int (get_query q ''user_id'')), mq_room = fst (parse_int (get_query q ''room_id'')),
                     mq_category = get_query q ''category'', mq_risk_level = get_query q ''risk_level'',
                     mq_penalty = get_query q ''penalty_status'',
                     mq_start = rfc3339 (get_query q ''start''), mq_end = rfc3339 (get_query q ''end'')\<rparr> s of
                Inl _ \<Rightarrow> (500, ModerationFailed)
              | Inr (items, k) \<Rightarrow> (200, EventListing items k pg n)))"

definition admin_moderation_detail :: "'s admin_store option \<Rightarrow> string \<Rightarrow> 's \<Rightarrow> 'f moderation_body reply" where
  "admin_moderation_detail svc param s =
     (case parse_ok param of
        None \<Rightarrow> (400, BadEvent)
      | Some i \<Rightarrow>
          (case svc of
             None \<Rightarrow> (503, ModerationMissing)
           | Some d \<Rightarrow> (case get_event d i s of Inl _ \<Rightarrow> (404, EventMissing) | Inr x \<Rightarrow> (200, EventDetail x))))"

definition admin_moderation_action ::
    "'s admin_store option \<Rightarrow> bool \<Rightarrow> config_codec \<Rightarrow> int \<Rightarrow> string \<Rightarrow> string \<Rightarrow> admin_request \<Rightarrow> 's \<Rightarrow>
     's \<times> 'f moderation_body reply" where
  "admin_moderation_action svc audited cc now param body q s =
     (case parse_ok param of
        None \<Rightarrow> (s, (400, BadEvent))
      | Some i \<Rightarrow>
          (case bind_action body of
             None \<Rightarrow> (s, (400, NoReviewAction))
           | Some a \<Rightarrow>
               (case svc of
                  None \<Rightarrow> (s, (503, ModerationMissing))
                | Some d \<Rightarrow>
                    (case moderation_apply_action d audited cc now i (actor_of q a) s of
                       (s', Some _) \<Rightarrow> (s', (500, ModerationFailed))
                     | (s', None) \<Rightarrow> (s', (200, ReviewDone))))))"

subsection \<open>What a review changes\<close>

lemma reviewed_event_id: "reviewed_event a e = Some e' \<Longrightarrow> me_id e' = me_id e"
  by (auto simp: reviewed_event_def split: if_splits)

definition event_reviewed :: "admin_actor \<Rightarrow> int \<Rightarrow> audit_log \<Rightarrow> bool" where
  "event_reviewed a i r \<longleftrightarrow>
     al_admin_user_id r = ac_admin a \<and> al_action r = ''moderation.'' @ ac_action a \<and>
     al_target_type r = ''moderation_event'' \<and> al_target_id r = format_int i \<and> al_result r = ''success''"

lemma event_reviewed_row:
  "audit_assigned (audit_record (event_audit_entry cc i x y a)) r \<Longrightarrow> event_reviewed a i r"
  by (cases r) (simp add: audit_assigned_def audit_record_def event_audit_entry_def event_reviewed_def)

lemma optional_audit:
  assumes laws: "store_laws d v audits" and frame: "table_frame events (sto_audit d)"
    and entry: "\<And>r. audit_assigned (audit_record e) r \<Longrightarrow> P r"
    and s': "s' = (if audited then fst (audit_write d e s) else s)"
  shows "events s' = events s" and "v_users v s' = v_users v s" and "v_members v s' = v_members v s"
    and "v_rooms v s' = v_rooms v s" and "audits s' = audits s \<or> (\<exists>r. P r \<and> audits s' = audits s @ [r])"
proof -
  obtain s1 y where w: "audit_write d e s = (s1, y)" by fastforce
  have cr: "t_create (sto_audit d) (audit_record e) s = (s1, snd (t_create (sto_audit d) (audit_record e) s))"
    using w by (cases "t_create (sto_audit d) (audit_record e) s") (simp add: audit_write_def)
  have "events s1 = events s" "v_users v s1 = v_users v s" "v_members v s1 = v_members v s" "v_rooms v s1 = v_rooms v s"
    using table_frameD(1) [OF frame cr] table_frameD(1) [OF store_lawsD(6) [OF laws] cr]
      table_frameD(1) [OF store_lawsD(8) [OF laws] cr] table_frameD(1) [OF store_lawsD(7) [OF laws] cr] by simp_all
  moreover have "audits s1 = audits s \<or> (\<exists>r. P r \<and> audits s1 = audits s @ [r])"
  proof (cases y)
    case (Inl x)
    with audit_write_Inl [OF laws w [unfolded Inl]] show ?thesis by simp
  next
    case (Inr u)
    with audit_write_Inr(1) [OF laws, of e s s1] w entry show ?thesis by fastforce
  qed
  ultimately show "events s' = events s" "v_users v s' = v_users v s" "v_members v s' = v_members v s"
    "v_rooms v s' = v_rooms v s" "audits s' = audits s \<or> (\<exists>r. P r \<and> audits s' = audits s @ [r])"
    using s' w by auto
qed

text \<open>A review is a matter of record only. A successful action changes exactly the event it names, to the
  penalty and review status of the action with the reviewer and the time, and adds at most its audit row;
  no user, no room and no membership changes, also for "kick" and "ban": the penalty is noted, not carried
  out. A failed action changes nothing.\<close>

theorem review_only_records:
  assumes laws: "store_laws d v audits" and events: "table_laws events event_assigned conflict (sto_events d)"
    and frames: "table_frame events (sto_audit d)" "table_frame (v_users v) (sto_events d)"
      "table_frame (v_rooms v) (sto_events d)" "table_frame (v_members v) (sto_events d)" "table_frame audits (sto_events d)"
    and run: "moderation_apply_action d audited cc now i a s = (s', res)"
  shows "case res of
      Some _ \<Rightarrow> s' = s
    | None \<Rightarrow>
        (\<exists>ev \<in> set (events s). \<exists>ev'. me_id ev = i \<and> reviewed_event (ac_action a) ev = Some ev' \<and>
           events s' = map (\<lambda>x. if me_id x = i then ev'\<lparr>me_reviewed_by := ac_admin a, me_reviewed_at := Some now\<rparr> else x)
                         (events s)) \<and>
        v_users v s' = v_users v s \<and> v_rooms v s' = v_rooms v s \<and> v_members v s' = v_members v s \<and>
        (audits s' = audits s \<or> (\<exists>r. event_reviewed a i r \<and> audits s' = audits s @ [r]))"
proof (cases "gorm_first (sto_events d) me_id (\<lambda>e. me_id e = i) s")
  case (Inl e)
  with run show ?thesis by (auto simp: moderation_apply_action_def)
next
  case ev: (Inr ev)
  note row = gorm_first_Inr [OF events ev]
  show ?thesis
  proof (cases "reviewed_event (ac_action a) ev")
    case None
    with run ev show ?thesis by (auto simp: moderation_apply_action_def)
  next
    case (Some ev1)
    let ?ev = "ev1\<lparr>me_reviewed_by := ac_admin a, me_reviewed_at := Some now\<rparr>"
    obtain s1 x where save: "gorm_save (sto_events d) me_id ?ev s = (s1, x)" by fastforce
    have ids: "me_id ?ev = i" using reviewed_event_id [OF Some] row by simp
    have there: "\<exists>x \<in> set (events s). me_id x = me_id ?ev" using row ids by auto
    show ?thesis
    proof (cases x)
      case (Inl e)
      with gorm_save_failed [OF events save [unfolded Inl] there] run ev Some save show ?thesis
        by (auto simp: moderation_apply_action_def Let_def)
    next
      case (Inr u)
      let ?entry = "event_audit_entry cc i (moderation_item_of ev) (moderation_item_of ?ev) a"
      from Inr run ev Some save have res: "res = None" "s' = (if audited then fst (audit_write d ?entry s1) else s1)"
        by (auto simp: moderation_apply_action_def Let_def)
      have "x = Inr ()" using Inr by simp
      note sv = gorm_save_update [OF events save [unfolded this] there]
      have ev': "events s1 = map (\<lambda>x. if me_id x = i then ?ev else x) (events s)" using sv(2) ids by simp
      have same: "v_users v s1 = v_users v s" "v_rooms v s1 = v_rooms v s" "v_members v s1 = v_members v s" "audits s1 = audits s"
        by (rule table_frameD(3) [OF frames(2) sv(1)], rule table_frameD(3) [OF frames(3) sv(1)],
            rule table_frameD(3) [OF frames(4) sv(1)], rule table_frameD(3) [OF frames(5) sv(1)])
      note aud = optional_audit [where P = "event_reviewed a i", OF laws frames(1) event_reviewed_row res(2)]
      have "\<exists>ev \<in> set (events s). \<exists>ev'. me_id ev = i \<and> reviewed_event (ac_action a) ev = Some ev' \<and>
           events s' = map (\<lambda>x. if me_id x = i then ev'\<lparr>me_reviewed_by := ac_admin a, me_reviewed_at := Some now\<rparr> else x)
                         (events s)"
        using row Some ev' aud(1) by (intro bexI [of _ ev] exI [of _ ev1]) simp_all
      with res(1) aud same show ?thesis by simp
    qed
  qed
qed

definition demo_event :: moderation_event where
  "demo_event =
     \<lparr>me_id = 5, me_message = 0, me_room = 7, me_user = 2, me_username = ''bob'', me_room_name = ''lobby'', me_original = ''x'',
      me_category = ''spam'', me_risk_level = ''high'', me_risk_score = 0, me_model = [], me_result = ''unsafe'',
      me_reason = [], me_tool_params = [], me_tool_result = [], me_penalty = ''none'', me_review = ''pending'',
      me_reviewed_by = 0, me_reviewed_at = None, me_created = 1\<rparr>"

lemma sample_event_laws: "table_laws (\<lambda>s. snd (snd s)) event_assigned (\<lambda>_ _. False) (sto_events sample_store)"
  unfolding sample_store_def by simp (rule list_table_laws, simp_all add: event_assigned_def)

lemma sample_event_frames:
  "table_frame (\<lambda>s. snd (snd s)) (sto_audit sample_store)" "table_frame (\<lambda>s. f (fst s)) (sto_events sample_store)"
  "table_frame sample_audits (sto_events sample_store)"
  unfolding sample_store_def sample_audits_def by (simp_all, (rule list_table_frame, simp)+)

lemma demo_review_run:
  "moderation_apply_action sample_store False sample_codec 9 5 (demo_actor ''ban'') (demo_db, [], [demo_event]) =
     ((demo_db, [], [demo_event\<lparr>me_penalty := ''banned'', me_review := ''reviewed'', me_reviewed_by := 9,
                               me_reviewed_at := Some 9\<rparr>]), None)"
  by (simp add: moderation_apply_action_def gorm_first_def gorm_save_def sample_store_def list_table_def query_all_def
      sort_by_def page_def demo_event_def demo_actor_def reviewed_event_def Let_def)

lemma review_only_records_witness:
  "v_users sample_admin_views (demo_db, [], [demo_event\<lparr>me_penalty := ''banned'', me_review := ''reviewed'',
      me_reviewed_by := 9, me_reviewed_at := Some 9\<rparr>]) = v_users sample_admin_views (demo_db, [], [demo_event])"
proof -
  have "table_frame (v_users sample_admin_views) (sto_events sample_store)"
    "table_frame (v_rooms sample_admin_views) (sto_events sample_store)"
    "table_frame (v_members sample_admin_views) (sto_events sample_store)"
    using sample_event_frames(2) by (simp_all add: sample_admin_views_def first_views_def)
  from review_only_records [OF sample_store_laws sample_event_laws sample_event_frames(1) this sample_event_frames(3) demo_review_run]
  show ?thesis by simp
qed

end
