(* ===== verification/Redaction.thy ===== *)
theory Redaction
  imports GoStrings
begin

section \<open>Redaction of error texts (services/admin/application/error_center_service.go)\<close>

text \<open>
  Every message and stack trace that enters the error center has secrets replaced first. The four regular
  expressions of the source are translated into matching functions.
\<close>

subsection \<open>The patterns\<close>

text \<open>
  The four regular expressions, as functions that match at the beginning of a string and give the first
  group and what follows the match. They are deterministic: after a greedy repetition the next item
  accepts none of the characters repeated. With \<open>(?i)\<close> the letters s and k also match the long s
  (U+017F) and the Kelvin sign (U+212A).
\<close>

definition lower_ascii :: "char \<Rightarrow> char" where
  "lower_ascii c =
     (case map_of (zip ''ABCDEFGHIJKLMNOPQRSTUVWXYZ'' ''abcdefghijklmnopqrstuvwxyz'') c of None \<Rightarrow> c | Some l \<Rightarrow> l)"

definition letter_ci :: "char \<Rightarrow> string \<Rightarrow> (string \<times> string) option" where
  "letter_ci l s =
     (if l = CHR ''s'' \<and> has_prefix s [CHR 0xC5, CHR 0xBF] then Some (take 2 s, drop 2 s)
      else if l = CHR ''k'' \<and> has_prefix s [CHR 0xE2, CHR 0x84, CHR 0xAA] then Some (take 3 s, drop 3 s)
      else (case s of [] \<Rightarrow> None | c # cs \<Rightarrow> if lower_ascii c = l then Some ([c], cs) else None))"

fun word_ci :: "string \<Rightarrow> string \<Rightarrow> (string \<times> string) option" where
  "word_ci [] s = Some ([], s)"
| "word_ci (l # ls) s =
     (case letter_ci l s of
        None \<Rightarrow> None
      | Some (a, r) \<Rightarrow> map_option (\<lambda>(b, r'). (a @ b, r')) (word_ci ls r))"

definition re_space :: "char \<Rightarrow> bool" where
  "re_space c \<longleftrightarrow> c \<in> set [CHR '' '', CHR 0x09, CHR 0x0A, CHR 0x0C, CHR 0x0D]"

definition token_char :: "char \<Rightarrow> bool" where
  "token_char c \<longleftrightarrow>
     lower_ascii c \<in> set ''abcdefghijklmnopqrstuvwxyz0123456789._~+/=-''"

text \<open>The rest after the longest run of token characters.\<close>

fun skip_token :: "nat \<Rightarrow> string \<Rightarrow> string" where
  "skip_token 0 s = s"
| "skip_token (Suc n) s =
     (if has_prefix s [CHR 0xC5, CHR 0xBF] then skip_token n (drop 2 s)
      else if has_prefix s [CHR 0xE2, CHR 0x84, CHR 0xAA] then skip_token n (drop 3 s)
      else (case s of [] \<Rightarrow> [] | c # cs \<Rightarrow> if token_char c then skip_token n cs else s))"

definition match_bearer :: "string \<Rightarrow> (string \<times> string) option" where
  "match_bearer s =
     (case word_ci ''bearer'' s of
        None \<Rightarrow> None
      | Some (w, r) \<Rightarrow>
          (let sp = takeWhile re_space r; r' = dropWhile re_space r; rest = skip_token (length r') r'
           in if sp = [] \<or> rest = r' then None else Some (w @ sp, rest)))"

definition value_char :: "char \<Rightarrow> bool" where
  "value_char c \<longleftrightarrow> \<not> re_space c \<and> c \<noteq> CHR '','' \<and> c \<noteq> CHR '';''"

text \<open>\<open>\s*[:=]\s*\<close> and then a value.\<close>

definition match_value :: "string \<Rightarrow> string option" where
  "match_value s =
     (case dropWhile re_space s of
        [] \<Rightarrow> None
      | c # cs \<Rightarrow>
          if c = CHR '':'' \<or> c = CHR ''='' then
            (let v = dropWhile re_space cs; rest = dropWhile value_char v
             in if rest = v then None else Some rest)
          else None)"

definition match_setting :: "(string \<Rightarrow> (string \<times> string) option) list \<Rightarrow> string \<Rightarrow> (string \<times> string) option" where
  "match_setting names s =
     (case List.map_filter (\<lambda>m. m s) names of
        [] \<Rightarrow> None
      | (w, r) # _ \<Rightarrow> map_option (\<lambda>rest. (w, rest)) (match_value r))"

text \<open>A word, an optional underscore or hyphen, and "key".\<close>

definition key_name :: "string \<Rightarrow> string \<Rightarrow> (string \<times> string) option" where
  "key_name w s =
     (case word_ci w s of
        None \<Rightarrow> None
      | Some (a, r) \<Rightarrow>
          (let sep = (case r of c # _ \<Rightarrow> if c = CHR ''_'' \<or> c = CHR ''-'' then [c] else [] | [] \<Rightarrow> [])
           in map_option (\<lambda>(b, r'). (a @ sep @ b, r')) (word_ci ''key'' (drop (length sep) r))))"

definition sensitive_patterns :: "(string \<Rightarrow> (string \<times> string) option) list" where
  "sensitive_patterns =
     [match_bearer, match_setting [word_ci ''password'', word_ci ''passwd'', word_ci ''pwd''],
      match_setting [key_name ''api'', key_name ''secret'', key_name ''access''],
      match_setting [word_ci ''authorization'']]"

text \<open>\<open>ReplaceAllString(value, "$1[REDACTED]")\<close>; a match is never empty, so the length is enough fuel.\<close>

fun replace_all :: "(string \<Rightarrow> (string \<times> string) option) \<Rightarrow> nat \<Rightarrow> string \<Rightarrow> string" where
  "replace_all m 0 s = s"
| "replace_all m (Suc n) [] = []"
| "replace_all m (Suc n) (c # cs) =
     (case m (c # cs) of
        Some (g, rest) \<Rightarrow> g @ ''[REDACTED]'' @ replace_all m n rest
      | None \<Rightarrow> c # replace_all m n cs)"

definition sanitize_error_text :: "string \<Rightarrow> string" where
  "sanitize_error_text s =
     (if s = [] then [] else fold (\<lambda>m v. replace_all m (length v) v) sensitive_patterns s)"

lemma redaction_examples:
  "sanitize_error_text ''dial failed: password=hunter2, retry'' = ''dial failed: password[REDACTED], retry''"
  "sanitize_error_text ''Bearer abc.def'' = ''Bearer [REDACTED]''"
  by code_simp+

text \<open>What slips through: of a Basic authorization only the word "Basic" is redacted, and a JSON body is
  not touched, since a quote stands between the name and the colon.\<close>

lemma basic_credentials_survive:
  "sanitize_error_text ''Authorization: Basic dXNlcjpw'' = ''Authorization[REDACTED] dXNlcjpw''"
  by code_simp

lemma json_password_survives:
  "sanitize_error_text (''{'' @ [CHR 0x22] @ ''password'' @ [CHR 0x22] @ '':'' @ [CHR 0x22] @ ''x'' @ [CHR 0x22] @ ''}'') =
     ''{'' @ [CHR 0x22] @ ''password'' @ [CHR 0x22] @ '':'' @ [CHR 0x22] @ ''x'' @ [CHR 0x22] @ ''}''"
  by code_simp

end
