(* ===== verification/AdminLogs.thy ===== *)
theory AdminLogs
  imports AdminFiles Redaction
begin

section \<open>Logs of the admin console\<close>

text \<open>
  The error center (services/admin/application/error_center_service.go), the middleware that feeds it
  (shared/http/middleware/error_recorder.go), the logs of tool calls and of RAG queries
  (tool_call_service.go, rag_dashboard.go), and the handlers of the three lists of the console
  (admin_tool_call.go, admin_rag.go, admin_audit.go).
\<close>

subsection \<open>Rows (models/system_error_log.go, tool_call_log.go, rag_query_log.go)\<close>

record system_error =
  se_id :: int
  se_time :: int
  se_module :: string
  se_type :: string
  se_message :: string
  se_request :: string
  se_user :: int
  se_room :: int
  se_stack :: string
  se_resolved :: bool
  se_resolved_by :: int
  se_resolved_at :: "int option"
  se_created :: int

record tool_call_log =
  tc_id :: int
  tc_call :: string
  tc_user :: int
  tc_room :: int
  tc_agent_request :: string
  tc_tool :: string
  tc_arguments :: string
  tc_started :: int
  tc_finished :: int
  tc_latency :: float64
  tc_success :: bool
  tc_error :: string
  tc_created :: int

record rag_query_log =
  rg_id :: int
  rg_room :: int
  rg_user :: int
  rg_question :: string
  rg_time :: int
  rg_retrieved :: int
  rg_scores :: string
  rg_latency :: float64
  rg_time_tool :: bool
  rg_summary :: string
  rg_created :: int

subsection \<open>The error center\<close>

record error_list_query =
  eq_page :: int
  eq_page_size :: int
  eq_module :: string
  eq_type :: string
  eq_resolved :: "bool option"
  eq_start :: "int option"
  eq_end :: "int option"

record error_input =
  ei_module :: string
  ei_type :: string
  ei_message :: string
  ei_request :: string
  ei_user :: int
  ei_room :: int
  ei_stack :: string

definition error_matches :: "error_list_query \<Rightarrow> system_error \<Rightarrow> bool" where
  "error_matches q e \<longleftrightarrow>
     (eq_module q \<noteq> [] \<longrightarrow> se_module e = eq_module q) \<and> (eq_type q \<noteq> [] \<longrightarrow> se_type e = eq_type q) \<and>
     (case eq_resolved q of None \<Rightarrow> True | Some b \<Rightarrow> se_resolved e = b) \<and>
     since (eq_start q) (se_time e) \<and> before (eq_end q) (se_time e)"

definition list_errors ::
    "('s, system_error) table \<Rightarrow> error_list_query \<Rightarrow> 's \<Rightarrow> db_error + system_error list \<times> int" where
  "list_errors t q s = list_page t se_id (eq_page q) (eq_page_size q) (error_matches q) s"

definition error_record :: "int \<Rightarrow> error_input \<Rightarrow> system_error" where
  "error_record now i =
     \<lparr>se_id = 0, se_time = now, se_module = ei_module i, se_type = ei_type i,
      se_message = sanitize_error_text (ei_message i), se_request = ei_request i, se_user = ei_user i,
      se_room = ei_room i, se_stack = sanitize_error_text (ei_stack i), se_resolved = False,
      se_resolved_by = 0, se_resolved_at = None, se_created = 0\<rparr>"

definition record_error :: "('s, system_error) table \<Rightarrow> int \<Rightarrow> error_input \<Rightarrow> 's \<Rightarrow> 's \<times> (db_error + unit)" where
  "record_error t now i s =
     (case t_create t (error_record now i) s of (s', Inl e) \<Rightarrow> (s', Inl e) | (s', Inr _) \<Rightarrow> (s', Inr ()))"

definition resolve_error ::
    "('s, system_error) table \<Rightarrow> int \<Rightarrow> int \<Rightarrow> int \<Rightarrow> 's \<Rightarrow> 's \<times> (db_error + unit)" where
  "resolve_error t now i admin s =
     (case t_update t (\<lambda>e. se_id e = i)
             (\<lambda>e. e\<lparr>se_resolved := True, se_resolved_by := admin, se_resolved_at := Some now\<rparr>) s of
        (s', Inl e) \<Rightarrow> (s', Inl e)
      | (s', Inr _) \<Rightarrow> (s', Inr ()))"

definition error_summary :: "('s, system_error) table \<Rightarrow> 's \<Rightarrow> db_error + int" where
  "error_summary t s = map_sum id int (t_count t (\<lambda>e. \<not> se_resolved e) s)"

subsection \<open>The recording middleware\<close>

text \<open>
  What gin's context holds for it, and what the rest of the chain did: it panicked with a value that
  prints as a text, at a stack, with the status of the reply when one had been written by then, or it left
  a status.
\<close>

record error_context =
  ec_room :: "int option"
  ec_param_id :: string
  ec_query_room :: string
  ec_request :: string
  ec_user :: int

datatype chain_outcome = Panicked "int option" string string | Replied int

definition room_id_from_context :: "error_context \<Rightarrow> int" where
  "room_id_from_context c =
     (case ec_room c of
        Some r \<Rightarrow> r
      | None \<Rightarrow>
          (case if ec_param_id c = [] then None else parse_ok (ec_param_id c) of
             Some r \<Rightarrow> r
           | None \<Rightarrow>
               (case if ec_query_room c = [] then None else parse_ok (ec_query_room c) of
                  Some r \<Rightarrow> r
                | None \<Rightarrow> 0)))"

text \<open>\<open>svc\<close> is the error center, absent for \<open>nil\<close>; the outcome is the status of the reply, which
  \<open>AbortWithStatusJSON\<close> cannot change once it has been written. The error of \<open>Record\<close> is ignored.\<close>

definition recovery_with_error_recorder ::
    "('s, system_error) table option \<Rightarrow> int \<Rightarrow> error_context \<Rightarrow> chain_outcome \<Rightarrow> 's \<Rightarrow> 's \<times> int" where
  "recovery_with_error_recorder svc now c out s =
     (case out of
        Panicked written msg stack \<Rightarrow>
          (case svc of
             None \<Rightarrow> s
           | Some t \<Rightarrow>
               fst (record_error t now
                      \<lparr>ei_module = ''panic'', ei_type = ''panic'', ei_message = msg, ei_request = ec_request c,
                       ei_user = ec_user c, ei_room = room_id_from_context c, ei_stack = stack\<rparr> s),
           case written of None \<Rightarrow> 500 | Some status \<Rightarrow> status)
      | Replied status \<Rightarrow>
          (case svc of
             None \<Rightarrow> s
           | Some t \<Rightarrow>
               if 500 \<le> status
               then fst (record_error t now
                           \<lparr>ei_module = ''api'', ei_type = ''http_5xx'', ei_message = ''HTTP '' @ format_int status,
                            ei_request = ec_request c, ei_user = ec_user c, ei_room = room_id_from_context c,
                            ei_stack = []\<rparr> s)
               else s,
           status))"

subsection \<open>Tool calls\<close>

record tool_call_query =
  tq_page :: int
  tq_page_size :: int
  tq_tool :: string
  tq_user :: int
  tq_room :: int
  tq_success :: "bool option"
  tq_start :: "int option"
  tq_end :: "int option"

record tool_call_item = tool_call_log +
  ti_username :: string
  ti_room_name :: string

record tool_call_input =
  tn_call :: string
  tn_user :: int
  tn_room :: int
  tn_agent_request :: string
  tn_tool :: string
  tn_arguments :: string
  tn_started :: "int option"
  tn_finished :: "int option"
  tn_success :: bool
  tn_error :: string

definition tool_call_matches :: "tool_call_query \<Rightarrow> tool_call_log \<Rightarrow> bool" where
  "tool_call_matches q c \<longleftrightarrow>
     (tq_tool q \<noteq> [] \<longrightarrow> tc_tool c = tq_tool q) \<and> (0 < tq_user q \<longrightarrow> tc_user c = tq_user q) \<and>
     (0 < tq_room q \<longrightarrow> tc_room c = tq_room q) \<and>
     (case tq_success q of None \<Rightarrow> True | Some b \<Rightarrow> tc_success c = b) \<and>
     since (tq_start q) (tc_started c) \<and> before (tq_end q) (tc_started c)"

definition tool_call_item_of :: "'s admin_store \<Rightarrow> 's \<Rightarrow> tool_call_log \<Rightarrow> tool_call_item" where
  "tool_call_item_of d s c =
     \<lparr>tc_id = tc_id c, tc_call = tc_call c, tc_user = tc_user c, tc_room = tc_room c,
      tc_agent_request = tc_agent_request c, tc_tool = tc_tool c, tc_arguments = tc_arguments c,
      tc_started = tc_started c, tc_finished = tc_finished c, tc_latency = tc_latency c,
      tc_success = tc_success c, tc_error = tc_error c, tc_created = tc_created c,
      ti_username = username d (tc_user c) s, ti_room_name = room_name d (tc_room c) s\<rparr>"

definition list_tool_calls ::
    "'s admin_store \<Rightarrow> ('s, tool_call_log) table \<Rightarrow> tool_call_query \<Rightarrow> 's \<Rightarrow>
     db_error + tool_call_item list \<times> int" where
  "list_tool_calls d t q s =
     map_sum id (\<lambda>(cs, n). (map (tool_call_item_of d s) cs, n))
       (list_page t tc_id (tq_page q) (tq_page_size q) (tool_call_matches q) s)"

text \<open>\<open>now1\<close> and \<open>now2\<close> stand in for missing times; \<open>to_ms\<close> is the quotient of the microseconds by 1000.0.\<close>

definition record_tool_call ::
    "('s, tool_call_log) table \<Rightarrow> (int \<Rightarrow> float64) \<Rightarrow> int \<Rightarrow> int \<Rightarrow> tool_call_input \<Rightarrow> 's \<Rightarrow> 's \<times> (db_error + unit)" where
  "record_tool_call t to_ms now1 now2 i s =
     (let started = (case tn_started i of None \<Rightarrow> now1 | Some x \<Rightarrow> x);
          finished = (case tn_finished i of None \<Rightarrow> now2 | Some x \<Rightarrow> x);
          elapsed = max (- (2 ^ 63)) (min (2 ^ 63 - 1) (finished - started));
          micros = sgn elapsed * (\<bar>elapsed\<bar> div 1000)
      in case t_create t
                \<lparr>tc_id = 0, tc_call = tn_call i, tc_user = tn_user i, tc_room = tn_room i,
                 tc_agent_request = tn_agent_request i, tc_tool = tn_tool i, tc_arguments = tn_arguments i,
                 tc_started = started, tc_finished = finished, tc_latency = to_ms micros,
                 tc_success = tn_success i, tc_error = tn_error i, tc_created = 0\<rparr> s of
           (s', Inl e) \<Rightarrow> (s', Inl e)
         | (s', Inr _) \<Rightarrow> (s', Inr ()))"

subsection \<open>RAG queries\<close>

record rag_query_record =
  rr_id :: int
  rr_room :: int
  rr_user :: int
  rr_question :: string
  rr_time :: int
  rr_retrieved :: int
  rr_scores :: string
  rr_latency :: float64
  rr_time_tool :: bool
  rr_summary :: string

definition rag_query_record_of :: "rag_query_log \<Rightarrow> rag_query_record" where
  "rag_query_record_of r =
     \<lparr>rr_id = rg_id r, rr_room = rg_room r, rr_user = rg_user r, rr_question = rg_question r,
      rr_time = rg_time r, rr_retrieved = rg_retrieved r, rr_scores = rg_scores r,
      rr_latency = rg_latency r, rr_time_tool = rg_time_tool r, rr_summary = rg_summary r\<rparr>"

definition list_rag_queries ::
    "('s, rag_query_log) table \<Rightarrow> int \<Rightarrow> int \<Rightarrow> int \<Rightarrow> 's \<Rightarrow> db_error + rag_query_record list \<times> int" where
  "list_rag_queries t pg k room s =
     map_sum id (\<lambda>(rs, n). (map rag_query_record_of rs, n))
       (list_page t rg_time pg k (\<lambda>r. 0 < room \<longrightarrow> rg_room r = room) s)"

subsection \<open>The handlers\<close>

datatype log_body =
    LogMissing | LogFailed
  | ToolCalls "tool_call_item list" int int int
  | RagQueries "rag_query_record list" int int int
  | AuditLogs "audit_log list" int int int

definition admin_tool_call_list ::
    "(string \<Rightarrow> int option) \<Rightarrow> ('s admin_store \<times> ('s, tool_call_log) table) option \<Rightarrow> admin_request \<Rightarrow> 's \<Rightarrow>
     log_body reply" where
  "admin_tool_call_list rfc3339 svc q s =
     (case svc of
        None \<Rightarrow> (503, LogMissing)
      | Some (d, t) \<Rightarrow>
          (let pg = list_page_number q; n = list_page_size q; success = get_query q ''success''
           in case list_tool_calls d t
                    \<lparr>tq_page = pg, tq_page_size = n, tq_tool = get_query q ''tool_name'',
                     tq_user = fst (parse_int (default_query q ''user_id'' ''0'')),
                     tq_room = fst (parse_int (default_query q ''room_id'' ''0'')),
                     tq_success = (if success = [] then None else Some (success = ''true'' \<or> success = ''1'')),
                     tq_start = rfc3339 (get_query q ''start''), tq_end = rfc3339 (get_query q ''end'')\<rparr> s of
                Inl _ \<Rightarrow> (500, LogFailed)
              | Inr (items, k) \<Rightarrow> (200, ToolCalls items k pg n)))"

definition admin_rag_queries :: "('s, rag_query_log) table option \<Rightarrow> admin_request \<Rightarrow> 's \<Rightarrow> log_body reply" where
  "admin_rag_queries svc q s =
     (case svc of
        None \<Rightarrow> (503, LogMissing)
      | Some t \<Rightarrow>
          (let pg = list_page_number q; n = list_page_size q
           in case list_rag_queries t pg n (fst (parse_int (get_query q ''room_id''))) s of
                Inl _ \<Rightarrow> (500, LogFailed)
              | Inr (items, k) \<Rightarrow> (200, RagQueries items k pg n)))"

definition admin_audit_list ::
    "(string \<Rightarrow> int option) \<Rightarrow> 's admin_store option \<Rightarrow> admin_request \<Rightarrow> 's \<Rightarrow> log_body reply" where
  "admin_audit_list rfc3339 svc q s =
     (case svc of
        None \<Rightarrow> (503, LogMissing)
      | Some d \<Rightarrow>
          (let pg = list_page_number q; n = list_page_size q
           in case audit_list d
                    \<lparr>aq_page = pg, aq_page_size = n, aq_keyword = get_query q ''keyword'',
                     aq_admin = fst (parse_int (default_query q ''admin_user_id'' ''0'')),
                     aq_action = get_query q ''action'', aq_target_type = get_query q ''target_type'',
                     aq_target_id = get_query q ''target_id'', aq_result = get_query q ''result'',
                     aq_start = rfc3339 (get_query q ''start''), aq_end = rfc3339 (get_query q ''end'')\<rparr> s of
                Inl _ \<Rightarrow> (500, LogFailed)
              | Inr (items, k) \<Rightarrow> (200, AuditLogs items k pg n)))"

subsection \<open>What is recorded\<close>

text \<open>The database gives the key and the time of the row and keeps times to the millisecond.\<close>

definition error_assigned :: "system_error \<Rightarrow> system_error \<Rightarrow> bool" where
  "error_assigned e e' \<longleftrightarrow> (\<exists>i x t. e' = e\<lparr>se_id := i, se_time := x, se_created := t\<rparr>)"

lemma record_error_effect:
  assumes "table_laws errors error_assigned conflict t" and "record_error t now i s = (s', res)"
  shows "case res of
      Inl _ \<Rightarrow> s' = s
    | Inr _ \<Rightarrow> \<exists>e. errors s' = errors s @ [e] \<and> error_assigned (error_record now i) e"
proof (cases "t_create t (error_record now i) s")
  case (Pair s1 x)
  show ?thesis
  proof (cases x)
    case (Inl e)
    with Pair assms(2) table_lawsD(3) [OF assms(1), of "error_record now i" s s1 e] show ?thesis
      by (auto simp: record_error_def)
  next
    case (Inr e)
    with Pair assms(2) table_lawsD(4) [OF assms(1), of "error_record now i" s s1 e] show ?thesis
      by (auto simp: record_error_def)
  qed
qed

text \<open>The part of a row that says what happened.\<close>

definition error_entry :: "system_error \<Rightarrow> string \<times> string \<times> string \<times> string \<times> string \<times> bool" where
  "error_entry e = (se_type e, se_message e, se_stack e, se_request e, format_int (se_user e), se_resolved e)"

lemma error_entry_assigned: "error_assigned e e' \<Longrightarrow> error_entry e' = error_entry e"
  by (auto simp: error_assigned_def error_entry_def)

text \<open>C40: With an error center, the middleware turns a panic into a reply with status 500, unless a status
  had been written before the panic, which then stands; the status of a chain that returns is left as it
  is. A panic, or a reply with a status from 500, adds at most one row to the error center and changes
  nothing when it adds none (the insertion failed, whose error is dropped). The row carries the request id
  and the user and is unresolved; it holds the panic text and the stack, or the status, as the replacements
  of \<open>sanitizeErrorText\<close> leave them, which know only some forms of secrets. A reply below 500 changes
  nothing.\<close>

theorem failures_recorded_once:
  assumes laws: "table_laws errors error_assigned conflict t"
    and run: "recovery_with_error_recorder (Some t) now c out s = (s', status)"
  shows "case out of
      Panicked written msg stack \<Rightarrow>
        status = (case written of None \<Rightarrow> 500 | Some n \<Rightarrow> n) \<and>
        (s' = s \<or> (\<exists>e. errors s' = errors s @ [e] \<and>
           error_entry e = (''panic'', sanitize_error_text msg, sanitize_error_text stack, ec_request c,
                            format_int (ec_user c), False)))
    | Replied n \<Rightarrow>
        status = n \<and>
        (s' = s \<or> 500 \<le> n \<and> (\<exists>e. errors s' = errors s @ [e] \<and>
           error_entry e = (''http_5xx'', sanitize_error_text (''HTTP '' @ format_int n), [], ec_request c,
                            format_int (ec_user c), False)))"
proof -
  have row: "s1 = s \<or> (\<exists>e. errors s1 = errors s @ [e] \<and> error_entry e = error_entry (error_record now i))"
    if "fst (record_error t now i s) = s1" for i s1
    using record_error_effect [OF laws, of now i s s1 "snd (record_error t now i s)"] that error_entry_assigned
    by (cases "record_error t now i s") (fastforce split: sum.splits)
  have empty: "sanitize_error_text [] = []" by (simp add: sanitize_error_text_def)
  show ?thesis
  proof (cases out)
    case (Panicked written msg stack)
    with run row show ?thesis
      by (force simp: recovery_with_error_recorder_def error_record_def error_entry_def)
  next
    case (Replied n)
    with run row empty show ?thesis
      by (force simp: recovery_with_error_recorder_def error_record_def error_entry_def split: if_splits)
  qed
qed

definition sample_error_table :: "(system_error list, system_error) table" where
  "sample_error_table =
     list_table (\<lambda>s. s) (\<lambda>xs _. xs) (\<lambda>xs e. e\<lparr>se_id := 1 + int (length xs), se_created := 9\<rparr>) (\<lambda>_ _. False)"

lemma sample_error_laws: "table_laws (\<lambda>s. s) error_assigned (\<lambda>_ _. False) sample_error_table"
  unfolding sample_error_table_def
proof (rule list_table_laws)
  fix xs r
  show "error_assigned r (r\<lparr>se_id := 1 + int (length xs), se_created := 9\<rparr>)"
    unfolding error_assigned_def
    by (intro exI [of _ "1 + int (length xs)"] exI [of _ "se_time r"] exI [of _ 9]) simp
qed simp

definition sample_error_context :: error_context where
  "sample_error_context =
     \<lparr>ec_room = None, ec_param_id = [], ec_query_room = ''7'', ec_request = ''r1'', ec_user = 2\<rparr>"

lemma failures_recorded_once_witness:
  "case recovery_with_error_recorder (Some sample_error_table) 5 sample_error_context (Replied 503) [] of
     (rows, status) \<Rightarrow> status = 503 \<and> length rows = 1 \<and> se_message (hd rows) = ''HTTP 503''"
proof -
  let ?run = "recovery_with_error_recorder (Some sample_error_table) 5 sample_error_context (Replied 503) []"
  have status: "sanitize_error_text (''HTTP '' @ format_int 503) = ''HTTP 503''" by code_simp
  have some: "fst ?run \<noteq> []"
    by (simp add: recovery_with_error_recorder_def record_error_def sample_error_table_def list_table_def Let_def)
  from failures_recorded_once [OF sample_error_laws, of 5 sample_error_context "Replied 503" "[]" "fst ?run" "snd ?run"]
  show ?thesis using some status by (auto simp: error_entry_def)
qed

text \<open>The error of a request to /users/5 is filed under room 5: any \<open>:id\<close> counts as a room.\<close>

lemma user_route_filed_under_room:
  "room_id_from_context \<lparr>ec_room = None, ec_param_id = ''5'', ec_query_room = [], ec_request = [], ec_user = 1\<rparr> = 5"
  by code_simp

end
