(* ===== verification/RateLimit.thy ===== *)
theory RateLimit
  imports Http
begin

section \<open>Request ids and the rate limit (shared/http/middleware/security.go)\<close>

subsection \<open>Request ids\<close>

text \<open>\<open>random\<close> is the outcome of \<open>rand.Read\<close> of 16 bytes; without it the id is the time in base 36.\<close>

definition hex_digit :: "nat \<Rightarrow> char" where
  "hex_digit n = ''0123456789abcdef'' ! n"

definition hex_encode :: "nat list \<Rightarrow> string" where
  "hex_encode bs = concat (map (\<lambda>b. [hex_digit (b div 16), hex_digit (b mod 16)]) bs)"

fun base36 :: "nat \<Rightarrow> string" where
  "base36 n =
     (if n < 36 then [''0123456789abcdefghijklmnopqrstuvwxyz'' ! n]
      else base36 (n div 36) @ [''0123456789abcdefghijklmnopqrstuvwxyz'' ! (n mod 36)])"

definition new_request_id :: "nat list option \<Rightarrow> int \<Rightarrow> string" where
  "new_request_id random now =
     (case random of
        Some bs \<Rightarrow> hex_encode bs
      | None \<Rightarrow> ''req-'' @ (if now < 0 then ''-'' else []) @ base36 (nat \<bar>now\<bar>))"

text \<open>The id that goes into the context and into the reply's header.\<close>

definition request_id :: "string \<Rightarrow> nat list option \<Rightarrow> int \<Rightarrow> string" where
  "request_id header random now = (if header = [] then new_request_id random now else header)"

subsection \<open>The rate limit\<close>

text \<open>
  \<open>fresh\<close> is a new limiter and \<open>allow\<close> its \<open>Allow\<close> at a time (golang.org/x/time/rate). A request carries
  the user of the token, the client's address and the three clock readings made under the mutex: for the
  entry, for the cleanup and in \<open>Allow\<close>.
\<close>

record 'l rate_entry =
  re_limiter :: 'l
  re_seen :: int

record limited_request =
  lr_user :: int
  lr_ip :: string
  lr_seen :: int
  lr_swept :: int
  lr_asked :: int

definition rate_key :: "limited_request \<Rightarrow> string" where
  "rate_key r = (if lr_user r = 0 then lr_ip r else format_int (lr_user r) @ ''|'' @ lr_ip r)"

definition half_hour :: int where
  "half_hour = 1800000000000"

definition sweep :: "int \<Rightarrow> (string, 'l rate_entry) gomap \<Rightarrow> (string, 'l rate_entry) gomap" where
  "sweep now m = filter (\<lambda>(_, e). \<not> half_hour < now - re_seen e) m"

definition admin_rate_limit ::
    "'l \<Rightarrow> (int \<Rightarrow> 'l \<Rightarrow> bool \<times> 'l) \<Rightarrow> limited_request \<Rightarrow> (string, 'l rate_entry) gomap \<Rightarrow>
     (string, 'l rate_entry) gomap \<times> bool" where
  "admin_rate_limit fresh allow r m =
     (let key = rate_key r;
          entry = (case gm_get m key of None \<Rightarrow> \<lparr>re_limiter = fresh, re_seen = 0\<rparr> | Some e \<Rightarrow> e);
          entry1 = entry\<lparr>re_seen := lr_seen r\<rparr>;
          m1 = gm_put key entry1 m;
          m2 = (if 2000 < length m1 then sweep (lr_swept r) m1 else m1)
      in case allow (lr_asked r) (re_limiter entry1) of
           (ok, l) \<Rightarrow> (map (\<lambda>(k, e). if k = key then (k, e\<lparr>re_limiter := l\<rparr>) else (k, e)) m2, ok))"

fun limit_run ::
    "'l \<Rightarrow> (int \<Rightarrow> 'l \<Rightarrow> bool \<times> 'l) \<Rightarrow> limited_request list \<Rightarrow> (string, 'l rate_entry) gomap \<Rightarrow> bool list" where
  "limit_run fresh allow [] m = []"
| "limit_run fresh allow (r # rs) m =
     (case admin_rate_limit fresh allow r m of (m', ok) \<Rightarrow> ok # limit_run fresh allow rs m')"

text \<open>The specification: one limiter for every key, for ever.\<close>

definition spec_limit :: "(int \<Rightarrow> 'l \<Rightarrow> bool \<times> 'l) \<Rightarrow> limited_request \<Rightarrow> (string \<Rightarrow> 'l) \<Rightarrow> (string \<Rightarrow> 'l) \<times> bool" where
  "spec_limit allow r f =
     (case allow (lr_asked r) (f (rate_key r)) of (ok, l) \<Rightarrow> (f(rate_key r := l), ok))"

fun spec_run :: "(int \<Rightarrow> 'l \<Rightarrow> bool \<times> 'l) \<Rightarrow> limited_request list \<Rightarrow> (string \<Rightarrow> 'l) \<Rightarrow> bool list" where
  "spec_run allow [] f = []"
| "spec_run allow (r # rs) f = (case spec_limit allow r f of (f', ok) \<Rightarrow> ok # spec_run allow rs f')"

subsection \<open>The cleanup cannot be seen\<close>

text \<open>
  A limiter used by time t, as far as \<open>used_by\<close> tells, that is not asked for 29 minutes has refilled and
  answers like a new one. (With 10 tokens a second and a burst of 30, three seconds are enough.)
\<close>

definition limiter_refills :: "'l \<Rightarrow> (int \<Rightarrow> 'l \<Rightarrow> bool \<times> 'l) \<Rightarrow> (int \<Rightarrow> 'l \<Rightarrow> bool) \<Rightarrow> bool" where
  "limiter_refills fresh allow used_by \<longleftrightarrow>
     (\<forall>t l. used_by t l \<longrightarrow> used_by t (snd (allow t l))) \<and>
     (\<forall>t t' l. used_by t l \<longrightarrow> t \<le> t' \<longrightarrow> used_by t' l) \<and>
     (\<forall>t. used_by t fresh) \<and>
     (\<forall>t t' l. used_by t l \<longrightarrow> t + 1740000000000 < t' \<longrightarrow> allow t' l = allow t' fresh)"

text \<open>The readings of a request are in order and within a minute, and requests follow one another.\<close>

fun in_time :: "int \<Rightarrow> limited_request list \<Rightarrow> bool" where
  "in_time t [] \<longleftrightarrow> True"
| "in_time t (r # rs) \<longleftrightarrow>
     t \<le> lr_seen r \<and> lr_seen r \<le> lr_swept r \<and> lr_swept r \<le> lr_asked r \<and>
     lr_asked r \<le> lr_seen r + 60000000000 \<and> in_time (lr_asked r) rs"

definition limit_sim ::
    "'l \<Rightarrow> (int \<Rightarrow> 'l \<Rightarrow> bool \<times> 'l) \<Rightarrow> (int \<Rightarrow> 'l \<Rightarrow> bool) \<Rightarrow> int \<Rightarrow> (string, 'l rate_entry) gomap \<Rightarrow> (string \<Rightarrow> 'l) \<Rightarrow> bool" where
  "limit_sim fresh allow used_by t m f \<longleftrightarrow>
     gm_ok m \<and>
     (\<forall>k. case gm_get m k of
            Some e \<Rightarrow> f k = re_limiter e \<and> used_by (min t (re_seen e + 60000000000)) (f k)
          | None \<Rightarrow> \<forall>t' \<ge> t. allow t' (f k) = allow t' fresh)"

lemma gm_get_sweep:
  assumes "gm_ok m"
  shows "gm_get (sweep now m) k =
           (case gm_get m k of
              None \<Rightarrow> None
            | Some e \<Rightarrow> if half_hour < now - re_seen e then None else Some e)"
  using assms unfolding sweep_def by (induction m) (auto simp: map_of_eq_None_iff image_iff split: option.splits)

lemma gm_ok_sweep: "gm_ok m \<Longrightarrow> gm_ok (sweep now m)"
  unfolding sweep_def by (induction m) (auto simp: image_iff)

lemma gm_get_adjust:
  "gm_get (map (\<lambda>(k, e). if k = key then (k, h e) else (k, e)) m) k =
     (if k = key then map_option h (gm_get m k) else gm_get m k)"
  by (induction m) auto

lemma gm_ok_adjust: "gm_ok (map (\<lambda>(k, e). if k = key then (k, h e) else (k, e)) m) = gm_ok m"
proof -
  have "map fst (map (\<lambda>(k, e). if k = key then (k, h e) else (k, e)) m) = map fst m" by (induction m) auto
  then show ?thesis by (simp only:)
qed

text \<open>The map after a request, key by key.\<close>

lemma admin_rate_limit_map:
  assumes ok: "gm_ok m" and near: "lr_seen r \<le> lr_swept r" "lr_swept r \<le> lr_seen r + 60000000000"
    and run: "admin_rate_limit fresh allow r m = (m', b)"
  defines "l \<equiv> (case gm_get m (rate_key r) of None \<Rightarrow> fresh | Some e \<Rightarrow> re_limiter e)"
  shows "gm_ok m'" and "b = fst (allow (lr_asked r) l)"
    and "gm_get m' (rate_key r) = Some \<lparr>re_limiter = snd (allow (lr_asked r) l), re_seen = lr_seen r\<rparr>"
    and "k \<noteq> rate_key r \<Longrightarrow>
           gm_get m' k = gm_get m k \<or>
           gm_get m' k = None \<and> (\<exists>e. gm_get m k = Some e \<and> half_hour < lr_swept r - re_seen e)"
proof -
  let ?e = "(case gm_get m (rate_key r) of None \<Rightarrow> \<lparr>re_limiter = fresh, re_seen = 0\<rparr> | Some e \<Rightarrow> e)\<lparr>re_seen := lr_seen r\<rparr>"
  let ?m1 = "gm_put (rate_key r) ?e m"
  let ?m2 = "if 2000 < length ?m1 then sweep (lr_swept r) ?m1 else ?m1"
  have e: "re_limiter ?e = l" "re_seen ?e = lr_seen r" by (auto simp: l_def split: option.splits)
  have m': "m' = map (\<lambda>(k, e). if k = rate_key r then (k, e\<lparr>re_limiter := snd (allow (lr_asked r) l)\<rparr>) else (k, e)) ?m2"
    and b: "b = fst (allow (lr_asked r) l)"
    using run e(1) by (auto simp: admin_rate_limit_def Let_def split: prod.splits if_splits)
  have ok1: "gm_ok ?m1" using ok by (rule distinct_update)
  then have ok2: "gm_ok ?m2" using gm_ok_sweep [OF ok1] by simp
  then show "gm_ok m'" by (simp only: m' gm_ok_adjust)
  show "b = fst (allow (lr_asked r) l)" by (rule b)
  have here: "gm_get ?m2 (rate_key r) = Some ?e"
    using near e(2) by (auto simp: gm_get_sweep [OF ok1] gm_get_put half_hour_def)
  show "gm_get m' (rate_key r) = Some \<lparr>re_limiter = snd (allow (lr_asked r) l), re_seen = lr_seen r\<rparr>"
    using here e(2) by (simp only: m' gm_get_adjust) simp
  show "gm_get m' k = gm_get m k \<or>
      gm_get m' k = None \<and> (\<exists>e. gm_get m k = Some e \<and> half_hour < lr_swept r - re_seen e)" if "k \<noteq> rate_key r"
  proof -
    have "gm_get m' k = gm_get ?m2 k" using that by (simp only: m' gm_get_adjust) simp
    moreover have "gm_get ?m1 k = gm_get m k" using that by (simp add: gm_get_put)
    ultimately show ?thesis by (auto simp: gm_get_sweep [OF ok1] split: option.splits if_splits)
  qed
qed

lemma limit_sim_step:
  assumes refills: "limiter_refills fresh allow used_by" and sim: "limit_sim fresh allow used_by t m f"
    and time: "t \<le> lr_seen r" "lr_seen r \<le> lr_swept r" "lr_swept r \<le> lr_asked r" "lr_asked r \<le> lr_seen r + 60000000000"
    and run: "admin_rate_limit fresh allow r m = (m', b)" and sp: "spec_limit allow r f = (f', b')"
  shows "b = b'" and "limit_sim fresh allow used_by (lr_asked r) m' f'"
proof -
  have laws: "used_by t l \<Longrightarrow> used_by t (snd (allow t l))" "used_by t l \<Longrightarrow> t \<le> t' \<Longrightarrow> used_by t' l" "used_by t fresh"
    "used_by t l \<Longrightarrow> t + 1740000000000 < t' \<Longrightarrow> allow t' l = allow t' fresh" for t t' l
    using refills unfolding limiter_refills_def by (fast, fast, fast, fast)
  have ok: "gm_ok m"
    and some: "gm_get m k = Some e \<Longrightarrow> f k = re_limiter e \<and> used_by (min t (re_seen e + 60000000000)) (f k)"
    and none: "gm_get m k = None \<Longrightarrow> t \<le> t' \<Longrightarrow> allow t' (f k) = allow t' fresh" for k e t'
    using sim unfolding limit_sim_def by (auto dest: spec [of _ k] split: option.splits)
  define l where "l = (case gm_get m (rate_key r) of None \<Rightarrow> fresh | Some e \<Rightarrow> re_limiter e)"
  have near: "lr_swept r \<le> lr_seen r + 60000000000" using time by simp
  note m' = admin_rate_limit_map [OF ok time(2) near run, folded l_def]
  have same: "allow (lr_asked r) (f (rate_key r)) = allow (lr_asked r) l"
    using some [of "rate_key r"] none [of "rate_key r" "lr_asked r"] time by (auto simp: l_def split: option.splits)
  then have f': "f' = f(rate_key r := snd (allow (lr_asked r) l))" and b': "b' = fst (allow (lr_asked r) l)"
    using sp by (auto simp: spec_limit_def split: prod.splits)
  show "b = b'" using m'(2) b' by simp
  have used: "used_by (lr_asked r) l"
  proof (cases "gm_get m (rate_key r)")
    case None
    then show ?thesis using laws(3) by (simp add: l_def)
  next
    case (Some e)
    then have "l = re_limiter e" by (simp add: l_def)
    with some [OF Some] have "used_by (min t (re_seen e + 60000000000)) l" by auto
    moreover have "min t (re_seen e + 60000000000) \<le> lr_asked r" using time by (simp add: min_le_iff_disj)
    ultimately show ?thesis by (rule laws(2))
  qed
  have "case gm_get m' k of
          Some e \<Rightarrow> f' k = re_limiter e \<and> used_by (min (lr_asked r) (re_seen e + 60000000000)) (f' k)
        | None \<Rightarrow> \<forall>t' \<ge> lr_asked r. allow t' (f' k) = allow t' fresh" for k
  proof (cases "k = rate_key r")
    case True
    with m'(3) f' laws(1) [OF used] time show ?thesis by (simp add: min_def)
  next
    case other: False
    then have fk: "f' k = f k" using f' by simp
    show ?thesis
    proof (cases "gm_get m k")
      case None
      with m'(4) [OF other] have "gm_get m' k = None" by auto
      with none [OF None] fk time show ?thesis by simp
    next
      case (Some e)
      note here = some [OF Some]
      from m'(4) [OF other] Some consider "gm_get m' k = Some e" | "gm_get m' k = None" "half_hour < lr_swept r - re_seen e"
        by auto
      then show ?thesis
      proof cases
        case 1
        have "used_by (min (lr_asked r) (re_seen e + 60000000000)) (f k)"
          by (rule laws(2) [OF conjunct2 [OF here]]) (use time in \<open>simp add: min_le_iff_disj\<close>)
        with 1 here fk show ?thesis by simp
      next
        case 2
        have "used_by (re_seen e + 60000000000) (f k)"
          by (rule laws(2) [OF conjunct2 [OF here]]) simp
        from laws(4) [OF this] 2 time fk show ?thesis by (simp add: half_hour_def)
      qed
    qed
  qed
  with m'(1) show "limit_sim fresh allow used_by (lr_asked r) m' f'" by (simp add: limit_sim_def)
qed

lemma limit_sim_run:
  assumes "limiter_refills fresh allow used_by" and "limit_sim fresh allow used_by t m f" and "in_time t rs"
  shows "limit_run fresh allow rs m = spec_run allow rs f"
  using assms(2,3)
proof (induction rs arbitrary: t m f)
  case (Cons r rs)
  obtain m' b f' b' where step: "admin_rate_limit fresh allow r m = (m', b)" "spec_limit allow r f = (f', b')"
    by (cases "admin_rate_limit fresh allow r m", cases "spec_limit allow r f") auto
  from Cons.prems(2) have time: "t \<le> lr_seen r" "lr_seen r \<le> lr_swept r" "lr_swept r \<le> lr_asked r"
    "lr_asked r \<le> lr_seen r + 60000000000" and rest: "in_time (lr_asked r) rs" by simp_all
  note sim = limit_sim_step [OF assms(1) Cons.prems(1) time step]
  from Cons.IH [OF sim(2) rest] sim(1) step show ?case by simp
qed simp

text \<open>The rate limit of the admin routes answers every sequence of requests as if each pair of a user and
  an address had a limiter of its own that is never thrown away: the cleanup of the map, which runs once it
  holds more than 2000 entries and drops those idle for half an hour, cannot be noticed, because a limiter
  that idle has refilled.\<close>

theorem rate_limit_cleanup_unobservable:
  assumes "limiter_refills fresh allow used_by" and "in_time t rs"
  shows "limit_run fresh allow rs [] = spec_run allow rs (\<lambda>_. fresh)"
  by (rule limit_sim_run [OF assms(1) _ assms(2)]) (simp add: limit_sim_def)

text \<open>A token bucket: 10 tokens a second up to 30; times in nanoseconds, tokens in units of 1e-8.\<close>

definition bucket_allow :: "int \<Rightarrow> int \<times> int \<Rightarrow> bool \<times> int \<times> int" where
  "bucket_allow t b =
     (let tokens = min 3000000000 (fst b + max 0 (t - snd b))
      in if 100000000 \<le> tokens then (True, tokens - 100000000, t) else (False, b))"

definition bucket_used_by :: "int \<Rightarrow> int \<times> int \<Rightarrow> bool" where
  "bucket_used_by t b \<longleftrightarrow> 0 \<le> fst b \<and> fst b \<le> 3000000000 \<and> snd b \<le> t \<or> b = (3000000000, 0)"

lemma bucket_refills: "limiter_refills (3000000000, 0) bucket_allow bucket_used_by"
  unfolding limiter_refills_def bucket_allow_def bucket_used_by_def Let_def by (auto split: if_splits)

lemma rate_limit_cleanup_unobservable_witness:
  "limit_run (3000000000, 0) bucket_allow
     [\<lparr>lr_user = 1, lr_ip = ''a'', lr_seen = 10, lr_swept = 11, lr_asked = 12\<rparr>,
      \<lparr>lr_user = 1, lr_ip = ''a'', lr_seen = 20, lr_swept = 21, lr_asked = 22\<rparr>] [] = [True, True]"
  by (subst rate_limit_cleanup_unobservable [OF bucket_refills, of 0])
    (simp_all add: spec_limit_def bucket_allow_def rate_key_def Let_def)

lemma random_request_id_length: "length bs = 16 \<Longrightarrow> length (request_id [] (Some bs) now) = 32"
proof -
  have "length (hex_encode bs) = 2 * length bs" for bs by (induction bs) (simp_all add: hex_encode_def)
  then show "length bs = 16 \<Longrightarrow> ?thesis" by (simp add: request_id_def new_request_id_def)
qed

end
