(* ===== verification/Mongo.thy ===== *)
theory Mongo
  imports Gorm GoStrings "HOL-Library.Product_Lexorder" "HOL-Library.List_Lexorder" "HOL-Library.Char_ord"
begin

section \<open>MongoDB collections\<close>

text \<open>
  What the code uses of the MongoDB driver: BSON documents with 64-bit integers, strings and dates,
  filters, sorted pages, counts, upserts, updates of many documents and two forms of aggregation. The
  server is a record of functions over its own state; \<open>collection_laws\<close> states what its manual says of
  them. \<open>rx\<close> tells whether a text matches a regular expression when case is ignored.
\<close>

subsection \<open>Documents and filters\<close>

datatype bson = BInt int | BStr string | BDate int

type_synonym doc = "(string, bson) gomap"

datatype bson_op = OpExists bool | OpLt bson | OpGt bson | OpGte bson | OpIn "bson list"

datatype bson_cond =
    Is bson
  | Ops "bson_op list"
  | Pattern string
  | Clauses "(string \<times> bson_cond) list list"

type_synonym bson_filter = "(string, bson_cond) gomap"

text \<open>A comparison holds only between values of one type, and never for a missing field.\<close>

fun bson_less :: "bson \<Rightarrow> bson \<Rightarrow> bool" where
  "bson_less (BInt a) (BInt b) \<longleftrightarrow> a < b"
| "bson_less (BStr a) (BStr b) \<longleftrightarrow> a < b"
| "bson_less (BDate a) (BDate b) \<longleftrightarrow> a < b"
| "bson_less _ _ \<longleftrightarrow> False"

fun op_holds :: "bson_op \<Rightarrow> bson option \<Rightarrow> bool" where
  "op_holds (OpExists b) x \<longleftrightarrow> (x \<noteq> None) = b"
| "op_holds (OpLt v) x \<longleftrightarrow> (case x of None \<Rightarrow> False | Some w \<Rightarrow> bson_less w v)"
| "op_holds (OpGt v) x \<longleftrightarrow> (case x of None \<Rightarrow> False | Some w \<Rightarrow> bson_less v w)"
| "op_holds (OpGte v) x \<longleftrightarrow> (case x of None \<Rightarrow> False | Some w \<Rightarrow> w = v \<or> bson_less v w)"
| "op_holds (OpIn vs) x \<longleftrightarrow> (case x of None \<Rightarrow> False | Some w \<Rightarrow> w \<in> set vs)"

text \<open>The keys "$or" and "$and" take lists of filters; all other keys name a field.\<close>

function cond_holds :: "(string \<Rightarrow> string \<Rightarrow> bool) \<Rightarrow> doc \<Rightarrow> string \<Rightarrow> bson_cond \<Rightarrow> bool" where
  "cond_holds rx d k (Is v) = (gm_get d k = Some v)"
| "cond_holds rx d k (Ops ps) = list_all (\<lambda>p. op_holds p (gm_get d k)) ps"
| "cond_holds rx d k (Pattern p) = (case gm_get d k of Some (BStr s) \<Rightarrow> rx p s | _ \<Rightarrow> False)"
| "cond_holds rx d k (Clauses fs) =
     (if k = ''$or'' then list_ex (\<lambda>f. list_all (\<lambda>kc. cond_holds rx d (fst kc) (snd kc)) f) fs
      else k = ''$and'' \<and> list_all (\<lambda>f. list_all (\<lambda>kc. cond_holds rx d (fst kc) (snd kc)) f) fs)"
  by pat_completeness auto

lemma size_clause: "f \<in> set fs \<Longrightarrow> kc \<in> set f \<Longrightarrow> size (snd kc) < size (Clauses fs)"
proof -
  assume f: "f \<in> set fs" and kc: "kc \<in> set f"
  have "size (snd kc) \<le> size_prod (\<lambda>_. 0) size kc" by (cases kc) simp
  also have "\<dots> \<le> size_list (size_prod (\<lambda>_. 0) size) f" using size_list_estimation' [OF kc order_refl] by simp
  also have "\<dots> \<le> size_list (size_list (size_prod (\<lambda>_. 0) size)) fs" using size_list_estimation' [OF f order_refl] by simp
  finally show ?thesis by simp
qed

termination cond_holds
  by (relation "measure (\<lambda>(_, _, _, c). size c)") (simp_all only: in_measure prod.case size_clause wf_measure)

definition filter_holds :: "(string \<Rightarrow> string \<Rightarrow> bool) \<Rightarrow> bson_filter \<Rightarrow> doc \<Rightarrow> bool" where
  "filter_holds rx f d \<longleftrightarrow> list_all (\<lambda>kc. cond_holds rx d (fst kc) (snd kc)) f"

text \<open>The order of a sort: missing fields first, then numbers, strings and dates.\<close>

fun sort_rank :: "bson option \<Rightarrow> nat \<times> int \<times> string" where
  "sort_rank None = (0, 0, [])"
| "sort_rank (Some (BInt i)) = (1, i, [])"
| "sort_rank (Some (BStr s)) = (2, 0, s)"
| "sort_rank (Some (BDate t)) = (3, t, [])"

type_synonym sort_spec = "(string \<times> bool) list"

text \<open>\<open>True\<close> sorts a key descending.\<close>

fun sorts_before :: "sort_spec \<Rightarrow> doc \<Rightarrow> doc \<Rightarrow> bool" where
  "sorts_before [] a b \<longleftrightarrow> True"
| "sorts_before ((k, desc) # ks) a b \<longleftrightarrow>
     (let x = sort_rank (gm_get a k); y = sort_rank (gm_get b k)
      in (if desc then y < x else x < y) \<or> (x = y \<and> sorts_before ks a b))"

subsection \<open>The server\<close>

datatype mongo_error = NoDocuments | MongoFailure string

text \<open>Keys of a group: a field, or a date field written in a format and a time zone.\<close>

datatype group_key = ByField string | ByDate string string string

datatype stage = Match bson_filter | GroupCount group_key | SortBy sort_spec | Limit int

record 's collection =
  mc_find :: "bson_filter \<Rightarrow> sort_spec \<Rightarrow> nat \<Rightarrow> int \<Rightarrow> 's \<Rightarrow> mongo_error + doc list"
  mc_count :: "bson_filter \<Rightarrow> 's \<Rightarrow> mongo_error + nat"
  mc_upsert :: "bson_filter \<Rightarrow> doc \<Rightarrow> 's \<Rightarrow> 's \<times> (mongo_error + unit)"
  mc_bulk_upsert :: "(bson_filter \<times> doc) list \<Rightarrow> 's \<Rightarrow> 's \<times> (mongo_error + unit)"
  mc_set_many :: "bson_filter \<Rightarrow> string \<Rightarrow> bson \<Rightarrow> 's \<Rightarrow> 's \<times> (mongo_error + unit)"
  mc_aggregate :: "stage list \<Rightarrow> 's \<Rightarrow> mongo_error + doc list"
  mc_distinct :: "string \<Rightarrow> bson_filter \<Rightarrow> 's \<Rightarrow> mongo_error + bson list"

text \<open>A limit of 0 is no limit, a negative one its absolute value.\<close>

definition mongo_limit :: "int \<Rightarrow> nat option" where
  "mongo_limit n = (if n = 0 then None else Some (nat \<bar>n\<bar>))"

definition find_one :: "'s collection \<Rightarrow> bson_filter \<Rightarrow> 's \<Rightarrow> mongo_error + doc" where
  "find_one c f s =
     (case mc_find c f [] 0 1 s of
        Inl e \<Rightarrow> Inl e
      | Inr [] \<Rightarrow> Inl NoDocuments
      | Inr (d # _) \<Rightarrow> Inr d)"

text \<open>\<open>$setOnInsert\<close> with \<open>upsert\<close>: nothing when a document matches; otherwise a new document with the
  given fields and the filter's equations. (Documents of the code always carry their key.)\<close>

definition inserted :: "bson_filter \<Rightarrow> doc \<Rightarrow> doc" where
  "inserted f d = d @ List.map_filter (\<lambda>(k, c). case c of Is v \<Rightarrow> if gm_get d k = None then Some (k, v) else None | _ \<Rightarrow> None) f"

definition upsert_doc :: "(string \<Rightarrow> string \<Rightarrow> bool) \<Rightarrow> bson_filter \<times> doc \<Rightarrow> doc list \<Rightarrow> doc list" where
  "upsert_doc rx fd ds = (if \<exists>x \<in> set ds. filter_holds rx (fst fd) x then ds else ds @ [inserted (fst fd) (snd fd)])"

text \<open>
  Aggregation. \<open>fmt\<close> writes a date in a format and a time zone. A group has one row per key with its number
  of documents; a missing or null key has no \<open>_id\<close> here, since the code decodes null like a missing field.
  The order of groups is arbitrary unless a sort follows.
\<close>

definition group_value :: "(string \<Rightarrow> string \<Rightarrow> int \<Rightarrow> string) \<Rightarrow> group_key \<Rightarrow> doc \<Rightarrow> bson option" where
  "group_value fmt g d =
     (case g of
        ByField k \<Rightarrow> gm_get d k
      | ByDate k f tz \<Rightarrow> (case gm_get d k of Some (BDate t) \<Rightarrow> Some (BStr (fmt f tz t)) | _ \<Rightarrow> None))"

definition group_row :: "bson option \<Rightarrow> nat \<Rightarrow> doc" where
  "group_row k n = (case k of None \<Rightarrow> [] | Some v \<Rightarrow> [(''_id'', v)]) @ [(''count'', BInt (int n))]"

definition group_rows :: "(string \<Rightarrow> string \<Rightarrow> int \<Rightarrow> string) \<Rightarrow> group_key \<Rightarrow> doc list \<Rightarrow> doc list" where
  "group_rows fmt g ds =
     (let ks = map (group_value fmt g) ds in map (\<lambda>k. group_row k (count_list ks k)) (remdups ks))"

fun stage_result ::
    "(string \<Rightarrow> string \<Rightarrow> bool) \<Rightarrow> (string \<Rightarrow> string \<Rightarrow> int \<Rightarrow> string) \<Rightarrow> stage \<Rightarrow> doc list \<Rightarrow> doc list \<Rightarrow> bool" where
  "stage_result rx fmt (Match f) ds out \<longleftrightarrow> mset out = mset (filter (filter_holds rx f) ds)"
| "stage_result rx fmt (GroupCount g) ds out \<longleftrightarrow> mset out = mset (group_rows fmt g ds)"
| "stage_result rx fmt (SortBy o1) ds out \<longleftrightarrow> mset out = mset ds \<and> sorted_wrt (sorts_before o1) out"
| "stage_result rx fmt (Limit n) ds out \<longleftrightarrow> 0 < n \<and> out = take (nat n) ds"

fun aggregates ::
    "(string \<Rightarrow> string \<Rightarrow> bool) \<Rightarrow> (string \<Rightarrow> string \<Rightarrow> int \<Rightarrow> string) \<Rightarrow> stage list \<Rightarrow> doc list \<Rightarrow> doc list \<Rightarrow> bool" where
  "aggregates rx fmt [] ds out \<longleftrightarrow> out = ds"
| "aggregates rx fmt (st # sts) ds out \<longleftrightarrow> (\<exists>mid. stage_result rx fmt st ds mid \<and> aggregates rx fmt sts mid out)"

text \<open>The laws of the two reads that only the statistics use.\<close>

definition stats_laws ::
    "(string \<Rightarrow> string \<Rightarrow> bool) \<Rightarrow> (string \<Rightarrow> string \<Rightarrow> int \<Rightarrow> string) \<Rightarrow> ('s \<Rightarrow> doc list) \<Rightarrow> 's collection \<Rightarrow> bool" where
  "stats_laws rx fmt docs c \<longleftrightarrow>
     (\<forall>sts s out. mc_aggregate c sts s = Inr out \<longrightarrow> aggregates rx fmt sts (docs s) out) \<and>
     (\<forall>k f s vs. mc_distinct c k f s = Inr vs \<longrightarrow>
        distinct vs \<and> set vs = {v. \<exists>d \<in> set (docs s). filter_holds rx f d \<and> gm_get d k = Some v})"

text \<open>
  The laws. An unordered bulk write applies its operations in some order when it succeeds, and some of
  them when it fails.
\<close>

definition collection_laws ::
    "(string \<Rightarrow> string \<Rightarrow> bool) \<Rightarrow> ('s \<Rightarrow> doc list) \<Rightarrow> 's collection \<Rightarrow> bool" where
  "collection_laws rx docs c \<longleftrightarrow>
     (\<forall>f o1 skip lim s ds. mc_find c f o1 skip lim s = Inr ds \<longrightarrow>
        answers \<lparr>q_where = filter_holds rx f, q_order = sorts_before o1, q_offset = skip, q_limit = mongo_limit lim\<rparr> (docs s) ds) \<and>
     (\<forall>f s n. mc_count c f s = Inr n \<longrightarrow> n = length (filter (filter_holds rx f) (docs s))) \<and>
     (\<forall>f d s s' e. mc_upsert c f d s = (s', Inl e) \<longrightarrow> docs s' = docs s) \<and>
     (\<forall>f d s s'. mc_upsert c f d s = (s', Inr ()) \<longrightarrow> docs s' = upsert_doc rx (f, d) (docs s)) \<and>
     (\<forall>fds s s' e. mc_bulk_upsert c fds s = (s', Inl e) \<longrightarrow>
        (\<exists>fds'. mset fds' \<subseteq># mset fds \<and> docs s' = fold (upsert_doc rx) fds' (docs s))) \<and>
     (\<forall>fds s s'. mc_bulk_upsert c fds s = (s', Inr ()) \<longrightarrow>
        (\<exists>fds'. mset fds' = mset fds \<and> docs s' = fold (upsert_doc rx) fds' (docs s))) \<and>
     (\<forall>f k v s s'. mc_set_many c f k v s = (s', Inr ()) \<longrightarrow>
        docs s' = map (\<lambda>d. if filter_holds rx f d then gm_put k v d else d) (docs s))"

lemma collection_lawsD:
  assumes "collection_laws rx docs c"
  shows "mc_find c f o1 skip lim s = Inr ds \<Longrightarrow>
      answers \<lparr>q_where = filter_holds rx f, q_order = sorts_before o1, q_offset = skip, q_limit = mongo_limit lim\<rparr> (docs s) ds"
    and "mc_count c f s = Inr n \<Longrightarrow> n = length (filter (filter_holds rx f) (docs s))"
    and "mc_upsert c f d s = (s', Inl e) \<Longrightarrow> docs s' = docs s"
    and "mc_upsert c f d s = (s', Inr ()) \<Longrightarrow> docs s' = upsert_doc rx (f, d) (docs s)"
    and "mc_bulk_upsert c fds s = (s', Inl e) \<Longrightarrow>
      \<exists>fds'. mset fds' \<subseteq># mset fds \<and> docs s' = fold (upsert_doc rx) fds' (docs s)"
    and "mc_bulk_upsert c fds s = (s', Inr ()) \<Longrightarrow>
      \<exists>fds'. mset fds' = mset fds \<and> docs s' = fold (upsert_doc rx) fds' (docs s)"
    and "mc_set_many c f k v s = (s', Inr ()) \<Longrightarrow>
      docs s' = map (\<lambda>d. if filter_holds rx f d then gm_put k v d else d) (docs s)"
proof -
  note laws = assms [unfolded collection_laws_def]
  show "mc_find c f o1 skip lim s = Inr ds \<Longrightarrow>
      answers \<lparr>q_where = filter_holds rx f, q_order = sorts_before o1, q_offset = skip, q_limit = mongo_limit lim\<rparr> (docs s) ds"
    using laws by simp
  show "mc_count c f s = Inr n \<Longrightarrow> n = length (filter (filter_holds rx f) (docs s))" using laws by simp
  show "mc_upsert c f d s = (s', Inl e) \<Longrightarrow> docs s' = docs s" using laws by metis
  show "mc_upsert c f d s = (s', Inr ()) \<Longrightarrow> docs s' = upsert_doc rx (f, d) (docs s)" using laws by simp
  show "mc_bulk_upsert c fds s = (s', Inl e) \<Longrightarrow>
      \<exists>fds'. mset fds' \<subseteq># mset fds \<and> docs s' = fold (upsert_doc rx) fds' (docs s)" using laws by metis
  show "mc_bulk_upsert c fds s = (s', Inr ()) \<Longrightarrow>
      \<exists>fds'. mset fds' = mset fds \<and> docs s' = fold (upsert_doc rx) fds' (docs s)" using laws by simp
  show "mc_set_many c f k v s = (s', Inr ()) \<Longrightarrow>
      docs s' = map (\<lambda>d. if filter_holds rx f d then gm_put k v d else d) (docs s)" using laws by simp
qed

subsection \<open>A collection that satisfies the laws\<close>

text \<open>The documents themselves are the state.\<close>

fun run_stages ::
    "(string \<Rightarrow> string \<Rightarrow> bool) \<Rightarrow> (string \<Rightarrow> string \<Rightarrow> int \<Rightarrow> string) \<Rightarrow> stage list \<Rightarrow> doc list \<Rightarrow> mongo_error + doc list" where
  "run_stages rx fmt [] ds = Inr ds"
| "run_stages rx fmt (Match f # sts) ds = run_stages rx fmt sts (filter (filter_holds rx f) ds)"
| "run_stages rx fmt (GroupCount g # sts) ds = run_stages rx fmt sts (group_rows fmt g ds)"
| "run_stages rx fmt (SortBy o1 # sts) ds =
     (let xs = sort_by (sorts_before o1) ds
      in if sorted_wrt (sorts_before o1) xs then run_stages rx fmt sts xs else Inl (MongoFailure ''order''))"
| "run_stages rx fmt (Limit n # sts) ds =
     (if 0 < n then run_stages rx fmt sts (take (nat n) ds) else Inl (MongoFailure ''limit''))"

definition list_collection ::
    "(string \<Rightarrow> string \<Rightarrow> bool) \<Rightarrow> (string \<Rightarrow> string \<Rightarrow> int \<Rightarrow> string) \<Rightarrow> (doc list) collection" where
  "list_collection rx fmt =
     \<lparr>mc_find = (\<lambda>f o1 skip lim ds.
        let xs = sort_by (sorts_before o1) (filter (filter_holds rx f) ds)
        in if sorted_wrt (sorts_before o1) xs then Inr (page skip (mongo_limit lim) xs) else Inl (MongoFailure ''order'')),
      mc_count = (\<lambda>f ds. Inr (length (filter (filter_holds rx f) ds))),
      mc_upsert = (\<lambda>f d ds. (upsert_doc rx (f, d) ds, Inr ())),
      mc_bulk_upsert = (\<lambda>fds ds. (fold (upsert_doc rx) fds ds, Inr ())),
      mc_set_many = (\<lambda>f k v ds. (map (\<lambda>d. if filter_holds rx f d then gm_put k v d else d) ds, Inr ())),
      mc_aggregate = run_stages rx fmt,
      mc_distinct = (\<lambda>k f ds. Inr (remdups (List.map_filter (\<lambda>d. gm_get d k) (filter (filter_holds rx f) ds))))\<rparr>"

lemma list_collection_laws: "collection_laws rx (\<lambda>s. s) (list_collection rx fmt)"
proof -
  have "answers \<lparr>q_where = filter_holds rx f, q_order = sorts_before o1, q_offset = skip, q_limit = mongo_limit lim\<rparr> s ds"
    if "mc_find (list_collection rx fmt) f o1 skip lim s = Inr ds" for f o1 skip lim s ds
    using that unfolding answers_def list_collection_def
    by (intro exI [of _ "sort_by (sorts_before o1) (filter (filter_holds rx f) s)"])
       (auto simp: Let_def mset_sort_by split: if_splits)
  then show ?thesis
    unfolding collection_laws_def by (auto simp: list_collection_def)
qed

lemma run_stages_aggregates: "run_stages rx fmt sts ds = Inr out \<Longrightarrow> aggregates rx fmt sts ds out"
proof (induction sts arbitrary: ds)
  case (Cons st sts)
  have "\<exists>mid. stage_result rx fmt st ds mid \<and> run_stages rx fmt sts mid = Inr out"
  proof (cases st)
    case (Match f)
    with Cons.prems show ?thesis by (intro exI [of _ "filter (filter_holds rx f) ds"]) simp
  next
    case (GroupCount g)
    with Cons.prems show ?thesis by (intro exI [of _ "group_rows fmt g ds"]) simp
  next
    case (SortBy o1)
    with Cons.prems show ?thesis
      by (intro exI [of _ "sort_by (sorts_before o1) ds"]) (simp add: Let_def mset_sort_by split: if_splits)
  next
    case (Limit n)
    with Cons.prems show ?thesis by (intro exI [of _ "take (nat n) ds"]) (simp split: if_splits)
  qed
  with Cons.IH show ?case by auto
qed simp

lemma list_collection_stats: "stats_laws rx fmt (\<lambda>s. s) (list_collection rx fmt)"
proof -
  have "set (List.map_filter f xs) = {v. \<exists>x \<in> set xs. f x = Some v}" for f :: "doc \<Rightarrow> bson option" and xs
    by (induction xs) (auto simp: List.map_filter_simps split: option.splits)
  then show ?thesis
    unfolding stats_laws_def by (auto simp: list_collection_def intro: run_stages_aggregates)
qed

end
