(* ===== verification/MongoRepo.thy ===== *)
theory MongoRepo
  imports Mongo MessageRepo
begin

section \<open>The message store in MongoDB (services/messages/api/mongo_repository.go)\<close>

text \<open>
  The repository over a collection, with the documents of models/message_document.go. BSON dates have
  milliseconds; a field with its type's zero value is left out of a document (\<open>omitempty\<close>).
\<close>

subsection \<open>Documents\<close>

definition int_entry :: "string \<Rightarrow> int \<Rightarrow> doc" where
  "int_entry k v = (if v = 0 then [] else [(k, BInt v)])"

definition str_entry :: "string \<Rightarrow> string \<Rightarrow> doc" where
  "str_entry k v = (if v = [] then [] else [(k, BStr v)])"

definition date_entry :: "string \<Rightarrow> int \<Rightarrow> doc" where
  "date_entry k t = (if t = zero_time then [] else [(k, BDate (unix_milli t))])"

text \<open>\<open>ToMessageDocument\<close> and the encoding of the document.\<close>

definition message_doc :: "message \<Rightarrow> doc" where
  "message_doc m =
     int_entry ''_id'' (m_id m) @ int_entry ''room_id'' (m_room m) @ int_entry ''sender_id'' (m_sender m) @
     str_entry ''client_msg_id'' (m_client_id m) @ int_entry ''type'' (m_type m) @
     str_entry ''content'' (m_content m) @ date_entry ''created_at'' (m_created m) @
     int_entry ''deleted_at'' (int (m_deleted m))"

definition int_field :: "nat \<Rightarrow> string \<Rightarrow> doc \<Rightarrow> int option" where
  "int_field w k d =
     (case gm_get d k of None \<Rightarrow> Some 0 | Some (BInt v) \<Rightarrow> if in_width w v then Some v else None | Some _ \<Rightarrow> None)"

definition str_field :: "string \<Rightarrow> doc \<Rightarrow> string option" where
  "str_field k d = (case gm_get d k of None \<Rightarrow> Some [] | Some (BStr v) \<Rightarrow> Some v | Some _ \<Rightarrow> None)"

definition date_field :: "string \<Rightarrow> doc \<Rightarrow> int option" where
  "date_field k d = (case gm_get d k of None \<Rightarrow> Some zero_time | Some (BDate ms) \<Rightarrow> Some (of_unix_milli ms) | Some _ \<Rightarrow> None)"

text \<open>The decoding of a document and \<open>ToMessage\<close>; a field of another type is an error.\<close>

definition decode_message :: "doc \<Rightarrow> message option" where
  "decode_message d =
     (case (int_field 64 ''_id'' d, int_field 64 ''room_id'' d, int_field 64 ''sender_id'' d) of
        (Some i, Some r, Some u) \<Rightarrow>
          (case (str_field ''client_msg_id'' d, int_field 8 ''type'' d, str_field ''content'' d) of
             (Some k, Some ty, Some x) \<Rightarrow>
               (case (date_field ''created_at'' d, int_field 64 ''deleted_at'' d) of
                  (Some t, Some del) \<Rightarrow>
                    Some \<lparr>m_id = i, m_room = r, m_sender = u, m_client_id = k, m_type = ty, m_content = x,
                          m_created = t, m_deleted = nat del\<rparr>
                | _ \<Rightarrow> None)
           | _ \<Rightarrow> None)
      | _ \<Rightarrow> None)"

text \<open>\<open>cursor.All\<close>: the first document that cannot be decoded is an error.\<close>

fun decode_all :: "doc list \<Rightarrow> mongo_error + message list" where
  "decode_all [] = Inr []"
| "decode_all (d # ds) =
     (case decode_message d of
        None \<Rightarrow> Inl (MongoFailure ''decode'')
      | Some m \<Rightarrow> map_sum id (\<lambda>ms. m # ms) (decode_all ds))"

definition find_messages ::
    "'s collection \<Rightarrow> bson_filter \<Rightarrow> sort_spec \<Rightarrow> nat \<Rightarrow> int \<Rightarrow> 's \<Rightarrow> mongo_error + message list" where
  "find_messages c f o1 skip lim s =
     (case mc_find c f o1 skip lim s of Inl e \<Rightarrow> Inl e | Inr ds \<Rightarrow> decode_all ds)"

subsection \<open>The repository\<close>

definition not_deleted_filter :: bson_filter where
  "not_deleted_filter = [(''$or'', Clauses [[(''deleted_at'', Ops [OpExists False])], [(''deleted_at'', Is (BInt 0))]])]"

definition bdate :: "int \<Rightarrow> bson" where
  "bdate t = BDate (unix_milli t)"

text \<open>\<open>None\<close> is a nil message.\<close>

definition mongo_save_message :: "'s collection \<Rightarrow> message option \<Rightarrow> 's \<Rightarrow> 's \<times> (mongo_error + unit)" where
  "mongo_save_message c msg s =
     (case msg of
        None \<Rightarrow> (s, Inr ())
      | Some m \<Rightarrow> mc_upsert c [(''client_msg_id'', Is (BStr (m_client_id m)))] (message_doc m) s)"

definition upsert_models :: "message option list \<Rightarrow> (bson_filter \<times> doc) list" where
  "upsert_models msgs =
     List.map_filter (\<lambda>x. case x of
        None \<Rightarrow> None
      | Some m \<Rightarrow> if m_client_id m = [] then None
                  else Some ([(''client_msg_id'', Is (BStr (m_client_id m)))], message_doc m)) msgs"

definition mongo_save_message_batch :: "'s collection \<Rightarrow> message option list \<Rightarrow> 's \<Rightarrow> 's \<times> (mongo_error + unit)" where
  "mongo_save_message_batch c msgs s =
     (if msgs = [] then (s, Inr ())
      else (let models = upsert_models msgs
            in if models = [] then (s, Inr ()) else mc_bulk_upsert c models s))"

definition newest_first :: sort_spec where
  "newest_first = [(''created_at'', True), (''_id'', True)]"

definition history_filter :: "'s collection \<Rightarrow> int \<Rightarrow> int \<Rightarrow> 's \<Rightarrow> bson_filter" where
  "history_filter c roomID cursor s =
     (if 0 < cursor then
        (case (case find_one c [(''_id'', Is (BInt cursor))] s of Inl _ \<Rightarrow> None | Inr d \<Rightarrow> decode_message d) of
           Some cur \<Rightarrow>
             [(''room_id'', Is (BInt roomID)),
              (''$and'', Clauses
                 [not_deleted_filter,
                  [(''$or'', Clauses
                      [[(''created_at'', Ops [OpLt (bdate (m_created cur))])],
                       [(''created_at'', Is (bdate (m_created cur))), (''_id'', Ops [OpLt (BInt cursor)])]])]])]
         | None \<Rightarrow>
             [(''room_id'', Is (BInt roomID)),
              (''$and'', Clauses [not_deleted_filter, [(''_id'', Ops [OpLt (BInt cursor)])]])])
      else gm_put ''room_id'' (Is (BInt roomID)) not_deleted_filter)"

definition mongo_history_by_cursor :: "'s collection \<Rightarrow> int \<Rightarrow> int \<Rightarrow> int \<Rightarrow> 's \<Rightarrow> mongo_error + message list" where
  "mongo_history_by_cursor c roomID cursor limit s =
     map_sum id rev (find_messages c (history_filter c roomID cursor s) newest_first 0 limit s)"

definition mongo_soft_delete_user_messages :: "'s collection \<Rightarrow> int \<Rightarrow> int \<Rightarrow> int \<Rightarrow> 's \<Rightarrow> 's \<times> (mongo_error + unit)" where
  "mongo_soft_delete_user_messages c now roomID userID s =
     mc_set_many c
       [(''room_id'', Is (BInt roomID)), (''sender_id'', Is (BInt userID)), (''$and'', Clauses [not_deleted_filter])]
       ''deleted_at'' (BInt (unix_milli now)) s"

definition mongo_messages_by_time_range ::
    "'s collection \<Rightarrow> int \<Rightarrow> int \<Rightarrow> int \<Rightarrow> int \<Rightarrow> 's \<Rightarrow> mongo_error + message list" where
  "mongo_messages_by_time_range c roomID start end limit s =
     find_messages c
       (gm_put ''created_at'' (Ops [OpGte (bdate start), OpLt (bdate end)])
          (gm_put ''room_id'' (Is (BInt roomID)) not_deleted_filter))
       [(''created_at'', False), (''_id'', False)] 0 limit s"

definition after_id_filter :: "int \<Rightarrow> int \<Rightarrow> bson_filter" where
  "after_id_filter roomID sinceID =
     (let f = gm_put ''room_id'' (Is (BInt roomID)) not_deleted_filter
      in if 0 < sinceID then gm_put ''_id'' (Ops [OpGt (BInt sinceID)]) f else f)"

definition mongo_messages_after_id :: "'s collection \<Rightarrow> int \<Rightarrow> int \<Rightarrow> int \<Rightarrow> 's \<Rightarrow> mongo_error + message list" where
  "mongo_messages_after_id c roomID sinceID limit s =
     find_messages c (after_id_filter roomID sinceID) [(''_id'', False)] 0 limit s"

definition mongo_count_after_id :: "'s collection \<Rightarrow> int \<Rightarrow> int \<Rightarrow> 's \<Rightarrow> mongo_error + nat" where
  "mongo_count_after_id c roomID sinceID s = mc_count c (after_id_filter roomID sinceID) s"

text \<open>\<open>regexp.QuoteMeta\<close>.\<close>

definition quote_meta :: "string \<Rightarrow> string" where
  "quote_meta s = concat (map (\<lambda>c. if c \<in> set (CHR 0x5C # ''.+*?()|[]{}^$'') then [CHR 0x5C, c] else [c]) s)"

definition search_filter :: "search_params \<Rightarrow> bson_filter" where
  "search_filter p =
     (let f0 = gm_put ''room_id'' (Is (BInt (sp_room p))) not_deleted_filter;
          f1 = (if sp_keyword p \<noteq> [] then gm_put ''content'' (Pattern (quote_meta (sp_keyword p))) f0 else f0);
          f2 = (if 0 < sp_sender p then gm_put ''sender_id'' (Is (BInt (sp_sender p))) f1 else f1)
      in if sp_start p \<noteq> zero_time \<or> sp_end p \<noteq> zero_time
         then gm_put ''created_at''
                (Ops ((if sp_start p \<noteq> zero_time then [OpGte (bdate (sp_start p))] else []) @
                      (if sp_end p \<noteq> zero_time then [OpLt (bdate (sp_end p))] else []))) f2
         else f2)"

definition mongo_search_messages :: "'s collection \<Rightarrow> search_params \<Rightarrow> 's \<Rightarrow> mongo_error + message list \<times> nat" where
  "mongo_search_messages c p s =
     (case mc_count c (search_filter p) s of
        Inl e \<Rightarrow> Inl e
      | Inr n \<Rightarrow>
          (let limit = (if sp_limit p \<le> 0 \<or> 100 < sp_limit p then 20 else sp_limit p);
               offset = (if sp_offset p < 0 then 0 else sp_offset p)
           in case find_messages c (search_filter p) newest_first (nat offset) limit s of
                Inl e \<Rightarrow> Inl e
              | Inr ms \<Rightarrow> Inr (ms, n)))"

lemma message_doc_fields:
  "gm_get (message_doc m) ''_id'' = (if m_id m = 0 then None else Some (BInt (m_id m)))"
  "gm_get (message_doc m) ''room_id'' = (if m_room m = 0 then None else Some (BInt (m_room m)))"
  "gm_get (message_doc m) ''sender_id'' = (if m_sender m = 0 then None else Some (BInt (m_sender m)))"
  "gm_get (message_doc m) ''client_msg_id'' = (if m_client_id m = [] then None else Some (BStr (m_client_id m)))"
  "gm_get (message_doc m) ''type'' = (if m_type m = 0 then None else Some (BInt (m_type m)))"
  "gm_get (message_doc m) ''content'' = (if m_content m = [] then None else Some (BStr (m_content m)))"
  "gm_get (message_doc m) ''created_at'' = (if m_created m = zero_time then None else Some (bdate (m_created m)))"
  "gm_get (message_doc m) ''deleted_at'' = (if m_deleted m = 0 then None else Some (BInt (int (m_deleted m))))"
  by (simp_all add: message_doc_def int_entry_def str_entry_def date_entry_def bdate_def map_add_def)

definition demo_whole :: "int \<Rightarrow> string \<Rightarrow> message" where
  "demo_whole i k = (demo_stored i k)\<lparr>m_created := 1000000\<rparr>"

end
