(* ===== verification/MongoReads.thy ===== *)
theory MongoReads
  imports MongoRepo
begin

section \<open>The two message stores agree\<close>

text \<open>
  Every read of the repository interface (repository/interfaces.go) gives the same result from the MySQL
  repository and from the MongoDB repository when both hold the same messages.
\<close>

subsection \<open>Agreement with the MySQL store\<close>

text \<open>A message a document can carry exactly: whole milliseconds, the widths of the fields, not deleted.\<close>

definition doc_ok :: "message \<Rightarrow> bool" where
  "doc_ok m \<longleftrightarrow> 0 < m_id m \<and> is_int64 (m_id m) \<and> is_int64 (m_room m) \<and> is_int64 (m_sender m) \<and>
     in_width 8 (m_type m) \<and> m_created m mod 1000000 = 0 \<and> m_created m \<noteq> zero_time \<and> m_deleted m = 0"

lemma whole_milli: "t mod 1000000 = 0 \<Longrightarrow> of_unix_milli (unix_milli t) = t"
  by (simp add: unix_milli_def of_unix_milli_def mod_eq_0_iff_dvd)

lemma decode_message_doc: "doc_ok m \<Longrightarrow> decode_message (message_doc m) = Some m"
  unfolding doc_ok_def decode_message_def int_field_def str_field_def date_field_def message_doc_fields
  by (cases m) (simp add: bdate_def whole_milli)

lemma decode_all_docs: "\<forall>m \<in> set ms. doc_ok m \<Longrightarrow> decode_all (map message_doc ms) = Inr ms"
  by (induction ms) (simp_all add: decode_message_doc)

text \<open>The two stores hold the same messages; deleted documents may be left over in the collection.\<close>

definition doc_live :: "doc \<Rightarrow> bool" where
  "doc_live d \<longleftrightarrow> gm_get d ''deleted_at'' \<in> {None, Some (BInt 0)}"

definition mirrors :: "message list \<Rightarrow> doc list \<Rightarrow> bool" where
  "mirrors ms ds \<longleftrightarrow> (\<forall>m \<in> set ms. doc_ok m) \<and> ids_ok ms \<and> mset (filter doc_live ds) = mset (map message_doc ms)"

lemma not_deleted_live:
  "cond_holds rx d ''$or'' (Clauses [[(''deleted_at'', Ops [OpExists False])], [(''deleted_at'', Is (BInt 0))]]) = doc_live d"
  unfolding doc_live_def by simp

lemma filter_holds_not_deleted: "filter_holds rx not_deleted_filter d = doc_live d"
  unfolding filter_holds_def not_deleted_filter_def doc_live_def by simp

lemma page_map: "page off lim (map f xs) = map f (page off lim xs)"
  by (simp add: page_def take_map drop_map split: option.split)

lemma answers_docs:
  assumes m: "mirrors ms ds" and a: "answers qd ds rs"
    and live: "\<And>d. q_where qd d \<Longrightarrow> doc_live d"
    and wh: "\<And>m. m \<in> set ms \<Longrightarrow> q_where qd (message_doc m) = q_where q m"
    and ord: "\<And>a b. a \<in> set ms \<Longrightarrow> b \<in> set ms \<Longrightarrow> q_order qd (message_doc a) (message_doc b) = q_order q a b"
    and pg: "q_offset qd = q_offset q" "q_limit qd = q_limit q"
  shows "\<exists>xs. rs = map message_doc xs \<and> set xs \<subseteq> set ms \<and> answers q ms xs"
proof -
  let ?dec = "\<lambda>d. the (decode_message d)"
  from a obtain xs where xs: "mset xs = mset (filter (q_where qd) ds)" "sorted_wrt (q_order qd) xs"
      "rs = page (q_offset qd) (q_limit qd) xs" by (auto simp: answers_def)
  have ok: "?dec (message_doc m) = m" if "m \<in> set ms" for m
    using m that by (simp add: mirrors_def decode_message_doc)
  have "filter (q_where qd) ds = filter (q_where qd) (filter doc_live ds)" using live by (auto intro: filter_cong)
  then have "mset xs = filter_mset (q_where qd) (mset (filter doc_live ds))" using xs(1) by (metis mset_filter)
  also have "\<dots> = image_mset message_doc (filter_mset (\<lambda>m. q_where qd (message_doc m)) (mset ms))"
    using m by (simp add: mirrors_def filter_mset_image_mset)
  also have "filter_mset (\<lambda>m. q_where qd (message_doc m)) (mset ms) = filter_mset (q_where q) (mset ms)"
    using wh by (intro filter_mset_cong) simp_all
  also have "image_mset message_doc (filter_mset (q_where q) (mset ms)) = mset (map message_doc (filter (q_where q) ms))"
    by simp
  finally have perm: "mset xs = mset (map message_doc (filter (q_where q) ms))" .
  let ?ys = "map ?dec xs"
  have image: "set xs \<subseteq> message_doc ` set ms"
  proof -
    have "set xs = message_doc ` {m \<in> set ms. q_where q m}" using arg_cong [OF perm, of set_mset] by simp
    then show ?thesis by auto
  qed
  have "message_doc (?dec x) = x" if "x \<in> set xs" for x using image ok that by auto
  then have again: "map message_doc ?ys = xs" by (simp add: map_idI comp_def)
  have "mset ?ys = image_mset ?dec (mset (map message_doc (filter (q_where q) ms)))" using perm by (simp only: mset_map)
  also have "\<dots> = mset (map (\<lambda>m. ?dec (message_doc m)) (filter (q_where q) ms))" by (simp add: multiset.map_comp comp_def)
  also have "map (\<lambda>m. ?dec (message_doc m)) (filter (q_where q) ms) = filter (q_where q) ms"
    by (rule map_idI) (simp add: ok)
  finally have mset: "mset ?ys = mset (filter (q_where q) ms)" .
  then have subset: "set ?ys \<subseteq> set ms" by (metis filter_is_subset set_mset_mset)
  have "sorted_wrt (q_order qd) (map message_doc ?ys)" using xs(2) again by (simp only: again)
  then have "sorted_wrt (\<lambda>a b. q_order qd (message_doc a) (message_doc b)) ?ys" by (simp only: sorted_wrt_map)
  then have "sorted_wrt (q_order q) ?ys"
    by (rule sorted_wrt_mono_rel [rotated]) (use ord subset in blast)
  with mset have "answers q ms (page (q_offset q) (q_limit q) ?ys)" unfolding answers_def by blast
  moreover have "rs = page (q_offset q) (q_limit q) (map message_doc ?ys)" using xs(3) pg by (simp only: again)
  then have "rs = map message_doc (page (q_offset q) (q_limit q) ?ys)" by (simp only: page_map)
  moreover have "set (page (q_offset q) (q_limit q) ?ys) \<subseteq> set ms"
    using subset by (auto simp: page_def split: option.splits dest!: in_set_takeD in_set_dropD)
  ultimately show ?thesis by blast
qed

text \<open>What reading the documents gives is an answer of the MySQL table over the same messages.\<close>

definition mongo_up :: "'s collection \<Rightarrow> 's \<Rightarrow> bool" where
  "mongo_up c s \<longleftrightarrow> (\<forall>f o1 skip lim. \<exists>ds. mc_find c f o1 skip lim s = Inr ds)"

lemma find_messages_answers:
  assumes laws: "collection_laws rx docs c" and up: "mongo_up c s" and m: "mirrors ms (docs s)"
    and live: "\<And>d. filter_holds rx f d \<Longrightarrow> doc_live d"
    and wh: "\<And>m. m \<in> set ms \<Longrightarrow> filter_holds rx f (message_doc m) = q_where q m"
    and ord: "\<And>a b. a \<in> set ms \<Longrightarrow> b \<in> set ms \<Longrightarrow> sorts_before o1 (message_doc a) (message_doc b) = q_order q a b"
    and pg: "q_offset q = skip" "q_limit q = mongo_limit lim"
  shows "\<exists>xs. find_messages c f o1 skip lim s = Inr xs \<and> answers q ms xs"
proof -
  from up obtain ds where ds: "mc_find c f o1 skip lim s = Inr ds" unfolding mongo_up_def by blast
  obtain xs where xs: "ds = map message_doc xs" "set xs \<subseteq> set ms" "answers q ms xs"
    using answers_docs [OF m collection_lawsD(1) [OF laws ds], where q = q] live wh ord pg by fastforce
  have "decode_all ds = Inr xs"
    using m xs(1,2) by (auto simp: mirrors_def intro: decode_all_docs)
  then show ?thesis using ds xs(3) by (simp add: find_messages_def)
qed

text \<open>Orders and filters on the documents of messages.\<close>

lemma whole_milli_less: "a mod 1000000 = 0 \<Longrightarrow> b mod 1000000 = 0 \<Longrightarrow>
    (unix_milli a < unix_milli b) = (a < b) \<and> (unix_milli a = unix_milli b) = (a = b)"
  unfolding unix_milli_def by auto

lemma doc_sort_ranks:
  assumes "doc_ok m"
  shows "sort_rank (gm_get (message_doc m) ''created_at'') = (3, unix_milli (m_created m), [])"
    and "sort_rank (gm_get (message_doc m) ''_id'') = (1, m_id m, [])"
  using assms by (simp_all add: message_doc_fields doc_ok_def bdate_def)

lemma sorts_history:
  assumes a: "doc_ok a" and b: "doc_ok b"
  shows "sorts_before newest_first (message_doc a) (message_doc b) = (hist_key b \<le> hist_key a)"
    and "sorts_before [(''created_at'', False), (''_id'', False)] (message_doc a) (message_doc b) = (hist_key a \<le> hist_key b)"
    and "sorts_before [(''_id'', False)] (message_doc a) (message_doc b) = (m_id a \<le> m_id b)"
proof -
  have t: "(unix_milli (m_created x) < unix_milli (m_created y)) = (m_created x < m_created y)"
    "(unix_milli (m_created x) = unix_milli (m_created y)) = (m_created x = m_created y)" if "doc_ok x" "doc_ok y" for x y
    using whole_milli_less [of "m_created x" "m_created y"] that by (simp_all add: doc_ok_def)
  note ranks = doc_sort_ranks [OF a] doc_sort_ranks [OF b] t [OF a b] t [OF b a]
  show "sorts_before newest_first (message_doc a) (message_doc b) = (hist_key b \<le> hist_key a)"
    unfolding newest_first_def hist_key_def by (simp add: ranks) linarith
  show "sorts_before [(''created_at'', False), (''_id'', False)] (message_doc a) (message_doc b) = (hist_key a \<le> hist_key b)"
    unfolding hist_key_def by (simp add: ranks) linarith
  show "sorts_before [(''_id'', False)] (message_doc a) (message_doc b) = (m_id a \<le> m_id b)"
    by (simp add: ranks) linarith
qed

lemma filter_holds_put:
  "k \<noteq> ''$or'' \<Longrightarrow> k \<notin> fst ` set f \<Longrightarrow>
     filter_holds rx (gm_put k x f) d \<longleftrightarrow> filter_holds rx f d \<and> cond_holds rx d k x"
  by (induction f) (auto simp: filter_holds_def)

lemma doc_ok_live: "doc_ok m \<Longrightarrow> doc_live (message_doc m)"
  by (simp add: doc_live_def message_doc_fields doc_ok_def)

lemma doc_room: "room \<noteq> 0 \<Longrightarrow> (gm_get (message_doc m) ''room_id'' = Some (BInt room)) = (m_room m = room)"
  by (simp add: message_doc_fields)

lemma doc_created:
  assumes "doc_ok m" and "t mod 1000000 = 0"
  shows "op_holds (OpLt (bdate t)) (gm_get (message_doc m) ''created_at'') = (m_created m < t)"
    and "op_holds (OpGte (bdate t)) (gm_get (message_doc m) ''created_at'') = (t \<le> m_created m)"
    and "(gm_get (message_doc m) ''created_at'' = Some (bdate t)) = (m_created m = t)"
proof -
  have c: "m_created m mod 1000000 = 0" "m_created m \<noteq> zero_time" using assms(1) by (simp_all add: doc_ok_def)
  note l = whole_milli_less [OF c(1) assms(2)] whole_milli_less [OF assms(2) c(1)]
  show "op_holds (OpLt (bdate t)) (gm_get (message_doc m) ''created_at'') = (m_created m < t)"
    "op_holds (OpGte (bdate t)) (gm_get (message_doc m) ''created_at'') = (t \<le> m_created m)"
    "(gm_get (message_doc m) ''created_at'' = Some (bdate t)) = (m_created m = t)"
    using l c(2) by (auto simp: message_doc_fields bdate_def)
qed

lemma doc_id:
  assumes "doc_ok m"
  shows "op_holds (OpLt (BInt i)) (gm_get (message_doc m) ''_id'') = (m_id m < i)"
    and "op_holds (OpGt (BInt i)) (gm_get (message_doc m) ''_id'') = (i < m_id m)"
    and "(gm_get (message_doc m) ''_id'' = Some (BInt i)) = (m_id m = i)"
  using assms by (auto simp: message_doc_fields doc_ok_def)

lemma room_filter:
  "filter_holds rx (gm_put ''room_id'' (Is (BInt room)) not_deleted_filter) d \<longleftrightarrow>
     doc_live d \<and> gm_get d ''room_id'' = Some (BInt room)"
proof -
  have "''room_id'' \<notin> fst ` set not_deleted_filter" by (simp add: not_deleted_filter_def)
  then show ?thesis by (simp add: filter_holds_put filter_holds_not_deleted)
qed

lemma after_id_holds:
  "filter_holds rx (after_id_filter room since) d \<longleftrightarrow>
     doc_live d \<and> gm_get d ''room_id'' = Some (BInt room) \<and> (0 < since \<longrightarrow> op_holds (OpGt (BInt since)) (gm_get d ''_id''))"
proof -
  have "''_id'' \<notin> fst ` set (gm_put ''room_id'' (Is (BInt room)) not_deleted_filter)"
    by (simp add: not_deleted_filter_def)
  then show ?thesis unfolding after_id_filter_def Let_def
    by (simp add: room_filter filter_holds_put del: op_holds.simps)
qed

lemma time_range_holds:
  "filter_holds rx (gm_put ''created_at'' (Ops ps) (gm_put ''room_id'' (Is (BInt room)) not_deleted_filter)) d \<longleftrightarrow>
     doc_live d \<and> gm_get d ''room_id'' = Some (BInt room) \<and> (\<forall>p \<in> set ps. op_holds p (gm_get d ''created_at''))"
proof -
  have "''created_at'' \<notin> fst ` set (gm_put ''room_id'' (Is (BInt room)) not_deleted_filter)"
    by (simp add: not_deleted_filter_def)
  then show ?thesis by (simp add: room_filter filter_holds_put list_all_iff)
qed

lemma find_one_Inr:
  assumes laws: "collection_laws rx docs c" and d: "find_one c f s = Inr d"
  shows "d \<in> set (docs s) \<and> filter_holds rx f d"
proof -
  from d obtain ds where ds: "mc_find c f [] 0 1 s = Inr (d # ds)"
    by (auto simp: find_one_def split: sum.splits list.splits)
  from answers_one [OF collection_lawsD(1) [OF laws ds]] show ?thesis by (simp add: mongo_limit_def)
qed

lemma find_one_none:
  assumes laws: "collection_laws rx docs c" and up: "mongo_up c s"
    and there: "\<exists>d \<in> set (docs s). filter_holds rx f d"
  shows "\<exists>d. find_one c f s = Inr d"
proof -
  from up obtain ds where ds: "mc_find c f [] 0 1 s = Inr ds" unfolding mongo_up_def by blast
  have "ds \<noteq> []"
    using answers_one [OF collection_lawsD(1) [OF laws ds]] there by (auto simp: mongo_limit_def filter_empty_conv)
  then show ?thesis using ds by (cases ds) (simp_all add: find_one_def)
qed

lemma mirrors_set: "mirrors ms ds \<Longrightarrow> {d \<in> set ds. doc_live d} = message_doc ` set ms"
  unfolding mirrors_def by (metis list.set_map set_filter set_mset_mset)

text \<open>A cursor that does not name a deleted message means the same to both stores: the row with that id.\<close>

lemma find_by_id:
  assumes "ids_ok ms" and "x \<in> set ms"
  shows "find (\<lambda>m. m_id m = m_id x) ms = Some x"
  using assms by (induction ms) (auto simp: ids_ok_def)

lemma cursor_row:
  assumes tab: "message_laws rows t" "queries_succeed t s" and ids: "ids_ok (rows s)" and pos: "0 < cursor"
  shows "before_cursor t cursor s =
    (case find (\<lambda>m. m_id m = cursor) (rows s) of
       Some x \<Rightarrow> (\<lambda>m. m_created m < m_created x \<or> (m_created m = m_created x \<and> m_id m < cursor))
     | None \<Rightarrow> (\<lambda>m. m_id m < cursor))"
proof (cases "\<exists>x \<in> set (rows s). m_id x = cursor")
  case True
  then obtain x where x: "x \<in> set (rows s)" "m_id x = cursor" by blast
  show ?thesis
    unfolding before_cursor_def first_by_id [OF tab ids x(1), unfolded x(2)] find_by_id [OF ids x(1), unfolded x(2)]
    by (simp only: pos if_True sum.case option.case)
next
  case False
  then have "\<forall>x \<in> set (rows s). \<not> m_id x = cursor" by simp
  from gorm_first_none [OF tab(1) [unfolded message_laws_def] this]
  obtain e where "gorm_first t m_id (\<lambda>m. m_id m = cursor) s = Inl e" ..
  moreover have "find (\<lambda>m. m_id m = cursor) (rows s) = None" using False by (simp add: find_None_iff)
  ultimately show ?thesis using pos by (simp add: before_cursor_def)
qed

lemma cursor_doc:
  assumes col: "collection_laws rx docs c" "mongo_up c s" and mir: "mirrors ms (docs s)"
    and cursor: "\<forall>d \<in> set (docs s). gm_get d ''_id'' = Some (BInt cursor) \<longrightarrow> doc_live d"
  shows "(case find_one c [(''_id'', Is (BInt cursor))] s of Inl _ \<Rightarrow> None | Inr d \<Rightarrow> decode_message d) =
    find (\<lambda>m. m_id m = cursor) ms"
proof (cases "find_one c [(''_id'', Is (BInt cursor))] s")
  case (Inl e)
  have "m_id m \<noteq> cursor" if "m \<in> set ms" for m
  proof
    assume "m_id m = cursor"
    moreover have "doc_ok m" "message_doc m \<in> set (docs s)" using mir mirrors_set [OF mir] that by (auto simp: mirrors_def)
    ultimately have "\<exists>d \<in> set (docs s). filter_holds rx [(''_id'', Is (BInt cursor))] d"
      by (intro bexI [of _ "message_doc m"]) (simp_all add: filter_holds_def doc_id)
    from find_one_none [OF col this] Inl show False by simp
  qed
  then show ?thesis using Inl by (simp add: find_None_iff [THEN iffD2])
next
  case (Inr d)
  from find_one_Inr [OF col(1) Inr] have d: "d \<in> set (docs s)" "gm_get d ''_id'' = Some (BInt cursor)"
    by (simp_all add: filter_holds_def)
  then obtain x where x: "x \<in> set ms" "d = message_doc x" using cursor mirrors_set [OF mir] by auto
  have ok: "doc_ok x" "ids_ok ms" using mir x(1) by (simp_all add: mirrors_def)
  have "m_id x = cursor" using d(2) x(2) doc_id(3) [OF ok(1)] by simp
  then show ?thesis
    unfolding Inr using x(2) decode_message_doc [OF ok(1)] find_by_id [OF ok(2) x(1), unfolded \<open>m_id x = cursor\<close>] by simp
qed

lemma history_filter_holds:
  assumes cur: "(case find_one c [(''_id'', Is (BInt cursor))] s of Inl _ \<Rightarrow> None | Inr d \<Rightarrow> decode_message d) = cur"
  shows "filter_holds rx (history_filter c room cursor s) d \<longleftrightarrow>
    doc_live d \<and> gm_get d ''room_id'' = Some (BInt room) \<and>
    (0 < cursor \<longrightarrow>
       (case cur of
          Some x \<Rightarrow> op_holds (OpLt (bdate (m_created x))) (gm_get d ''created_at'') \<or>
             gm_get d ''created_at'' = Some (bdate (m_created x)) \<and> op_holds (OpLt (BInt cursor)) (gm_get d ''_id'')
        | None \<Rightarrow> op_holds (OpLt (BInt cursor)) (gm_get d ''_id'')))"
proof (cases "0 < cursor")
  case False
  then show ?thesis by (simp add: history_filter_def room_filter)
next
  case True
  have live: "(gm_get d ''deleted_at'' = None \<or> gm_get d ''deleted_at'' = Some (BInt 0)) = doc_live d"
    by (simp add: doc_live_def)
  show ?thesis
  proof (cases cur)
    case None
    with True cur show ?thesis
      by (simp add: history_filter_def filter_holds_def not_deleted_filter_def live del: op_holds.simps(2)) blast
  next
    case (Some x)
    with True cur show ?thesis
      by (simp add: history_filter_def filter_holds_def not_deleted_filter_def live del: op_holds.simps(2)) blast
  qed
qed

lemma history_where:
  assumes tab: "message_laws rows t" "queries_succeed t s" and col: "collection_laws rx docs c" "mongo_up c s'"
    and mir: "mirrors (rows s) (docs s')" and room: "room \<noteq> 0"
    and cursor: "\<forall>d \<in> set (docs s'). gm_get d ''_id'' = Some (BInt cursor) \<longrightarrow> doc_live d"
    and m: "m \<in> set (rows s)"
  shows "filter_holds rx (history_filter c room cursor s') (message_doc m) = (m_room m = room \<and> before_cursor t cursor s m)"
proof -
  have ids: "ids_ok (rows s)" and ok: "x \<in> set (rows s) \<Longrightarrow> doc_ok x" for x
    using mir by (simp_all add: mirrors_def)
  note holds = history_filter_holds [OF cursor_doc [OF col mir cursor], of rx room "message_doc m"]
  show ?thesis
  proof (cases "0 < cursor")
    case False
    then show ?thesis using holds doc_ok_live [OF ok [OF m]] doc_room [OF room] by (simp add: before_cursor_def)
  next
    case True
    note row = cursor_row [OF tab ids True]
    show ?thesis
    proof (cases "find (\<lambda>m. m_id m = cursor) (rows s)")
      case None
      then show ?thesis
        using holds True row doc_ok_live [OF ok [OF m]] doc_room [OF room] doc_id(1) [OF ok [OF m]]
        by (simp del: op_holds.simps)
    next
      case (Some x)
      then have "x \<in> set (rows s)" by (auto simp: find_Some_iff)
      then have "m_created x mod 1000000 = 0" using ok by (simp add: doc_ok_def)
      from doc_created [OF ok [OF m] this] show ?thesis
        using Some holds True row doc_ok_live [OF ok [OF m]] doc_room [OF room] doc_id(1) [OF ok [OF m]]
        by (simp del: op_holds.simps)
    qed
  qed
qed

lemma search_filter_holds:
  "filter_holds rx (search_filter p) d \<longleftrightarrow>
     doc_live d \<and> gm_get d ''room_id'' = Some (BInt (sp_room p)) \<and>
     (sp_keyword p \<noteq> [] \<longrightarrow> cond_holds rx d ''content'' (Pattern (quote_meta (sp_keyword p)))) \<and>
     (0 < sp_sender p \<longrightarrow> gm_get d ''sender_id'' = Some (BInt (sp_sender p))) \<and>
     (sp_start p \<noteq> zero_time \<longrightarrow> op_holds (OpGte (bdate (sp_start p))) (gm_get d ''created_at'')) \<and>
     (sp_end p \<noteq> zero_time \<longrightarrow> op_holds (OpLt (bdate (sp_end p))) (gm_get d ''created_at''))"
proof -
  have new: "''content'' \<notin> fst ` set (gm_put ''room_id'' x not_deleted_filter)"
    "''sender_id'' \<notin> fst ` set (gm_put ''room_id'' x not_deleted_filter)"
    "''sender_id'' \<notin> fst ` set (gm_put ''content'' y (gm_put ''room_id'' x not_deleted_filter))"
    "''created_at'' \<notin> fst ` set (gm_put ''room_id'' x not_deleted_filter)"
    "''created_at'' \<notin> fst ` set (gm_put ''content'' y (gm_put ''room_id'' x not_deleted_filter))"
    "''created_at'' \<notin> fst ` set (gm_put ''sender_id'' y (gm_put ''room_id'' x not_deleted_filter))"
    "''created_at'' \<notin> fst ` set (gm_put ''sender_id'' z (gm_put ''content'' y (gm_put ''room_id'' x not_deleted_filter)))"
    for x y z by (simp_all add: not_deleted_filter_def)
  show ?thesis
    unfolding search_filter_def Let_def
    by (simp add: room_filter filter_holds_put new del: op_holds.simps cond_holds.simps(3))
qed

lemma search_doc_where:
  assumes ok: "doc_ok m" and room: "sp_room p \<noteq> 0"
    and times: "sp_start p mod 1000000 = 0" "sp_end p mod 1000000 = 0"
    and text_search: "sp_keyword p \<noteq> [] \<longrightarrow>
      (m_content m \<noteq> [] \<and> rx (quote_meta (sp_keyword p)) (m_content m)) = locate (sp_keyword p) (m_content m)"
  shows "filter_holds rx (search_filter p) (message_doc m) = search_where locate p m"
proof -
  have "cond_holds rx (message_doc m) ''content'' (Pattern q) = (m_content m \<noteq> [] \<and> rx q (m_content m))" for q
    by (simp add: message_doc_fields)
  moreover have "0 < u \<Longrightarrow> (gm_get (message_doc m) ''sender_id'' = Some (BInt u)) = (m_sender m = u)" for u
    by (simp add: message_doc_fields)
  ultimately show ?thesis
    unfolding search_filter_holds search_where_def
    using doc_ok_live [OF ok] doc_room [OF room] doc_created(1,2) [OF ok times(1)] doc_created(1,2) [OF ok times(2)] text_search
    by (simp del: op_holds.simps cond_holds.simps(3))
qed

lemma hist_order_antisym:
  assumes "ids_ok ms" and "a \<in> set ms" and "b \<in> set ms" and "m_id a = m_id b"
  shows "a = b"
  using assms by (auto simp: ids_ok_def distinct_map inj_on_def)

text \<open>Two reads of one query over messages told apart by its order give the same list.\<close>

lemma reads_agree:
  assumes tab: "message_laws rows t" "queries_succeed t s" and col: "collection_laws rx docs c" "mongo_up c s'"
    and mir: "mirrors (rows s) (docs s')" and order: "total_preorder (q_order q)"
    and keys: "\<And>a b. q_order q a b \<Longrightarrow> q_order q b a \<Longrightarrow> m_id a = m_id b"
    and live: "\<And>d. filter_holds rx f d \<Longrightarrow> doc_live d"
    and wh: "\<And>m. m \<in> set (rows s) \<Longrightarrow> filter_holds rx f (message_doc m) = q_where q m"
    and ord: "\<And>a b. doc_ok a \<Longrightarrow> doc_ok b \<Longrightarrow> sorts_before o1 (message_doc a) (message_doc b) = q_order q a b"
    and pg: "q_offset q = skip" "q_limit q = mongo_limit lim"
  shows "\<exists>ms. t_find t q s = Inr ms \<and> find_messages c f o1 skip lim s' = Inr ms"
proof -
  have ok: "m \<in> set (rows s) \<Longrightarrow> doc_ok m" and ids: "ids_ok (rows s)" for m using mir by (simp_all add: mirrors_def)
  obtain ms where ms: "t_find t q s = Inr ms" using tab(2) order unfolding queries_succeed_def by blast
  obtain xs where xs: "find_messages c f o1 skip lim s' = Inr xs" "answers q (rows s) xs"
    using find_messages_answers [OF col mir live wh ord [OF ok ok] pg] by blast
  have "ms = xs"
    by (rule answers_unique [OF table_lawsD(1) [OF tab(1) [unfolded message_laws_def] ms] xs(2)])
      (use keys hist_order_antisym [OF ids] in blast)
  with ms xs(1) show ?thesis by simp
qed

lemma mongo_limit_opt: "0 < n \<Longrightarrow> mongo_limit n = limit_opt n"
  by (simp add: mongo_limit_def limit_opt_def)

lemma hist_keys: "hist_key a \<le> hist_key b \<Longrightarrow> hist_key b \<le> hist_key a \<Longrightarrow> m_id a = m_id b"
  by (metis antisym hist_key_def snd_conv)

lemma history_agrees:
  assumes tab: "message_laws rows t" "queries_succeed t s" and col: "collection_laws rx docs c" "mongo_up c s'"
    and mir: "mirrors (rows s) (docs s')" and room: "room \<noteq> 0" and limit: "0 < limit"
    and cursor: "\<forall>d \<in> set (docs s'). gm_get d ''_id'' = Some (BInt cursor) \<longrightarrow> doc_live d"
  shows "\<exists>ms. get_history_by_cursor t room cursor limit s = Inr ms \<and> mongo_history_by_cursor c room cursor limit s' = Inr ms"
proof -
  let ?q = "\<lparr>q_where = (\<lambda>m. m_room m = room \<and> before_cursor t cursor s m),
    q_order = (\<lambda>a b. hist_key b \<le> hist_key a), q_offset = 0, q_limit = limit_opt limit\<rparr>"
  have live: "filter_holds rx (history_filter c room cursor s') d \<Longrightarrow> doc_live d" for d
    by (drule iffD1 [OF history_filter_holds [OF refl]]) (erule conjunct1)
  have "\<exists>ms. t_find t ?q s = Inr ms \<and> find_messages c (history_filter c room cursor s') newest_first 0 limit s' = Inr ms"
    by (rule reads_agree [OF tab col mir])
      (simp_all add: sorts_history history_where [OF tab col mir room cursor] mongo_limit_opt limit hist_keys live)
  then show ?thesis by (auto simp: get_history_by_cursor_def mongo_history_by_cursor_def)
qed

lemma time_range_agrees:
  assumes tab: "message_laws rows t" "queries_succeed t s" and col: "collection_laws rx docs c" "mongo_up c s'"
    and mir: "mirrors (rows s) (docs s')" and room: "room \<noteq> 0" and limit: "0 < limit"
    and times: "start mod 1000000 = 0" "stop mod 1000000 = 0"
  shows "\<exists>ms. get_messages_by_time_range t room start stop limit s = Inr ms \<and>
    mongo_messages_by_time_range c room start stop limit s' = Inr ms"
proof -
  have ok: "m \<in> set (rows s) \<Longrightarrow> doc_ok m" for m using mir by (simp add: mirrors_def)
  show ?thesis
    unfolding get_messages_by_time_range_def mongo_messages_by_time_range_def
    by (rule reads_agree [OF tab col mir])
      (simp_all add: sorts_history time_range_holds doc_ok_live doc_room room doc_created ok times mongo_limit_opt limit
        hist_keys del: op_holds.simps sorts_before.simps)
qed

lemma after_id_doc:
  "doc_ok m \<Longrightarrow> room \<noteq> 0 \<Longrightarrow> filter_holds rx (after_id_filter room since) (message_doc m) = after_id room since m"
  by (simp add: after_id_holds doc_ok_live doc_room doc_id after_id_def del: op_holds.simps)

lemma after_id_agrees:
  assumes tab: "message_laws rows t" "queries_succeed t s" and col: "collection_laws rx docs c" "mongo_up c s'"
    and mir: "mirrors (rows s) (docs s')" and room: "room \<noteq> 0" and limit: "0 < limit"
  shows "\<exists>ms. get_messages_after_id t room since limit s = Inr ms \<and> mongo_messages_after_id c room since limit s' = Inr ms"
proof -
  have ok: "m \<in> set (rows s) \<Longrightarrow> doc_ok m" for m using mir by (simp add: mirrors_def)
  have live: "filter_holds rx (after_id_filter room since) d \<Longrightarrow> doc_live d" for d by (simp add: after_id_holds)
  show ?thesis
    unfolding get_messages_after_id_def mongo_messages_after_id_def
    by (rule reads_agree [OF tab col mir])
      (simp_all add: sorts_history after_id_doc ok room live mongo_limit_opt limit del: sorts_before.simps)
qed

text \<open>Counting documents counts the rows.\<close>

lemma count_docs:
  assumes mir: "mirrors ms ds" and live: "\<And>d. P d \<Longrightarrow> doc_live d"
    and wh: "\<And>m. m \<in> set ms \<Longrightarrow> P (message_doc m) = Q m"
  shows "length (filter P ds) = length (filter Q ms)"
proof -
  have "filter P ds = filter P (filter doc_live ds)" using live by (auto intro: filter_cong)
  then have "length (filter P ds) = size (filter_mset P (mset (filter doc_live ds)))" by (metis mset_filter size_mset)
  also have "mset (filter doc_live ds) = image_mset message_doc (mset ms)" using mir by (simp add: mirrors_def)
  also have "size (filter_mset P (image_mset message_doc (mset ms))) = size (filter_mset (\<lambda>m. P (message_doc m)) (mset ms))"
    by (simp add: filter_mset_image_mset)
  also have "filter_mset (\<lambda>m. P (message_doc m)) (mset ms) = filter_mset Q (mset ms)"
    using wh by (intro filter_mset_cong) simp_all
  also have "size (filter_mset Q (mset ms)) = length (filter Q ms)" by (metis mset_filter size_mset)
  finally show ?thesis .
qed

lemma counts_agree:
  assumes tab: "message_laws rows t" and col: "collection_laws rx docs c" and mir: "mirrors (rows s) (docs s')"
    and live: "\<And>d. filter_holds rx f d \<Longrightarrow> doc_live d"
    and wh: "\<And>m. m \<in> set (rows s) \<Longrightarrow> filter_holds rx f (message_doc m) = p m"
    and run: "t_count t p s = Inr n" "mc_count c f s' = Inr k"
  shows "n = k"
proof -
  have "length (filter (filter_holds rx f) (docs s')) = length (filter p (rows s))" 
    by (rule count_docs [OF mir]) (erule live, erule wh)
  then show ?thesis
    using table_lawsD(2) [OF tab [unfolded message_laws_def] run(1)] collection_lawsD(2) [OF col run(2)] by simp
qed

lemma search_agrees:
  assumes tab: "message_laws rows t" "queries_succeed t s" and col: "collection_laws rx docs c" "mongo_up c s'"
    and mir: "mirrors (rows s) (docs s')" and room: "sp_room p \<noteq> 0"
    and times: "sp_start p mod 1000000 = 0" "sp_end p mod 1000000 = 0"
    and text_search: "\<forall>m \<in> set (rows s). sp_keyword p \<noteq> [] \<longrightarrow>
      (m_content m \<noteq> [] \<and> rx (quote_meta (sp_keyword p)) (m_content m)) = locate (sp_keyword p) (m_content m)"
    and run: "search_messages locate t p s = Inr (ms, n)" "mongo_search_messages c p s' = Inr (ms', n')"
  shows "ms = ms' \<and> n = n'"
proof -
  let ?limit = "if sp_limit p \<le> 0 \<or> 100 < sp_limit p then 20 else sp_limit p"
  let ?offset = "if sp_offset p < 0 then 0 else sp_offset p"
  let ?q = "\<lparr>q_where = search_where locate p, q_order = (\<lambda>a b. hist_key b \<le> hist_key a),
    q_offset = nat ?offset, q_limit = Some (nat ?limit)\<rparr>"
  have live: "filter_holds rx (search_filter p) d \<Longrightarrow> doc_live d" for d by (simp only: search_filter_holds)
  have wh: "filter_holds rx (search_filter p) (message_doc m) = search_where locate p m" if "m \<in> set (rows s)" for m
  proof (rule search_doc_where [OF _ room times])
    show "doc_ok m" using mir that by (simp add: mirrors_def)
    show "sp_keyword p \<noteq> [] \<longrightarrow>
      (m_content m \<noteq> [] \<and> rx (quote_meta (sp_keyword p)) (m_content m)) = locate (sp_keyword p) (m_content m)"
      using text_search that by blast
  qed
  have "mongo_limit ?limit = Some (nat ?limit)" by (simp add: mongo_limit_def)
  then have "\<exists>ms. t_find t ?q s = Inr ms \<and>
      find_messages c (search_filter p) newest_first (nat ?offset) ?limit s' = Inr ms"
    by (intro reads_agree [OF tab col mir]) (simp_all add: sorts_history wh live hist_keys)
  then have "ms = ms'" using run by (auto simp: search_messages_def mongo_search_messages_def Let_def split: sum.splits)
  moreover have "n = n'"
    using run by (intro counts_agree [OF tab(1) col(1) mir live wh])
      (auto simp: search_messages_def mongo_search_messages_def Let_def split: sum.splits)
  ultimately show ?thesis by simp
qed

text \<open>C15: Where the two message stores give readers the same. When the collection and the table hold the same
  messages and answer, then for a room with a non-zero id: the page of the history before a cursor that does
  not name a deleted message, and the messages after an id, are the same for every positive limit; the
  messages of a span of time for every positive limit and bounds of whole milliseconds (MongoDB cuts the
  bounds off to milliseconds, MySQL compares them as they are, and a limit of 0 means none to MySQL and all
  to MongoDB); the number of messages after an id always; and a page of a search with its total for bounds
  of whole milliseconds and a keyword for which the regular expression made of it and MySQL's LOCATE agree
  on the stored texts.\<close>

theorem mongo_reads_agree:
  assumes tab: "message_laws rows t" "queries_succeed t s" and col: "collection_laws rx docs c" "mongo_up c s'"
    and mir: "mirrors (rows s) (docs s')" and room: "room \<noteq> 0" "sp_room p = room"
  shows "(0 < limit \<longrightarrow> (\<forall>d \<in> set (docs s'). gm_get d ''_id'' = Some (BInt cursor) \<longrightarrow> doc_live d) \<longrightarrow>
      (\<exists>ms. get_history_by_cursor t room cursor limit s = Inr ms \<and> mongo_history_by_cursor c room cursor limit s' = Inr ms)) \<and>
    (0 < limit \<longrightarrow> start mod 1000000 = 0 \<and> stop mod 1000000 = 0 \<longrightarrow>
      (\<exists>ms. get_messages_by_time_range t room start stop limit s = Inr ms \<and>
            mongo_messages_by_time_range c room start stop limit s' = Inr ms)) \<and>
    (0 < limit \<longrightarrow>
      (\<exists>ms. get_messages_after_id t room since limit s = Inr ms \<and> mongo_messages_after_id c room since limit s' = Inr ms)) \<and>
    (\<forall>n k. count_messages_after_id t room since s = Inr n \<longrightarrow> mongo_count_after_id c room since s' = Inr k \<longrightarrow> n = k) \<and>
    (sp_start p mod 1000000 = 0 \<and> sp_end p mod 1000000 = 0 \<and>
      (\<forall>m \<in> set (rows s). sp_keyword p \<noteq> [] \<longrightarrow>
        (m_content m \<noteq> [] \<and> rx (quote_meta (sp_keyword p)) (m_content m)) = locate (sp_keyword p) (m_content m)) \<longrightarrow>
      (\<forall>x y. search_messages locate t p s = Inr x \<longrightarrow> mongo_search_messages c p s' = Inr y \<longrightarrow> x = y))"
proof -
  have ok: "m \<in> set (rows s) \<Longrightarrow> doc_ok m" for m using mir by (simp add: mirrors_def)
  have "n = k" if "t_count t (after_id room since) s = Inr n" "mc_count c (after_id_filter room since) s' = Inr k" for n k
    by (rule counts_agree [OF tab(1) col(1) mir _ after_id_doc [OF ok room(1)] that]) (simp_all add: after_id_holds)
  moreover have "x = y" if "sp_start p mod 1000000 = 0" "sp_end p mod 1000000 = 0"
      "\<forall>m \<in> set (rows s). sp_keyword p \<noteq> [] \<longrightarrow>
        (m_content m \<noteq> [] \<and> rx (quote_meta (sp_keyword p)) (m_content m)) = locate (sp_keyword p) (m_content m)"
      "search_messages locate t p s = Inr x" "mongo_search_messages c p s' = Inr y" for x y
  proof -
    have "sp_room p \<noteq> 0" using room by simp
    from search_agrees [where locate = locate and rx = rx, OF tab col mir this that(1,2)] that(3-5)
    show ?thesis by (cases x; cases y) blast
  qed
  ultimately show ?thesis
    unfolding count_messages_after_id_def mongo_count_after_id_def
    by (intro conjI impI allI) (erule conjE history_agrees [OF tab col mir room(1)] after_id_agrees [OF tab col mir room(1)]
        time_range_agrees [OF tab col mir room(1)] | assumption | blast)+
qed

lemma sorts_before_total: "total_preorder (sorts_before ks)"
proof -
  have "(sorts_before ks a b \<or> sorts_before ks b a) \<and> (sorts_before ks a b \<longrightarrow> sorts_before ks b c \<longrightarrow> sorts_before ks a c)" for a b c
  proof (induction ks)
    case (Cons k ks)
    obtain f desc where k: "k = (f, desc)" by (cases k)
    let ?r = "\<lambda>d. sort_rank (gm_get d f)"
    have "?r a < ?r b \<or> ?r a = ?r b \<or> ?r b < ?r a" by (rule less_linear)
    then show ?case using Cons by (cases desc) (auto simp: k Let_def dest: less_trans)
  qed simp
  then show ?thesis unfolding total_preorder_def by blast
qed

lemma list_collection_up: "mongo_up (list_collection rx fmt) s"
  by (simp add: mongo_up_def list_collection_def Let_def sorted_sort_by sorts_before_total)

lemma demo_mirrors: "mirrors [demo_whole 1 ''a'', demo_whole 2 ''b''] [message_doc (demo_whole 2 ''b''), message_doc (demo_whole 1 ''a'')]"
proof -
  have ok: "doc_ok (demo_whole 1 k)" "doc_ok (demo_whole 2 k)" for k
    by (simp_all add: doc_ok_def demo_whole_def demo_stored_def in_width_def zero_time_def)
  then show ?thesis
    using doc_ok_live [OF ok(1)] doc_ok_live [OF ok(2)]
    by (simp add: mirrors_def ids_ok_def) (simp add: demo_whole_def demo_stored_def)
qed

lemma list_messages_queries: "queries_succeed list_messages s"
  unfolding list_messages_def by (rule list_table_queries)

definition demo_search :: search_params where
  "demo_search =
     \<lparr>sp_room = 7, sp_keyword = [], sp_sender = 0, sp_start = zero_time, sp_end = zero_time, sp_offset = 0, sp_limit = 20\<rparr>"

lemma mongo_reads_agree_witness:
  "\<exists>ms. get_history_by_cursor list_messages 7 2 5 [demo_whole 1 ''a'', demo_whole 2 ''b''] = Inr ms \<and>
     mongo_history_by_cursor (list_collection (\<lambda>_ _. True) (\<lambda>_ _ _. [])) 7 2 5
       [message_doc (demo_whole 2 ''b''), message_doc (demo_whole 1 ''a'')] = Inr ms"
proof -
  have "doc_live d" if "d \<in> set [message_doc (demo_whole 2 ''b''), message_doc (demo_whole 1 ''a'')]" for d
    using that demo_mirrors doc_ok_live by (auto simp: mirrors_def)
  then show ?thesis
    using mongo_reads_agree [where locate = "\<lambda>_ _. True" and since = 0 and start = 0 and stop = 0 and p = demo_search and
        s = "[demo_whole 1 ''a'', demo_whole 2 ''b'']" and limit = 5 and room = 7 and cursor = 2,
      OF list_messages_laws list_messages_queries list_collection_laws list_collection_up demo_mirrors]
    by (simp add: demo_search_def zero_time_def)
qed

end
