(* ===== verification/MongoBatch.thy ===== *)
theory MongoBatch
  imports MongoRepo
begin

section \<open>Saving batches in the Mongo store\<close>

text \<open>
  What the unordered bulk write of \<open>SaveMessageBatch\<close> leaves behind, in contrast to the transaction of the
  MySQL repository.
\<close>

definition client_of :: "doc \<Rightarrow> bson option" where
  "client_of d = gm_get d ''client_msg_id''"

definition clients_distinct :: "doc list \<Rightarrow> bool" where
  "clients_distinct ds \<longleftrightarrow> distinct (filter (\<lambda>x. x \<noteq> None) (map client_of ds))"

lemma upsert_client:
  assumes "m_client_id m \<noteq> []"
  shows "upsert_doc rx ([(''client_msg_id'', Is (BStr (m_client_id m)))], message_doc m) ds =
    (if client_of (message_doc m) \<in> client_of ` set ds then ds else ds @ [message_doc m])"
proof -
  have c: "client_of (message_doc m) = Some (BStr (m_client_id m))" using assms by (simp add: client_of_def message_doc_fields)
  then have "inserted [(''client_msg_id'', Is (BStr (m_client_id m)))] (message_doc m) = message_doc m"
    by (simp add: inserted_def client_of_def List.map_filter_simps)
  moreover have "filter_holds rx [(''client_msg_id'', Is (BStr k))] d = (client_of d = Some (BStr k))" for k d
    by (simp add: filter_holds_def client_of_def)
  ultimately show ?thesis using c by (simp add: upsert_doc_def image_iff) metis
qed

text \<open>The operations of a batch, applied one after another in any order.\<close>

definition batch_docs :: "message option list \<Rightarrow> doc set" where
  "batch_docs msgs = {message_doc m | m. Some m \<in> set msgs \<and> m_client_id m \<noteq> []}"

lemma upsert_models_set:
  "fd \<in> set (upsert_models msgs) \<longleftrightarrow>
     (\<exists>m. Some m \<in> set msgs \<and> m_client_id m \<noteq> [] \<and>
          fd = ([(''client_msg_id'', Is (BStr (m_client_id m)))], message_doc m))"
  by (induction msgs) (auto simp: upsert_models_def List.map_filter_simps split: option.splits if_splits)

lemma batch_docs_eq: "batch_docs msgs = snd ` set (upsert_models msgs)"
  unfolding batch_docs_def by (force simp: upsert_models_set)

lemma fold_upserts:
  assumes "set fds \<subseteq> set (upsert_models msgs)"
  shows "\<exists>new. fold (upsert_doc rx) fds ds = ds @ new \<and> set new \<subseteq> batch_docs msgs \<and>
    (clients_distinct ds \<longrightarrow> clients_distinct (ds @ new)) \<and>
    (\<forall>fd \<in> set fds. client_of (snd fd) \<in> client_of ` set (ds @ new))"
  using assms
proof (induction fds arbitrary: ds)
  case (Cons fd fds)
  then obtain m where m: "Some m \<in> set msgs" "m_client_id m \<noteq> []"
    "fd = ([(''client_msg_id'', Is (BStr (m_client_id m)))], message_doc m)" using upsert_models_set by auto
  define ds1 where "ds1 = upsert_doc rx fd ds"
  have ds1: "ds1 = (if client_of (message_doc m) \<in> client_of ` set ds then ds else ds @ [message_doc m])"
    unfolding ds1_def m(3) by (rule upsert_client [OF m(2)])
  obtain new where new: "fold (upsert_doc rx) fds ds1 = ds1 @ new" "set new \<subseteq> batch_docs msgs"
    "clients_distinct ds1 \<longrightarrow> clients_distinct (ds1 @ new)"
    "\<forall>x \<in> set fds. client_of (snd x) \<in> client_of ` set (ds1 @ new)"
    using Cons.IH [of ds1] Cons.prems by auto
  have run: "fold (upsert_doc rx) (fd # fds) ds = ds1 @ new" using new(1) by (simp add: ds1_def)
  show ?case
  proof (cases "client_of (message_doc m) \<in> client_of ` set ds")
    case True
    then show ?thesis using run new ds1 m(3) by (intro exI [of _ new]) auto
  next
    case False
    have "message_doc m \<in> batch_docs msgs" using m by (auto simp: batch_docs_def)
    moreover have "clients_distinct ds \<longrightarrow> clients_distinct ds1"
      using False unfolding ds1 by (auto simp: clients_distinct_def)
    ultimately show ?thesis using False run new ds1 m(3) by (intro exI [of _ "message_doc m # new"]) auto
  qed
qed (auto intro: exI [of _ "[]"])

lemma fold_upserts_idle:
  assumes "set fds \<subseteq> set (upsert_models msgs)" and "\<forall>fd \<in> set fds. client_of (snd fd) \<in> client_of ` set ds"
  shows "fold (upsert_doc rx) fds ds = ds"
  using assms
proof (induction fds)
  case (Cons fd fds)
  then obtain m where m: "m_client_id m \<noteq> []"
    "fd = ([(''client_msg_id'', Is (BStr (m_client_id m)))], message_doc m)" using upsert_models_set by auto
  then have "upsert_doc rx fd ds = ds" using Cons.prems(2) upsert_client [OF m(1)] by simp
  with Cons show ?case by simp
qed simp

text \<open>One saving of a batch: some of its operations were applied, all of them on success.\<close>

lemma batch_effect:
  assumes col: "collection_laws rx docs c" and run: "mongo_save_message_batch c msgs s = (s', res)"
  shows "\<exists>fds. set fds \<subseteq> set (upsert_models msgs) \<and> docs s' = fold (upsert_doc rx) fds (docs s) \<and>
    (res = Inr () \<longrightarrow> set fds = set (upsert_models msgs))"
proof (cases "upsert_models msgs = []")
  case True
  with run have "s' = s" by (simp add: mongo_save_message_batch_def Let_def split: if_splits)
  with True show ?thesis by simp
next
  case False
  then have bulk: "mc_bulk_upsert c (upsert_models msgs) s = (s', res)"
    using run by (cases msgs) (simp_all add: mongo_save_message_batch_def upsert_models_def List.map_filter_simps)
  show ?thesis
  proof (cases res)
    case (Inl e)
    with collection_lawsD(5) [OF col bulk [unfolded Inl]] obtain fds where
      "mset fds \<subseteq># mset (upsert_models msgs)" "docs s' = fold (upsert_doc rx) fds (docs s)" by blast
    moreover from this(1) have "set fds \<subseteq> set (upsert_models msgs)" using set_mset_mono by fastforce
    ultimately show ?thesis using Inl by blast
  next
    case (Inr u)
    then have "mc_bulk_upsert c (upsert_models msgs) s = (s', Inr ())" using bulk by simp
    from collection_lawsD(6) [OF col this] obtain fds where
      "mset fds = mset (upsert_models msgs)" "docs s' = fold (upsert_doc rx) fds (docs s)" by blast
    moreover from this(1) have "set fds = set (upsert_models msgs)" by (rule mset_eq_setD)
    ultimately show ?thesis by blast
  qed
qed

text \<open>C17: In the Mongo store a batch is not all or nothing, but it never harms and can be repeated: whether it
  succeeds or fails, the documents stored before are unchanged, only documents of the batch are added, and
  no client id comes to be stored twice. After a success every client id of the batch is stored: with the
  document it had before, or else with one message of the batch that has it, so that a message whose client
  id no other message of the store or of the batch has is stored itself. (Of several messages with one
  client id only one is stored, although success is reported.) Storing the batch again changes nothing; so
  the retry of a batch that failed half-way completes it.\<close>

theorem mongo_batch_repeatable:
  assumes col: "collection_laws rx docs c" and run: "mongo_save_message_batch c msgs s = (s', res)"
  shows "\<exists>new. docs s' = docs s @ new \<and> set new \<subseteq> batch_docs msgs \<and>
    (clients_distinct (docs s) \<longrightarrow> clients_distinct (docs s')) \<and>
    (res = Inr () \<longrightarrow>
       (\<forall>d \<in> batch_docs msgs. client_of d \<in> client_of ` set (docs s')) \<and>
       (\<forall>d \<in> batch_docs msgs. client_of d \<notin> client_of ` set (docs s) \<longrightarrow>
          (\<exists>d' \<in> batch_docs msgs. client_of d' = client_of d \<and> d' \<in> set (docs s'))) \<and>
       docs (fst (mongo_save_message_batch c msgs s')) = docs s')"
proof -
  obtain fds where fds: "set fds \<subseteq> set (upsert_models msgs)" "docs s' = fold (upsert_doc rx) fds (docs s)"
    "res = Inr () \<longrightarrow> set fds = set (upsert_models msgs)"
    using batch_effect [OF col run] by blast
  obtain new where new: "docs s' = docs s @ new" "set new \<subseteq> batch_docs msgs"
    "clients_distinct (docs s) \<longrightarrow> clients_distinct (docs s')"
    "\<forall>fd \<in> set fds. client_of (snd fd) \<in> client_of ` set (docs s')"
    using fold_upserts [OF fds(1), of rx "docs s"] fds(2) by auto
  have one: "\<exists>d' \<in> batch_docs msgs. client_of d' = client_of d \<and> d' \<in> set (docs s')"
    if "client_of d \<in> client_of ` set (docs s')" "client_of d \<notin> client_of ` set (docs s)" for d
    using that new(1,2) by (auto simp: image_iff)
  have complete: "(\<forall>d \<in> batch_docs msgs. client_of d \<in> client_of ` set (docs s')) \<and>
      docs (fst (mongo_save_message_batch c msgs s')) = docs s'" if "res = Inr ()"
  proof
    have stored: "\<forall>fd \<in> set (upsert_models msgs). client_of (snd fd) \<in> client_of ` set (docs s')"
      using fds(3) that new(4) by simp
    then show "\<forall>d \<in> batch_docs msgs. client_of d \<in> client_of ` set (docs s')"
      by (simp add: batch_docs_eq)
    obtain y r where y: "mongo_save_message_batch c msgs s' = (y, r)" by fastforce
    obtain fds' where fds': "set fds' \<subseteq> set (upsert_models msgs)" "docs y = fold (upsert_doc rx) fds' (docs s')"
      using batch_effect [OF col y] by blast
    have "\<forall>fd \<in> set fds'. client_of (snd fd) \<in> client_of ` set (docs s')"
      using stored subsetD [OF fds'(1)] by (intro ballI) (erule bspec, simp)
    from fold_upserts_idle [OF fds'(1) this] fds'(2) y show "docs (fst (mongo_save_message_batch c msgs s')) = docs s'" by auto
  qed
  show ?thesis
    using complete one by (intro exI [of _ new] conjI impI new(1-2) new(3) [rule_format] ballI) auto
qed

lemma mongo_batch_repeatable_witness:
  "case mongo_save_message_batch (list_collection (\<lambda>_ _. True) (\<lambda>_ _ _. []))
          [Some (demo_whole 1 ''a''), None, Some (demo_whole 2 ''b''), Some (demo_whole 3 ''a'')] [] of
     (ds, res) \<Rightarrow> clients_distinct ds"
proof -
  let ?run = "mongo_save_message_batch (list_collection (\<lambda>_ _. True) (\<lambda>_ _ _. []))
    [Some (demo_whole 1 ''a''), None, Some (demo_whole 2 ''b''), Some (demo_whole 3 ''a'')] []"
  have "clients_distinct []" by (simp add: clients_distinct_def)
  with mongo_batch_repeatable [OF list_collection_laws surjective_pairing, where s = "[]"]
  have "clients_distinct (fst ?run)" by blast
  then show ?thesis by (simp only: case_prod_unfold)
qed

text \<open>A message without a client id is lost as soon as one such message is stored: all of them share the
  filter.\<close>

lemma second_message_without_client_id_lost:
  assumes "m_client_id a = []" and "m_client_id b = []" and "collection_laws rx docs c" and "docs s = []"
    and "mongo_save_message c (Some a) s = (s1, Inr ())" and "mongo_save_message c (Some b) s1 = (s2, Inr ())"
  shows "length (docs s2) = 1"
proof -
  let ?f = "[(''client_msg_id'', Is (BStr []))]"
  have save: "docs y = upsert_doc rx (?f, message_doc m) (docs x)"
    if "mongo_save_message c (Some m) x = (y, Inr ())" "m_client_id m = []" for x y m
    using that collection_lawsD(4) [OF assms(3)] by (simp add: mongo_save_message_def)
  have "docs s1 = [inserted ?f (message_doc a)]" using save [OF assms(5,1)] assms(4) by (simp add: upsert_doc_def)
  moreover have "filter_holds rx ?f (inserted ?f (message_doc a))"
    using assms(1) by (simp add: inserted_def List.map_filter_simps filter_holds_def message_doc_fields map_add_def)
  ultimately show ?thesis using save [OF assms(6,2)] by (simp add: upsert_doc_def)
qed

end
