(* ===== verification/MessageStats.thy ===== *)
theory MessageStats
  imports AdminRooms MongoReads
begin

section \<open>Message statistics (services/admin/application/message_stats.go)\<close>

text \<open>
  The interface the admin services count messages through, and its two implementations. In MySQL a count
  over the rows that match stands for one aggregate query; \<open>date_format\<close> is MySQL's DATE_FORMAT in the
  session's time zone, and \<open>arrange\<close> the order in which rows of a top list come out. In MongoDB the
  filters and pipelines of the source are kept. An error of either database is an error of the interface.
\<close>

datatype stats_error = SqlError db_error | MongoError mongo_error

type_synonym time_count = "string \<times> int"
type_synonym key_count = "int \<times> int"

record 's message_stats =
  ms_count :: "int \<Rightarrow> int \<Rightarrow> 's \<Rightarrow> stats_error + int"
  ms_by_type :: "int \<Rightarrow> int \<Rightarrow> 's \<Rightarrow> stats_error + (int, int) gomap"
  ms_private_group :: "int \<Rightarrow> int \<Rightarrow> 's \<Rightarrow> stats_error + int \<times> int"
  ms_agent_mentions :: "int \<Rightarrow> int \<Rightarrow> 's \<Rightarrow> stats_error + int"
  ms_active_senders :: "int \<Rightarrow> 's \<Rightarrow> stats_error + int"
  ms_hourly :: "int \<Rightarrow> int \<Rightarrow> 's \<Rightarrow> stats_error + time_count list"
  ms_daily :: "int \<Rightarrow> int \<Rightarrow> 's \<Rightarrow> stats_error + time_count list"
  ms_top_rooms :: "int \<Rightarrow> int \<Rightarrow> int \<Rightarrow> 's \<Rightarrow> stats_error + key_count list"
  ms_top_senders :: "int \<Rightarrow> int \<Rightarrow> int \<Rightarrow> 's \<Rightarrow> stats_error + key_count list"
  ms_by_sender :: "int \<Rightarrow> 's \<Rightarrow> stats_error + int"
  ms_by_room :: "int \<Rightarrow> int \<Rightarrow> int \<Rightarrow> 's \<Rightarrow> stats_error + int"
  ms_by_room_total :: "int \<Rightarrow> 's \<Rightarrow> stats_error + int"
  ms_by_senders :: "int list \<Rightarrow> 's \<Rightarrow> stats_error + (int, int) gomap"
  ms_by_rooms :: "int list \<Rightarrow> int \<Rightarrow> int \<Rightarrow> 's \<Rightarrow> stats_error + (int, int) gomap"
  ms_by_rooms_total :: "int list \<Rightarrow> 's \<Rightarrow> stats_error + (int, int) gomap"

subsection \<open>MySQL\<close>

text \<open>Rows that are deleted are not rows of the table.\<close>

definition created_in :: "int \<Rightarrow> int \<Rightarrow> message \<Rightarrow> bool" where
  "created_in lo hi m \<longleftrightarrow> lo \<le> m_created m \<and> m_created m < hi"

definition sql_count :: "('s, message) table \<Rightarrow> (message \<Rightarrow> bool) \<Rightarrow> 's \<Rightarrow> stats_error + int" where
  "sql_count t p s = map_sum SqlError int (t_count t p s)"

definition sql_rows :: "('s, message) table \<Rightarrow> (message \<Rightarrow> bool) \<Rightarrow> (message list \<Rightarrow> 'a) \<Rightarrow> 's \<Rightarrow> stats_error + 'a" where
  "sql_rows t p f s = map_sum SqlError f (t_find t (query_all p) s)"

text \<open>
  The names that the queries give to their columns stand in them without quotes. MySQL documents that an
  unquoted reserved word is a syntax error there; of the names used, \<open>key\<close> is one.
\<close>

definition reserved_words :: "string list" where
  "reserved_words = [''key'']"

definition sql_named ::
    "string list \<Rightarrow> ('s, message) table \<Rightarrow> (message \<Rightarrow> bool) \<Rightarrow> (message list \<Rightarrow> 'a) \<Rightarrow> 's \<Rightarrow> stats_error + 'a" where
  "sql_named names t p f s =
     (if \<exists>w \<in> set names. w \<in> set reserved_words then Inl (SqlError (DbFailure ''syntax error'')) else sql_rows t p f s)"

definition sql_by_type :: "('s, message) table \<Rightarrow> int \<Rightarrow> int \<Rightarrow> 's \<Rightarrow> stats_error + (int, int) gomap" where
  "sql_by_type t lo hi s = sql_named [''count''] t (created_in lo hi) (count_by m_type) s"

text \<open>The messages joined with the live rooms, counted by the type of the room, and the loop over the counts.\<close>

definition sql_private_group ::
    "('s, message) table \<Rightarrow> ('s, room) table \<Rightarrow> int \<Rightarrow> int \<Rightarrow> 's \<Rightarrow> stats_error + int \<times> int" where
  "sql_private_group t rt lo hi s =
     (case t_find rt (query_all (\<lambda>_. True)) s of
        Inl e \<Rightarrow> Inl (SqlError e)
      | Inr rooms \<Rightarrow>
          sql_named [''room_type'', ''count''] t (created_in lo hi)
            (\<lambda>ms. fold (\<lambda>(ty, n) (private, group). if ty = 1 then (private + n, group) else (private, group + n))
               (count_by r_type (concat (map (\<lambda>m. filter (\<lambda>r. r_id r = m_room m) rooms) ms))) (0, 0)) s)"

text \<open>The two characters of the assistant's name, in UTF-8.\<close>

definition assistant_bytes :: string where
  "assistant_bytes = [CHR 0xE5, CHR 0x8A, CHR 0xA9, CHR 0xE6, CHR 0x89, CHR 0x8B]"

definition sql_agent_mentions ::
    "('s, message) table \<Rightarrow> (string \<Rightarrow> string \<Rightarrow> bool) \<Rightarrow> int \<Rightarrow> int \<Rightarrow> 's \<Rightarrow> stats_error + int" where
  "sql_agent_mentions t like lo hi s =
     sql_count t
       (\<lambda>m. created_in lo hi m \<and>
            (like (m_content m) ''%@agent%'' \<or> like (m_content m) (''%@AI'' @ assistant_bytes @ ''%'') \<or>
             like (m_content m) (''%@AI'' @ assistant_bytes @ ''_%''))) s"

definition sql_active_senders :: "('s, message) table \<Rightarrow> int \<Rightarrow> 's \<Rightarrow> stats_error + int" where
  "sql_active_senders t from_time s =
     sql_rows t (\<lambda>m. from_time \<le> m_created m) (\<lambda>ms. int (length (remdups (map m_sender ms)))) s"

definition time_counts :: "(int \<Rightarrow> string) \<Rightarrow> message list \<Rightarrow> time_count list" where
  "time_counts key ms =
     (let ks = map (\<lambda>m. key (m_created m)) ms in map (\<lambda>k. (k, int (count_list ks k))) (sort (remdups ks)))"

definition sql_hourly :: "('s, message) table \<Rightarrow> (string \<Rightarrow> int \<Rightarrow> string) \<Rightarrow> int \<Rightarrow> int \<Rightarrow> 's \<Rightarrow> stats_error + time_count list" where
  "sql_hourly t date_format lo hi s =
     sql_named [''time'', ''count''] t (created_in lo hi) (time_counts (date_format ''%Y-%m-%d %H:00'')) s"

definition sql_daily :: "('s, message) table \<Rightarrow> (string \<Rightarrow> int \<Rightarrow> string) \<Rightarrow> int \<Rightarrow> int \<Rightarrow> 's \<Rightarrow> stats_error + time_count list" where
  "sql_daily t date_format lo hi s =
     sql_named [''time'', ''count''] t (created_in lo hi) (time_counts (date_format ''%Y-%m-%d'')) s"

text \<open>A negative limit is no limit.\<close>

definition top_counts :: "(key_count list \<Rightarrow> key_count list) \<Rightarrow> int \<Rightarrow> (message \<Rightarrow> int) \<Rightarrow> message list \<Rightarrow> key_count list" where
  "top_counts arrange limit key ms = page 0 (limit_opt limit) (arrange (count_by key ms))"

definition sql_top_rooms ::
    "('s, message) table \<Rightarrow> (key_count list \<Rightarrow> key_count list) \<Rightarrow> int \<Rightarrow> int \<Rightarrow> int \<Rightarrow> 's \<Rightarrow> stats_error + key_count list" where
  "sql_top_rooms t arrange lo hi limit s =
     sql_named [''key'', ''count''] t (created_in lo hi) (top_counts arrange limit m_room) s"

definition sql_top_senders ::
    "('s, message) table \<Rightarrow> (key_count list \<Rightarrow> key_count list) \<Rightarrow> int \<Rightarrow> int \<Rightarrow> int \<Rightarrow> 's \<Rightarrow> stats_error + key_count list" where
  "sql_top_senders t arrange lo hi limit s =
     sql_named [''key'', ''count''] t (created_in lo hi) (top_counts arrange limit m_sender) s"

definition sql_by_keys ::
    "('s, message) table \<Rightarrow> (message \<Rightarrow> int) \<Rightarrow> (message \<Rightarrow> bool) \<Rightarrow> int list \<Rightarrow> 's \<Rightarrow> stats_error + (int, int) gomap" where
  "sql_by_keys t key p ids s =
     (if ids = [] then Inr [] else sql_named [''key'', ''count''] t (\<lambda>m. key m \<in> set ids \<and> p m) (count_by key) s)"

definition mysql_message_stats ::
    "('s, message) table \<Rightarrow> ('s, room) table \<Rightarrow> (string \<Rightarrow> string \<Rightarrow> bool) \<Rightarrow> (string \<Rightarrow> int \<Rightarrow> string) \<Rightarrow>
     (key_count list \<Rightarrow> key_count list) \<Rightarrow> 's message_stats" where
  "mysql_message_stats t rt like date_format arrange =
     \<lparr>ms_count = (\<lambda>lo hi. sql_count t (created_in lo hi)),
      ms_by_type = sql_by_type t,
      ms_private_group = sql_private_group t rt,
      ms_agent_mentions = sql_agent_mentions t like,
      ms_active_senders = sql_active_senders t,
      ms_hourly = sql_hourly t date_format,
      ms_daily = sql_daily t date_format,
      ms_top_rooms = sql_top_rooms t arrange,
      ms_top_senders = sql_top_senders t arrange,
      ms_by_sender = (\<lambda>u. sql_count t (\<lambda>m. m_sender m = u)),
      ms_by_room = (\<lambda>r lo hi. sql_count t (\<lambda>m. m_room m = r \<and> created_in lo hi m)),
      ms_by_room_total = (\<lambda>r. sql_count t (\<lambda>m. m_room m = r)),
      ms_by_senders = sql_by_keys t m_sender (\<lambda>_. True),
      ms_by_rooms = (\<lambda>ids lo hi. sql_by_keys t m_room (created_in lo hi) ids),
      ms_by_rooms_total = sql_by_keys t m_room (\<lambda>_. True)\<rparr>"

subsection \<open>MongoDB\<close>

definition base_filter :: "int \<Rightarrow> int \<Rightarrow> bson_filter" where
  "base_filter lo hi = gm_put ''created_at'' (Ops [OpGte (bdate lo), OpLt (bdate hi)]) not_deleted_filter"

definition mongo_count :: "'s collection \<Rightarrow> bson_filter \<Rightarrow> 's \<Rightarrow> stats_error + int" where
  "mongo_count c f s = map_sum MongoError int (mc_count c f s)"

text \<open>\<open>cursor.All\<close> into rows of a key of \<open>w\<close> bits, or a text, and a count.\<close>

fun decode_counts :: "nat \<Rightarrow> doc list \<Rightarrow> stats_error + key_count list" where
  "decode_counts w [] = Inr []"
| "decode_counts w (d # ds) =
     (case (int_field w ''_id'' d, int_field 64 ''count'' d) of
        (Some k, Some n) \<Rightarrow> map_sum id (\<lambda>r. (k, n) # r) (decode_counts w ds)
      | _ \<Rightarrow> Inl (MongoError (MongoFailure ''decode'')))"

fun decode_time_counts :: "doc list \<Rightarrow> stats_error + time_count list" where
  "decode_time_counts [] = Inr []"
| "decode_time_counts (d # ds) =
     (case (str_field ''_id'' d, int_field 64 ''count'' d) of
        (Some k, Some n) \<Rightarrow> map_sum id (\<lambda>r. (k, n) # r) (decode_time_counts ds)
      | _ \<Rightarrow> Inl (MongoError (MongoFailure ''decode'')))"

definition mongo_key_counts :: "'s collection \<Rightarrow> nat \<Rightarrow> stage list \<Rightarrow> 's \<Rightarrow> stats_error + key_count list" where
  "mongo_key_counts c w sts s =
     (case mc_aggregate c sts s of Inl e \<Rightarrow> Inl (MongoError e) | Inr ds \<Rightarrow> decode_counts w ds)"

definition counts_map :: "key_count list \<Rightarrow> (int, int) gomap" where
  "counts_map rows = fold (\<lambda>(k, n) m. gm_put k n m) rows []"

definition mongo_by_type :: "'s collection \<Rightarrow> int \<Rightarrow> int \<Rightarrow> 's \<Rightarrow> stats_error + (int, int) gomap" where
  "mongo_by_type c lo hi s =
     map_sum id counts_map (mongo_key_counts c 8 [Match (base_filter lo hi), GroupCount (ByField ''type'')] s)"

definition room_ids_by_type :: "('s, room) table \<Rightarrow> int \<Rightarrow> 's \<Rightarrow> stats_error + int list" where
  "room_ids_by_type rt ty s = map_sum SqlError (map r_id) (t_find rt (query_all (\<lambda>r. r_type r = ty)) s)"

definition count_in_rooms :: "'s collection \<Rightarrow> int \<Rightarrow> int \<Rightarrow> int list \<Rightarrow> 's \<Rightarrow> stats_error + int" where
  "count_in_rooms c lo hi ids s =
     (if ids = [] then Inr 0
      else mongo_count c (gm_put ''room_id'' (Ops [OpIn (map BInt ids)]) (base_filter lo hi)) s)"

definition mongo_private_group ::
    "'s collection \<Rightarrow> ('s, room) table \<Rightarrow> int \<Rightarrow> int \<Rightarrow> 's \<Rightarrow> stats_error + int \<times> int" where
  "mongo_private_group c rt lo hi s =
     (case room_ids_by_type rt 1 s of
        Inl e \<Rightarrow> Inl e
      | Inr privateIDs \<Rightarrow>
          (case room_ids_by_type rt 2 s of
             Inl e \<Rightarrow> Inl e
           | Inr groupIDs \<Rightarrow>
               (case count_in_rooms c lo hi privateIDs s of
                  Inl e \<Rightarrow> Inl e
                | Inr p \<Rightarrow> map_sum id (\<lambda>g. (p, g)) (count_in_rooms c lo hi groupIDs s))))"

text \<open>The clause for the mentions takes the place of the one for deleted messages.\<close>

definition mentions_filter :: "int \<Rightarrow> int \<Rightarrow> bson_filter" where
  "mentions_filter lo hi =
     gm_put ''$or''
       (Clauses [[(''content'', Pattern ''@agent'')], [(''content'', Pattern (''@AI'' @ assistant_bytes))]])
       (base_filter lo hi)"

definition mongo_agent_mentions :: "'s collection \<Rightarrow> int \<Rightarrow> int \<Rightarrow> 's \<Rightarrow> stats_error + int" where
  "mongo_agent_mentions c lo hi s = mongo_count c (mentions_filter lo hi) s"

definition mongo_active_senders :: "'s collection \<Rightarrow> int \<Rightarrow> 's \<Rightarrow> stats_error + int" where
  "mongo_active_senders c from_time s =
     (case mc_distinct c ''sender_id'' (gm_put ''created_at'' (Ops [OpGte (bdate from_time)]) not_deleted_filter) s of
        Inl e \<Rightarrow> Inl (MongoError e)
      | Inr vs \<Rightarrow>
          if \<forall>v \<in> set vs. (case v of BInt i \<Rightarrow> is_int64 i | _ \<Rightarrow> False) then Inr (int (length vs))
          else Inl (MongoError (MongoFailure ''decode'')))"

definition mongo_time_counts :: "'s collection \<Rightarrow> string \<Rightarrow> int \<Rightarrow> int \<Rightarrow> 's \<Rightarrow> stats_error + time_count list" where
  "mongo_time_counts c fmt lo hi s =
     (case mc_aggregate c
             [Match (base_filter lo hi), GroupCount (ByDate ''created_at'' fmt ''Asia/Shanghai''), SortBy [(''_id'', False)]] s of
        Inl e \<Rightarrow> Inl (MongoError e)
      | Inr ds \<Rightarrow> decode_time_counts ds)"

definition mongo_top_key :: "'s collection \<Rightarrow> string \<Rightarrow> int \<Rightarrow> int \<Rightarrow> int \<Rightarrow> 's \<Rightarrow> stats_error + key_count list" where
  "mongo_top_key c field lo hi limit s =
     mongo_key_counts c 64
       [Match (base_filter lo hi), GroupCount (ByField field), SortBy [(''count'', True)], Limit limit] s"

definition group_count_by_keys ::
    "'s collection \<Rightarrow> bson_filter \<Rightarrow> string \<Rightarrow> int list \<Rightarrow> 's \<Rightarrow> stats_error + (int, int) gomap" where
  "group_count_by_keys c f field keys s =
     (if keys = [] then Inr []
      else map_sum id counts_map
             (mongo_key_counts c 64
                [Match (gm_put field (Ops [OpIn (map BInt keys)]) f), GroupCount (ByField field)] s))"

definition mongo_message_stats :: "'s collection \<Rightarrow> ('s, room) table \<Rightarrow> 's message_stats" where
  "mongo_message_stats c rt =
     \<lparr>ms_count = (\<lambda>lo hi. mongo_count c (base_filter lo hi)),
      ms_by_type = mongo_by_type c,
      ms_private_group = mongo_private_group c rt,
      ms_agent_mentions = mongo_agent_mentions c,
      ms_active_senders = mongo_active_senders c,
      ms_hourly = mongo_time_counts c ''%Y-%m-%d %H'',
      ms_daily = mongo_time_counts c ''%Y-%m-%d'',
      ms_top_rooms = mongo_top_key c ''room_id'',
      ms_top_senders = mongo_top_key c ''sender_id'',
      ms_by_sender = (\<lambda>u. mongo_count c (gm_put ''sender_id'' (Is (BInt u)) not_deleted_filter)),
      ms_by_room = (\<lambda>r lo hi. mongo_count c (gm_put ''room_id'' (Is (BInt r)) (base_filter lo hi))),
      ms_by_room_total = (\<lambda>r. mongo_count c (gm_put ''room_id'' (Is (BInt r)) not_deleted_filter)),
      ms_by_senders = group_count_by_keys c not_deleted_filter ''sender_id'',
      ms_by_rooms = (\<lambda>ids lo hi. group_count_by_keys c (base_filter lo hi) ''room_id'' ids),
      ms_by_rooms_total = group_count_by_keys c not_deleted_filter ''room_id''\<rparr>"

text \<open>\<open>NewMessageStatsStore\<close>: Mongo when it is chosen and connected.\<close>

definition new_message_stats_store ::
    "string \<Rightarrow> 's collection option \<Rightarrow> ('s, message) table \<Rightarrow> ('s, room) table \<Rightarrow> (string \<Rightarrow> string \<Rightarrow> bool) \<Rightarrow>
     (string \<Rightarrow> int \<Rightarrow> string) \<Rightarrow> (key_count list \<Rightarrow> key_count list) \<Rightarrow> 's message_stats" where
  "new_message_stats_store store coll t rt like date_format arrange =
     (case coll of
        Some c \<Rightarrow> if store = ''mongo'' then mongo_message_stats c rt else mysql_message_stats t rt like date_format arrange
      | None \<Rightarrow> mysql_message_stats t rt like date_format arrange)"

text \<open>What the admin services read of it: an error counts as nothing.\<close>

definition message_counts_of :: "'s message_stats \<Rightarrow> 's \<Rightarrow> message_counts" where
  "message_counts_of st s =
     \<lparr>mc_by_sender = (\<lambda>u. or_zero 0 (ms_by_sender st u s)),
      mc_by_senders = (\<lambda>ids. or_zero [] (ms_by_senders st ids s)),
      mc_by_room = (\<lambda>r lo hi. or_zero 0 (ms_by_room st r lo hi s)),
      mc_by_room_total = (\<lambda>r. or_zero 0 (ms_by_room_total st r s)),
      mc_by_rooms = (\<lambda>ids lo hi. or_zero [] (ms_by_rooms st ids lo hi s)),
      mc_by_rooms_total = (\<lambda>ids. or_zero [] (ms_by_rooms_total st ids s))\<rparr>"

end
