(* ===== verification/StatsAgree.thy ===== *)
theory StatsAgree
  imports MessageStats
begin

section \<open>The two stores of the statistics agree\<close>

text \<open>
  What the admin pages count comes out the same from MySQL and from MongoDB when both hold the same
  messages, for the counts of a time, of a type, of a sender and of a room. The tables of counts by sender
  and by room come from MongoDB only: MySQL refuses their queries.
\<close>

subsection \<open>MySQL\<close>

lemma sql_count_value:
  "message_laws rows t \<Longrightarrow> sql_count t p s = Inr n \<Longrightarrow> n = int (length (filter p (rows s)))"
  unfolding sql_count_def message_laws_def by (cases "t_count t p s") (auto dest: table_lawsD(2))

lemma count_by_perm:
  "mset xs = mset ys \<Longrightarrow> at_key 0 (count_by key xs) k = at_key 0 (count_by key ys) k"
  unfolding at_key_count_by by (metis mset_filter size_mset)

lemma sql_rows_counts:
  assumes laws: "message_laws rows t" and run: "sql_rows t p (count_by key) s = Inr m"
  shows "at_key 0 m k = int (length (filter (\<lambda>x. p x \<and> key x = k) (rows s)))"
proof -
  from run obtain rs where rs: "t_find t (query_all p) s = Inr rs" "m = count_by key rs"
    unfolding sql_rows_def by (cases "t_find t (query_all p) s") auto
  from table_lawsD(1) [OF laws [unfolded message_laws_def] rs(1)]
  have "mset rs = mset (filter p (rows s))" by (auto simp: answers_def query_all_def page_def)
  from count_by_perm [OF this, of key k] rs(2) show ?thesis by (simp add: at_key_count_by conj_commute)
qed

subsection \<open>MongoDB\<close>

text \<open>The group of the documents whose field has a value, where a missing field stands for 0.\<close>

definition field_value :: "int \<Rightarrow> bson option" where
  "field_value v = (if v = 0 then None else Some (BInt v))"

definition key_of_row :: "nat \<Rightarrow> doc \<Rightarrow> key_count" where
  "key_of_row w d = (the (int_field w ''_id'' d), the (int_field 64 ''count'' d))"

lemma field_value_inj: "inj field_value"
  by (rule injI) (simp add: field_value_def split: if_splits)

lemma group_row_fields:
  assumes "in_width w v" and "int n < 2 ^ 63" and "w > 0"
  shows "int_field w ''_id'' (group_row (field_value v) n) = Some v"
    and "int_field 64 ''count'' (group_row (field_value v) n) = Some (int n)"
  using assms by (simp_all add: int_field_def group_row_def field_value_def in_width_def)

lemma decode_counts_rows:
  "(\<And>d. d \<in> set ds \<Longrightarrow> int_field w ''_id'' d \<noteq> None \<and> int_field 64 ''count'' d \<noteq> None) \<Longrightarrow>
     decode_counts w ds = Inr (map (key_of_row w) ds)"
  by (induction ds) (fastforce simp: key_of_row_def)+

lemma counts_map_get: "gm_get (counts_map ps) = map_of (rev ps)"
proof -
  have "gm_get (fold (\<lambda>(k, n) m. gm_put k n m) ps m) = gm_get m ++ map_of (rev ps)" for m
    by (induction ps arbitrary: m) (auto simp: gm_get_put fun_eq_iff map_add_def split: option.splits)
  then show ?thesis by (simp add: counts_map_def)
qed

lemma counts_map_entry:
  assumes "distinct (map fst ps)" and "(k, n) \<in> set ps"
  shows "gm_get (counts_map ps) k = Some n"
proof -
  have "distinct (map fst (rev ps))" using assms(1) by (simp add: rev_map [symmetric])
  with assms(2) show ?thesis unfolding counts_map_get by (intro map_of_is_SomeI) simp_all
qed

lemma counts_map_missing: "k \<notin> fst ` set ps \<Longrightarrow> gm_get (counts_map ps) k = None"
  unfolding counts_map_get by (simp add: map_of_eq_None_iff)

text \<open>Counting by a field gives every value the number of messages that have it.\<close>

lemma group_counts:
  assumes mid: "mset mid = mset (filter P ds)" and mir: "mirrors ms ds" and small: "int (length ms) < 2 ^ 63"
    and live: "\<And>d. P d \<Longrightarrow> doc_live d" and wh: "\<And>m. m \<in> set ms \<Longrightarrow> P (message_doc m) = p m"
    and field: "\<And>m. m \<in> set ms \<Longrightarrow> gm_get (message_doc m) k = field_value (g m)"
  defines "n \<equiv> \<lambda>x. length (filter (\<lambda>m. p m \<and> g m = x) ms)"
  shows "count_list (map (\<lambda>d. gm_get d k) mid) (field_value x) = n x"
    and "set (map (\<lambda>d. gm_get d k) mid) = field_value ` {x. n x \<noteq> 0}"
    and "int (n x) < 2 ^ 63"
proof -
  have count: "count_list (map (\<lambda>d. gm_get d k) mid) v = length (filter (\<lambda>m. p m \<and> field_value (g m) = v) ms)" for v
  proof -
    have "count_list (map (\<lambda>d. gm_get d k) mid) v = length (filter (\<lambda>d. gm_get d k = v) mid)"
      by (induction mid) auto
    also have "\<dots> = size (filter_mset (\<lambda>d. gm_get d k = v) (mset mid))" by (metis mset_filter size_mset)
    also have "\<dots> = length (filter (\<lambda>d. P d \<and> gm_get d k = v) ds)" by (simp add: mid filter_filter_mset conj_commute flip: mset_filter)
    also have "\<dots> = length (filter (\<lambda>m. p m \<and> field_value (g m) = v) ms)"
      by (rule count_docs [OF mir]) (auto simp: live wh field)
    finally show ?thesis .
  qed
  from count [of "field_value x"] show "count_list (map (\<lambda>d. gm_get d k) mid) (field_value x) = n x"
    by (simp add: n_def inj_eq [OF field_value_inj])
  have "v \<in> set (map (\<lambda>d. gm_get d k) mid) \<longleftrightarrow> filter (\<lambda>m. p m \<and> field_value (g m) = v) ms \<noteq> []" for v
    using count [of v] count_list_0_iff [of "map (\<lambda>d. gm_get d k) mid" v] by (metis length_0_conv)
  then show "set (map (\<lambda>d. gm_get d k) mid) = field_value ` {x. n x \<noteq> 0}"
    unfolding n_def by (auto simp: filter_empty_conv set_eq_iff)
  have "n x \<le> length ms" by (simp add: n_def)
  then show "int (n x) < 2 ^ 63" using small by linarith
qed

text \<open>Reading the rows of the groups back gives the counts.\<close>

lemma decode_group_rows:
  assumes out: "mset out = mset (map (\<lambda>x. group_row (field_value x) (n x)) xs)" and xs: "distinct xs"
    and small: "\<And>x. x \<in> set xs \<Longrightarrow> in_width w x \<and> int (n x) < 2 ^ 63" and w: "w > 0"
  shows "\<exists>rows. decode_counts w out = Inr rows \<and>
    (\<forall>x. at_key 0 (counts_map rows) x = (if x \<in> set xs then int (n x) else 0))"
proof -
  let ?row = "\<lambda>x. group_row (field_value x) (n x)"
  have dec: "int_field w ''_id'' (?row x) = Some x" "int_field 64 ''count'' (?row x) = Some (int (n x))" if "x \<in> set xs" for x
    using group_row_fields [OF _ _ w] small [OF that] by simp_all
  have "map (key_of_row w) (map ?row xs) = map (\<lambda>x. (x, int (n x))) xs"
    unfolding map_map by (rule map_cong [OF refl]) (simp add: key_of_row_def dec)
  moreover have "mset (map (key_of_row w) out) = mset (map (key_of_row w) (map ?row xs))"
    using out by (simp only: mset_map)
  ultimately have image: "mset (map (key_of_row w) out) = mset (map (\<lambda>x. (x, int (n x))) xs)" by (simp only:)
  have "set out = ?row ` set xs" using mset_eq_setD [OF out] by simp
  then have decoded: "decode_counts w out = Inr (map (key_of_row w) out)"
    by (intro decode_counts_rows) (auto simp: dec)
  have "mset (map fst (map (key_of_row w) out)) = mset xs"
    using arg_cong [OF image, of "image_mset fst"] by (simp add: multiset.map_comp comp_def)
  then have "distinct (map fst (map (key_of_row w) out))" using xs mset_eq_imp_distinct_iff by blast
  note entry = counts_map_entry [OF this]
  have pairs: "set (map (key_of_row w) out) = (\<lambda>x. (x, int (n x))) ` set xs" using mset_eq_setD [OF image] by simp
  have "at_key 0 (counts_map (map (key_of_row w) out)) x = (if x \<in> set xs then int (n x) else 0)" for x
  proof (cases "x \<in> set xs")
    case True
    then have "(x, int (n x)) \<in> set (map (key_of_row w) out)" unfolding pairs by simp
    from entry [OF this] True show ?thesis by (simp add: at_key_def)
  next
    case False
    then have "x \<notin> fst ` set (map (key_of_row w) out)" unfolding pairs by auto
    from counts_map_missing [OF this] False show ?thesis by (simp add: at_key_def)
  qed
  with decoded show ?thesis by blast
qed

lemma mongo_key_counts_value:
  assumes stats: "stats_laws rx fmt docs c" and up: "mc_aggregate c [Match f, GroupCount (ByField k)] s = Inr out"
    and mir: "mirrors ms (docs s)" and small: "int (length ms) < 2 ^ 63"
    and live: "\<And>d. filter_holds rx f d \<Longrightarrow> doc_live d"
    and wh: "\<And>m. m \<in> set ms \<Longrightarrow> filter_holds rx f (message_doc m) = p m"
    and field: "\<And>m. m \<in> set ms \<Longrightarrow> gm_get (message_doc m) k = field_value (g m)"
    and width: "\<And>m. m \<in> set ms \<Longrightarrow> in_width w (g m)" and w: "w > 0"
  shows "\<exists>rows. mongo_key_counts c w [Match f, GroupCount (ByField k)] s = Inr rows \<and>
    (\<forall>x. at_key 0 (counts_map rows) x = int (length (filter (\<lambda>m. p m \<and> g m = x) ms)))"
proof -
  let ?n = "\<lambda>x. length (filter (\<lambda>m. p m \<and> g m = x) ms)"
  have "aggregates rx fmt [Match f, GroupCount (ByField k)] (docs s) out"
    using stats up unfolding stats_laws_def by blast
  then obtain mid where mid: "mset mid = mset (filter (filter_holds rx f) (docs s))"
    "mset out = mset (group_rows fmt (ByField k) mid)" by auto
  let ?ks = "map (\<lambda>d. gm_get d k) mid"
  note groups = group_counts [where p = p and g = g and k = k, OF mid(1) mir small live wh field]
  define xs where "xs = map (inv field_value) (remdups ?ks)"
  have fv: "map field_value xs = remdups ?ks"
    unfolding xs_def map_map by (rule map_idI) (use groups(2) in \<open>auto simp: inv_f_f [OF field_value_inj]\<close>)
  have "field_value ` set xs = field_value ` {x. ?n x \<noteq> 0}" using arg_cong [OF fv, of set] groups(2) by simp
  then have xs: "set xs = {x. ?n x \<noteq> 0}" by (simp add: inj_image_eq_iff [OF field_value_inj])
  have "distinct (map field_value xs)" by (simp add: fv)
  then have "distinct xs" by (simp add: distinct_map)
  have by_field: "group_value fmt (ByField k) = (\<lambda>d. gm_get d k)" by (simp add: fun_eq_iff group_value_def)
  note \<open>distinct xs\<close>
  moreover have "group_rows fmt (ByField k) mid = map (\<lambda>v. group_row v (count_list ?ks v)) (map field_value xs)"
    using by_field unfolding fv by (simp only: group_rows_def Let_def)
  then have "group_rows fmt (ByField k) mid = map (\<lambda>x. group_row (field_value x) (?n x)) xs"
    by (simp only: map_map comp_def groups(1))
  then have "mset out = mset (map (\<lambda>x. group_row (field_value x) (?n x)) xs)" by (simp only: mid(2))
  moreover have "in_width w x \<and> int (?n x) < 2 ^ 63" if "x \<in> set xs" for x
    using that xs width groups(3) by (auto simp: filter_empty_conv)
  ultimately obtain rows where "decode_counts w out = Inr rows"
      "\<forall>x. at_key 0 (counts_map rows) x = (if x \<in> set xs then int (?n x) else 0)"
    using decode_group_rows [where n = ?n, OF _ _ _ w] by blast
  then show ?thesis using up xs by (simp add: mongo_key_counts_def)
qed

subsection \<open>Agreement\<close>

lemma base_filter_holds:
  "filter_holds rx (base_filter lo hi) d \<longleftrightarrow>
     doc_live d \<and> op_holds (OpGte (bdate lo)) (gm_get d ''created_at'') \<and> op_holds (OpLt (bdate hi)) (gm_get d ''created_at'')"
proof -
  have "''created_at'' \<notin> fst ` set not_deleted_filter" by (simp add: not_deleted_filter_def)
  then show ?thesis
    by (simp add: base_filter_def filter_holds_put filter_holds_not_deleted del: op_holds.simps)
qed

lemma field_filter_holds:
  assumes "k = ''room_id'' \<or> k = ''sender_id'' \<or> k = ''type''"
  shows "filter_holds rx (gm_put k x not_deleted_filter) d \<longleftrightarrow> doc_live d \<and> cond_holds rx d k x"
    and "filter_holds rx (gm_put k x (base_filter lo hi)) d \<longleftrightarrow> filter_holds rx (base_filter lo hi) d \<and> cond_holds rx d k x"
proof -
  have "k \<notin> fst ` set not_deleted_filter" "k \<noteq> ''$or''" using assms by (auto simp: not_deleted_filter_def)
  then show "filter_holds rx (gm_put k x not_deleted_filter) d \<longleftrightarrow> doc_live d \<and> cond_holds rx d k x"
    by (simp add: filter_holds_put filter_holds_not_deleted)
  have "k \<notin> fst ` set (base_filter lo hi)" "k \<noteq> ''$or''"
    using assms by (auto simp: base_filter_def not_deleted_filter_def)
  then show "filter_holds rx (gm_put k x (base_filter lo hi)) d \<longleftrightarrow> filter_holds rx (base_filter lo hi) d \<and> cond_holds rx d k x"
    by (rule filter_holds_put [rotated])
qed

lemma base_filter_doc:
  assumes "doc_ok m" and "lo mod 1000000 = 0" and "hi mod 1000000 = 0"
  shows "filter_holds rx (base_filter lo hi) (message_doc m) = created_in lo hi m"
  using doc_ok_live [OF assms(1)] doc_created [OF assms(1,2)] doc_created [OF assms(1,3)]
  by (simp add: base_filter_holds created_in_def del: op_holds.simps)

text \<open>The fields the statistics count by.\<close>

lemma message_field_value:
  "gm_get (message_doc m) ''room_id'' = field_value (m_room m)"
  "gm_get (message_doc m) ''sender_id'' = field_value (m_sender m)"
  "gm_get (message_doc m) ''type'' = field_value (m_type m)"
  by (simp_all add: message_doc_fields field_value_def)

lemma field_value_Is: "v \<noteq> 0 \<Longrightarrow> (field_value x = Some (BInt v)) = (x = v)"
  by (auto simp: field_value_def)

lemma field_value_In: "0 \<notin> set ids \<Longrightarrow> op_holds (OpIn (map BInt ids)) (field_value x) = (x \<in> set ids)"
  by (auto simp: field_value_def)

text \<open>Both servers answer by their laws and hold the same messages; MongoDB answers every count.\<close>

definition counts_up :: "'s collection \<Rightarrow> 's \<Rightarrow> bool" where
  "counts_up c s \<longleftrightarrow> (\<forall>f. \<exists>n. mc_count c f s = Inr n) \<and>
     (\<forall>f k. \<exists>out. mc_aggregate c [Match f, GroupCount (ByField k)] s = Inr out)"

definition same_messages ::
    "('s \<Rightarrow> message list) \<Rightarrow> ('s, message) table \<Rightarrow> 's \<Rightarrow> (string \<Rightarrow> string \<Rightarrow> bool) \<Rightarrow> (string \<Rightarrow> string \<Rightarrow> int \<Rightarrow> string) \<Rightarrow>
     ('m \<Rightarrow> doc list) \<Rightarrow> 'm collection \<Rightarrow> 'm \<Rightarrow> bool" where
  "same_messages rows t s rx fmt docs c s' \<longleftrightarrow>
     message_laws rows t \<and> collection_laws rx docs c \<and> stats_laws rx fmt docs c \<and> counts_up c s' \<and>
     mirrors (rows s) (docs s') \<and> int (length (rows s)) < 2 ^ 63"

text \<open>MongoDB answers, and when MySQL answers as well the two results are related.\<close>

definition same_result :: "('a \<Rightarrow> 'b \<Rightarrow> bool) \<Rightarrow> ('e + 'a) \<Rightarrow> ('f + 'b) \<Rightarrow> bool" where
  "same_result R a b \<longleftrightarrow> (\<exists>y. b = Inr y \<and> (\<forall>x. a = Inr x \<longrightarrow> R x y))"

definition same_counts :: "(int, int) gomap \<Rightarrow> (int, int) gomap \<Rightarrow> bool" where
  "same_counts m m' \<longleftrightarrow> (\<forall>k. at_key 0 m k = at_key 0 m' k)"

lemma counts_same:
  assumes same: "same_messages rows t s rx fmt docs c s'"
    and live: "\<And>d. filter_holds rx f d \<Longrightarrow> doc_live d"
    and wh: "\<And>m. m \<in> set (rows s) \<Longrightarrow> filter_holds rx f (message_doc m) = p m"
  shows "same_result (=) (sql_count t p s) (mongo_count c f s')"
proof -
  note same = same [unfolded same_messages_def counts_up_def]
  from same obtain k where k: "mc_count c f s' = Inr k" by blast
  have mir: "mirrors (rows s) (docs s')" using same by blast
  have "k = length (filter (filter_holds rx f) (docs s'))" using same collection_lawsD(2) [OF _ k] by blast
  also have "\<dots> = length (filter p (rows s))" by (rule count_docs [OF mir]) (erule live, erule wh)
  finally show ?thesis using k same by (auto simp: same_result_def mongo_count_def dest: sql_count_value)
qed

text \<open>The table that MongoDB makes of a group query.\<close>

definition table_of :: "(message \<Rightarrow> int) \<Rightarrow> (message \<Rightarrow> bool) \<Rightarrow> message list \<Rightarrow> 'e + (int, int) gomap \<Rightarrow> bool" where
  "table_of g p ms r \<longleftrightarrow> (\<exists>m. r = Inr m \<and> (\<forall>k. at_key 0 m k = int (length (filter (\<lambda>x. p x \<and> g x = k) ms))))"

lemma key_counts_value:
  assumes same: "same_messages rows t s rx fmt docs c s'"
    and live: "\<And>d. filter_holds rx f d \<Longrightarrow> doc_live d"
    and wh: "\<And>m. m \<in> set (rows s) \<Longrightarrow> filter_holds rx f (message_doc m) = p m"
    and field: "\<And>m. gm_get (message_doc m) k = field_value (g m)"
    and width: "\<And>m. doc_ok m \<Longrightarrow> in_width w (g m)" and w: "w > 0"
  shows "table_of g p (rows s) (map_sum id counts_map (mongo_key_counts c w [Match f, GroupCount (ByField k)] s'))"
proof -
  note same = same [unfolded same_messages_def counts_up_def]
  from same obtain out where out: "mc_aggregate c [Match f, GroupCount (ByField k)] s' = Inr out" by blast
  have stats: "stats_laws rx fmt docs c" and mir: "mirrors (rows s) (docs s')"
    and small: "int (length (rows s)) < 2 ^ 63" using same by blast+
  have "in_width w (g m)" if "m \<in> set (rows s)" for m using mir that width by (simp add: mirrors_def)
  with mongo_key_counts_value [where p = p and g = g, OF stats out mir small live wh field _ w]
  show ?thesis by (auto simp: table_of_def)
qed

lemma by_type_same:
  assumes same: "same_messages rows t s rx fmt docs c s'"
    and live: "\<And>d. filter_holds rx (base_filter lo hi) d \<Longrightarrow> doc_live d"
    and wh: "\<And>m. m \<in> set (rows s) \<Longrightarrow> filter_holds rx (base_filter lo hi) (message_doc m) = created_in lo hi m"
  shows "same_result same_counts (sql_by_type t lo hi s) (mongo_by_type c lo hi s')"
proof -
  have "table_of m_type (created_in lo hi) (rows s) (mongo_by_type c lo hi s')"
    unfolding mongo_by_type_def
    by (rule key_counts_value [OF same live wh]) (simp_all add: message_field_value doc_ok_def)
  moreover have "message_laws rows t" using same by (simp add: same_messages_def)
  ultimately show ?thesis
    using sql_rows_counts [of rows t "created_in lo hi" m_type s]
    by (auto simp: same_result_def same_counts_def table_of_def sql_by_type_def sql_named_def reserved_words_def)
qed

text \<open>A table by keys: MongoDB counts, MySQL refuses the query.\<close>

lemma sql_by_keys_refused: "ids \<noteq> [] \<Longrightarrow> sql_by_keys t g q ids s = Inl (SqlError (DbFailure ''syntax error''))"
  by (simp add: sql_by_keys_def sql_named_def reserved_words_def)

lemma by_keys_value:
  assumes same: "same_messages rows t s rx fmt docs c s'" and ids: "0 \<notin> set ids" "ids \<noteq> []"
    and live: "\<And>d. filter_holds rx f d \<Longrightarrow> doc_live d"
    and wh: "\<And>m. m \<in> set (rows s) \<Longrightarrow> filter_holds rx f (message_doc m) = p m"
    and put: "\<And>x d. filter_holds rx (gm_put k x f) d \<longleftrightarrow> filter_holds rx f d \<and> cond_holds rx d k x"
    and field: "\<And>m. gm_get (message_doc m) k = field_value (g m)"
    and width: "\<And>m. doc_ok m \<Longrightarrow> is_int64 (g m)"
  shows "table_of g (\<lambda>m. g m \<in> set ids \<and> p m) (rows s) (group_count_by_keys c f k ids s')"
proof -
  have "filter_holds rx (gm_put k (Ops [OpIn (map BInt ids)]) f) (message_doc m) = (g m \<in> set ids \<and> p m)"
    if "m \<in> set (rows s)" for m
    using wh [OF that] field_value_In [OF ids(1)] by (simp add: put field conj_commute del: op_holds.simps)
  from key_counts_value [OF same _ this field width] ids(2)
  show ?thesis using live by (simp add: put group_count_by_keys_def)
qed

text \<open>C16: How the figures of the administrators depend on the configured message store. When both stores hold the
  same messages, the numbers of messages of a period, of a type, of a sender and of a room (with non-zero
  ids, and bounds of whole milliseconds) come out of MongoDB without an error and equal to what MySQL
  answers. The tables of such numbers for a list of senders or of rooms come from MongoDB only, which counts
  exactly the messages of each of them; the queries for MySQL name a column \<open>key\<close>, a reserved word, and are
  refused.\<close>

theorem message_counts_agree:
  assumes same: "same_messages rows t s rx fmt docs c s'"
    and times: "lo mod 1000000 = 0" "hi mod 1000000 = 0"
    and ids: "user \<noteq> 0" "room \<noteq> 0" "0 \<notin> set users" "0 \<notin> set rooms" "users \<noteq> []" "rooms \<noteq> []"
  shows "let a = mysql_message_stats t rt like date_format arrange; b = mongo_message_stats c rt';
           refused = Inl (SqlError (DbFailure ''syntax error'')) in
    same_result (=) (ms_count a lo hi s) (ms_count b lo hi s') \<and>
    same_result same_counts (ms_by_type a lo hi s) (ms_by_type b lo hi s') \<and>
    same_result (=) (ms_by_sender a user s) (ms_by_sender b user s') \<and>
    same_result (=) (ms_by_room a room lo hi s) (ms_by_room b room lo hi s') \<and>
    same_result (=) (ms_by_room_total a room s) (ms_by_room_total b room s') \<and>
    table_of m_sender (\<lambda>m. m_sender m \<in> set users \<and> True) (rows s) (ms_by_senders b users s') \<and>
    table_of m_room (\<lambda>m. m_room m \<in> set rooms \<and> created_in lo hi m) (rows s) (ms_by_rooms b rooms lo hi s') \<and>
    table_of m_room (\<lambda>m. m_room m \<in> set rooms \<and> True) (rows s) (ms_by_rooms_total b rooms s') \<and>
    ms_by_senders a users s = refused \<and> ms_by_rooms a rooms lo hi s = refused \<and> ms_by_rooms_total a rooms s = refused"
proof -
  have ok: "doc_ok m" if "m \<in> set (rows s)" for m using same that by (simp add: same_messages_def mirrors_def)
  note live = doc_ok_live [OF ok] and base = base_filter_doc [OF ok times]
  note fields = message_field_value and widths = doc_ok_def
  note holds = field_filter_holds filter_holds_not_deleted
  have base_live: "filter_holds rx (base_filter lo hi) d \<Longrightarrow> doc_live d" for d by (simp add: base_filter_holds)
  show ?thesis
    unfolding Let_def mysql_message_stats_def mongo_message_stats_def message_stats.simps
    by (intro conjI counts_same [OF same] by_type_same [OF same] by_keys_value [OF same] sql_by_keys_refused)
       (simp_all add: live base base_live fields holds ids field_value_Is widths conj_commute)
qed

lemma demo_same_messages:
  "same_messages (\<lambda>s. s) list_messages [demo_whole 1 ''a'', demo_whole 2 ''b''] (\<lambda>_ _. True) (\<lambda>_ _ _. []) (\<lambda>s. s)
     (list_collection (\<lambda>_ _. True) (\<lambda>_ _ _. [])) [message_doc (demo_whole 2 ''b''), message_doc (demo_whole 1 ''a'')]"
  unfolding same_messages_def
  by (intro conjI list_messages_laws list_collection_laws list_collection_stats demo_mirrors)
     (simp_all add: counts_up_def list_collection_def)

lemma message_counts_agree_witness:
  "\<forall>rt rt' like date_format arrange.
     same_result (=)
       (ms_by_sender (mysql_message_stats list_messages rt like date_format arrange) 5 [demo_whole 1 ''a'', demo_whole 2 ''b''])
       (ms_by_sender (mongo_message_stats (list_collection (\<lambda>_ _. True) (\<lambda>_ _ _. [])) rt') 5
          [message_doc (demo_whole 2 ''b''), message_doc (demo_whole 1 ''a'')]) \<and>
     ms_by_senders (mysql_message_stats list_messages rt like date_format arrange) [5, 6] [demo_whole 1 ''a'', demo_whole 2 ''b''] =
       Inl (SqlError (DbFailure ''syntax error''))"
  using message_counts_agree [OF demo_same_messages, where lo = 0 and hi = 1000000 and user = 5 and room = 7 and users = "[5, 6]" and rooms = "[7]"]
  by (simp add: Let_def)

text \<open>The mentions of the assistant are an exception: the document of a deleted message is counted too.\<close>

lemma deleted_mentions_counted:
  assumes ok: "doc_ok m" "created_in lo hi m" and times: "lo mod 1000000 = 0" "hi mod 1000000 = 0"
    and content: "m_content m \<noteq> []" "rx ''@agent'' (m_content m)"
  shows "filter_holds rx (mentions_filter lo hi) (message_doc (m\<lparr>m_deleted := time_of_deletion\<rparr>))"
proof -
  have "m_created m \<noteq> zero_time" using ok(1) by (simp add: doc_ok_def)
  then show ?thesis
    using doc_created [OF ok(1) times(1)] doc_created [OF ok(1) times(2)] ok(2) content
    by (simp add: mentions_filter_def base_filter_def not_deleted_filter_def filter_holds_def created_in_def message_doc_fields
        del: op_holds.simps)
qed

end
