(* ===== verification/Search.thy ===== *)
theory Search
  imports ChatHistory Mongo
begin

section \<open>Message search (services/messages/search/elasticsearch.go, services/messages/api/search_handler.go)\<close>

text \<open>
  The Elasticsearch client with its start, the indexing of archived messages and the search, and the
  endpoint \<open>GET /api/v1/rooms/:id/messages/search\<close> with its fallback to the message store. The server is a
  record of functions over its own state: a request fails or has a response of a status and a body. The
  bodies are kept as data; \<open>json_time\<close> tells which times encoding/json can write (years 0 to 9999).
\<close>

subsection \<open>Documents and queries\<close>

record es_doc =
  ed_id :: int
  ed_room :: int
  ed_sender :: int
  ed_client :: string
  ed_type :: int
  ed_content :: string
  ed_created :: int
  ed_deleted :: nat

text \<open>A deletion time of 0 is left out of the document.\<close>

definition to_message_doc :: "message \<Rightarrow> es_doc" where
  "to_message_doc m =
     \<lparr>ed_id = m_id m, ed_room = m_room m, ed_sender = m_sender m, ed_client = m_client_id m, ed_type = m_type m,
      ed_content = m_content m, ed_created = m_created m, ed_deleted = (if 0 < m_deleted m then m_deleted m else 0)\<rparr>"

datatype es_clause =
    Term string int
  | MultiMatch string "string list" string
  | DateRange string "int option" "int option"
  | Exists string

record es_query =
  eq_must :: "es_clause list"
  eq_must_not :: "es_clause list"
  eq_from :: int
  eq_size :: int
  eq_sort :: "(string \<times> string) list"
  eq_highlight :: "(string \<times> int \<times> int) list"

type_synonym es_hit = "es_doc \<times> (string, string list) gomap"

text \<open>The mapping the index is created with: the type of each field.\<close>

definition message_index_mapping :: "(string \<times> string) list" where
  "message_index_mapping =
     [(''id'', ''long''), (''room_id'', ''long''), (''sender_id'', ''long''), (''client_msg_id'', ''keyword''),
      (''type'', ''byte''), (''content'', ''text''), (''created_at'', ''date''), (''deleted_at'', ''date'')]"

record es_config =
  cfg_address :: string
  cfg_username :: string
  cfg_password :: string

text \<open>A response: its status and its body, where a body that cannot be decoded is \<open>None\<close>.\<close>

record 'e es_client =
  es_ping :: "'e \<Rightarrow> string + int"
  es_exists :: "string \<Rightarrow> 'e \<Rightarrow> string + int"
  es_create :: "string \<Rightarrow> (string \<times> string) list \<Rightarrow> 'e \<Rightarrow> 'e \<times> (string + int)"
  es_bulk :: "string \<Rightarrow> (string \<times> es_doc) list \<Rightarrow> 'e \<Rightarrow> 'e \<times> (string + int)"
  es_search :: "string \<Rightarrow> es_query \<Rightarrow> 'e \<Rightarrow> string + int \<times> (int \<times> es_hit list) option"

datatype search_error = NotEnabled | EncodeFailed | Transport string | ErrorStatus int | DecodeFailed

text \<open>\<open>IsError\<close> of the client, and \<open>checkResponse\<close>.\<close>

definition is_error :: "int \<Rightarrow> bool" where
  "is_error status = (299 < status)"

definition check_response :: "(string + int) \<Rightarrow> search_error option" where
  "check_response r =
     (case r of
        Inl e \<Rightarrow> Some (Transport e)
      | Inr status \<Rightarrow> if is_error status then Some (ErrorStatus status) else None)"

subsection \<open>The package's state\<close>

record 'e search_module =
  sm_client :: "'e es_client option"
  sm_enabled :: bool
  sm_index :: string

definition new_search_module :: "'e search_module" where
  "new_search_module = \<lparr>sm_client = None, sm_enabled = False, sm_index = ''lan-im-messages''\<rparr>"

definition close_search :: "'e search_module \<Rightarrow> 'e search_module" where
  "close_search sm = sm\<lparr>sm_client := None, sm_enabled := False\<rparr>"

definition ensure_message_index :: "'e es_client \<Rightarrow> string \<Rightarrow> 'e \<Rightarrow> 'e \<times> search_error option" where
  "ensure_message_index c index e =
     (case es_exists c index e of
        Inl err \<Rightarrow> (e, Some (Transport err))
      | Inr status \<Rightarrow>
          if is_error status \<and> status \<noteq> 404 then (e, Some (ErrorStatus status))
          else if status = 200 then (e, None)
          else (case es_create c index message_index_mapping e of (e', r) \<Rightarrow> (e', check_response r)))"

text \<open>\<open>Init\<close>. \<open>getenv\<close> reads the environment (an unset variable is empty), \<open>connect\<close> makes the client.\<close>

definition init_search ::
    "(string \<Rightarrow> string) \<Rightarrow> (es_config \<Rightarrow> string + 'e es_client) \<Rightarrow> 'e search_module \<Rightarrow> 'e \<Rightarrow>
     ('e search_module \<times> 'e) \<times> search_error option" where
  "init_search getenv connect sm0 e =
     (let sm = sm0\<lparr>sm_enabled := fold_name (getenv ''ES_ENABLED'') = fold_name ''true''\<rparr>
      in if \<not> sm_enabled sm then ((sm, e), None)
         else
           let addr = (if getenv ''ES_ADDR'' = [] then ''http://127.0.0.1:9200'' else getenv ''ES_ADDR'');
               sm1 = (if getenv ''ES_INDEX_MESSAGES'' = [] then sm else sm\<lparr>sm_index := getenv ''ES_INDEX_MESSAGES''\<rparr>);
               user = getenv ''ES_USERNAME'';
               cfg = \<lparr>cfg_address = addr, cfg_username = user,
                      cfg_password = (if user = [] then [] else getenv ''ES_PASSWORD'')\<rparr>
           in case connect cfg of
                Inl err \<Rightarrow> ((sm1, e), Some (Transport err))
              | Inr c \<Rightarrow>
                  (let sm2 = sm1\<lparr>sm_client := Some c\<rparr>
                   in case check_response (es_ping c e) of
                        Some err \<Rightarrow> ((sm2, e), Some err)
                      | None \<Rightarrow> (case ensure_message_index c (sm_index sm2) e of (e', r) \<Rightarrow> ((sm2, e'), r))))"

subsection \<open>Indexing\<close>

definition index_id :: "message \<Rightarrow> string" where
  "index_id m = (if m_client_id m = [] then format_int (m_id m) else m_client_id m)"

fun index_body :: "(int \<Rightarrow> bool) \<Rightarrow> message option list \<Rightarrow> (string \<times> es_doc) list option" where
  "index_body json_time [] = Some []"
| "index_body json_time (None # ms) = index_body json_time ms"
| "index_body json_time (Some m # ms) =
     (if json_time (m_created m)
      then map_option (\<lambda>body. (index_id m, to_message_doc m) # body) (index_body json_time ms) else None)"

definition index_messages ::
    "(int \<Rightarrow> bool) \<Rightarrow> 'e search_module \<Rightarrow> message option list \<Rightarrow> 'e \<Rightarrow> 'e \<times> search_error option" where
  "index_messages json_time sm msgs e =
     (case sm_client sm of
        None \<Rightarrow> (e, None)
      | Some c \<Rightarrow>
          if \<not> sm_enabled sm \<or> msgs = [] then (e, None)
          else
            (case index_body json_time msgs of
               None \<Rightarrow> (e, Some EncodeFailed)
             | Some body \<Rightarrow> (case es_bulk c (sm_index sm) body e of (e', r) \<Rightarrow> (e', check_response r))))"

subsection \<open>Searching\<close>

record es_params =
  ep_query :: string
  ep_sender :: int
  ep_start :: int
  ep_end :: int
  ep_from :: int
  ep_size :: int

record message_hit =
  mh_id :: int
  mh_room :: int
  mh_sender :: int
  mh_client :: string
  mh_type :: int
  mh_content :: string
  mh_created :: int
  mh_highlight :: "string list"

record search_result =
  sr_total :: int
  sr_hits :: "message_hit list"

definition search_must :: "int \<Rightarrow> es_params \<Rightarrow> es_clause list" where
  "search_must roomID p =
     [Term ''room_id'' roomID] @
     (if trim_space (ep_query p) \<noteq> [] then [MultiMatch (ep_query p) [''content''] ''best_fields''] else []) @
     (if 0 < ep_sender p then [Term ''sender_id'' (ep_sender p)] else []) @
     (if ep_start p \<noteq> zero_time \<or> ep_end p \<noteq> zero_time
      then [DateRange ''created_at'' (if ep_start p \<noteq> zero_time then Some (ep_start p) else None)
              (if ep_end p \<noteq> zero_time then Some (ep_end p) else None)]
      else [])"

definition search_query :: "int \<Rightarrow> es_params \<Rightarrow> es_query" where
  "search_query roomID p =
     \<lparr>eq_must = search_must roomID p, eq_must_not = [Exists ''deleted_at''], eq_from = ep_from p,
      eq_size = (let size = (if ep_size p \<le> 0 then 20 else ep_size p) in if 100 < size then 100 else size),
      eq_sort = [(''created_at'', ''desc''), (''id'', ''desc'')], eq_highlight = [(''content'', 150, 1)]\<rparr>"

text \<open>The times of the query are the only values of it that may not be encodable.\<close>

definition encodable :: "(int \<Rightarrow> bool) \<Rightarrow> es_params \<Rightarrow> bool" where
  "encodable json_time p \<longleftrightarrow> (\<forall>t \<in> {ep_start p, ep_end p}. t \<noteq> zero_time \<longrightarrow> json_time t)"

definition hit_of :: "es_hit \<Rightarrow> message_hit" where
  "hit_of h =
     (case h of (d, hl) \<Rightarrow>
        \<lparr>mh_id = ed_id d, mh_room = ed_room d, mh_sender = ed_sender d, mh_client = ed_client d, mh_type = ed_type d,
         mh_content = ed_content d, mh_created = ed_created d,
         mh_highlight = (case gm_get hl ''content'' of None \<Rightarrow> [] | Some xs \<Rightarrow> xs)\<rparr>)"

definition es_search_messages ::
    "(int \<Rightarrow> bool) \<Rightarrow> 'e search_module \<Rightarrow> int \<Rightarrow> es_params \<Rightarrow> 'e \<Rightarrow> search_error + search_result" where
  "es_search_messages json_time sm roomID p e =
     (case sm_client sm of
        None \<Rightarrow> Inl NotEnabled
      | Some c \<Rightarrow>
          if \<not> sm_enabled sm then Inl NotEnabled
          else if \<not> encodable json_time p then Inl EncodeFailed
          else
            (case es_search c (sm_index sm) (search_query roomID p) e of
               Inl err \<Rightarrow> Inl (Transport err)
             | Inr (status, body) \<Rightarrow>
                 if is_error status then Inl (ErrorStatus status)
                 else (case body of
                         None \<Rightarrow> Inl DecodeFailed
                       | Some (n, hits) \<Rightarrow> Inr \<lparr>sr_total = n, sr_hits = map hit_of hits\<rparr>)))"

subsection \<open>The endpoint\<close>

datatype search_refusal = BadRoomId | MembershipRequired | QueryRequired | SearchFailed

text \<open>Absent query parameters are empty to \<open>Query\<close>; a number that cannot be parsed counts as what ParseInt gives.\<close>

definition query_text :: "string option \<Rightarrow> string" where
  "query_text v = (case v of None \<Rightarrow> [] | Some x \<Rightarrow> x)"

definition query_time :: "string option \<Rightarrow> int" where
  "query_time v =
     (if query_text v = [] then zero_time
      else (case parse_ok (query_text v) of None \<Rightarrow> zero_time | Some ms \<Rightarrow> of_unix_milli ms))"

definition search_request :: "(string \<Rightarrow> string option) \<Rightarrow> es_params" where
  "search_request q =
     (let size = query_int ''20'' (q ''size'');
          capped = (if 100 < size then 100 else size)
      in \<lparr>ep_query = trim_space (query_text (q ''q'')),
          ep_sender = (if query_text (q ''sender_id'') = [] then 0 else fst (parse_int (query_text (q ''sender_id'')))),
          ep_start = query_time (q ''start''), ep_end = query_time (q ''end''),
          ep_from = (let from_row = query_int ''0'' (q ''from'') in if from_row < 0 then 0 else from_row),
          ep_size = (if capped \<le> 0 then 20 else capped)\<rparr>)"

definition store_params :: "int \<Rightarrow> es_params \<Rightarrow> search_params" where
  "store_params roomID p =
     \<lparr>sp_room = roomID, sp_keyword = ep_query p, sp_sender = ep_sender p, sp_start = ep_start p, sp_end = ep_end p,
      sp_offset = ep_from p, sp_limit = ep_size p\<rparr>"

definition hit_of_message :: "message \<Rightarrow> message_hit" where
  "hit_of_message m =
     \<lparr>mh_id = m_id m, mh_room = m_room m, mh_sender = m_sender m, mh_client = m_client_id m, mh_type = m_type m,
      mh_content = m_content m, mh_created = m_created m, mh_highlight = []\<rparr>"

text \<open>\<open>in_store\<close> is the \<open>SearchMessages\<close> of the message repository that is installed.\<close>

definition search_handler ::
    "'s db \<Rightarrow> (search_params \<Rightarrow> 's \<Rightarrow> 'err + message list \<times> nat) \<Rightarrow> (int \<Rightarrow> bool) \<Rightarrow> 'e search_module \<Rightarrow>
     string \<Rightarrow> int \<Rightarrow> (string \<Rightarrow> string option) \<Rightarrow> 's \<Rightarrow> 'e \<Rightarrow> int \<times> (search_refusal + search_result)" where
  "search_handler d in_store json_time sm idStr userID q s e =
     (case parse_ok idStr of
        None \<Rightarrow> (400, Inl BadRoomId)
      | Some roomID \<Rightarrow>
          if check_is_member d roomID userID s \<noteq> Inr True then (403, Inl MembershipRequired)
          else if trim_space (query_text (q ''q'')) = [] then (400, Inl QueryRequired)
          else
            (let p = search_request q;
                 fallback = (case in_store (store_params roomID p) s of
                               Inl _ \<Rightarrow> (500, Inl SearchFailed)
                             | Inr (ms, n) \<Rightarrow> (200, Inr \<lparr>sr_total = int n, sr_hits = map hit_of_message ms\<rparr>))
             in if sm_enabled sm
                then (case es_search_messages json_time sm roomID p e of
                        Inr res \<Rightarrow> if 0 < sr_total res then (200, Inr res) else fallback
                      | Inl _ \<Rightarrow> fallback)
                else fallback))"

subsection \<open>What Elasticsearch promises\<close>

text \<open>
  \<open>docs\<close> are the documents the index shows to searches, by their ids. \<open>matches\<close> is the full-text match of the
  analyzer. Dates are compared in milliseconds. The total is exact up to 10000.
\<close>

fun clause_holds :: "(string \<Rightarrow> string \<Rightarrow> bool) \<Rightarrow> es_clause \<Rightarrow> es_doc \<Rightarrow> bool" where
  "clause_holds matches (Term k v) d \<longleftrightarrow> (k = ''room_id'' \<and> ed_room d = v) \<or> (k = ''sender_id'' \<and> ed_sender d = v)"
| "clause_holds matches (MultiMatch q ks _) d \<longleftrightarrow> ''content'' \<in> set ks \<and> matches q (ed_content d)"
| "clause_holds matches (DateRange k lo hi) d \<longleftrightarrow>
     k = ''created_at'' \<and> (\<forall>t. lo = Some t \<longrightarrow> unix_milli t \<le> unix_milli (ed_created d)) \<and>
     (\<forall>t. hi = Some t \<longrightarrow> unix_milli (ed_created d) < unix_milli t)"
| "clause_holds matches (Exists k) d \<longleftrightarrow> k = ''deleted_at'' \<and> ed_deleted d \<noteq> 0"

definition query_holds :: "(string \<Rightarrow> string \<Rightarrow> bool) \<Rightarrow> es_query \<Rightarrow> es_doc \<Rightarrow> bool" where
  "query_holds matches q d \<longleftrightarrow>
     (\<forall>cl \<in> set (eq_must q). clause_holds matches cl d) \<and> (\<forall>cl \<in> set (eq_must_not q). \<not> clause_holds matches cl d)"

definition doc_key :: "es_doc \<Rightarrow> int \<times> int" where
  "doc_key d = (unix_milli (ed_created d), ed_id d)"

definition put_docs :: "(string \<times> es_doc) list \<Rightarrow> (string, es_doc) gomap \<Rightarrow> (string, es_doc) gomap" where
  "put_docs body docs = fold (\<lambda>(i, d). gm_put i d) body docs"

definition es_laws :: "(string \<Rightarrow> string \<Rightarrow> bool) \<Rightarrow> ('e \<Rightarrow> (string, es_doc) gomap) \<Rightarrow> 'e es_client \<Rightarrow> bool" where
  "es_laws matches docs c \<longleftrightarrow>
     (\<forall>i q e status n hits. es_search c i q e = Inr (status, Some (n, hits)) \<longrightarrow> \<not> is_error status \<longrightarrow>
        (\<exists>xs. mset xs = mset (filter (query_holds matches q) (map snd (docs e))) \<and>
              sorted_wrt (\<lambda>a b. doc_key b \<le> doc_key a) xs \<and>
              map fst hits = take (nat (eq_size q)) (drop (nat (eq_from q)) xs) \<and>
              n = int (min (length xs) 10000)))"

subsection \<open>What a search shows\<close>

definition hit_ok :: "int \<Rightarrow> es_params \<Rightarrow> message_hit \<Rightarrow> bool" where
  "hit_ok roomID p h \<longleftrightarrow> mh_room h = roomID \<and> (0 < ep_sender p \<longrightarrow> mh_sender h = ep_sender p) \<and>
     (ep_start p \<noteq> zero_time \<longrightarrow> ep_start p \<le> mh_created h) \<and> (ep_end p \<noteq> zero_time \<longrightarrow> mh_created h < ep_end p)"

definition result_ok :: "int \<Rightarrow> es_params \<Rightarrow> search_result \<Rightarrow> bool" where
  "result_ok roomID p res \<longleftrightarrow> (\<forall>h \<in> set (sr_hits res). hit_ok roomID p h) \<and> int (length (sr_hits res)) \<le> ep_size p \<and>
     sorted_wrt (\<lambda>a b. unix_milli (mh_created b) \<le> unix_milli (mh_created a)) (sr_hits res)"

lemma search_request_bounds:
  "0 < ep_size (search_request q) \<and> ep_size (search_request q) \<le> 100 \<and> 0 \<le> ep_from (search_request q)"
  by (simp add: search_request_def Let_def)

lemma of_unix_milli_le: "unix_milli (of_unix_milli ms) \<le> unix_milli t \<longleftrightarrow> of_unix_milli ms \<le> t"
  "unix_milli t < unix_milli (of_unix_milli ms) \<longleftrightarrow> t < of_unix_milli ms"
  by (auto simp: unix_milli_def of_unix_milli_def)

lemma query_time_cases: "query_time v = zero_time \<or> (\<exists>ms. query_time v = of_unix_milli ms)"
  by (auto simp: query_time_def split: option.split)

lemma query_doc_ok:
  assumes "query_holds matches (search_query roomID (search_request q)) (fst h)"
  shows "hit_ok roomID (search_request q) (hit_of h)"
proof -
  let ?p = "search_request q"
  have must: "\<forall>cl \<in> set (search_must roomID ?p). clause_holds matches cl (fst h)"
    using assms by (simp add: query_holds_def search_query_def)
  have "ep_start ?p = query_time (q ''start'')" "ep_end ?p = query_time (q ''end'')"
    by (simp_all add: search_request_def Let_def)
  then have "(ep_start ?p \<noteq> zero_time \<longrightarrow> ep_start ?p \<le> ed_created (fst h)) \<and> (ep_end ?p \<noteq> zero_time \<longrightarrow> ed_created (fst h) < ep_end ?p)"
    using must query_time_cases [of "q ''start''"] query_time_cases [of "q ''end''"]
    by (auto simp: search_must_def of_unix_milli_le)
  moreover have "ed_room (fst h) = roomID \<and> (0 < ep_sender ?p \<longrightarrow> ed_sender (fst h) = ep_sender ?p)"
    using must by (auto simp: search_must_def)
  ultimately show ?thesis by (cases h) (simp add: hit_ok_def hit_of_def)
qed

lemma es_result_ok:
  assumes laws: "\<forall>c. sm_client sm = Some c \<longrightarrow> es_laws matches docs c"
    and run: "es_search_messages json_time sm roomID (search_request q) e = Inr res"
  shows "result_ok roomID (search_request q) res"
proof -
  let ?p = "search_request q"
  let ?q = "search_query roomID ?p"
  from run obtain c status n hits where
    c: "sm_client sm = Some c" "es_search c (sm_index sm) ?q e = Inr (status, Some (n, hits))" "\<not> is_error status"
    and res: "res = \<lparr>sr_total = n, sr_hits = map hit_of hits\<rparr>"
    by (auto simp: es_search_messages_def split: option.splits sum.splits if_splits prod.splits)
  from laws c obtain xs where xs: "mset xs = mset (filter (query_holds matches ?q) (map snd (docs e)))"
    "sorted_wrt (\<lambda>a b. doc_key b \<le> doc_key a) xs" "map fst hits = take (nat (eq_size ?q)) (drop (nat (eq_from ?q)) xs)"
    unfolding es_laws_def by blast
  have "set (map fst hits) \<subseteq> set xs" unfolding xs(3) by (meson order_trans set_drop_subset set_take_subset)
  moreover have "\<forall>d \<in> set xs. query_holds matches ?q d" using mset_eq_setD [OF xs(1)] by auto
  ultimately have "\<forall>h \<in> set hits. query_holds matches ?q (fst h)" by auto
  then have "\<forall>h \<in> set (sr_hits res). hit_ok roomID ?p h" using query_doc_ok by (auto simp: res)
  moreover have "length hits = length (take (nat (eq_size ?q)) (drop (nat (eq_from ?q)) xs))" using arg_cong [OF xs(3), of length] by simp
  then have "int (length hits) \<le> ep_size ?p" using search_request_bounds [of q] by (simp add: search_query_def Let_def min_def split: if_splits)
  moreover have "sorted_wrt (\<lambda>a b. doc_key b \<le> doc_key a) (map fst hits)"
    unfolding xs(3) by (intro sorted_wrt_take sorted_wrt_drop xs(2))
  then have "sorted_wrt (\<lambda>a b. doc_key (fst b) \<le> doc_key (fst a)) hits" by (simp add: sorted_wrt_map)
  then have "sorted_wrt (\<lambda>a b. unix_milli (mh_created (hit_of b)) \<le> unix_milli (mh_created (hit_of a))) hits"
    by (rule sorted_wrt_mono_rel [rotated]) (auto simp: doc_key_def hit_of_def split: prod.splits)
  ultimately show ?thesis by (simp add: result_ok_def res sorted_wrt_map)
qed

lemma store_result_ok:
  assumes laws: "message_laws rows t"
    and run: "search_messages locate t (store_params roomID (search_request q)) s = Inr (ms, n)"
  shows "result_ok roomID (search_request q) \<lparr>sr_total = int n, sr_hits = map hit_of_message ms\<rparr>"
proof -
  let ?p = "search_request q"
  let ?sp = "store_params roomID ?p"
  from run have "t_find t \<lparr>q_where = search_where locate ?sp, q_order = (\<lambda>a b. hist_key b \<le> hist_key a),
      q_offset = nat (ep_from ?p), q_limit = Some (nat (ep_size ?p))\<rparr> s = Inr ms"
    using search_request_bounds [of q] by (simp add: search_messages_def store_params_def split: sum.splits)
  from table_lawsD(1) [OF laws [unfolded message_laws_def] this] obtain xs where
    xs: "mset xs = mset (filter (search_where locate ?sp) (rows s))" "sorted_wrt (\<lambda>a b. hist_key b \<le> hist_key a) xs"
      "ms = take (nat (ep_size ?p)) (drop (nat (ep_from ?p)) xs)" by (auto simp: answers_def page_def)
  have "set ms \<subseteq> set xs" unfolding xs(3) by (meson order_trans set_drop_subset set_take_subset)
  then have "\<forall>m \<in> set ms. search_where locate ?sp m" using mset_eq_setD [OF xs(1)] by auto
  then have "\<forall>m \<in> set ms. hit_ok roomID ?p (hit_of_message m)"
    by (auto simp: search_where_def hit_ok_def hit_of_message_def store_params_def)
  moreover have "int (length ms) \<le> ep_size ?p" using search_request_bounds [of q] unfolding xs(3) by (simp add: min_def) linarith
  moreover have "sorted_wrt (\<lambda>a b. hist_key b \<le> hist_key a) ms" unfolding xs(3) by (intro sorted_wrt_take sorted_wrt_drop xs(2))
  then have "sorted_wrt (\<lambda>a b. unix_milli (mh_created (hit_of_message b)) \<le> unix_milli (mh_created (hit_of_message a))) ms"
    by (rule sorted_wrt_mono_rel [rotated]) (auto simp: hist_key_def hit_of_message_def unix_milli_def zdiv_mono1)
  ultimately show ?thesis by (simp add: result_ok_def sorted_wrt_map)
qed

subsection \<open>An index that satisfies the laws\<close>

definition list_index :: "(string \<Rightarrow> string \<Rightarrow> bool) \<Rightarrow> (string, es_doc) gomap es_client" where
  "list_index matches =
     \<lparr>es_ping = (\<lambda>_. Inr 200), es_exists = (\<lambda>_ _. Inr 200), es_create = (\<lambda>_ _ e. (e, Inr 200)),
      es_bulk = (\<lambda>_ body e. (put_docs body e, Inr 200)),
      es_search = (\<lambda>_ q e.
        let xs = sort_by (\<lambda>a b. doc_key b \<le> doc_key a) (filter (query_holds matches q) (map snd e))
        in Inr (200, Some (int (min (length xs) 10000),
                           map (\<lambda>d. (d, [])) (take (nat (eq_size q)) (drop (nat (eq_from q)) xs)))))\<rparr>"

lemma list_index_laws: "es_laws matches (\<lambda>e. e) (list_index matches)"
proof -
  let ?le = "\<lambda>a b. doc_key b \<le> doc_key a"
  have "\<exists>xs. mset xs = mset (filter (query_holds matches q) (map snd e)) \<and> sorted_wrt ?le xs \<and>
      map fst hits = take (nat (eq_size q)) (drop (nat (eq_from q)) xs) \<and> n = int (min (length xs) 10000)"
    if "es_search (list_index matches) i q e = Inr (status, Some (n, hits))" for i q e status n hits
    using that sorted_sort_by [of ?le]
    by (intro exI [of _ "sort_by ?le (filter (query_holds matches q) (map snd e))"])
       (auto simp: list_index_def Let_def mset_sort_by comp_def)
  then show ?thesis unfolding es_laws_def by blast
qed

subsection \<open>What is indexed\<close>

text \<open>Every message of a batch has one entry, under its id; storing a batch again changes nothing.\<close>

lemma index_body_entries:
  "index_body json_time msgs = Some body \<Longrightarrow>
     body = map (\<lambda>m. (index_id m, to_message_doc m)) (List.map_filter id msgs)"
  by (induction json_time msgs arbitrary: body rule: index_body.induct)
     (auto simp: List.map_filter_simps split: if_splits)

lemma index_body_encodes:
  "(\<exists>body. index_body json_time msgs = Some body) \<longleftrightarrow> (\<forall>m. Some m \<in> set msgs \<longrightarrow> json_time (m_created m))"
  by (induction json_time msgs rule: index_body.induct) auto

lemma put_docs_get: "gm_get (put_docs body docs) = gm_get docs ++ map_of (rev body)"
  unfolding put_docs_def
  by (induction body arbitrary: docs) (auto simp: gm_get_put fun_eq_iff map_add_def split: option.splits)

lemma put_docs_again: "gm_get (put_docs body (put_docs body docs)) = gm_get (put_docs body docs)"
  by (simp add: put_docs_get map_add_def fun_eq_iff split: option.splits)

text \<open>A search without a client, or while the search is switched off, is an error, never an empty result.\<close>

lemma search_needs_client:
  "sm_client sm = None \<or> \<not> sm_enabled sm \<Longrightarrow> es_search_messages json_time sm r p e = Inl NotEnabled"
  by (auto simp: es_search_messages_def split: option.split)

lemma init_search_disabled:
  "fold_name (getenv ''ES_ENABLED'') \<noteq> fold_name ''true'' \<Longrightarrow>
     init_search getenv connect new_search_module e = ((new_search_module, e), None)"
  by (simp add: init_search_def new_search_module_def Let_def del: fold_name.simps)

lemma init_search_ready:
  assumes "init_search getenv connect sm e = ((sm', e'), None)" and "sm_enabled sm'"
  shows "\<exists>c. sm_client sm' = Some c"
  using assms by (auto simp: init_search_def Let_def simp del: fold_name.simps split: if_splits sum.splits option.splits prod.splits)

subsection \<open>The endpoint shows members their own room only\<close>

text \<open>C12: Only members search a room and see only that room: the search endpoint answers with messages only if
  the id is well formed and the user is a member of the room; whichever of Elasticsearch and the message store
  has served the page, all its messages are of this room and of the asked sender and period, there are no
  more than were asked for, and they are sorted from the newest. A user who is not a member is refused.\<close>

theorem search_shows_own_room:
  assumes es: "\<forall>c. sm_client sm = Some c \<longrightarrow> es_laws matches docs c" and tab: "message_laws rows t"
    and run: "search_handler d (search_messages locate t) json_time sm idStr userID q s e = (code, body)"
  shows "(case body of
       Inl r \<Rightarrow> code \<in> {400, 403, 500}
     | Inr res \<Rightarrow> code = 200 \<and> (\<exists>roomID. parse_ok idStr = Some roomID \<and> check_is_member d roomID userID s = Inr True \<and>
         result_ok roomID (search_request q) res)) \<and>
    (\<forall>roomID. parse_ok idStr = Some roomID \<longrightarrow> check_is_member d roomID userID s \<noteq> Inr True \<longrightarrow>
       (code, body) = (403, Inl MembershipRequired))"
proof (cases "\<exists>roomID. parse_ok idStr = Some roomID \<and> check_is_member d roomID userID s = Inr True \<and> trim_space (query_text (q ''q'')) \<noteq> []")
  case False
  then show ?thesis using run by (auto simp: search_handler_def split: option.splits if_splits)
next
  case True
  then obtain roomID where id: "parse_ok idStr = Some roomID" "check_is_member d roomID userID s = Inr True"
    "trim_space (query_text (q ''q'')) \<noteq> []" by blast
  let ?p = "search_request q"
  have stored: "search_messages locate t (store_params roomID ?p) s = Inr (ms, n) \<Longrightarrow>
      result_ok roomID ?p \<lparr>sr_total = int n, sr_hits = map hit_of_message ms\<rparr>" for ms n
    by (rule store_result_ok [OF tab])
  have found: "es_search_messages json_time sm roomID ?p e = Inr res \<Longrightarrow> result_ok roomID ?p res" for res
    by (rule es_result_ok [OF es])
  show ?thesis
    using run id
    by (simp add: search_handler_def Let_def) (auto intro: stored found split: if_splits sum.splits prod.splits)
qed

definition demo_found :: message where
  "demo_found = \<lparr>m_id = 3, m_room = 7, m_sender = 2, m_client_id = ''c'', m_type = 1, m_content = ''hi'',
     m_created = 5000000, m_deleted = 0\<rparr>"

definition demo_search_module :: "(string, es_doc) gomap search_module" where
  "demo_search_module = \<lparr>sm_client = Some (list_index (\<lambda>_ _. True)), sm_enabled = True, sm_index = ''lan-im-messages''\<rparr>"

lemma search_shows_own_room_witness:
  "case search_handler sample_db (search_messages (\<lambda>_ _. True) sample_messages) (\<lambda>_. True) demo_search_module ''7'' 1
          [''q'' \<mapsto> ''hi''] demo_chat [(''c'', to_message_doc demo_found)] of
     (code, body) \<Rightarrow> (case body of Inl r \<Rightarrow> code \<in> {400, 403, 500} | Inr res \<Rightarrow> code = 200)"
  using search_shows_own_room [where sm = demo_search_module and matches = "\<lambda>_ _. True" and docs = "\<lambda>e. e",
      OF _ sample_messages_laws surjective_pairing, of sample_db "\<lambda>_ _. True" "\<lambda>_. True" "''7''" 1 "[''q'' \<mapsto> ''hi'']" demo_chat
        "[(''c'', to_message_doc demo_found)]"] list_index_laws
  by (simp add: demo_search_module_def case_prod_unfold split: sum.splits)

end
