(* ===== verification/Gateway.thy ===== *)
theory Gateway
  imports RoomApi WsEndpoint Search FileProps Auth
begin

section \<open>The HTTP gateway (services/gateway/http/router.go)\<close>

text \<open>
  The router the main process serves: two public routes, the routes behind the authentication middleware, which
  the modules of messages and rooms mount themselves, and the pages of the front end. A request is matched
  against the table of routes, passes the middleware of its group, and is handed to the handler of its
  component. Which route a path matches is gin's business: \<open>pick\<close> names the position in the table and the
  path parameters. CORS headers and metrics leave the reply alone; the error recorder is AdminLogs.thy.
\<close>

subsection \<open>Routes\<close>

datatype route_target =
    RegisterRoute | LoginRoute
  | WsRoute
  | HistoryRoute | SearchRoute | PreSignRoute | CompleteRoute | DownloadByIdRoute | DownloadByKeyRoute
  | CreateRoomRoute | SearchRoomsRoute | MyRoomsRoute | JoinRoute | MembersRoute | RemoveRoute | DisbandRoute
  | AssetsRoute | IndexRoute

type_synonym route = "string \<times> string \<times> route_target"

definition message_routes :: "route list" where
  "message_routes =
     [(''GET'', ''/rooms/:id/messages'', HistoryRoute),
      (''GET'', ''/rooms/:id/messages/search'', SearchRoute),
      (''POST'', ''/files/presign'', PreSignRoute),
      (''POST'', ''/files/complete'', CompleteRoute),
      (''GET'', ''/files/:id/download'', DownloadByIdRoute),
      (''GET'', ''/download/*filepath'', DownloadByKeyRoute)]"

definition room_routes :: "route list" where
  "room_routes =
     [(''POST'', ''/rooms'', CreateRoomRoute),
      (''GET'', ''/rooms'', SearchRoomsRoute),
      (''GET'', ''/my_rooms'', MyRoomsRoute),
      (''POST'', ''/rooms/:id/join'', JoinRoute),
      (''GET'', ''/rooms/:id/members'', MembersRoute),
      (''DELETE'', ''/rooms/:id/members/:user_id'', RemoveRoute),
      (''DELETE'', ''/rooms/:id/disband'', DisbandRoute)]"

text \<open>A group: its prefix, whether the authentication middleware stands before it, and its routes.\<close>

definition in_group :: "string \<Rightarrow> bool \<Rightarrow> route list \<Rightarrow> (bool \<times> route) list" where
  "in_group prefix auth rs = map (\<lambda>(m, p, t). (auth, m, prefix @ p, t)) rs"

definition gateway_routes :: "(bool \<times> route) list" where
  "gateway_routes =
     in_group ''/api/v1'' False [(''POST'', ''/register'', RegisterRoute), (''POST'', ''/login'', LoginRoute)] @
     in_group ''/api/v1'' True ([(''GET'', ''/ws'', WsRoute)] @ message_routes @ room_routes) @
     in_group [] False [(''GET'', ''/assets/*filepath'', AssetsRoute), (''HEAD'', ''/assets/*filepath'', AssetsRoute),
                        (''GET'', ''/'', IndexRoute)]"

datatype route_match = RouteFound nat "string \<Rightarrow> string" | SlashRedirect | RouteMissing

subsection \<open>The server\<close>

record ('s, 'o, 'r, 'e) gateway =
  gw_db :: "'s db"
  gw_messages :: "('s, message) table"
  gw_files :: "('s, file_record) table"
  gw_storage :: "'o storage"
  gw_redis :: "'r redis"
  gw_search :: "'e search_module"
  gw_jwt :: jwt
  gw_env :: environment
  gw_parse_time :: time_parse
  gw_json_time :: "int \<Rightarrow> bool"
  gw_locate :: "string \<Rightarrow> string \<Rightarrow> bool"
  gw_lower :: "string \<Rightarrow> string"
  gw_matches :: "string \<Rightarrow> string \<Rightarrow> bool"
  gw_hash :: "string \<Rightarrow> string option"
  gw_node :: string
  gw_mongo :: bool
  gw_frontend :: string

record ('s, 'o, 'r, 'e) world =
  w_db :: 's
  w_hub :: hub
  w_objects :: 'o
  w_redis :: 'r
  w_index :: 'e
  w_protector :: protector

text \<open>A request; \<open>hq_login\<close> and \<open>hq_ws\<close> are what the login and the upgrade meet, \<open>hq_client\<close> is the address of a new
  connection.\<close>

record http_request =
  hq_method :: string
  hq_path :: string
  hq_authorization :: string
  hq_query :: "string \<Rightarrow> string option"
  hq_body :: string
  hq_now :: int
  hq_login :: login_env
  hq_ws :: ws_request
  hq_client :: cid

datatype response =
    AuthReply "auth_error reply"
  | LoginReply "(login_error + logged_in) reply"
  | RegisterReply "register_reply reply"
  | WsReply ws_result
  | HistoryReply history_reply "message list option"
  | SearchReply "int \<times> (search_refusal + search_result)"
  | FileReply "file_body reply"
  | RoomReply room_http
  | Page string
  | Redirected

subsection \<open>The handlers behind the authentication\<close>

definition room_changed ::
    "('s, 'o, 'r, 'e) world \<Rightarrow> ('s \<times> hub) \<times> room_http \<Rightarrow> ('s, 'o, 'r, 'e) world \<times> response" where
  "room_changed w r = (case r of ((s', h'), reply) \<Rightarrow> (w\<lparr>w_db := s', w_hub := h'\<rparr>, RoomReply reply))"

definition frontend_dir :: "('s, 'o, 'r, 'e) gateway \<Rightarrow> string" where
  "frontend_dir g = (if gw_frontend g = [] then ''./frontend/dist'' else gw_frontend g)"

text \<open>The remaining targets are not mounted in this group.\<close>

fun serve_authorized ::
    "('s, 'o, 'r, 'e) gateway \<Rightarrow> identity \<Rightarrow> route_target \<Rightarrow> (string \<Rightarrow> string) \<Rightarrow> http_request \<Rightarrow> ('s, 'o, 'r, 'e) world \<Rightarrow>
     ('s, 'o, 'r, 'e) world \<times> response" where
  "serve_authorized g c WsRoute params q w =
     (case ws_open (gw_db g) (gw_redis g) (gw_node g) ((hq_ws q)\<lparr>wr_identity := c\<rparr>) (hq_client q) (w_db w) (w_hub w, w_redis w) of
        ((h', r'), res) \<Rightarrow> (w\<lparr>w_hub := h', w_redis := r'\<rparr>, WsReply res))"
| "serve_authorized g c HistoryRoute params q w =
     (case get_chat_history (gw_db g) (gw_messages g) (gw_redis g) (gw_parse_time g) (hq_now q) (gw_mongo g) (params ''id'')
             (ctx_user c) (hq_query q ''cursor'') (hq_query q ''limit'') (w_db w) (w_redis w) of
        (reply, job) \<Rightarrow> (w, HistoryReply reply job))"
| "serve_authorized g c SearchRoute params q w =
     (w, SearchReply (search_handler (gw_db g) (search_messages (gw_locate g) (gw_messages g)) (gw_json_time g) (gw_search g)
            (params ''id'') (ctx_user c) (hq_query q) (w_db w) (w_index w)))"
| "serve_authorized g c PreSignRoute params q w =
     (w, FileReply (pre_sign_upload (gw_storage g) (hq_now q) c (hq_body q) (w_objects w)))"
| "serve_authorized g c CompleteRoute params q w =
     (case complete_upload_handler (gw_db g) (gw_files g) (gw_storage g) (hq_now q) c (hq_body q) (w_db w) of
        (s', reply) \<Rightarrow> (w\<lparr>w_db := s'\<rparr>, FileReply reply))"
| "serve_authorized g c DownloadByIdRoute params q w =
     (w, FileReply (download_file_by_id (gw_db g) (gw_files g) (gw_storage g) c (params ''id'') (w_db w) (w_objects w)))"
| "serve_authorized g c DownloadByKeyRoute params q w =
     (w, FileReply (download_file_by_object_key (gw_db g) (gw_files g) (gw_storage g) c (params ''filepath'') (w_db w) (w_objects w)))"
| "serve_authorized g c CreateRoomRoute params q w =
     room_changed w (room_route (gw_db g) (Some hub_notifier) (hq_now q) c (CreateCall (hq_body q)) (w_db w, w_hub w))"
| "serve_authorized g c SearchRoomsRoute params q w =
     (w, RoomReply (search_rooms_route (gw_db g) (query_text (hq_query q ''query'')) (query_text (hq_query q ''offset''))
            (query_text (hq_query q ''limit'')) (w_db w)))"
| "serve_authorized g c MyRoomsRoute params q w = (w, RoomReply (joined_rooms_route (gw_db g) c (w_db w)))"
| "serve_authorized g c JoinRoute params q w =
     room_changed w (room_route (gw_db g) (Some hub_notifier) (hq_now q) c (JoinCall (params ''id'')) (w_db w, w_hub w))"
| "serve_authorized g c MembersRoute params q w = (w, RoomReply (room_members_route (gw_db g) c (params ''id'') (w_db w)))"
| "serve_authorized g c RemoveRoute params q w =
     room_changed w (room_route (gw_db g) (Some hub_notifier) (hq_now q) c (RemoveCall (params ''id'') (params ''user_id''))
       (w_db w, w_hub w))"
| "serve_authorized g c DisbandRoute params q w =
     room_changed w (room_route (gw_db g) (Some hub_notifier) (hq_now q) c (DisbandCall (params ''id'')) (w_db w, w_hub w))"
| "serve_authorized g c _ params q w = (w, Page (frontend_dir g @ ''/index.html''))"

fun serve_public ::
    "('s, 'o, 'r, 'e) gateway \<Rightarrow> route_target \<Rightarrow> (string \<Rightarrow> string) \<Rightarrow> http_request \<Rightarrow> ('s, 'o, 'r, 'e) world \<Rightarrow>
     ('s, 'o, 'r, 'e) world \<times> response" where
  "serve_public g RegisterRoute params q w =
     (case register_handler (gw_hash g) (gw_db g) (hq_body q) (w_db w) of (s', reply) \<Rightarrow> (w\<lparr>w_db := s'\<rparr>, RegisterReply reply))"
| "serve_public g LoginRoute params q w =
     (case login_handler (gw_lower g) (gw_matches g) (gw_jwt g) (gw_env g) (gw_db g) (hq_login q) (hq_body q) (w_protector w) (w_db w) of
        (p', reply) \<Rightarrow> (w\<lparr>w_protector := p'\<rparr>, LoginReply reply))"
| "serve_public g AssetsRoute params q w = (w, Page (frontend_dir g @ ''/assets'' @ params ''filepath''))"
| "serve_public g _ params q w = (w, Page (frontend_dir g @ ''/index.html''))"

text \<open>The authentication middleware of the group; its refusal ends the request.\<close>

definition authenticate :: "('s, 'o, 'r, 'e) gateway \<Rightarrow> http_request \<Rightarrow> auth_error reply + identity" where
  "authenticate g q = jwt_auth (gw_jwt g) (gw_env g) (hq_now q) (hq_authorization q) (query_text (hq_query q ''token''))"

definition serve ::
    "((bool \<times> route) list \<Rightarrow> string \<Rightarrow> string \<Rightarrow> route_match) \<Rightarrow> ('s, 'o, 'r, 'e) gateway \<Rightarrow> http_request \<Rightarrow>
     ('s, 'o, 'r, 'e) world \<Rightarrow> ('s, 'o, 'r, 'e) world \<times> response" where
  "serve pick g q w =
     (case pick gateway_routes (hq_method q) (hq_path q) of
        RouteFound i params \<Rightarrow>
          (case gateway_routes ! i of
             (auth, _, _, target) \<Rightarrow>
               if auth then
                 (case authenticate g q of
                    Inl refused \<Rightarrow> (w, AuthReply refused)
                  | Inr c \<Rightarrow> serve_authorized g c target params q w)
               else serve_public g target params q w)
      | SlashRedirect \<Rightarrow> (w, Redirected)
      | RouteMissing \<Rightarrow> (w, Page (frontend_dir g @ ''/index.html'')))"

subsection \<open>The groups\<close>

definition public_targets :: "route_target list" where
  "public_targets = [RegisterRoute, LoginRoute, AssetsRoute, IndexRoute]"

lemma routes_grouped: "list_all (\<lambda>(auth, _, _, target). auth = (target \<notin> set public_targets)) gateway_routes"
  by code_simp

lemma route_target_group:
  assumes "i < length gateway_routes" and "gateway_routes ! i = (auth, m, p, target)"
  shows "auth = (target \<notin> set public_targets)"
proof -
  have "(auth, m, p, target) \<in> set gateway_routes" using assms by (metis nth_mem)
  with routes_grouped show ?thesis unfolding list_all_iff by fastforce
qed

lemma routes_distinct: "distinct (map (\<lambda>(_, m, p, _). (m, p)) gateway_routes)"
  by code_simp

subsection \<open>What the handlers change\<close>

lemma gorm_save_frame:
  assumes frame: "table_frame view t" and run: "gorm_save t key row s = (s', res)"
  shows "view s' = view s"
proof -
  obtain s1 r1 where u: "t_update t (\<lambda>x. key x = key row) (\<lambda>_. row) s = (s1, r1)" by fastforce
  obtain s2 r2 where c: "t_create t row s1 = (s2, r2)" by fastforce
  have "view s1 = view s" "view s2 = view s1" using table_frameD(3) [OF frame u] table_frameD(1) [OF frame c] by simp_all
  then show ?thesis using run u c by (cases r1) (auto simp: gorm_save_def split: if_splits)
qed

lemma complete_upload_frame:
  assumes frame: "table_frame view t" and run: "complete_upload d t sto now u req s = (s', res)"
  shows "view s' = view s"
  using run
  by (auto simp: complete_upload_def Let_def split: option.splits sum.splits prod.splits if_splits
      dest: table_frameD(1) [OF frame] gorm_save_frame [OF frame])

lemma complete_handler_frame:
  assumes "table_frame view t" and "complete_upload_handler d t sto now c body s = (s', reply)"
  shows "view s' = view s"
  using assms(2)
  by (auto simp: complete_upload_handler_def split: option.splits sum.splits prod.splits dest: complete_upload_frame [OF assms(1)])

lemma register_frame:
  assumes "db_laws d v"
  shows "live_memberships v (fst (register_handler hash d body s)) = live_memberships v s"
  using db_lawsD(8,9) [OF assms]
  by (intro same_live)
     (auto simp: register_handler_def create_user_def table_frame_def split: option.splits sum.splits prod.splits, (metis fst_conv)+)

lemma room_route_change:
  assumes laws: "db_laws d v" and run: "room_route d rt now c call (s, h) = ((s', h'), reply)"
  shows "change_allowed v s c s'"
proof (cases "requested c call")
  case None
  from unserved(1) [OF None, of d rt now "(s, h)"] run show ?thesis by (simp add: change_allowed_refl)
next
  case (Some req)
  obtain st2 res where r: "svc_run d rt now req (s, h) = (st2, res)" by fastforce
  with served(1) [OF Some, of d rt now "(s, h)"] run have "svc_run d rt now req (s, h) = ((s', h'), res)" by simp
  from request_change(1) [OF laws Some this] show ?thesis .
qed

lemma authorized_change:
  assumes laws: "db_laws (gw_db g) v"
    and files: "table_frame (v_rooms v) (gw_files g)" "table_frame (v_members v) (gw_files g)"
    and run: "serve_authorized g c target params q w = (w', resp)"
  shows "change_allowed v (w_db w) c (w_db w')"
proof -
  have room: "change_allowed v (w_db w) c (w_db w')"
    if "room_changed w (room_route (gw_db g) rt now c call (w_db w, w_hub w)) = (w', resp)" for rt now call
    using that room_route_change [OF laws, of rt now c call "w_db w" "w_hub w"] by (auto simp: room_changed_def split: prod.splits)
  have up: "change_allowed v (w_db w) c s'"
    if "complete_upload_handler (gw_db g) (gw_files g) sto now c body (w_db w) = (s', reply)" for sto now body s' reply
    by (intro change_allowed_refl same_live complete_handler_frame [OF files(1) that] complete_handler_frame [OF files(2) that])
  show ?thesis
  proof (cases target)
    case CompleteRoute
    then show ?thesis using run by (auto intro: up split: prod.splits)
  qed (use run in \<open>auto simp: change_allowed_refl intro: room split: prod.splits\<close>)
qed

subsection \<open>What the gateway guarantees\<close>

text \<open>The only answers to a request without a valid token.\<close>

definition public_reply :: "auth_error reply \<Rightarrow> response \<Rightarrow> bool" where
  "public_reply refused resp \<longleftrightarrow>
     (case resp of
        AuthReply r \<Rightarrow> r = refused | LoginReply _ \<Rightarrow> True | RegisterReply _ \<Rightarrow> True | Page _ \<Rightarrow> True | Redirected \<Rightarrow> True
      | _ \<Rightarrow> False)"

text \<open>A reply with messages of the room that a path parameter names.\<close>

fun shows_messages :: "response \<Rightarrow> bool" where
  "shows_messages (HistoryReply (_, Inr _) _) = True"
| "shows_messages (SearchReply (_, Inr _)) = True"
| "shows_messages _ = False"

definition may_read :: "('s, 'o, 'r, 'e) gateway \<Rightarrow> identity \<Rightarrow> string \<Rightarrow> 's \<Rightarrow> bool" where
  "may_read g c idStr s \<longleftrightarrow> (\<exists>room. parse_ok idStr = Some room \<and> check_is_member (gw_db g) room (ctx_user c) s = Inr True)"

lemma history_may_read:
  "get_chat_history d t rd tp now mongo idStr u cur lim s r = ((st, Inr pg), job) \<Longrightarrow>
     \<exists>room. parse_ok idStr = Some room \<and> check_is_member d room u s = Inr True"
  by (auto simp: get_chat_history_def split: option.splits if_splits)

lemma search_may_read:
  "search_handler d in_store json_time sm idStr u q s e = (st, Inr res) \<Longrightarrow>
     \<exists>room. parse_ok idStr = Some room \<and> check_is_member d room u s = Inr True"
  by (auto simp: search_handler_def split: option.splits if_splits)

lemma authorized_reads:
  assumes "serve_authorized g c target params q w = (w', resp)" and "shows_messages resp"
  shows "may_read g c (params ''id'') (w_db w)"
proof (cases target)
  case HistoryRoute
  then obtain st pg job where "get_chat_history (gw_db g) (gw_messages g) (gw_redis g) (gw_parse_time g) (hq_now q) (gw_mongo g)
      (params ''id'') (ctx_user c) (hq_query q ''cursor'') (hq_query q ''limit'') (w_db w) (w_redis w) = ((st, Inr pg), job)"
    using assms by (auto split: prod.splits elim!: shows_messages.elims)
  from history_may_read [OF this] show ?thesis by (simp add: may_read_def)
next
  case SearchRoute
  then obtain st res where "search_handler (gw_db g) (search_messages (gw_locate g) (gw_messages g)) (gw_json_time g) (gw_search g)
      (params ''id'') (ctx_user c) (hq_query q) (w_db w) (w_index w) = (st, Inr res)"
    using assms by (auto elim!: shows_messages.elims)
  from search_may_read [OF this] show ?thesis by (simp add: may_read_def)
qed (use assms in \<open>auto simp: room_changed_def split: prod.splits elim!: shows_messages.elims\<close>)

lemma public_effect:
  assumes laws: "db_laws (gw_db g) v" and target: "target \<in> set public_targets"
    and run: "serve_public g target params q w = (w', resp)"
  shows "live_memberships v (w_db w') = live_memberships v (w_db w)" and "w_hub w' = w_hub w" and "w_redis w' = w_redis w"
    and "public_reply refused resp" and "\<not> shows_messages resp"
proof -
  have "live_memberships v (w_db w') = live_memberships v (w_db w) \<and> w_hub w' = w_hub w \<and> w_redis w' = w_redis w \<and>
      public_reply refused resp \<and> \<not> shows_messages resp"
  proof (cases "target = RegisterRoute")
    case True
    obtain s' r where reg: "register_handler (gw_hash g) (gw_db g) (hq_body q) (w_db w) = (s', r)" by (metis surj_pair)
    with run True have "w' = w\<lparr>w_db := s'\<rparr>" "resp = RegisterReply r" by simp_all
    with register_frame [OF laws, of "gw_hash g" "hq_body q" "w_db w"] reg show ?thesis by (simp add: public_reply_def)
  next
    case False
    show ?thesis
    proof (cases "target = LoginRoute")
      case True
      obtain p' r where "login_handler (gw_lower g) (gw_matches g) (gw_jwt g) (gw_env g) (gw_db g) (hq_login q) (hq_body q)
          (w_protector w) (w_db w) = (p', r)" by (metis surj_pair)
      with run True have "w' = w\<lparr>w_protector := p'\<rparr>" "resp = LoginReply r" by simp_all
      then show ?thesis by (simp add: public_reply_def)
    next
      case other: False
      with False target have "target = AssetsRoute \<or> target = IndexRoute" by (simp add: public_targets_def)
      with run show ?thesis by (elim disjE) (simp_all add: public_reply_def, auto)
    qed
  qed
  then show "live_memberships v (w_db w') = live_memberships v (w_db w)" "w_hub w' = w_hub w" "w_redis w' = w_redis w"
    "public_reply refused resp" "\<not> shows_messages resp" by simp_all
qed

text \<open>C9: The gateway lets nobody past without a token, and everybody act only as the user of the token. A request
  whose token is missing or invalid changes no membership, no live connection and no online state, and is
  answered by the refusal of the token or by a public page, the login or the registration. With a valid
  token the memberships change only as its user is entitled to, and messages of a room are shown only if
  its user is a member of the room that the path names.\<close>

theorem gateway_guards_every_route:
  assumes laws: "db_laws (gw_db g) v"
    and files: "table_frame (v_rooms v) (gw_files g)" "table_frame (v_members v) (gw_files g)"
    and gin: "\<And>rs m p i params. pick rs m p = RouteFound i params \<Longrightarrow> i < length rs"
    and run: "serve pick g q w = (w', resp)"
  shows "(case authenticate g q of
       Inl refused \<Rightarrow>
         live_memberships v (w_db w') = live_memberships v (w_db w) \<and> w_hub w' = w_hub w \<and> w_redis w' = w_redis w \<and>
         public_reply refused resp
     | Inr c \<Rightarrow>
         change_allowed v (w_db w) c (w_db w') \<and>
         (shows_messages resp \<longrightarrow>
            (\<exists>i params. pick gateway_routes (hq_method q) (hq_path q) = RouteFound i params \<and> may_read g c (params ''id'') (w_db w))))"
proof (cases "pick gateway_routes (hq_method q) (hq_path q)")
  case (RouteFound i params)
  obtain auth m p target where route: "gateway_routes ! i = (auth, m, p, target)" by (cases "gateway_routes ! i") auto
  note group = route_target_group [OF gin [OF RouteFound] route]
  show ?thesis
  proof (cases auth)
    case True
    with run RouteFound route show ?thesis
      by (cases "authenticate g q")
         (auto simp: serve_def public_reply_def intro: authorized_change [OF laws files] authorized_reads)
  next
    case False
    with run RouteFound route have "serve_public g target params q w = (w', resp)" by (simp add: serve_def)
    moreover from False group have "target \<in> set public_targets" by simp
    ultimately show ?thesis
      using public_effect [OF laws, of target params q w w' resp]
      by (cases "authenticate g q") (simp_all add: change_allowed_refl)
  qed
next
  case SlashRedirect
  with run show ?thesis
    by (cases "authenticate g q") (auto simp: serve_def public_reply_def change_allowed_refl)
next
  case RouteMissing
  with run show ?thesis
    by (cases "authenticate g q") (auto simp: serve_def public_reply_def change_allowed_refl)
qed

subsection \<open>A gateway and a request\<close>

definition demo_gateway :: "(sample_files, string list, redis_view, (string, es_doc) gomap) gateway" where
  "demo_gateway =
     \<lparr>gw_db = on_first_db sample_db, gw_messages = on_first sample_messages, gw_files = sample_file_table,
      gw_storage = sample_storage, gw_redis = sample_redis, gw_search = demo_search_module, gw_jwt = demo_jwt 1,
      gw_env = (\<lambda>_. []), gw_parse_time = parse_ok, gw_json_time = (\<lambda>_. True), gw_locate = (\<lambda>_ _. True), gw_lower = id,
      gw_matches = demo_matches, gw_hash = Some, gw_node = ''a'', gw_mongo = False, gw_frontend = []\<rparr>"

definition demo_world :: "(sample_files, string list, redis_view, (string, es_doc) gomap) world" where
  "demo_world =
     \<lparr>w_db = (demo_db, []), w_hub = demo_hub, w_objects = [], w_redis = (\<lambda>_. None), w_index = [], w_protector = demo_protector 0\<rparr>"

text \<open>A user asks to join room 7 and has no token.\<close>

definition demo_join_request :: http_request where
  "demo_join_request =
     \<lparr>hq_method = ''POST'', hq_path = ''/api/v1/rooms/7/join'', hq_authorization = [], hq_query = (\<lambda>_. None), hq_body = [],
      hq_now = 0, hq_login = demo_login, hq_ws = demo_ws, hq_client = 4\<rparr>"

definition demo_pick :: "(bool \<times> route) list \<Rightarrow> string \<Rightarrow> string \<Rightarrow> route_match" where
  "demo_pick rs m p = (if length rs = 19 then RouteFound 12 (\<lambda>_. ''7'') else RouteMissing)"

lemma gateway_guards_every_route_witness:
  "gateway_routes ! 12 = (True, ''POST'', ''/api/v1/rooms/:id/join'', JoinRoute) \<and>
   (case serve demo_pick demo_gateway demo_join_request demo_world of
      (w', resp) \<Rightarrow> w_hub w' = demo_hub \<and> public_reply (401, MissingToken) resp)"
proof
  show "gateway_routes ! 12 = (True, ''POST'', ''/api/v1/rooms/:id/join'', JoinRoute)" by code_simp
  have refused: "authenticate demo_gateway demo_join_request = Inl (401, MissingToken)"
    by (simp add: authenticate_def demo_join_request_def jwt_auth_def bearer_token_def query_text_def)
  have laws: "db_laws (gw_db demo_gateway) (first_views sample_views)"
    using sample_files_db_laws by (simp add: demo_gateway_def)
  have files: "table_frame (\<lambda>s. f (fst s)) (gw_files demo_gateway)" for f :: "sample_state \<Rightarrow> 'b"
    by (simp add: demo_gateway_def sample_file_table_def list_table_frame)
  have views: "v_rooms (first_views sample_views :: sample_files views) = (\<lambda>s. v_rooms sample_views (fst s))"
    "v_members (first_views sample_views :: sample_files views) = (\<lambda>s. v_members sample_views (fst s))"
    by (simp_all add: first_views_def)
  have hub: "w_hub demo_world = demo_hub" by (simp add: demo_world_def)
  have pick: "demo_pick rs m p = RouteFound i params \<Longrightarrow> i < length rs" for rs m p i params
    by (simp add: demo_pick_def split: if_splits)
  have frames: "table_frame (v_rooms (first_views sample_views)) (gw_files demo_gateway)"
    "table_frame (v_members (first_views sample_views)) (gw_files demo_gateway)" by (simp_all only: views files)
  obtain w' resp where run: "serve demo_pick demo_gateway demo_join_request demo_world = (w', resp)" by (metis surj_pair)
  from gateway_guards_every_route [OF laws frames pick run]
  show "case serve demo_pick demo_gateway demo_join_request demo_world of
      (w', resp) \<Rightarrow> w_hub w' = demo_hub \<and> public_reply (401, MissingToken) resp"
    by (simp add: refused run hub)
qed

end
