(* ===== verification/ImServer.thy ===== *)
theory ImServer
  imports RoomProps ChatHistory
begin

section \<open>The gRPC server of the assistant (services/gateway/grpc/server.go)\<close>

text \<open>
  The calls the Python assistant makes back into the server: reading the messages of a period, removing a
  user, and sending a reply. They carry no credentials. Listening and stopping are the gRPC library's.
\<close>

subsection \<open>Reading messages\<close>

record message_record =
  mr_id :: int
  mr_sender :: int
  mr_name :: string
  mr_content :: string
  mr_created :: int

text \<open>The two characters of the word for user, in UTF-8, and the number.\<close>

definition placeholder_name :: "int \<Rightarrow> string" where
  "placeholder_name u = [CHR 0xE7, CHR 0x94, CHR 0xA8, CHR 0xE6, CHR 0x88, CHR 0xB7] @ format_int u"

definition name_of_user :: "'s db \<Rightarrow> 's \<Rightarrow> int \<Rightarrow> string" where
  "name_of_user d s u =
     (case get_by_id d u s of
        Inl _ \<Rightarrow> placeholder_name u
      | Inr x \<Rightarrow> if u_username x \<noteq> [] then u_username x else placeholder_name u)"

definition resolve_user_names :: "'s db \<Rightarrow> 's \<Rightarrow> message list \<Rightarrow> (int, string) gomap" where
  "resolve_user_names d s msgs =
     fst (fold (\<lambda>m (names, seen).
                  if m_sender m \<in> set seen then (names, seen)
                  else (gm_put (m_sender m) (name_of_user d s (m_sender m)) names, m_sender m # seen))
            msgs ([], []))"

text \<open>\<open>by_range\<close> is the \<open>GetMessagesByTimeRange\<close> of the installed repository.\<close>

definition fetch_messages ::
    "'s db \<Rightarrow> (int \<Rightarrow> int \<Rightarrow> int \<Rightarrow> int \<Rightarrow> 's \<Rightarrow> 'err + message list) \<Rightarrow> int \<Rightarrow> int \<Rightarrow> int \<Rightarrow> int \<Rightarrow> 's \<Rightarrow>
     'err + message_record list" where
  "fetch_messages d by_range roomID startMs endMs reqLimit s =
     (let limit = (if reqLimit \<le> 0 \<or> 500 < reqLimit then 200 else reqLimit);
          from_time = of_unix_milli startMs; to_time = of_unix_milli endMs
      in if to_time < from_time then Inr []
         else
           (case by_range roomID from_time to_time limit s of
              Inl e \<Rightarrow> Inl e
            | Inr msgs \<Rightarrow>
                (let names = resolve_user_names d s msgs
                 in Inr (map (\<lambda>m. \<lparr>mr_id = m_id m, mr_sender = m_sender m,
                                   mr_name = (case gm_get names (m_sender m) of None \<Rightarrow> [] | Some n \<Rightarrow> n),
                                   mr_content = m_content m, mr_created = unix_milli (m_created m)\<rparr>) msgs))))"

subsection \<open>Removing a user\<close>

definition notify_room_action :: "int \<Rightarrow> int \<Rightarrow> string \<Rightarrow> hub \<Rightarrow> hub" where
  "notify_room_action roomID userID action h =
     (if action = ''join'' then join_room userID roomID h
      else if action = ''leave'' then leave_room userID roomID h
      else if action = ''disband'' then disband_room roomID h
      else h)"

definition disconnect_user :: "int \<Rightarrow> hub \<Rightarrow> hub" where
  "disconnect_user userID h = kick userID h"

text \<open>The reply: removed, or the error of the repository in its message.\<close>

datatype kick_reply = Removed | RemoveFailed db_error

definition kick_user :: "'s db \<Rightarrow> int \<Rightarrow> int \<Rightarrow> 's \<times> hub \<Rightarrow> ('s \<times> hub) \<times> kick_reply" where
  "kick_user d roomID userID st =
     (case remove_member d roomID userID (fst st) of
        (s', Inl e) \<Rightarrow> ((s', snd st), RemoveFailed e)
      | (s', Inr _) \<Rightarrow>
          (let h1 = notify_room_action roomID userID ''leave'' (snd st)
           in ((s', disconnect_user userID h1), Removed)))"

subsection \<open>Replies\<close>

definition reply_id :: "int \<Rightarrow> int \<Rightarrow> string \<Rightarrow> string" where
  "reply_id now roomID messageID =
     (if messageID = [] then ''agent-'' @ format_int roomID @ ''-'' @ format_int now else messageID)"

definition send_reply ::
    "proto_marshal \<Rightarrow> outcome \<Rightarrow> int \<Rightarrow> int \<Rightarrow> string \<Rightarrow> string \<Rightarrow> bus \<Rightarrow> bus \<times> produce_error option" where
  "send_reply pm env roomID botUserID content messageID b =
     handle_incoming_message pm env (format_int roomID) botUserID content (reply_id (o_now env) roomID messageID) b"

subsection \<open>Names\<close>

lemma resolve_names_get:
  "gm_get (resolve_user_names d s msgs) u = (if u \<in> m_sender ` set msgs then Some (name_of_user d s u) else None)"
proof -
  let ?f = "\<lambda>m (names, seen). if m_sender m \<in> set seen then (names, seen)
      else (gm_put (m_sender m) (name_of_user d s (m_sender m)) names, m_sender m # seen)"
  have "\<forall>u. gm_get (fst (fold ?f msgs (names, seen))) u =
      (if u \<in> set seen \<union> m_sender ` set msgs then Some (name_of_user d s u) else None)"
    if "\<forall>u. gm_get names u = (if u \<in> set seen then Some (name_of_user d s u) else None)" for names seen
    using that by (induction msgs arbitrary: names seen) (auto simp: gm_get_put)
  from this [of "[]" "[]"] show ?thesis by (simp add: resolve_user_names_def)
qed

text \<open>Each record is a message of the room and the period, in the order they were sent, under the sender's name.\<close>

lemma fetched_messages:
  assumes laws: "message_laws rows t"
    and run: "fetch_messages d (get_messages_by_time_range t) roomID startMs endMs reqLimit s = Inr out"
  shows "length out \<le> 500 \<and>
    (\<exists>ms. out = map (\<lambda>m. \<lparr>mr_id = m_id m, mr_sender = m_sender m, mr_name = name_of_user d s (m_sender m),
                          mr_content = m_content m, mr_created = unix_milli (m_created m)\<rparr>) ms \<and>
      set ms \<subseteq> {m \<in> set (rows s). m_room m = roomID \<and> of_unix_milli startMs \<le> m_created m \<and> m_created m < of_unix_milli endMs} \<and>
      sorted_wrt (\<lambda>a b. hist_key a \<le> hist_key b) ms)"
proof (cases "of_unix_milli endMs < of_unix_milli startMs")
  case True
  with run show ?thesis by (simp add: fetch_messages_def Let_def)
next
  case False
  let ?limit = "if reqLimit \<le> 0 \<or> 500 < reqLimit then 200 else reqLimit"
  let ?q = "\<lparr>q_where = (\<lambda>m. m_room m = roomID \<and> of_unix_milli startMs \<le> m_created m \<and> m_created m < of_unix_milli endMs),
      q_order = (\<lambda>a b. hist_key a \<le> hist_key b), q_offset = 0, q_limit = limit_opt ?limit\<rparr>"
  from run False obtain ms where ms: "t_find t ?q s = Inr ms"
    and out: "out = map (\<lambda>m. \<lparr>mr_id = m_id m, mr_sender = m_sender m, mr_name = name_of_user d s (m_sender m),
        mr_content = m_content m, mr_created = unix_milli (m_created m)\<rparr>) ms"
    by (auto simp: fetch_messages_def get_messages_by_time_range_def Let_def resolve_names_get
        simp del: of_unix_milli_def split: sum.splits)
  have lim: "limit_opt ?limit = Some (nat ?limit)" by (simp add: limit_opt_def)
  from table_lawsD(1) [OF laws [unfolded message_laws_def] ms] obtain xs where
    xs: "mset xs = mset (filter (q_where ?q) (rows s))" "sorted_wrt (q_order ?q) xs" "ms = take (nat ?limit) xs"
    unfolding answers_def by (auto simp: page_def lim simp del: mset_filter)
  have "set ms \<subseteq> set xs" unfolding xs(3) by (rule set_take_subset)
  then have "set ms \<subseteq> set (filter (q_where ?q) (rows s))" using mset_eq_setD [OF xs(1)] by simp
  moreover have "sorted_wrt (\<lambda>a b. hist_key a \<le> hist_key b) ms" using xs(2) unfolding xs(3) by (intro sorted_wrt_take) simp
  moreover have "length ms \<le> 500" unfolding xs(3) by (auto simp: min_def)
  ultimately show ?thesis using out by auto
qed

lemma inverted_period_empty:
  "endMs < startMs \<Longrightarrow> fetch_messages d by_range roomID startMs endMs reqLimit s = Inr []"
  by (simp add: fetch_messages_def of_unix_milli_def)

subsection \<open>Removal\<close>

lemma kicked_connection_closed:
  assumes "client_by_user h u = Some c"
  shows "c_conn (h_clients (kick u h) c) \<noteq> Some True"
  using assms by (auto simp: kick_def close_conn_def)

lemma disconnect_keeps: "hub_inv h \<Longrightarrow> hub_inv (disconnect_user u h) \<and> hub_abs (disconnect_user u h) = hub_abs h"
  by (simp add: disconnect_user_def kick_inv)

text \<open>The hub after a leave and a kick: only this user's subscription to the room is gone, and its connection closed.\<close>

lemma removed_from_hub:
  assumes inv: "hub_inv h" and h'_def: "h' = disconnect_user u (leave_room u r h)"
  shows "hub_inv h'"
    and "client_by_user h u = Some c \<Longrightarrow> c \<notin> set (members h' r)"
    and "client_by_user h u = Some c \<Longrightarrow> c_conn (h_clients h' c) \<noteq> Some True"
    and "client_by_user h u \<noteq> Some c \<or> q \<noteq> r \<Longrightarrow> c \<in> set (members h' q) \<longleftrightarrow> c \<in> set (members h q)"
proof -
  note left = leave_room_refines [OF inv, of u r]
  have abs: "hub_inv h'" "hub_abs h' = a_leave u r (hub_abs h)"
    using disconnect_keeps [OF left(1)] left(2) by (simp_all add: h'_def)
  have cur: "client_by_user (leave_room u r h) = client_by_user h" using arg_cong [OF left(2), of a_current]
    by (simp add: hub_abs_def a_leave_def split: option.splits)
  have subs: "set (members h' q) = a_subs (a_leave u r (hub_abs h)) q" for q
    using fun_cong [OF arg_cong [OF abs(2), of a_subs], of q] by (simp add: hub_abs_def)
  show "hub_inv h'" by (rule abs(1))
  show "client_by_user h u = Some c \<Longrightarrow> c \<notin> set (members h' r)" by (simp add: subs a_leave_def hub_abs_def)
  show "client_by_user h u = Some c \<Longrightarrow> c_conn (h_clients h' c) \<noteq> Some True"
    unfolding h'_def disconnect_user_def by (rule kicked_connection_closed) (simp add: cur)
  show "client_by_user h u \<noteq> Some c \<or> q \<noteq> r \<Longrightarrow> c \<in> set (members h' q) \<longleftrightarrow> c \<in> set (members h q)"
    by (auto simp: subs a_leave_def hub_abs_def split: option.splits)
qed

text \<open>C30: A removal by the assistant takes hold in the database and in the running hub: when \<open>KickUser\<close> answers
  that the user was removed, the user was a member, exactly this membership is gone, the user's current
  connection gets no more messages of the room and is closed, and the subscriptions of all other connections are as before;
  when it answers with an error, no membership has changed and the hub is untouched.\<close>

theorem kick_user_effect:
  assumes laws: "db_laws d v" and inv: "hub_inv h" and run: "kick_user d r u (s, h) = ((s', h'), res)"
  shows "(case res of
       Removed \<Rightarrow>
         is_member v s u r \<and> (\<forall>w q. is_member v s' w q \<longleftrightarrow> is_member v s w q \<and> \<not> (w = u \<and> q = r)) \<and>
         (\<forall>c. client_by_user h u = Some c \<longrightarrow> c \<notin> set (members h' r) \<and> c_conn (h_clients h' c) \<noteq> Some True) \<and>
         (\<forall>q c. client_by_user h u \<noteq> Some c \<or> q \<noteq> r \<longrightarrow> (c \<in> set (members h' q) \<longleftrightarrow> c \<in> set (members h q)))
     | RemoveFailed e \<Rightarrow> (\<forall>w q. is_member v s' w q \<longleftrightarrow> is_member v s w q) \<and> h' = h) \<and>
    hub_inv h'"
proof -
  obtain x where rm: "remove_member d r u s = (s', x)"
    using run by (auto simp: kick_user_def Let_def split: prod.splits sum.splits)
  note cases = remove_member_cases [OF laws rm]
  show ?thesis
  proof (cases x)
    case (Inl e)
    then have "res = RemoveFailed e" "h' = h" using run rm by (simp_all add: kick_user_def)
    with cases(4) [OF Inl] inv show ?thesis by (simp add: is_member_def)
  next
    case (Inr y)
    have res: "res = Removed" "h' = disconnect_user u (leave_room u r h)" using run rm Inr
      by (simp_all add: kick_user_def notify_room_action_def Let_def)
    note hub = removed_from_hub [OF inv res(2)]
    have "is_member v s u r" "\<And>w q. is_member v s' w q \<longleftrightarrow> is_member v s w q \<and> \<not> (w = u \<and> q = r)"
      using cases(2,3) Inr by simp_all
    then show ?thesis unfolding res(1) kick_reply.case by (intro conjI allI impI hub) assumption+
  qed
qed

lemma kick_user_effect_witness:
  "case kick_user sample_db 7 1 (demo_db, demo_two) of
     ((s', h'), res) \<Rightarrow> res = Removed \<and> \<not> is_member sample_views s' 1 7 \<and> hub_inv h'"
proof -
  have run: "\<exists>s' h'. kick_user sample_db 7 1 (demo_db, demo_two) = ((s', h'), Removed)"
    by (simp add: kick_user_def remove_member_def sample_db_def sample_members_def list_table_def demo_db_def Let_def)
  then obtain s' h' where k: "kick_user sample_db 7 1 (demo_db, demo_two) = ((s', h'), Removed)" by blast
  from kick_user_effect [OF sample_laws demo_two_facts(1) k] show ?thesis by (simp add: k)
qed

text \<open>Nothing but the request decides who sends a reply: the envelope carries the sender it names.\<close>

lemma reply_sender_unchecked:
  assumes "send_reply pm env roomID sender content messageID b = (b', None)" and "is_int64 roomID"
  shows "\<exists>p. marshal_envelope pm \<lparr>e_room = roomID, e_sender = sender, e_client_id = reply_id (o_now env) roomID messageID,
      e_type = 1, e_content = content, e_created = o_now env\<rparr> = Some p \<and> b_kafka b' = b_kafka b @ [(format_int roomID, p)]"
  using assms parse_format_int [of roomID]
  by (auto simp: send_reply_def handle_incoming_message_def Let_def split: option.splits if_splits)

end
