(* ===== verification/ObjectStorage.thy ===== *)
theory ObjectStorage
  imports AdminFiles
begin

section \<open>The object storage providers (services/messages/storage)\<close>

text \<open>
  The provider that the file services use (a \<open>storage\<close>, Files.thy) built over MinIO or over Alibaba Cloud OSS,
  and the choice between them from the environment. The two client libraries are records of functions over
  the state of the server; a context that ends is an error of the call.
\<close>

record object_info =
  ob_key :: string
  ob_size :: int
  ob_modified :: int
  ob_etag :: string

definition stat_of :: "object_info \<Rightarrow> object_stat" where
  "stat_of i = \<lparr>os_key = ob_key i, os_size = ob_size i, os_modified = ob_modified i, os_etag = ob_etag i, os_exists = True\<rparr>"

definition no_object :: "string \<Rightarrow> object_stat" where
  "no_object key = \<lparr>os_key = key, os_size = 0, os_modified = zero_time, os_etag = [], os_exists = False\<rparr>"

record upload_result =
  ur_key :: string
  ur_url :: string
  ur_size :: int

definition download_path :: "string \<Rightarrow> string" where
  "download_path key = ''/api/v1/download/'' @ key"

definition minutes :: "int \<Rightarrow> int" where
  "minutes n = n * 60000000000"

subsection \<open>MinIO\<close>

text \<open>A listing is the sequence of what comes out of the channel: objects and errors.\<close>

record 'o minio_client =
  mi_bucket_exists :: "string \<Rightarrow> 'o \<Rightarrow> string + bool"
  mi_make_bucket :: "string \<Rightarrow> 'o \<Rightarrow> 'o \<times> bool"
  mi_presign_put :: "string \<Rightarrow> string \<Rightarrow> int \<Rightarrow> 'o \<Rightarrow> string option"
  mi_presign_get :: "string \<Rightarrow> string \<Rightarrow> int \<Rightarrow> 'o \<Rightarrow> string option"
  mi_put :: "string \<Rightarrow> string \<Rightarrow> string \<Rightarrow> int \<Rightarrow> 'o \<Rightarrow> 'o \<times> int option"
  mi_remove :: "string \<Rightarrow> string \<Rightarrow> 'o \<Rightarrow> 'o \<times> bool"
  mi_stat :: "string \<Rightarrow> string \<Rightarrow> 'o \<Rightarrow> string + object_info"
  mi_list :: "string \<Rightarrow> string \<Rightarrow> 'o \<Rightarrow> (string + object_info) list"

record 'o minio_provider =
  mp_client :: "'o minio_client"
  mp_url_client :: "'o minio_client"
  mp_bucket :: string

text \<open>
  \<open>NewMinioProvider\<close>. \<open>connect\<close> makes a client for an endpoint, two keys and the address that each address is
  really dialled at.
\<close>

definition new_minio_provider ::
    "(string \<Rightarrow> string \<Rightarrow> string \<Rightarrow> (string \<Rightarrow> string) \<Rightarrow> string + 'o minio_client) \<Rightarrow> (string \<Rightarrow> string) \<Rightarrow>
     string \<Rightarrow> string \<Rightarrow> string \<Rightarrow> string \<Rightarrow> 'o \<Rightarrow> 'o \<times> (string + 'o minio_provider)" where
  "new_minio_provider connect getenv endpoint accessKey secretKey bucket os =
     (case connect endpoint accessKey secretKey id of
        Inl e \<Rightarrow> (os, Inl e)
      | Inr client \<Rightarrow>
          (case mi_bucket_exists client bucket os of
             Inl e \<Rightarrow> (os, Inl e)
           | Inr there \<Rightarrow>
               (case (if there then (os, True) else mi_make_bucket client bucket os) of
                  (os', False) \<Rightarrow> (os', Inl ''make bucket'')
                | (os', True) \<Rightarrow>
                    (let public = getenv ''MINIO_PUBLIC_ENDPOINT'';
                         url_client =
                           (if public \<noteq> [] \<and> public \<noteq> endpoint then
                              (case connect public accessKey secretKey (\<lambda>addr. if addr = public then endpoint else addr) of
                                 Inl _ \<Rightarrow> client
                               | Inr c \<Rightarrow> c)
                            else client)
                     in (os', Inr \<lparr>mp_client = client, mp_url_client = url_client, mp_bucket = bucket\<rparr>)))))"

definition minio_upload_url :: "'o minio_provider \<Rightarrow> string \<Rightarrow> int \<Rightarrow> 'o \<Rightarrow> string option" where
  "minio_upload_url p key ttl os =
     mi_presign_put (mp_url_client p) (mp_bucket p) key (if ttl \<le> 0 then minutes 15 else ttl) os"

definition minio_save :: "'o minio_provider \<Rightarrow> string \<Rightarrow> string \<Rightarrow> int \<Rightarrow> 'o \<Rightarrow> 'o \<times> upload_result option" where
  "minio_save p key content len os =
     (case mi_put (mp_client p) (mp_bucket p) key content len os of
        (os', r) \<Rightarrow> (os', map_option (\<lambda>n. \<lparr>ur_key = key, ur_url = download_path key, ur_size = n\<rparr>) r))"

definition minio_download_url :: "'o minio_provider \<Rightarrow> string \<Rightarrow> 'o \<Rightarrow> string option" where
  "minio_download_url p key os = mi_presign_get (mp_url_client p) (mp_bucket p) key (minutes 60) os"

definition minio_stat :: "'o minio_provider \<Rightarrow> string \<Rightarrow> 'o \<Rightarrow> object_stat option" where
  "minio_stat p key os =
     (case mi_stat (mp_client p) (mp_bucket p) key os of
        Inl code \<Rightarrow> if code = ''NoSuchKey'' then Some (no_object key) else None
      | Inr i \<Rightarrow> Some ((stat_of i)\<lparr>os_key := key\<rparr>))"

text \<open>The loop over the channel: an error ends it, and so does the object that reaches the limit.\<close>

fun collect_objects :: "int \<Rightarrow> object_stat list \<Rightarrow> (string + object_info) list \<Rightarrow> object_stat list option" where
  "collect_objects limit out [] = Some out"
| "collect_objects limit out (Inl e # items) = None"
| "collect_objects limit out (Inr i # items) =
     (let out' = out @ [stat_of i]
      in if limit \<le> int (length out') then Some out' else collect_objects limit out' items)"

definition list_limit :: "int \<Rightarrow> int" where
  "list_limit limit = (if limit \<le> 0 then 1000 else limit)"

definition minio_list_objects :: "'o minio_provider \<Rightarrow> string \<Rightarrow> int \<Rightarrow> 'o \<Rightarrow> object_stat list option" where
  "minio_list_objects p prefix limit os =
     collect_objects (list_limit limit) [] (mi_list (mp_client p) (mp_bucket p) prefix os)"

definition minio_storage :: "'o minio_provider \<Rightarrow> 'o storage" where
  "minio_storage p =
     \<lparr>st_upload_url = minio_upload_url p, st_download_url = minio_download_url p,
      st_delete = mi_remove (mp_client p) (mp_bucket p), st_stat = minio_stat p,
      st_list = minio_list_objects p, st_backend = ''minio''\<rparr>"

subsection \<open>OSS\<close>

record 'o oss_bucket =
  oss_sign_url :: "string \<Rightarrow> string \<Rightarrow> int \<Rightarrow> 'o \<Rightarrow> string option"
  oss_put :: "string \<Rightarrow> string \<Rightarrow> 'o \<Rightarrow> 'o \<times> bool"
  oss_delete :: "string \<Rightarrow> 'o \<Rightarrow> 'o \<times> bool"
  oss_meta :: "string \<Rightarrow> 'o \<Rightarrow> (string \<Rightarrow> string) option"
  oss_list :: "string \<Rightarrow> int \<Rightarrow> 'o \<Rightarrow> object_info list option"

definition new_oss_provider ::
    "(string \<Rightarrow> string \<Rightarrow> string \<Rightarrow> string + 'c) \<Rightarrow> ('c \<Rightarrow> string \<Rightarrow> string + 'o oss_bucket) \<Rightarrow>
     string \<Rightarrow> string \<Rightarrow> string \<Rightarrow> string \<Rightarrow> string + 'o oss_bucket" where
  "new_oss_provider connect open_bucket endpoint accessKey secretKey bucket =
     (case connect endpoint accessKey secretKey of Inl e \<Rightarrow> Inl e | Inr client \<Rightarrow> open_bucket client bucket)"

text \<open>\<open>int64(ttl.Seconds())\<close>: whole seconds of a positive duration.\<close>

definition oss_upload_url :: "'o oss_bucket \<Rightarrow> string \<Rightarrow> int \<Rightarrow> 'o \<Rightarrow> string option" where
  "oss_upload_url b key ttl os =
     oss_sign_url b key ''PUT'' ((if ttl \<le> 0 then minutes 15 else ttl) div 1000000000) os"

definition oss_save :: "'o oss_bucket \<Rightarrow> string \<Rightarrow> string \<Rightarrow> int \<Rightarrow> 'o \<Rightarrow> 'o \<times> upload_result option" where
  "oss_save b key content len os =
     (case oss_put b key content os of
        (os', ok) \<Rightarrow> (os', if ok then Some \<lparr>ur_key = key, ur_url = download_path key, ur_size = len\<rparr> else None))"

definition oss_download_url :: "'o oss_bucket \<Rightarrow> string \<Rightarrow> 'o \<Rightarrow> string option" where
  "oss_download_url b key os = oss_sign_url b key ''GET'' 3600 os"

text \<open>Every error counts as a missing object. \<open>http_time\<close> is http.ParseTime (the zero time when it fails).\<close>

definition oss_stat :: "(string \<Rightarrow> int option) \<Rightarrow> 'o oss_bucket \<Rightarrow> string \<Rightarrow> 'o \<Rightarrow> object_stat option" where
  "oss_stat http_time b key os =
     (case oss_meta b key os of
        None \<Rightarrow> Some (no_object key)
      | Some headers \<Rightarrow>
          Some \<lparr>os_key = key, os_size = fst (parse_int (headers ''Content-Length'')),
                os_modified = (case http_time (headers ''Last-Modified'') of None \<Rightarrow> zero_time | Some t \<Rightarrow> t),
                os_etag = headers ''ETag'', os_exists = True\<rparr>)"

definition oss_list_objects :: "'o oss_bucket \<Rightarrow> string \<Rightarrow> int \<Rightarrow> 'o \<Rightarrow> object_stat list option" where
  "oss_list_objects b prefix limit os = map_option (map stat_of) (oss_list b prefix (list_limit limit) os)"

definition oss_storage :: "(string \<Rightarrow> int option) \<Rightarrow> 'o oss_bucket \<Rightarrow> 'o storage" where
  "oss_storage http_time b =
     \<lparr>st_upload_url = oss_upload_url b, st_download_url = oss_download_url b, st_delete = oss_delete b,
      st_stat = oss_stat http_time b, st_list = oss_list_objects b, st_backend = ''oss''\<rparr>"

subsection \<open>The choice (storage.go)\<close>

datatype storage_panic = UnsupportedBackend string | IncompleteConfig | InitFailed string

text \<open>The variables both backends read: endpoint, keys and bucket, under their prefix.\<close>

definition storage_config :: "(string \<Rightarrow> string) \<Rightarrow> string \<Rightarrow> (string \<times> string \<times> string \<times> string) option" where
  "storage_config getenv prefix =
     (let endpoint = getenv (prefix @ ''_ENDPOINT''); accessKey = getenv (prefix @ ''_ACCESS_KEY'')
      in if endpoint = [] \<or> accessKey = [] then None
         else Some (endpoint, accessKey, getenv (prefix @ ''_SECRET_KEY''), or_default ''lan-im-files'' (getenv (prefix @ ''_BUCKET''))))"

definition new_storage ::
    "(string \<Rightarrow> string) \<Rightarrow> (string \<Rightarrow> string \<Rightarrow> string \<Rightarrow> string \<Rightarrow> 'o \<Rightarrow> 'o \<times> (string + 'o minio_provider)) \<Rightarrow>
     (string \<Rightarrow> string \<Rightarrow> string \<Rightarrow> string \<Rightarrow> string + 'o oss_bucket) \<Rightarrow> (string \<Rightarrow> int option) \<Rightarrow> 'o \<Rightarrow>
     'o \<times> (storage_panic + 'o storage)" where
  "new_storage getenv new_minio new_oss http_time os =
     (let backend = or_default ''minio'' (trim_space (getenv ''STORAGE_BACKEND''))
      in if backend = ''oss'' then
           (case storage_config getenv ''OSS'' of
              None \<Rightarrow> (os, Inl IncompleteConfig)
            | Some (endpoint, accessKey, secretKey, bucket) \<Rightarrow>
                (os, (case new_oss endpoint accessKey secretKey bucket of
                        Inl e \<Rightarrow> Inl (InitFailed e) | Inr b \<Rightarrow> Inr (oss_storage http_time b))))
         else if backend = ''minio'' then
           (case storage_config getenv ''MINIO'' of
              None \<Rightarrow> (os, Inl IncompleteConfig)
            | Some (endpoint, accessKey, secretKey, bucket) \<Rightarrow>
                (case new_minio endpoint accessKey secretKey bucket os of
                   (os', Inl e) \<Rightarrow> (os', Inl (InitFailed e))
                 | (os', Inr p) \<Rightarrow> (os', Inr (minio_storage p))))
         else (os, Inl (UnsupportedBackend backend)))"

subsection \<open>The contract of the file services\<close>

text \<open>
  What the client libraries promise about the keys of a bucket. A deletion that reports a failure may have
  happened all the same (the answer was lost on the way).
\<close>

definition minio_laws :: "(string \<Rightarrow> 'o \<Rightarrow> string set) \<Rightarrow> 'o minio_client \<Rightarrow> bool" where
  "minio_laws objs c \<longleftrightarrow>
     (\<forall>b k os os'. mi_remove c b k os = (os', True) \<longrightarrow> objs b os' = objs b os - {k}) \<and>
     (\<forall>b k os os'. mi_remove c b k os = (os', False) \<longrightarrow> objs b os' = objs b os \<or> objs b os' = objs b os - {k}) \<and>
     (\<forall>b pre os i. Inr i \<in> set (mi_list c b pre os) \<longrightarrow> ob_key i \<in> objs b os) \<and>
     (\<forall>b k os i. mi_stat c b k os = Inr i \<longrightarrow> k \<in> objs b os) \<and>
     (\<forall>b k os. mi_stat c b k os = Inl ''NoSuchKey'' \<longrightarrow> k \<notin> objs b os)"

definition oss_laws :: "('o \<Rightarrow> string set) \<Rightarrow> 'o oss_bucket \<Rightarrow> bool" where
  "oss_laws objs b \<longleftrightarrow>
     (\<forall>k os os'. oss_delete b k os = (os', True) \<longrightarrow> objs os' = objs os - {k}) \<and>
     (\<forall>k os os'. oss_delete b k os = (os', False) \<longrightarrow> objs os' = objs os \<or> objs os' = objs os - {k}) \<and>
     (\<forall>pre n os xs. oss_list b pre n os = Some xs \<longrightarrow> ob_key ` set xs \<subseteq> objs os \<and> int (length xs) \<le> n) \<and>
     (\<forall>k os h. oss_meta b k os = Some h \<longrightarrow> k \<in> objs os)"

lemma collect_objects_take:
  assumes "int (length out) < limit"
  shows "collect_objects limit out items =
    (let n = nat limit - length out
     in if \<exists>e. Inl e \<in> set (take n items) then None else Some (out @ map (stat_of \<circ> projr) (take n items)))"
  using assms
proof (induction limit out items rule: collect_objects.induct)
  case (3 limit out i items)
  then obtain n where n: "nat limit - length out = Suc n" by (cases "nat limit - length out") auto
  show ?case
  proof (cases "limit \<le> int (length (out @ [stat_of i]))")
    case True
    then have "n = 0" using n by simp
    with True n show ?thesis by (simp add: Let_def)
  next
    case False
    then have "nat limit - length (out @ [stat_of i]) = n" using n by simp
    with False n 3(1) [OF refl False] show ?thesis by (simp add: Let_def)
  qed
qed (auto simp: Let_def take_Cons')

lemma collect_objects_Some:
  assumes "0 < limit" and "collect_objects limit [] items = Some out"
  shows "int (length out) \<le> limit \<and> (\<forall>o1 \<in> set out. \<exists>i. Inr i \<in> set items \<and> o1 = stat_of i)"
proof -
  let ?n = "nat limit"
  from assms collect_objects_take [of "[]" limit items] have no: "\<not> (\<exists>e. Inl e \<in> set (take ?n items))"
    and out: "out = map (stat_of \<circ> projr) (take ?n items)" by (simp_all add: Let_def split: if_splits)
  have "Inr (projr x) \<in> set items" if "x \<in> set (take ?n items)" for x
    using no that in_set_takeD [OF that] by (cases x) auto
  then show ?thesis using assms(1) by (auto simp: out)
qed

lemma list_limit_pos: "0 < list_limit n"
  by (simp add: list_limit_def)

text \<open>MinIO: a listing shows objects that exist, never more than were asked for (1000 when no positive number
  is asked for); an object is reported under the key that was asked for, and as existing exactly when it is
  there.\<close>

lemma minio_listing:
  assumes "minio_laws objs (mp_client p)" and "minio_list_objects p pre n os = Some xs"
  shows "int (length xs) \<le> list_limit n \<and> os_key ` set xs \<subseteq> objs (mp_bucket p) os"
  using collect_objects_Some [OF list_limit_pos assms(2) [unfolded minio_list_objects_def]] assms(1)
  by (fastforce simp: minio_laws_def stat_of_def)

lemma minio_stat_exact:
  assumes "minio_laws objs (mp_client p)" and "minio_stat p k os = Some st"
  shows "os_key st = k \<and> os_exists st = (k \<in> objs (mp_bucket p) os)"
  using assms by (auto simp: minio_stat_def minio_laws_def stat_of_def no_object_def split: sum.splits if_splits)

text \<open>Of OSS only one direction holds: it reports every failed request as a missing object.\<close>

lemma oss_stat_sound:
  assumes "oss_laws objs b" and "oss_stat http_time b k os = Some st"
  shows "os_key st = k \<and> (os_exists st \<longrightarrow> k \<in> objs os)"
  using assms by (auto simp: oss_stat_def oss_laws_def no_object_def split: option.splits)

text \<open>The contract of the file services (\<open>storage_laws\<close>) asks for more: a deletion that fails must not have
  happened. Where the bucket gives that, both providers keep the contract.\<close>

lemma minio_storage_laws:
  assumes laws: "minio_laws objs (mp_client p)"
    and failed: "\<And>k os os'. mi_remove (mp_client p) (mp_bucket p) k os = (os', False) \<Longrightarrow>
      objs (mp_bucket p) os' = objs (mp_bucket p) os"
  shows "storage_laws (objs (mp_bucket p)) (minio_storage p)"
  using failed minio_listing [OF laws] laws unfolding storage_laws_def
  by (simp add: minio_storage_def minio_laws_def)

lemma oss_storage_laws:
  assumes laws: "oss_laws objs b"
    and failed: "\<And>k os os'. oss_delete b k os = (os', False) \<Longrightarrow> objs os' = objs os"
  shows "storage_laws objs (oss_storage http_time b)"
proof -
  have "os_key ` set xs \<subseteq> objs os" if listed: "oss_list_objects b pre n os = Some xs" for pre n os xs
  proof -
    from listed obtain infos where l: "oss_list b pre (list_limit n) os = Some infos" "xs = map stat_of infos"
      by (auto simp: oss_list_objects_def)
    with laws have "ob_key ` set infos \<subseteq> objs os" by (simp add: oss_laws_def)
    then show ?thesis by (auto simp: l(2) stat_of_def)
  qed
  with failed laws show ?thesis unfolding storage_laws_def by (simp add: oss_storage_def oss_laws_def)
qed

end
