(* ===== verification/Config.thy ===== *)
theory Config
  imports GoStrings
begin

section \<open>Configuration and the task pool (config/messaging.go, shared/concurrency/taskpool/pool.go)\<close>

text \<open>
  The settings of Redis and Kafka from the environment, where an unset variable is empty, and the
  process-wide pool of workers over the ants library. \<open>parse_duration\<close> is time.ParseDuration.
\<close>

subsection \<open>Reading variables\<close>

definition env_string :: "(string \<Rightarrow> string) \<Rightarrow> string \<Rightarrow> string \<Rightarrow> string" where
  "env_string env key fallback = (let v = trim_space (env key) in if v \<noteq> [] then v else fallback)"

definition env_parsed :: "(string \<Rightarrow> 'a option) \<Rightarrow> (string \<Rightarrow> string) \<Rightarrow> string \<Rightarrow> 'a \<Rightarrow> 'a" where
  "env_parsed parse env key fallback =
     (let v = trim_space (env key)
      in if v = [] then fallback else (case parse v of None \<Rightarrow> fallback | Some x \<Rightarrow> x))"

definition env_int :: "(string \<Rightarrow> string) \<Rightarrow> string \<Rightarrow> int \<Rightarrow> int" where
  "env_int = env_parsed parse_ok"

text \<open>\<open>strconv.ParseBool\<close>.\<close>

definition parse_bool :: "string \<Rightarrow> bool option" where
  "parse_bool s =
     (if s \<in> {''1'', ''t'', ''T'', ''true'', ''TRUE'', ''True''} then Some True
      else if s \<in> {''0'', ''f'', ''F'', ''false'', ''FALSE'', ''False''} then Some False
      else None)"

definition env_bool :: "(string \<Rightarrow> string) \<Rightarrow> string \<Rightarrow> bool \<Rightarrow> bool" where
  "env_bool = env_parsed parse_bool"

definition env_duration :: "(string \<Rightarrow> int option) \<Rightarrow> (string \<Rightarrow> string) \<Rightarrow> string \<Rightarrow> int \<Rightarrow> int" where
  "env_duration parse_duration = env_parsed parse_duration"

definition default_kafka_broker :: string where
  "default_kafka_broker = ''localhost:9092''"

definition split_non_empty :: "string \<Rightarrow> string list" where
  "split_non_empty v =
     (let brokers = filter (\<lambda>b. b \<noteq> []) (map trim_space (split_on (CHR '','') v))
      in if brokers = [] then [default_kafka_broker] else brokers)"

subsection \<open>The settings\<close>

record redis_config =
  rc_addr :: string
  rc_password :: string
  rc_db :: int
  rc_pool_size :: int
  rc_min_idle :: int
  rc_dial_timeout :: int
  rc_read_timeout :: int
  rc_write_timeout :: int

record kafka_config =
  kc_brokers :: "string list"
  kc_topic :: string
  kc_archiver_group :: string
  kc_producer_async :: bool

record messaging_config =
  mg_redis :: redis_config
  mg_kafka :: kafka_config

definition read_messaging :: "(string \<Rightarrow> int option) \<Rightarrow> (string \<Rightarrow> string) \<Rightarrow> messaging_config" where
  "read_messaging parse_duration env =
     (let brokers = (let b = env_string env ''KAFKA_BROKERS'' []
                     in if b = [] then env_string env ''KAFKA_ADDR'' default_kafka_broker else b)
      in \<lparr>mg_redis = \<lparr>rc_addr = env_string env ''REDIS_ADDR'' ''localhost:6379'', rc_password = env ''REDIS_PASSWORD'',
                      rc_db = env_int env ''REDIS_DB'' 0, rc_pool_size = env_int env ''REDIS_POOL_SIZE'' 0,
                      rc_min_idle = env_int env ''REDIS_MIN_IDLE_CONNS'' 0,
                      rc_dial_timeout = env_duration parse_duration env ''REDIS_DIAL_TIMEOUT'' 5000000000,
                      rc_read_timeout = env_duration parse_duration env ''REDIS_READ_TIMEOUT'' 3000000000,
                      rc_write_timeout = env_duration parse_duration env ''REDIS_WRITE_TIMEOUT'' 3000000000\<rparr>,
          mg_kafka = \<lparr>kc_brokers = split_non_empty brokers, kc_topic = env_string env ''KAFKA_TOPIC'' ''im_chat_messages'',
                      kc_archiver_group = env_string env ''KAFKA_ARCHIVER_GROUP'' ''im_archiver_group'',
                      kc_producer_async = env_bool env ''KAFKA_PRODUCER_ASYNC'' True\<rparr>\<rparr>)"

text \<open>\<open>Messaging\<close>: read at the first call, kept for the later ones.\<close>

definition messaging ::
    "(string \<Rightarrow> int option) \<Rightarrow> (string \<Rightarrow> string) \<Rightarrow> messaging_config option \<Rightarrow> messaging_config option \<times> messaging_config" where
  "messaging parse_duration env once =
     (let c = (case once of None \<Rightarrow> read_messaging parse_duration env | Some c \<Rightarrow> c) in (Some c, c))"

text \<open>There is always a broker, and no broker is blank.\<close>

lemma split_non_empty_usable: "split_non_empty v \<noteq> [] \<and> (\<forall>b \<in> set (split_non_empty v). b \<noteq> [])"
proof (cases "filter (\<lambda>b. b \<noteq> []) (map trim_space (split_on (CHR '','') v)) = []")
  case True
  then show ?thesis by (simp add: split_non_empty_def default_kafka_broker_def)
next
  case False
  then have "split_non_empty v = filter (\<lambda>b. b \<noteq> []) (map trim_space (split_on (CHR '','') v))"
    by (simp add: split_non_empty_def Let_def)
  with False show ?thesis by simp
qed

lemma brokers_usable:
  "kc_brokers (mg_kafka (read_messaging pd env)) \<noteq> [] \<and> (\<forall>b \<in> set (kc_brokers (mg_kafka (read_messaging pd env))). b \<noteq> [])"
  by (simp add: read_messaging_def Let_def split_non_empty_usable)

lemma messaging_fixed:
  "messaging pd env once = (once', c) \<Longrightarrow> messaging pd env' once' = (once', c)"
  by (auto simp: messaging_def Let_def)

text \<open>A malformed value is the default, never an error.\<close>

lemma malformed_is_default: "parse (trim_space (env key)) = None \<Longrightarrow> env_parsed parse env key fallback = fallback"
  by (simp add: env_parsed_def Let_def)

subsection \<open>The task pool\<close>

text \<open>The library's pool is a record of functions over its state \<open>'p\<close>; tasks have the type \<open>'t\<close>.\<close>

record ('t, 'p) ants_pool =
  ap_new :: "int \<Rightarrow> string + 'p"
  ap_submit :: "'t \<Rightarrow> 'p \<Rightarrow> 'p \<times> string option"
  ap_running :: "'p \<Rightarrow> int"
  ap_waiting :: "'p \<Rightarrow> int"
  ap_cap :: "'p \<Rightarrow> int"
  ap_release :: "'p \<Rightarrow> 'p"

definition new_pool :: "('t, 'p) ants_pool \<Rightarrow> int \<Rightarrow> string + 'p" where
  "new_pool a workerSize = ap_new a (if workerSize \<le> 0 then 512 else workerSize)"

text \<open>A pool (\<open>None\<close> for \<open>nil\<close>) and the tasks that were started as goroutines of their own.\<close>

definition pool_submit :: "('t, 'p) ants_pool \<Rightarrow> 't \<Rightarrow> 'p option \<times> 't list \<Rightarrow> ('p option \<times> 't list) \<times> string option" where
  "pool_submit a task st =
     (case fst st of
        None \<Rightarrow> ((None, snd st @ [task]), None)
      | Some p \<Rightarrow> (case ap_submit a task p of (p', e) \<Rightarrow> ((Some p', snd st), e)))"

definition pool_stat :: "('p \<Rightarrow> int) \<Rightarrow> 'p option \<Rightarrow> int" where
  "pool_stat f p = (case p of None \<Rightarrow> 0 | Some x \<Rightarrow> f x)"

definition pool_running :: "('t, 'p) ants_pool \<Rightarrow> 'p option \<Rightarrow> int" where
  "pool_running a = pool_stat (ap_running a)"

definition pool_waiting :: "('t, 'p) ants_pool \<Rightarrow> 'p option \<Rightarrow> int" where
  "pool_waiting a = pool_stat (ap_waiting a)"

definition pool_cap :: "('t, 'p) ants_pool \<Rightarrow> 'p option \<Rightarrow> int" where
  "pool_cap a = pool_stat (ap_cap a)"

definition pool_release :: "('t, 'p) ants_pool \<Rightarrow> 'p option \<Rightarrow> 'p option" where
  "pool_release a = map_option (ap_release a)"

text \<open>\<open>Init\<close> of the process-wide pool: once; an error ends the process (\<open>None\<close>).\<close>

definition pool_init :: "('t, 'p) ants_pool \<Rightarrow> int \<Rightarrow> 'p option \<Rightarrow> 'p option option" where
  "pool_init a workerSize global =
     (case global of
        Some p \<Rightarrow> Some (Some p)
      | None \<Rightarrow> (case new_pool a workerSize of Inl _ \<Rightarrow> None | Inr p \<Rightarrow> Some (Some p)))"

text \<open>\<open>Go\<close> logs a refusal and drops the task.\<close>

definition pool_go :: "('t, 'p) ants_pool \<Rightarrow> 't \<Rightarrow> 'p option \<times> 't list \<Rightarrow> 'p option \<times> 't list" where
  "pool_go a task st = fst (pool_submit a task st)"

lemma submit_without_pool: "pool_submit a task (None, started) = ((None, started @ [task]), None)"
  by (simp add: pool_submit_def)

lemma pool_init_once: "pool_init a n global = Some g \<Longrightarrow> pool_init a m g = Some g \<and> g \<noteq> None"
  by (auto simp: pool_init_def split: option.splits sum.splits)

end
