(* ===== verification/Latency.thy ===== *)
theory Latency
  imports Metrics
begin

section \<open>Latencies of the connection stages (shared/observability/metrics/websocket_pipeline.go)\<close>

text \<open>
  For every stage of opening a WebSocket a window of three buckets, one per second. Readings of the clock
  are Unix seconds that are not negative, so that Go's remainder is \<open>mod\<close>. The Prometheus series of the
  same observations are in Prometheus.thy. \<open>rank p n\<close> is \<open>int(math.Ceil(p*float64(n)))\<close>.
\<close>

record 'f latency_bucket =
  lb_second :: int
  lb_values :: "'f list"

type_synonym 'f stage_window = "'f latency_bucket list"

record 'f latency_percentiles =
  lp_second :: int
  lp_samples :: nat
  lp_p50 :: 'f
  lp_p95 :: 'f
  lp_p99 :: 'f

definition new_stage_window :: "'f stage_window" where
  "new_stage_window = replicate 3 \<lparr>lb_second = 0, lb_values = []\<rparr>"

definition stage_index :: "int \<Rightarrow> nat" where
  "stage_index second = nat (second mod 3)"

definition stage_add :: "int \<Rightarrow> 'f \<Rightarrow> 'f stage_window \<Rightarrow> 'f stage_window" where
  "stage_add second x w =
     (let i = stage_index second;
          b = (if lb_second (w ! i) \<noteq> second then \<lparr>lb_second = second, lb_values = []\<rparr> else w ! i)
      in w[i := b\<lparr>lb_values := lb_values b @ [x]\<rparr>])"

definition percentile_value :: "'f \<Rightarrow> (nat \<Rightarrow> int) \<Rightarrow> 'f list \<Rightarrow> 'f" where
  "percentile_value zero rank xs =
     (if xs = [] then zero
      else (let index = rank (length xs) - 1 in xs ! (if index < 0 then 0 else nat index)))"

definition percentiles_of :: "'f::linorder \<Rightarrow> (string \<Rightarrow> nat \<Rightarrow> int) \<Rightarrow> int \<Rightarrow> 'f list \<Rightarrow> 'f latency_percentiles" where
  "percentiles_of zero rank second xs =
     (let values = sort xs
      in \<lparr>lp_second = second, lp_samples = length values, lp_p50 = percentile_value zero (rank ''0.50'') values,
          lp_p95 = percentile_value zero (rank ''0.95'') values, lp_p99 = percentile_value zero (rank ''0.99'') values\<rparr>)"

definition no_latencies :: "'f \<Rightarrow> 'f latency_percentiles" where
  "no_latencies zero = \<lparr>lp_second = 0, lp_samples = 0, lp_p50 = zero, lp_p95 = zero, lp_p99 = zero\<rparr>"

text \<open>The loop goes down from the current second to the second before the last.\<close>

fun latest_from ::
    "'f::linorder \<Rightarrow> (string \<Rightarrow> nat \<Rightarrow> int) \<Rightarrow> 'f stage_window \<Rightarrow> int list \<Rightarrow> 'f latency_percentiles" where
  "latest_from zero rank w [] = no_latencies zero"
| "latest_from zero rank w (second # older) =
     (let b = w ! stage_index second
      in if lb_second b \<noteq> second \<or> lb_values b = [] then latest_from zero rank w older
         else percentiles_of zero rank second (lb_values b))"

definition stage_latest :: "'f::linorder \<Rightarrow> (string \<Rightarrow> nat \<Rightarrow> int) \<Rightarrow> int \<Rightarrow> 'f stage_window \<Rightarrow> 'f latency_percentiles" where
  "stage_latest zero rank now w = latest_from zero rank w [now, now - 1, now - 2]"

subsection \<open>The stages\<close>

definition ws_pipeline_stages :: "string list" where
  "ws_pipeline_stages = [''auth'', ''membership'', ''upgrade'', ''hub_register'', ''redis_online'', ''ready_total'']"

type_synonym 'f stage_windows = "(string, 'f stage_window) gomap"

definition ws_pipeline_windows :: "'f stage_windows" where
  "ws_pipeline_windows = map (\<lambda>s. (s, new_stage_window)) ws_pipeline_stages"

text \<open>Times in nanoseconds; the window takes whole microseconds, written in milliseconds.\<close>

definition stage_duration :: "int \<Rightarrow> int \<Rightarrow> int" where
  "stage_duration startedAt now = (if now - startedAt < 0 then 0 else now - startedAt)"

definition observe_stage_window ::
    "(int \<Rightarrow> int \<Rightarrow> 'f) \<Rightarrow> string \<Rightarrow> int \<Rightarrow> int \<Rightarrow> 'f stage_windows \<Rightarrow> 'f stage_windows" where
  "observe_stage_window fdiv stage duration now ws =
     (case gm_get ws stage of
        None \<Rightarrow> ws
      | Some w \<Rightarrow> gm_put stage (stage_add (now div 1000000000) (fdiv (duration div 1000) 1000) w) ws)"

record 'f connection_pipeline =
  cp_auth :: "'f latency_percentiles"
  cp_membership :: "'f latency_percentiles"
  cp_upgrade :: "'f latency_percentiles"
  cp_hub_register :: "'f latency_percentiles"
  cp_redis_online :: "'f latency_percentiles"
  cp_ready_total :: "'f latency_percentiles"

definition stage_of :: "'f stage_windows \<Rightarrow> string \<Rightarrow> 'f stage_window" where
  "stage_of ws s = (case gm_get ws s of None \<Rightarrow> new_stage_window | Some w \<Rightarrow> w)"

definition pipeline_snapshot ::
    "'f::linorder \<Rightarrow> (string \<Rightarrow> nat \<Rightarrow> int) \<Rightarrow> int \<Rightarrow> 'f stage_windows \<Rightarrow> 'f connection_pipeline" where
  "pipeline_snapshot zero rank now ws =
     (let latest = (\<lambda>s. stage_latest zero rank now (stage_of ws s))
      in \<lparr>cp_auth = latest ''auth'', cp_membership = latest ''membership'', cp_upgrade = latest ''upgrade'',
          cp_hub_register = latest ''hub_register'', cp_redis_online = latest ''redis_online'',
          cp_ready_total = latest ''ready_total''\<rparr>)"

subsection \<open>What the window shows\<close>

text \<open>
  \<open>hs\<close> are the samples with their seconds, in the order of the clock: the bucket of a remainder holds the
  samples of its latest second.
\<close>

definition values_at :: "(int \<times> 'f) list \<Rightarrow> int \<Rightarrow> 'f list" where
  "values_at hs s = map snd (filter (\<lambda>h. fst h = s) hs)"

definition window_of :: "(int \<times> 'f) list \<Rightarrow> 'f stage_window" where
  "window_of hs = fold (\<lambda>(s, x). stage_add s x) hs new_stage_window"

definition holds_latest :: "(int \<times> 'f) list \<Rightarrow> 'f stage_window \<Rightarrow> bool" where
  "holds_latest hs w \<longleftrightarrow> length w = 3 \<and>
     (\<forall>s. (\<exists>h \<in> set hs. fst h = s) \<and> (\<forall>h \<in> set hs. stage_index (fst h) = stage_index s \<longrightarrow> fst h \<le> s) \<longrightarrow>
        w ! stage_index s = \<lparr>lb_second = s, lb_values = values_at hs s\<rparr>) \<and>
     (\<forall>i < 3. (\<forall>h \<in> set hs. stage_index (fst h) \<noteq> i) \<longrightarrow> w ! i = \<lparr>lb_second = 0, lb_values = []\<rparr>)"

lemma stage_index_less: "stage_index s < 3"
  by (simp add: stage_index_def nat_less_iff)

lemma holds_latestD:
  "holds_latest hs w \<Longrightarrow> s \<in> fst ` set hs \<Longrightarrow> \<forall>h \<in> set hs. stage_index (fst h) = stage_index s \<longrightarrow> fst h \<le> s \<Longrightarrow>
     w ! stage_index s = \<lparr>lb_second = s, lb_values = values_at hs s\<rparr>"
  unfolding holds_latest_def by blast

lemma latest_bucket:
  assumes "holds_latest hs w" and "\<exists>k \<in> set hs. stage_index (fst k) = stage_index s"
  shows "\<exists>m \<in> fst ` set hs. stage_index m = stage_index s \<and> w ! stage_index s = \<lparr>lb_second = m, lb_values = values_at hs m\<rparr>"
proof -
  let ?S = "{k \<in> fst ` set hs. stage_index k = stage_index s}"
  have fin: "finite ?S" "?S \<noteq> {}" using assms(2) by auto
  define m where "m = Max ?S"
  have m: "m \<in> fst ` set hs" "stage_index m = stage_index s" using Max_in [OF fin] by (auto simp: m_def)
  have "\<forall>k \<in> set hs. stage_index (fst k) = stage_index m \<longrightarrow> fst k \<le> m"
    using m(2) Max_ge [OF fin(1)] by (auto simp: m_def)
  from holds_latestD [OF assms(1) m(1) this] m show ?thesis by (intro bexI [of _ m]) simp_all
qed

lemma unused_bucket:
  "holds_latest hs w \<Longrightarrow> \<not> (\<exists>k \<in> set hs. stage_index (fst k) = stage_index s) \<Longrightarrow>
     w ! stage_index s = \<lparr>lb_second = 0, lb_values = []\<rparr>"
  using stage_index_less [of s] by (simp add: holds_latest_def)

text \<open>What the bucket of a second holds once buckets of other seconds are cleared.\<close>

lemma kept_values:
  assumes hs: "holds_latest hs w" and le: "\<forall>k \<in> set hs. fst k \<le> s"
  shows "(if lb_second (w ! stage_index s) \<noteq> s then [] else lb_values (w ! stage_index s)) = values_at hs s"
proof (cases "\<exists>k \<in> set hs. stage_index (fst k) = stage_index s")
  case True
  from latest_bucket [OF hs this] obtain m where m: "m \<in> fst ` set hs" "stage_index m = stage_index s"
    "w ! stage_index s = \<lparr>lb_second = m, lb_values = values_at hs m\<rparr>" by blast
  show ?thesis
  proof (cases "\<exists>k \<in> set hs. fst k = s")
    case True
    then have "s \<in> fst ` set hs" by auto
    from holds_latestD [OF hs this] le show ?thesis by simp
  next
    case False
    with m(1) have "m \<noteq> s" by auto
    moreover from False have "values_at hs s = []" by (auto simp: values_at_def filter_empty_conv)
    ultimately show ?thesis by (simp add: m(3))
  qed
next
  case False
  then have "values_at hs s = []" by (auto simp: values_at_def filter_empty_conv)
  moreover have "lb_values (w ! stage_index s) = []" by (simp add: unused_bucket [OF hs False])
  ultimately show ?thesis by simp
qed

lemma window_of_latest: "sorted (map fst hs) \<Longrightarrow> \<forall>h \<in> set hs. 0 \<le> fst h \<Longrightarrow> holds_latest hs (window_of hs)"
proof (induction hs rule: rev_induct)
  case Nil
  have "replicate 3 b ! i = b" if "i < 3" for b :: "'f latency_bucket" and i using that by (rule nth_replicate)
  then show ?case by (simp add: holds_latest_def window_of_def new_stage_window_def)
next
  case (snoc h hs)
  obtain s x where h: "h = (s, x)" by (cases h)
  define w where "w = window_of hs"
  have w': "window_of (hs @ [h]) = stage_add s x w" by (simp add: window_of_def w_def h)
  have le: "\<forall>k \<in> set hs. fst k \<le> s" using snoc.prems(1) h by (auto simp: sorted_append)
  have IH: "holds_latest hs w" unfolding w_def using snoc by (auto simp: sorted_append)
  then have len: "length w = 3" by (simp add: holds_latest_def)
  note same = kept_values [OF IH le]
  have at_s: "stage_add s x w ! stage_index s = \<lparr>lb_second = s, lb_values = values_at (hs @ [h]) s\<rparr>"
    using same len stage_index_less [of s] by (auto simp: stage_add_def Let_def values_at_def h split: if_splits)
  have other: "stage_add s x w ! i = w ! i" if "i \<noteq> stage_index s" for i using that by (simp add: stage_add_def Let_def)
  have "stage_add s x w ! stage_index t = \<lparr>lb_second = t, lb_values = values_at (hs @ [h]) t\<rparr>"
    if t: "\<exists>k \<in> set (hs @ [h]). fst k = t" "\<forall>k \<in> set (hs @ [h]). stage_index (fst k) = stage_index t \<longrightarrow> fst k \<le> t" for t
  proof (cases "stage_index t = stage_index s")
    case True
    with t le h have "t = s" by (auto intro: antisym)
    with at_s show ?thesis by simp
  next
    case False
    with t h have "\<exists>k \<in> set hs. fst k = t" by auto
    with t(2) IH have "w ! stage_index t = \<lparr>lb_second = t, lb_values = values_at hs t\<rparr>" by (simp add: holds_latest_def)
    moreover have "values_at (hs @ [h]) t = values_at hs t" using False h by (auto simp: values_at_def)
    ultimately show ?thesis using other False by simp
  qed
  moreover have "stage_add s x w ! i = \<lparr>lb_second = 0, lb_values = []\<rparr>"
    if "i < 3" "\<forall>k \<in> set (hs @ [h]). stage_index (fst k) \<noteq> i" for i
    using that other IH h by (auto simp: holds_latest_def)
  moreover have "length (stage_add s x w) = 3" by (simp add: stage_add_def Let_def len)
  ultimately show ?case unfolding w' holds_latest_def by blast
qed

text \<open>A reading within the order of the clock shows the percentiles of exactly the samples of the newest of the
  last three seconds that has any, and zeros when none has.\<close>

lemma bucket_shows:
  assumes sorted: "sorted (map fst hs)" and pos: "\<forall>h \<in> set hs. 0 \<le> fst h" and past: "\<forall>h \<in> set hs. fst h \<le> now"
    and s: "now - 3 < s" "s \<le> now"
  shows "lb_second (window_of hs ! stage_index s) = s \<and> lb_values (window_of hs ! stage_index s) \<noteq> [] \<longleftrightarrow> values_at hs s \<noteq> []"
    and "values_at hs s \<noteq> [] \<Longrightarrow> lb_values (window_of hs ! stage_index s) = values_at hs s"
proof -
  note latest = window_of_latest [OF sorted pos]
  have newest: "fst k \<le> s" if "k \<in> set hs" "stage_index (fst k) = stage_index s" "0 \<le> s" for k
  proof (rule ccontr)
    assume "\<not> fst k \<le> s"
    moreover have "fst k mod 3 = s mod 3" using that(2) by (simp add: stage_index_def)
    then have "3 dvd fst k - s" by (simp add: mod_eq_dvd_iff)
    ultimately have "3 \<le> fst k - s" by (auto intro: zdvd_imp_le)
    then show False using past s that(1) by fastforce
  qed
  have there: "window_of hs ! stage_index s = \<lparr>lb_second = s, lb_values = values_at hs s\<rparr>" if "values_at hs s \<noteq> []"
  proof -
    from that obtain k where k: "k \<in> set hs" "fst k = s" by (auto simp: values_at_def filter_empty_conv)
    then have "\<forall>k \<in> set hs. stage_index (fst k) = stage_index s \<longrightarrow> fst k \<le> s" using newest pos by auto
    with k latest show ?thesis by (auto simp: holds_latest_def)
  qed
  then show "values_at hs s \<noteq> [] \<Longrightarrow> lb_values (window_of hs ! stage_index s) = values_at hs s" by simp
  have "values_at hs s \<noteq> []"
    if b: "lb_second (window_of hs ! stage_index s) = s" "lb_values (window_of hs ! stage_index s) \<noteq> []"
  proof (cases "\<exists>k \<in> set hs. stage_index (fst k) = stage_index s")
    case False
    from unused_bucket [OF latest this] b show ?thesis by simp
  next
    case True
    from latest_bucket [OF latest this] b show ?thesis by auto
  qed
  with there show "lb_second (window_of hs ! stage_index s) = s \<and> lb_values (window_of hs ! stage_index s) \<noteq> [] \<longleftrightarrow>
      values_at hs s \<noteq> []" by auto
qed

lemma latest_shows_newest_second:
  assumes "sorted (map fst hs)" and "\<forall>h \<in> set hs. 0 \<le> fst h" and "\<forall>h \<in> set hs. fst h \<le> now"
  shows "stage_latest zero rank now (window_of hs) =
    (case find (\<lambda>s. values_at hs s \<noteq> []) [now, now - 1, now - 2] of
       None \<Rightarrow> no_latencies zero
     | Some s \<Rightarrow> percentiles_of zero rank s (values_at hs s))"
proof -
  have b: "(lb_second (window_of hs ! stage_index s) \<noteq> s \<or> lb_values (window_of hs ! stage_index s) = []) = (values_at hs s = [])"
    "values_at hs s \<noteq> [] \<Longrightarrow> lb_values (window_of hs ! stage_index s) = values_at hs s" if "s \<in> {now, now - 1, now - 2}" for s
    using bucket_shows [OF assms, of s] that by auto
  have n: "now \<in> {now, now - 1, now - 2}" "now - 1 \<in> {now, now - 1, now - 2}" "now - 2 \<in> {now, now - 1, now - 2}" by simp_all
  show ?thesis
    unfolding stage_latest_def latest_from.simps Let_def b(1) [OF n(1)] b(1) [OF n(2)] b(1) [OF n(3)]
    using b(2) [OF n(1)] b(2) [OF n(2)] b(2) [OF n(3)] by simp
qed

lemma sorted_fewer_below:
  fixes ys :: "'a :: linorder list"
  assumes "sorted ys" and "i < length ys"
  shows "length (filter (\<lambda>x. x < ys ! i) ys) \<le> i"
proof -
  have "ys ! i \<le> x" if "x \<in> set (drop i ys)" for x
  proof -
    from that obtain j where "j < length ys - i" "x = ys ! (i + j)" using assms(2) by (auto simp: in_set_conv_nth)
    then show ?thesis using sorted_nth_mono [OF assms(1), of i "i + j"] by simp
  qed
  then have "filter (\<lambda>x. x < ys ! i) (drop i ys) = []" by (auto simp: filter_empty_conv not_less)
  then have "filter (\<lambda>x. x < ys ! i) ys = filter (\<lambda>x. x < ys ! i) (take i ys)"
    by (metis append_take_drop_id append_Nil2 filter_append)
  also have "length \<dots> \<le> i" using length_filter_le [of _ "take i ys"] by simp
  finally show ?thesis .
qed

text \<open>A percentile is the sample of its rank: it never reads outside the samples, at least as many samples as
  its rank do not exceed it, and fewer are smaller.\<close>

lemma percentile_value_rank:
  fixes zero :: "'f :: linorder"
  assumes rank: "rank (length xs) \<le> int (length xs)" and "xs \<noteq> []"
  defines "v \<equiv> percentile_value zero rank (sort xs)"
  shows "v \<in> set xs" and "rank (length xs) \<le> int (length (filter (\<lambda>x. x \<le> v) xs))"
    and "int (length (filter (\<lambda>x. x < v) xs)) < max 1 (rank (length xs))"
proof -
  let ?ys = "sort xs"
  let ?i = "if rank (length ?ys) - 1 < 0 then 0 else nat (rank (length ?ys) - 1)"
  have i: "?i < length ?ys" using assms(1,2) by (auto simp: nat_less_iff)
  have v: "v = ?ys ! ?i" unfolding v_def using i by (cases "sort xs") (simp_all add: percentile_value_def Let_def)
  show "v \<in> set xs" unfolding v using nth_mem [OF i] by simp
  have same: "length (filter P xs) = length (filter P ?ys)" for P
    by (metis mset_filter mset_sort size_mset)
  have "length (take (Suc ?i) ?ys) \<le> length (filter (\<lambda>x. x \<le> ?ys ! ?i) ?ys)"
  proof -
    have "\<forall>x \<in> set (take (Suc ?i) ?ys). x \<le> ?ys ! ?i"
    proof
      fix x assume "x \<in> set (take (Suc ?i) ?ys)"
      then obtain j where "j \<le> ?i" "x = ?ys ! j" by (auto simp: in_set_conv_nth less_Suc_eq_le)
      then show "x \<le> ?ys ! ?i" using sorted_nth_mono [OF sorted_sort, of j ?i xs] i by simp
    qed
    then have "take (Suc ?i) ?ys = filter (\<lambda>x. x \<le> ?ys ! ?i) (take (Suc ?i) ?ys)" by simp
    then show ?thesis by (metis append_take_drop_id filter_append le_add1 length_append)
  qed
  then show "rank (length xs) \<le> int (length (filter (\<lambda>x. x \<le> v) xs))"
    unfolding v same using i by auto
  show "int (length (filter (\<lambda>x. x < v) xs)) < max 1 (rank (length xs))"
    unfolding v same using sorted_fewer_below [OF sorted_sort i] by (auto split: if_splits)
qed

subsection \<open>What the console shows\<close>

text \<open>Observations are a stage, a duration and the time; \<open>stage_samples\<close> are the seconds and the values of one stage.\<close>

type_synonym stage_observation = "string \<times> int \<times> int"

definition observe_all :: "(int \<Rightarrow> int \<Rightarrow> 'f) \<Rightarrow> stage_observation list \<Rightarrow> 'f stage_windows \<Rightarrow> 'f stage_windows" where
  "observe_all fdiv = fold (\<lambda>(stage, d, t). observe_stage_window fdiv stage d t)"

definition stage_samples :: "(int \<Rightarrow> int \<Rightarrow> 'f) \<Rightarrow> string \<Rightarrow> stage_observation list \<Rightarrow> (int \<times> 'f) list" where
  "stage_samples fdiv stage obs =
     map (\<lambda>(_, d, t). (t div 1000000000, fdiv (d div 1000) 1000)) (filter (\<lambda>ob. fst ob = stage) obs)"

lemma observe_all_stage:
  "gm_get ws stage = Some w \<Longrightarrow>
     gm_get (observe_all fdiv obs ws) stage = Some (fold (\<lambda>(s, x). stage_add s x) (stage_samples fdiv stage obs) w)"
proof (induction obs arbitrary: ws w)
  case (Cons ob obs)
  obtain st d t where ob: "ob = (st, d, t)" by (cases ob)
  let ?w = "if st = stage then stage_add (t div 1000000000) (fdiv (d div 1000) 1000) w else w"
  have "gm_get (observe_stage_window fdiv st d t ws) stage = Some ?w"
    using Cons.prems by (simp add: observe_stage_window_def gm_get_put split: option.split)
  from Cons.IH [OF this] show ?case by (simp add: observe_all_def stage_samples_def ob)
qed (simp add: observe_all_def stage_samples_def)

lemma stage_samples_order:
  assumes "sorted (map (snd \<circ> snd) obs)"
  shows "sorted (map fst (stage_samples fdiv stage obs))"
proof -
  have "sorted (map (\<lambda>ob. snd (snd ob) div (1000000000 :: int)) (filter (\<lambda>ob. fst ob = stage) obs))"
    using assms by (induction obs) (auto simp: zdiv_mono1)
  moreover have "map fst (stage_samples fdiv stage obs) =
      map (\<lambda>ob. snd (snd ob) div 1000000000) (filter (\<lambda>ob. fst ob = stage) obs)"
    by (auto simp: stage_samples_def)
  ultimately show ?thesis by simp
qed

text \<open>The fields of the snapshot with their stages.\<close>

definition snapshot_fields :: "(string \<times> ('f connection_pipeline \<Rightarrow> 'f latency_percentiles)) list" where
  "snapshot_fields =
     [(''auth'', cp_auth), (''membership'', cp_membership), (''upgrade'', cp_upgrade),
      (''hub_register'', cp_hub_register), (''redis_online'', cp_redis_online), (''ready_total'', cp_ready_total)]"

lemma snapshot_field:
  assumes "(stage, shown) \<in> set snapshot_fields"
  shows "shown (pipeline_snapshot zero rank now (observe_all fdiv obs ws_pipeline_windows)) =
    stage_latest zero rank now (window_of (stage_samples fdiv stage obs))"
proof -
  have "gm_get ws_pipeline_windows stage = Some (new_stage_window :: 'a stage_window)"
    using assms by (auto simp: snapshot_fields_def ws_pipeline_windows_def ws_pipeline_stages_def)
  from observe_all_stage [OF this, of fdiv obs]
  have "stage_of (observe_all fdiv obs ws_pipeline_windows) stage = window_of (stage_samples fdiv stage obs)"
    by (simp add: stage_of_def window_of_def)
  then show ?thesis using assms by (auto simp: snapshot_fields_def pipeline_snapshot_def)
qed

text \<open>C38: The console shows of every stage of opening a connection the newest of the current second and the two
  before it that has an observation of that stage, with the number of exactly that second's observations of
  exactly that stage, and zeros when none of the three has one; observations of other stages and of older
  seconds, which share the three buckets, do not show. Each percentile is the sample of its rank: one of
  these observations, with at least as many as the rank not above it and fewer than the rank below it. This
  is when the observations are entered in the order of the clock, which is past 1970 and does not run back
  behind them, and no rank exceeds the number of samples.\<close>

theorem pipeline_shows_newest_second:
  fixes zero :: "'f :: linorder"
  assumes field: "(stage, shown) \<in> set snapshot_fields"
    and clock: "sorted (map (snd \<circ> snd) obs)" "\<forall>ob \<in> set obs. 0 \<le> snd (snd ob) \<and> snd (snd ob) \<le> now"
    and rank: "\<forall>p n. rank p n \<le> int n"
    and r: "r = shown (pipeline_snapshot zero rank (now div 1000000000) (observe_all fdiv obs ws_pipeline_windows))"
    and xs: "xs = (\<lambda>s. map (\<lambda>(_, d, _). fdiv (d div 1000) 1000)
                    (filter (\<lambda>(st, _, t). st = stage \<and> t div 1000000000 = s) obs))"
  shows "case find (\<lambda>s. xs s \<noteq> []) [now div 1000000000, now div 1000000000 - 1, now div 1000000000 - 2] of
      None \<Rightarrow> r = no_latencies zero
    | Some s \<Rightarrow> lp_second r = s \<and> lp_samples r = length (xs s) \<and>
        (\<forall>(p, v) \<in> set [(''0.50'', lp_p50 r), (''0.95'', lp_p95 r), (''0.99'', lp_p99 r)].
           v \<in> set (xs s) \<and> rank p (length (xs s)) \<le> int (length (filter (\<lambda>x. x \<le> v) (xs s))) \<and>
           int (length (filter (\<lambda>x. x < v) (xs s))) < max 1 (rank p (length (xs s))))"
proof -
  let ?hs = "stage_samples fdiv stage obs" and ?now = "now div 1000000000"
  have vals: "values_at ?hs = xs"
  proof
    show "values_at ?hs s = xs s" for s unfolding xs by (induction obs) (auto simp: values_at_def stage_samples_def)
  qed
  have "\<forall>h \<in> set ?hs. 0 \<le> fst h" "\<forall>h \<in> set ?hs. fst h \<le> ?now"
    using clock(2) by (auto simp: stage_samples_def zdiv_mono1 pos_imp_zdiv_nonneg_iff)
  from latest_shows_newest_second [OF stage_samples_order [OF clock(1)] this, of zero rank]
  have shown: "r = (case find (\<lambda>s. xs s \<noteq> []) [?now, ?now - 1, ?now - 2] of
       None \<Rightarrow> no_latencies zero | Some s \<Rightarrow> percentiles_of zero rank s (xs s))"
    unfolding r snapshot_field [OF field] vals .
  show ?thesis
  proof (cases "find (\<lambda>s. xs s \<noteq> []) [?now, ?now - 1, ?now - 2]")
    case None
    with shown show ?thesis by (simp only: option.case)
  next
    case (Some s)
    then have "xs s \<noteq> []" unfolding find_Some_iff by blast
    moreover have "rank p (length (xs s)) \<le> int (length (xs s))" for p using rank by blast
    ultimately have p: "percentile_value zero (rank p) (sort (xs s)) \<in> set (xs s)"
      "rank p (length (xs s)) \<le> int (length (filter (\<lambda>x. x \<le> percentile_value zero (rank p) (sort (xs s))) (xs s)))"
      "int (length (filter (\<lambda>x. x < percentile_value zero (rank p) (sort (xs s))) (xs s))) < max 1 (rank p (length (xs s)))"
      for p using percentile_value_rank [of "rank p" "xs s" zero] by blast+
    from Some shown have "r = percentiles_of zero rank s (xs s)" by (simp only: option.case)
    then show ?thesis unfolding Some using p by (simp add: percentiles_of_def Let_def)
  qed
qed

text \<open>Two logins within a second, of 5 and 3 milliseconds, and an upgrade in the next second.\<close>

lemma pipeline_shows_newest_second_witness:
  "lp_p50 (cp_auth (pipeline_snapshot 0 (\<lambda>_ n. int n) 8
     (observe_all (div) [(''auth'', 5000000, 7000000001), (''auth'', 3000000, 7000000002), (''upgrade'', 9000000, 8000000000)]
        ws_pipeline_windows))) = (5 :: int)"
proof -
  let ?obs = "[(''auth'', 5000000, 7000000001), (''auth'', 3000000, 7000000002), (''upgrade'', 9000000, 8000000000)]
    :: stage_observation list"
  have "(''auth'', cp_auth) \<in> set (snapshot_fields :: (string \<times> (int connection_pipeline \<Rightarrow> _)) list)"
    by (simp add: snapshot_fields_def)
  from pipeline_shows_newest_second [OF this, of ?obs 8000000000 "\<lambda>_ n. int n", OF _ _ _ refl refl, where zero = 0 and fdiv = "(div)"]
  show ?thesis by (auto split: if_splits)
qed

end
