(* ===== verification/Prometheus.thy ===== *)
theory Prometheus
  imports Latency GoStrings
begin

section \<open>Prometheus series (shared/observability/metrics)\<close>

text \<open>
  What the observation functions record: every counter and gauge is a number under its name and the values of
  its labels, every histogram the list of what it observed. The client library is atomic per series. Times
  are in nanoseconds and do not run backwards, \<open>secs\<close> is \<open>Duration.Seconds()\<close>, an error is its text (\<open>None\<close> for \<open>nil\<close>) and
  \<open>lower\<close> is \<open>strings.ToLower\<close>. Registration, help texts and buckets are configuration.
\<close>

subsection \<open>Series\<close>

record 'f registry =
  rg_numbers :: "string list \<Rightarrow> int"
  rg_observed :: "string list \<Rightarrow> 'f list"

definition empty_registry :: "'f registry" where
  "empty_registry = \<lparr>rg_numbers = (\<lambda>_. 0), rg_observed = (\<lambda>_. [])\<rparr>"

definition add_to :: "string list \<Rightarrow> int \<Rightarrow> 'f registry \<Rightarrow> 'f registry" where
  "add_to k n g = g\<lparr>rg_numbers := (rg_numbers g)(k := rg_numbers g k + n)\<rparr>"

definition set_to :: "string list \<Rightarrow> int \<Rightarrow> 'f registry \<Rightarrow> 'f registry" where
  "set_to k n g = g\<lparr>rg_numbers := (rg_numbers g)(k := n)\<rparr>"

definition observe :: "string list \<Rightarrow> 'f \<Rightarrow> 'f registry \<Rightarrow> 'f registry" where
  "observe k x g = g\<lparr>rg_observed := (rg_observed g)(k := rg_observed g k @ [x])\<rparr>"

lemma registry_simps [simp]:
  "rg_numbers (add_to k n g) l = rg_numbers g l + (if l = k then n else 0)"
  "rg_numbers (set_to k n g) l = (if l = k then n else rg_numbers g l)"
  "rg_numbers (observe k x g) l = rg_numbers g l"
  "rg_observed (add_to k n g) = rg_observed g" "rg_observed (set_to k n g) = rg_observed g"
  "rg_observed (observe k x g) l = rg_observed g l @ (if l = k then [x] else [])"
  by (simp_all add: add_to_def set_to_def observe_def)

subsection \<open>Labels (metrics.go)\<close>

fun contains :: "string \<Rightarrow> string \<Rightarrow> bool" where
  "contains [] sub \<longleftrightarrow> sub = []"
| "contains (c # cs) sub \<longleftrightarrow> take (length sub) (c # cs) = sub \<or> contains cs sub"

definition first_non_empty :: "string list \<Rightarrow> string" where
  "first_non_empty values = (case find (\<lambda>v. trim_space v \<noteq> []) values of None \<Rightarrow> [] | Some v \<Rightarrow> v)"

definition metrics_node_id :: "(string \<Rightarrow> string) \<Rightarrow> string" where
  "metrics_node_id env = first_non_empty [env ''NODE_ID'', ''lan-im-node-1'']"

definition status_label :: "string option \<Rightarrow> string" where
  "status_label err = (if err = None then ''success'' else ''error'')"

definition error_label :: "(string \<Rightarrow> string) \<Rightarrow> string option \<Rightarrow> string" where
  "error_label lower err =
     (case err of
        None \<Rightarrow> ''none''
      | Some text \<Rightarrow>
          (let msg = lower text
           in if contains msg ''not found'' then ''not_found''
              else if contains msg ''timeout'' then ''timeout''
              else if contains msg ''deadline exceeded'' then ''deadline''
              else if contains msg ''connection'' then ''connection''
              else if contains msg ''context canceled'' then ''canceled''
              else ''error''))"

definition observe_qdrant_request :: "(string \<Rightarrow> string) \<Rightarrow> (int \<Rightarrow> 'f) \<Rightarrow> string \<Rightarrow> int \<Rightarrow> string option \<Rightarrow> 'f registry \<Rightarrow> 'f registry" where
  "observe_qdrant_request lower secs operation elapsed err g =
     observe [''im_qdrant_request_duration_seconds'', operation] (secs elapsed)
       (add_to [''im_qdrant_requests_total'', operation, status_label err, error_label lower err] 1 g)"

subsection \<open>Logins (auth.go)\<close>

definition observe_login :: "(int \<Rightarrow> 'f) \<Rightarrow> int \<Rightarrow> string \<Rightarrow> 'f registry \<Rightarrow> 'f registry" where
  "observe_login secs elapsed result g =
     observe [''im_auth_login_duration_seconds''] (secs elapsed) (add_to [''im_auth_login_attempts_total'', result] 1 g)"

definition bcrypt_started :: "'f registry \<Rightarrow> 'f registry" where
  "bcrypt_started = add_to [''im_auth_bcrypt_active''] 1"

definition bcrypt_finished :: "'f registry \<Rightarrow> 'f registry" where
  "bcrypt_finished = add_to [''im_auth_bcrypt_active''] (- 1)"

subsection \<open>The hub (hub.go)\<close>

definition set_hub_client_count :: "string \<Rightarrow> int \<Rightarrow> 'f registry \<Rightarrow> 'f registry" where
  "set_hub_client_count node n = set_to [''im_hub_clients_total'', node] n"

definition set_hub_room_count :: "string \<Rightarrow> int \<Rightarrow> 'f registry \<Rightarrow> 'f registry" where
  "set_hub_room_count node n = set_to [''im_hub_rooms_total'', node] n"

definition observe_hub_dispatch :: "string \<Rightarrow> int \<Rightarrow> int \<Rightarrow> 'f registry \<Rightarrow> 'f registry" where
  "observe_hub_dispatch node roomID dispatched =
     add_to [''im_hub_dispatched_messages_total'', node, format_int roomID, ''success''] dispatched"

definition observe_hub_dispatch_latency :: "string \<Rightarrow> int \<Rightarrow> 'f \<Rightarrow> 'f registry \<Rightarrow> 'f registry" where
  "observe_hub_dispatch_latency node roomID seconds = observe [''im_hub_dispatch_latency_seconds'', node, format_int roomID] seconds"

definition observe_hub_queue_drop :: "string \<Rightarrow> int \<Rightarrow> string \<Rightarrow> 'f registry \<Rightarrow> 'f registry" where
  "observe_hub_queue_drop node roomID reason = add_to [''im_hub_queue_drops_total'', node, format_int roomID, reason] 1"

subsection \<open>Kafka (kafka.go)\<close>

definition observe_kafka_produce :: "(int \<Rightarrow> 'f) \<Rightarrow> string \<Rightarrow> int \<Rightarrow> string option \<Rightarrow> 'f registry \<Rightarrow> 'f registry" where
  "observe_kafka_produce secs topic elapsed err g =
     observe [''im_kafka_produce_latency_seconds'', topic] (secs elapsed)
       (add_to [''im_kafka_produce_total'', topic, status_label err] 1 g)"

definition observe_kafka_consume :: "(int \<Rightarrow> 'f) \<Rightarrow> string \<Rightarrow> int \<Rightarrow> string option \<Rightarrow> 'f registry \<Rightarrow> 'f registry" where
  "observe_kafka_consume secs topic elapsed err g =
     observe [''im_kafka_consume_latency_seconds'', topic] (secs elapsed)
       (add_to [''im_kafka_consume_total'', topic, status_label err] 1 g)"

definition observe_kafka_read_error :: "(string \<Rightarrow> string) \<Rightarrow> string \<Rightarrow> string option \<Rightarrow> 'f registry \<Rightarrow> 'f registry" where
  "observe_kafka_read_error lower topic err = add_to [''im_kafka_read_errors_total'', topic, error_label lower err] 1"

definition set_kafka_consumer_lag :: "string \<Rightarrow> int \<Rightarrow> int \<Rightarrow> 'f registry \<Rightarrow> 'f registry" where
  "set_kafka_consumer_lag topic part lag g =
     (if lag < 0 then g else set_to [''im_kafka_consumer_lag'', topic, format_int part] lag g)"

subsection \<open>Databases (mongo.go, db.go)\<close>

definition mongo_command_succeeded :: "(string \<Rightarrow> string) \<Rightarrow> (int \<Rightarrow> 'f) \<Rightarrow> string \<Rightarrow> string \<Rightarrow> int \<Rightarrow> 'f registry \<Rightarrow> 'f registry" where
  "mongo_command_succeeded lower secs dbName name elapsed g =
     (let command = lower name
      in observe [''im_db_command_duration_seconds'', dbName, command] (secs elapsed)
           (add_to [''im_db_command_total'', dbName, command, ''success''] 1 g))"

definition mongo_command_failed ::
    "(string \<Rightarrow> string) \<Rightarrow> (int \<Rightarrow> 'f) \<Rightarrow> string \<Rightarrow> string \<Rightarrow> int \<Rightarrow> string option \<Rightarrow> 'f registry \<Rightarrow> 'f registry" where
  "mongo_command_failed lower secs dbName name elapsed failure g =
     (let command = lower name
      in observe [''im_db_command_duration_seconds'', dbName, command] (secs elapsed)
           (add_to [''im_db_command_errors_total'', dbName, command, error_label lower failure] 1
             (add_to [''im_db_command_total'', dbName, command, ''error''] 1 g)))"

definition table_name :: "string \<Rightarrow> string option \<Rightarrow> string" where
  "table_name statement_table schema_table =
     (if statement_table \<noteq> [] then statement_table
      else (case schema_table of None \<Rightarrow> ''unknown'' | Some t \<Rightarrow> if t \<noteq> [] then t else ''unknown''))"

definition observe_gorm ::
    "(string \<Rightarrow> string) \<Rightarrow> (int \<Rightarrow> 'f) \<Rightarrow> string \<Rightarrow> string \<Rightarrow> string \<Rightarrow> int \<Rightarrow> string option \<Rightarrow> 'f registry \<Rightarrow> 'f registry" where
  "observe_gorm lower secs dbName operation table elapsed err g =
     (let g1 = observe [''im_db_query_duration_seconds'', dbName, operation, table] (secs elapsed)
                 (add_to [''im_db_query_total'', dbName, operation, table, status_label err] 1 g)
      in if err = None then g1
         else add_to [''im_db_query_errors_total'', dbName, operation, error_label lower err] 1 g1)"

text \<open>The callback after an operation; \<open>start\<close> is what the callback before it put into the context, if anything.\<close>

definition gorm_after ::
    "(string \<Rightarrow> string) \<Rightarrow> (int \<Rightarrow> 'f) \<Rightarrow> string \<Rightarrow> string \<Rightarrow> string \<Rightarrow> int option \<Rightarrow> int \<Rightarrow> string option \<Rightarrow> 'f registry \<Rightarrow> 'f registry" where
  "gorm_after lower secs dbName operation table start now err g =
     (case start of None \<Rightarrow> g | Some t \<Rightarrow> observe_gorm lower secs dbName operation table (now - t) err g)"

subsection \<open>Redis (redis.go)\<close>

datatype redis_outcome = RedisOk | RedisNil | RedisError string

definition set_redis_up :: "bool \<Rightarrow> 'f registry \<Rightarrow> 'f registry" where
  "set_redis_up up = set_to [''im_redis_up''] (if up then 1 else 0)"

definition observe_redis_pubsub :: "string \<Rightarrow> string \<Rightarrow> string option \<Rightarrow> 'f registry \<Rightarrow> 'f registry" where
  "observe_redis_pubsub channel action err = add_to [''im_redis_pubsub_total'', channel, action, status_label err] 1"

definition observe_redis_command ::
    "(string \<Rightarrow> string) \<Rightarrow> (int \<Rightarrow> 'f) \<Rightarrow> string \<Rightarrow> int \<Rightarrow> redis_outcome \<Rightarrow> 'f registry \<Rightarrow> 'f registry" where
  "observe_redis_command lower secs operation elapsed out g =
     observe [''im_redis_latency_seconds'', operation] (secs elapsed)
       (case out of
          RedisError e \<Rightarrow>
            add_to [''im_redis_errors_total'', operation, error_label lower (Some e)] 1
              (add_to [''im_redis_ops_total'', operation, ''error''] 1 g)
        | _ \<Rightarrow> add_to [''im_redis_ops_total'', operation, ''success''] 1 g)"

fun first_redis_error :: "redis_outcome list \<Rightarrow> redis_outcome" where
  "first_redis_error [] = RedisOk"
| "first_redis_error (RedisError e # outs) = RedisError e"
| "first_redis_error (_ # outs) = first_redis_error outs"

definition after_process_pipeline ::
    "(string \<Rightarrow> string) \<Rightarrow> (int \<Rightarrow> 'f) \<Rightarrow> int \<Rightarrow> redis_outcome list \<Rightarrow> 'f registry \<Rightarrow> 'f registry" where
  "after_process_pipeline lower secs elapsed outs =
     observe_redis_command lower secs ''pipeline'' elapsed (first_redis_error outs)"

subsection \<open>Connections (websocket.go, websocket_pipeline.go)\<close>

text \<open>These also feed the runtime metrics of Metrics.thy.\<close>

type_synonym 'f observed = "'f registry \<times> 'f runtime_metrics"

definition ws_message_type :: "int \<Rightarrow> string" where
  "ws_message_type t = (if t = 1 then ''text'' else if t = 2 then ''binary'' else ''type_'' @ format_int t)"

definition ws_connected :: "string \<Rightarrow> 'f observed \<Rightarrow> 'f observed" where
  "ws_connected node st = (add_to [''im_ws_connections_active'', node] 1 (fst st), record_ws_connected (snd st))"

definition ws_disconnected :: "(int \<Rightarrow> 'f) \<Rightarrow> string \<Rightarrow> int \<Rightarrow> string \<Rightarrow> 'f observed \<Rightarrow> 'f observed" where
  "ws_disconnected secs node duration closeReason st =
     (let reason = (if closeReason = [] then ''normal'' else closeReason)
      in (observe [''im_ws_connection_duration_seconds'', node, reason] (secs duration)
            (add_to [''im_ws_connections_total'', node, ''success'', reason] 1
               (add_to [''im_ws_connections_active'', node] (- 1) (fst st))),
          record_ws_disconnected (duration div 1000000) (reason \<noteq> ''normal'') (snd st)))"

definition observe_ws_read_message :: "string \<Rightarrow> int \<Rightarrow> int \<Rightarrow> 'f observed \<Rightarrow> 'f observed" where
  "observe_ws_read_message node now t st =
     (add_to [''im_ws_read_messages_total'', node, ws_message_type t] 1 (fst st), record_ws_read now (snd st))"

definition observe_ws_write_message :: "string \<Rightarrow> int \<Rightarrow> int \<Rightarrow> 'f observed \<Rightarrow> 'f observed" where
  "observe_ws_write_message node now t st =
     (add_to [''im_ws_write_messages_total'', node, ws_message_type t] 1 (fst st), record_ws_write now (snd st))"

definition observe_ws_read_error :: "(string \<Rightarrow> string) \<Rightarrow> string \<Rightarrow> string option \<Rightarrow> 'f registry \<Rightarrow> 'f registry" where
  "observe_ws_read_error lower node err = add_to [''im_ws_read_errors_total'', node, error_label lower err] 1"

definition observe_ws_write_error :: "(string \<Rightarrow> string) \<Rightarrow> string \<Rightarrow> string option \<Rightarrow> 'f registry \<Rightarrow> 'f registry" where
  "observe_ws_write_error lower node err = add_to [''im_ws_write_errors_total'', node, error_label lower err] 1"

text \<open>The clock is read again for the window.\<close>

definition observe_ws_connection_stage ::
    "(int \<Rightarrow> int \<Rightarrow> 'f) \<Rightarrow> (int \<Rightarrow> 'f) \<Rightarrow> string \<Rightarrow> string \<Rightarrow> int \<Rightarrow> int \<Rightarrow> int \<Rightarrow> string \<Rightarrow> 'f registry \<times> 'f stage_windows \<Rightarrow>
     'f registry \<times> 'f stage_windows" where
  "observe_ws_connection_stage fdiv secs node stage startedAt now at result st =
     (let duration = stage_duration startedAt now;
          res = (if result = [] then ''success'' else result)
      in (add_to [''im_ws_connection_pipeline_total'', node, stage, res] 1
            (observe [''im_ws_connection_pipeline_duration_seconds'', node, stage, res] (secs duration) (fst st)),
          observe_stage_window fdiv stage duration at (snd st)))"

subsection \<open>The assistant (agent.go)\<close>

definition set_agent_rooms_enabled :: "int \<Rightarrow> 'f registry \<Rightarrow> 'f registry" where
  "set_agent_rooms_enabled n = set_to [''im_agent_rooms_enabled''] n"

definition observe_agent_message_received :: "string \<Rightarrow> int \<Rightarrow> string \<Rightarrow> 'f registry \<Rightarrow> 'f registry" where
  "observe_agent_message_received node roomID source = add_to [''im_agent_messages_received_total'', node, format_int roomID, source] 1"

definition observe_agent_message_triggered :: "string \<Rightarrow> int \<Rightarrow> string \<Rightarrow> 'f registry \<Rightarrow> 'f registry" where
  "observe_agent_message_triggered node roomID trigger = add_to [''im_agent_messages_triggered_total'', node, format_int roomID, trigger] 1"

definition agent_request_started :: "string \<Rightarrow> int \<Rightarrow> 'f registry \<times> 'f agent_metrics \<Rightarrow> 'f registry \<times> 'f agent_metrics" where
  "agent_request_started node roomID st =
     (add_to [''im_agent_inflight_requests'', node, format_int roomID] 1 (fst st), record_agent_started (snd st))"

definition agent_request_finished ::
    "(string \<Rightarrow> string) \<Rightarrow> (int \<Rightarrow> int \<Rightarrow> 'f) \<Rightarrow> (int \<Rightarrow> 'f) \<Rightarrow> string \<Rightarrow> int \<Rightarrow> string \<Rightarrow> string \<Rightarrow> int \<Rightarrow> int \<Rightarrow> string option \<Rightarrow>
     'f registry \<times> 'f agent_metrics \<Rightarrow> 'f registry \<times> 'f agent_metrics" where
  "agent_request_finished lower fdiv secs node roomID model status start now err st =
     (let g = observe [''im_agent_reply_latency_seconds'', node, model, format_int roomID] (secs (now - start))
                (add_to [''im_agent_processed_total'', node, model, status] 1
                   (add_to [''im_agent_inflight_requests'', node, format_int roomID] (- 1) (fst st)));
          g1 = (if err = None then g else add_to [''im_agent_errors_total'', node, error_label lower err] 1 g)
      in (g1, record_agent_finished fdiv model (''agent-'' @ format_int roomID @ ''-'' @ format_int start)
                now ((now - start) div 1000) (map_option (\<lambda>e. error_label lower (Some e)) err) (snd st)))"

subsection \<open>What the series count\<close>

text \<open>Every Redis command is counted once, as a success or as an error, and every error under one label; an absent
  key is a success.\<close>

definition redis_run ::
    "(string \<Rightarrow> string) \<Rightarrow> (int \<Rightarrow> 'f) \<Rightarrow> (string \<times> int \<times> redis_outcome) list \<Rightarrow> 'f registry \<Rightarrow> 'f registry" where
  "redis_run lower secs = fold (\<lambda>(operation, elapsed, out). observe_redis_command lower secs operation elapsed out)"

lemma redis_commands_counted:
  "rg_numbers (redis_run lower secs cmds g) [''im_redis_ops_total'', op, ''success''] =
      rg_numbers g [''im_redis_ops_total'', op, ''success''] +
      int (length (filter (\<lambda>(o1, _, out). o1 = op \<and> (out = RedisOk \<or> out = RedisNil)) cmds))"
  "rg_numbers (redis_run lower secs cmds g) [''im_redis_ops_total'', op, ''error''] =
      rg_numbers g [''im_redis_ops_total'', op, ''error''] +
      int (length (filter (\<lambda>(o1, _, out). o1 = op \<and> \<not> (out = RedisOk \<or> out = RedisNil)) cmds))"
  "length (rg_observed (redis_run lower secs cmds g) [''im_redis_latency_seconds'', op]) =
      length (rg_observed g [''im_redis_latency_seconds'', op]) + length (filter (\<lambda>(o1, _, _). o1 = op) cmds)"
  unfolding redis_run_def
  by (induction cmds arbitrary: g) (auto simp: observe_redis_command_def split: redis_outcome.splits if_splits)

text \<open>A pipeline counts as failed exactly when one of its commands failed.\<close>

lemma first_redis_error_ok: "(\<exists>e. first_redis_error outs = RedisError e) \<longleftrightarrow> (\<exists>e. RedisError e \<in> set outs)"
  by (induction outs rule: first_redis_error.induct) auto

text \<open>
  The gauge of active connections is the difference of the openings and the closings; the runtime counter,
  which is set to 0 when it would fall below, agrees with it as long as no closing comes without its opening.
\<close>

definition ws_event :: "(int \<Rightarrow> 'f) \<Rightarrow> string \<Rightarrow> (int \<times> string) option \<Rightarrow> 'f observed \<Rightarrow> 'f observed" where
  "ws_event secs node ev = (case ev of None \<Rightarrow> ws_connected node | Some (duration, reason) \<Rightarrow> ws_disconnected secs node duration reason)"

lemma ws_event_counts:
  "rg_numbers (fst (ws_event secs node ev st)) [''im_ws_connections_active'', node] =
     rg_numbers (fst st) [''im_ws_connections_active'', node] + (if ev = None then 1 else - 1)"
  "mt_ws_current (snd (ws_event secs node ev st)) =
     (if ev = None then mt_ws_current (snd st) + 1 else max 0 (mt_ws_current (snd st) - 1))"
  by (auto simp: ws_event_def ws_connected_def ws_disconnected_def record_ws_connected_def record_ws_disconnected_def Let_def
      split: option.split prod.split)

lemma ws_gauge_matches_counter:
  assumes "rg_numbers (fst st) [''im_ws_connections_active'', node] = mt_ws_current (snd st)"
    and "\<forall>n \<le> length evs. 0 \<le> mt_ws_current (snd st) + sum_list (map (\<lambda>ev. if ev = None then 1 else - 1) (take n evs))"
  shows "rg_numbers (fst (fold (ws_event secs node) evs st)) [''im_ws_connections_active'', node] =
      mt_ws_current (snd (fold (ws_event secs node) evs st)) \<and>
    mt_ws_current (snd (fold (ws_event secs node) evs st)) =
      mt_ws_current (snd st) + sum_list (map (\<lambda>ev. if ev = None then 1 else - 1) evs)"
  using assms
proof (induction evs arbitrary: st)
  case (Cons ev evs)
  let ?st = "ws_event secs node ev st"
  have "0 \<le> mt_ws_current (snd st) + (if ev = None then 1 else - 1)" using Cons.prems(2) [rule_format, of 1] by simp
  then have cur: "mt_ws_current (snd ?st) = mt_ws_current (snd st) + (if ev = None then 1 else - 1)"
    by (cases ev) (simp_all add: ws_event_counts)
  have "\<forall>n \<le> length evs. 0 \<le> mt_ws_current (snd ?st) + sum_list (map (\<lambda>ev. if ev = None then 1 else - 1) (take n evs))"
  proof (intro allI impI)
    fix n assume "n \<le> length evs"
    then show "0 \<le> mt_ws_current (snd ?st) + sum_list (map (\<lambda>ev. if ev = None then 1 else - 1) (take n evs))"
      using Cons.prems(2) [rule_format, of "Suc n"] by (simp add: cur add.assoc)
  qed
  moreover have "rg_numbers (fst ?st) [''im_ws_connections_active'', node] = mt_ws_current (snd ?st)"
    using Cons.prems(1) by (simp add: ws_event_counts(1) cur)
  ultimately show ?case using Cons.IH [of ?st] by (simp add: cur)
qed simp

text \<open>The shown lag is never negative.\<close>

lemma lag_not_negative:
  "0 \<le> rg_numbers g [''im_kafka_consumer_lag'', t, format_int p] \<Longrightarrow>
     0 \<le> rg_numbers (set_kafka_consumer_lag t p lag g) [''im_kafka_consumer_lag'', t, format_int p]"
  by (simp add: set_kafka_consumer_lag_def)

text \<open>A row that is not found counts as an error of the database, whereas Redis' absent key does not.\<close>

lemma missing_row_is_error:
  assumes "lower ''record not found'' = ''record not found''"
  shows "rg_numbers (observe_gorm lower secs db op tab t (Some ''record not found'') g) [''im_db_query_errors_total'', db, op, ''not_found''] =
    rg_numbers g [''im_db_query_errors_total'', db, op, ''not_found''] + 1"
  by (simp add: observe_gorm_def Let_def error_label_def assms)

end
