(* ===== verification/Spec2Isabelle.thy ===== *)
theory Spec2Isabelle
  imports Envelope HubSystem Pipeline RoomRuntime RoomProps LoginProtector MsgId MessageRepo
    Presence ChatHistory Archiver Auth WsEndpoint Metrics AdminControl AdminRooms RoomApi Moderation AdminLogs RateLimit
    MongoReads MongoBatch StatsAgree Gateway ImServer ObjectStorage
    Config Prometheus
begin

text \<open>
  A verification library for the Go part of a LAN instant-messaging system.

  The program. Browsers hold WebSocket connections to a gateway. A frame a client sends is stamped with
  the sender's identity and produced to Kafka and to a Redis channel; every gateway node listens on the
  channels and hands each message to its hub, whose shards deliver it to the connections subscribed to
  the room. An archiver consumes Kafka, gives each message an id, stores batches in MySQL and refills
  the per-room list of latest messages in Redis, from which the history endpoint serves first pages. The
  room service changes memberships in MySQL and tells the hub, directly or through Redis events. The
  admin console acts on users, rooms and connections, directly or over gRPC, under a role system, and
  writes audit rows.

  Modelling conventions. Strings are byte strings; Go integers are \<open>int\<close> with their width's range or
  wrap-around written out (\<open>Prelude\<close>), or \<open>word\<close> where bits are used; pointers to clients are addresses
  into a heap in the hub's record; Go maps are association lists, so iteration order is explicit; a
  panic is \<open>None\<close>; errors are constructors of a result sum. What a mutex or a single Redis or SQL call
  makes atomic is one step, and concurrency is the sequence of such steps; choices of the scheduler and
  the environment (map order, goroutine order, outcome of a network call, clock readings) are arguments
  the theorems quantify over. Libraries and services outside the repository (gorm and MySQL, Redis,
  Kafka, MongoDB, Elasticsearch, MinIO and OSS, protobuf, JWT, bcrypt, gRPC, the time and Unicode tables) are records of functions given as
  arguments, with named predicates of documented laws (\<open>table_laws\<close>, \<open>redis_laws\<close>, \<open>jwt_laws\<close> and the
  like) as hypotheses; \<open>SampleDb\<close>, \<open>AdminSample\<close> and the sample Redis instantiate them, and each
  property has a witness on a concrete input. Go's own JSON, strconv, strings and path functions are
  modelled as executable definitions. Where a column of MySQL keeps less than the value it is given
  (milliseconds of a time, two decimals of a number), what it keeps is a parameter or left open by the laws
  of its table in the theories whose properties depend on it (\<open>MessageRepo\<close>, \<open>AgentConfig\<close>, \<open>AdminLogs\<close>).
  Logging and metric calls are left out of the components.

  Theories.
  \<^item> \<open>Prelude\<close>, \<open>GoStrings\<close>, \<open>Json\<close>, \<open>Http\<close>: integer widths, maps, channels (locale \<open>bounded_queue\<close>),
    string conversion, the JSON encoder and decoder with their round trip, HTTP replies.
  \<^item> \<open>Message\<close>, \<open>Envelope\<close>: models/message.go and contracts/events/message.go; round trip.
  \<^item> \<open>HubState\<close>, \<open>Hub\<close>, \<open>HubInv\<close>, \<open>HubDispatch\<close>, \<open>HubSystem\<close>: services/gateway/websocket/hub.go and
    the client's channel from client.go: state, operations, the invariant and the refinement of an
    unsharded abstract hub, delivery, reachable states and the properties of whole runs.
  \<^item> \<open>Pipeline\<close>, \<open>RoomRuntime\<close>, \<open>WsEndpoint\<close>: the pumps (client.go), the Kafka producer
    (services/messages/producer), the listeners (hub.go, room_events.go), the notifiers of the room
    service (services/rooms/events; locale \<open>room_runtime\<close>) and the session of ws_handler.go.
  \<^item> \<open>Gorm\<close>, \<open>SampleDb\<close>, \<open>RoomRepo\<close>, \<open>MessageRepo\<close>: the database interface and the repositories of
    repository/*.go and services/messages/api/mysql_repository.go.
  \<^item> \<open>RoomService\<close>, \<open>RoomProps\<close>, \<open>RoomApi\<close>: services/rooms/application/service.go and api/module.go;
    authorisation, and agreement of memberships with the hub's subscriptions.
  \<^item> \<open>Files\<close>, \<open>FileProps\<close>: upload registration and downloads (services/messages/application/file_service.go,
    api/file_handler.go): whose objects a user can register, who gets a link.
  \<^item> \<open>Redis\<close>, \<open>Presence\<close>, \<open>RoomCache\<close>, \<open>ChatHistory\<close>: cache/redisconfig.go (online state with
    ownership scripts, latest messages) and services/messages/api/history_handler.go.
  \<^item> \<open>MsgId\<close>, \<open>Archiver\<close>: services/messages/archiver/worker-kafka.go: ids, the consumer loop, storing
    tasks and offsets.
  \<^item> \<open>LoginProtector\<close>, \<open>Auth\<close>, \<open>Rbac\<close>: login limits, tokens, logins and registration, roles, guards of
    every admin route.
  \<^item> \<open>Metrics\<close>: shared/observability/metrics/runtime.go and agent_runtime.go.
  \<^item> \<open>AdminControl\<close>, \<open>AdminStore\<close>, \<open>AdminSample\<close>, \<open>AdminUsers\<close>, \<open>AdminRooms\<close>: the control plane with
    its local and remote controller (locale \<open>admin_runtime\<close>), the audit log, user and room
    administration (services/admin).
  \<^item> \<open>AdminFiles\<close>, \<open>AgentConfig\<close>, \<open>Moderation\<close>, \<open>Redaction\<close>, \<open>AdminLogs\<close>, \<open>RateLimit\<close>: file administration,
    the agent's configuration with its history, moderation events, the error center and the logs of the
    console (services/admin/application, services/admin/api), and the middleware of
    shared/http/middleware/error_recorder.go and security.go.
  \<^item> \<open>Mongo\<close>, \<open>MongoRepo\<close>, \<open>MongoReads\<close>, \<open>MongoBatch\<close>: services/messages/api/mongo_repository.go over an
    abstract collection whose filters are data: equivalence of its reads with the MySQL repository's,
    and repeatable batches.
  \<^item> \<open>MessageStats\<close>, \<open>StatsAgree\<close>: services/admin/application/message_stats.go, the MySQL and the MongoDB
    statistics: the counts on which they agree, and the tables by key that MySQL refuses.
  \<^item> \<open>Search\<close>, \<open>ImServer\<close>, \<open>Gateway\<close>, \<open>ObjectStorage\<close>: the Elasticsearch index with the search handler,
    the gRPC server of services/gateway/grpc/server.go, the route table of services/gateway/http/router.go
    with the dispatch to the handlers, and the MinIO and OSS providers of services/messages/storage.
  \<^item> \<open>Latency\<close>, \<open>Prometheus\<close>, \<open>Config\<close>: the latency windows with the percentiles that the console shows,
    and the observing functions, of shared/observability/metrics, config/messaging.go and shared/concurrency/taskpool/pool.go.

  Bounds and fuel. The only loops that may not end are the wait for the next millisecond in \<open>next_id\<close>
  and the archiver's consumer; they consume an explicit list of clock readings (and of events), and
  \<open>next_id_returns\<close> shows that one reading past the last millisecond is enough. The JSON scanner recurses
  on the input's length and keeps Go's nesting limit of 10000. All other definitions are total without
  fuel.

  Not modelled: start-up wiring (main.go, infrastructure, config/kafka.go, config/redis.go, the mains of
  the services and services/admin/api/module.go), which constructs the parts and blocks on servers; the
  registration of the Prometheus series and their buckets; generated protobuf code; the Python agent and
  the front end, which are not Go.
\<close>

end
